(* ===== verification/Ganesha_Prelude.thy ===== *)
theory Ganesha_Prelude
  imports Main "HOL-Library.Word" "HOL-Library.Monad_Syntax"
begin

text \<open>
  Shared vocabulary of the development: the C scalar types the sources use, the FSAL error codes,
  file types, the abort discipline and the generic lemmas about lists, options and words that the
  component theories rely on.

  Abort discipline.  A C function that may end the process (an \<open>assert\<close>, a \<open>LogFatal\<close>, a
  dereferenced null pointer) is a function into \<open>option\<close>: \<open>None\<close> is the process being gone,
  \<open>Some (r, w)\<close> a normal return of \<open>r\<close> in the world \<open>w\<close>.  Ordinary error codes are values
  of the result \<open>r\<close>.
\<close>

section \<open>Scalar types and byte strings\<close>

type_synonym bytes = "char list"
type_synonym u32 = "32 word"
type_synonym u64 = "64 word"

text \<open>\<open>UINT64_MAX\<close>.\<close>
abbreviation UINT64_MAX :: u64 where
  "UINT64_MAX \<equiv> - 1"

section \<open>Proof collections\<close>

named_theorems abort_simps \<open>unfolding rules for computations that may abort\<close>
named_theorems frame_simps \<open>fields of the world that an operation leaves alone\<close>

lemma bind_Some_iff [abort_simps]:
  "(Option.bind m f = Some y) \<longleftrightarrow> (\<exists>x. m = Some x \<and> f x = Some y)"
  by (cases m) auto

lemma bind_None_iff [abort_simps]:
  "(Option.bind m f = None) \<longleftrightarrow> m = None \<or> (\<exists>x. m = Some x \<and> f x = None)"
  by (cases m) auto

text \<open>The C \<open>assert\<close>: nothing happens when the condition holds, the process ends otherwise.\<close>
definition c_assert :: "bool \<Rightarrow> unit option" where
  "c_assert b = (if b then Some () else None)"

lemma c_assert_Some [simp]: "c_assert b = Some u \<longleftrightarrow> b"
  by (simp add: c_assert_def)

lemma c_assert_None [simp]: "c_assert b = None \<longleftrightarrow> \<not> b"
  by (simp add: c_assert_def)

lemma c_assert_True [simp]: "c_assert True = Some ()"
  by (simp add: c_assert_def)

lemma bind_c_assert [simp]:
  "Option.bind (c_assert b) f = (if b then f () else None)"
  by (simp add: c_assert_def)

text \<open>What holds of the result of a computation that does not abort.  The rules follow the syntax of the
  computation; the postcondition of the first part of a sequence comes from a rule for that part.\<close>
definition returns :: "'a option \<Rightarrow> ('a \<Rightarrow> bool) \<Rightarrow> bool" where
  "returns m P \<longleftrightarrow> (\<forall>x. m = Some x \<longrightarrow> P x)"

named_theorems returns_cases \<open>rules for the result of a computation, by its form\<close>

lemma returnsD: "returns m P \<Longrightarrow> m = Some x \<Longrightarrow> P x"
  by (simp add: returns_def)

lemma returns_Some [returns_cases]: "P x \<Longrightarrow> returns (Some x) P"
  by (simp add: returns_def)

lemma returns_None [returns_cases]: "returns None P"
  by (simp add: returns_def)

lemma returns_bind:
  "returns m Q \<Longrightarrow> (\<And>x. m = Some x \<Longrightarrow> Q x \<Longrightarrow> returns (f x) P) \<Longrightarrow> returns (Option.bind m f) P"
  by (auto simp: returns_def abort_simps)

lemma returns_map: "returns m Q \<Longrightarrow> (\<And>x. Q x \<Longrightarrow> P (g x)) \<Longrightarrow> returns (map_option g m) P"
  by (auto simp: returns_def)

lemma returns_if [returns_cases]:
  "(b \<Longrightarrow> returns m P) \<Longrightarrow> (\<not> b \<Longrightarrow> returns n P) \<Longrightarrow> returns (if b then m else n) P"
  by simp

lemma returns_case_option [returns_cases]:
  "(x = None \<Longrightarrow> returns m P) \<Longrightarrow> (\<And>a. x = Some a \<Longrightarrow> returns (f a) P) \<Longrightarrow>
    returns (case x of None \<Rightarrow> m | Some a \<Rightarrow> f a) P"
  by (simp split: option.split)

lemma returns_case_sum [returns_cases]:
  "(\<And>a. x = Inl a \<Longrightarrow> returns (f a) P) \<Longrightarrow> (\<And>b. x = Inr b \<Longrightarrow> returns (g b) P) \<Longrightarrow>
    returns (case x of Inl a \<Rightarrow> f a | Inr b \<Rightarrow> g b) P"
  by (simp split: sum.split)

lemma returns_case_prod [returns_cases]:
  "(\<And>a b. x = (a, b) \<Longrightarrow> returns (f a b) P) \<Longrightarrow> returns (case x of (a, b) \<Rightarrow> f a b) P"
  by (simp split: prod.split)

lemma returns_case_prod_app [returns_cases]:
  "(\<And>a b. x = (a, b) \<Longrightarrow> returns (f a b y) P) \<Longrightarrow> returns ((case x of (a, b) \<Rightarrow> f a b) y) P"
  by (simp split: prod.split)

text \<open>A value that is only read.\<close>
lemma returns_read: "(\<And>x. m = Some x \<Longrightarrow> returns (f x) P) \<Longrightarrow> returns (Option.bind m f) P"
  by (auto simp: returns_def abort_simps)

section \<open>FSAL error codes and object types\<close>

datatype fsal_errors_t =
    ERR_FSAL_NO_ERROR | ERR_FSAL_PERM | ERR_FSAL_NOENT | ERR_FSAL_IO | ERR_FSAL_NXIO
  | ERR_FSAL_NOMEM | ERR_FSAL_ACCESS | ERR_FSAL_FAULT | ERR_FSAL_EXIST | ERR_FSAL_XDEV
  | ERR_FSAL_NOTDIR | ERR_FSAL_ISDIR | ERR_FSAL_INVAL | ERR_FSAL_FBIG | ERR_FSAL_NOSPC
  | ERR_FSAL_ROFS | ERR_FSAL_MLINK | ERR_FSAL_DQUOT | ERR_FSAL_NO_DATA
  | ERR_FSAL_NAMETOOLONG | ERR_FSAL_NOTEMPTY | ERR_FSAL_STALE | ERR_FSAL_BADHANDLE
  | ERR_FSAL_BADCOOKIE | ERR_FSAL_NOTSUPP | ERR_FSAL_TOOSMALL | ERR_FSAL_SERVERFAULT
  | ERR_FSAL_BADTYPE | ERR_FSAL_DELAY | ERR_FSAL_LOCKED | ERR_FSAL_FHEXPIRED
  | ERR_FSAL_SHARE_DENIED | ERR_FSAL_SYMLINK | ERR_FSAL_ATTRNOTSUPP | ERR_FSAL_BAD_RANGE
  | ERR_FSAL_NOT_INIT | ERR_FSAL_ALREADY_INIT | ERR_FSAL_BAD_INIT | ERR_FSAL_SEC
  | ERR_FSAL_NO_QUOTA | ERR_FSAL_NOT_OPENED | ERR_FSAL_DEADLOCK | ERR_FSAL_OVERFLOW
  | ERR_FSAL_INTERRUPT | ERR_FSAL_BLOCKED | ERR_FSAL_TIMEOUT | ERR_FSAL_FILE_OPEN
  | ERR_FSAL_UNION_NOTSUPP | ERR_FSAL_IN_GRACE | ERR_FSAL_NO_ACE | ERR_FSAL_CROSS_JUNCTION
  | ERR_FSAL_BADNAME

abbreviation FSAL_IS_SUCCESS :: "fsal_errors_t \<Rightarrow> bool" where
  "FSAL_IS_SUCCESS st \<equiv> st = ERR_FSAL_NO_ERROR"

abbreviation FSAL_IS_ERROR :: "fsal_errors_t \<Rightarrow> bool" where
  "FSAL_IS_ERROR st \<equiv> st \<noteq> ERR_FSAL_NO_ERROR"

datatype object_file_type_t =
    NO_FILE_TYPE | REGULAR_FILE | CHARACTER_FILE | BLOCK_FILE | SYMBOLIC_LINK
  | SOCKET_FILE | FIFO_FILE | DIRECTORY | EXTENDED_ATTR

section \<open>Lists\<close>

text \<open>A bounded array slot holds a value once it has been written.\<close>
lemma map_the_map_Some [simp]: "map the (map Some xs) = xs"
  by (induction xs) auto

lemma nth_Some_take_snoc:
  assumes "n < length xs"
  shows "take (Suc n) (xs[n := x]) = take n xs @ [x]"
  using assms by (simp add: take_Suc_conv_app_nth)

section \<open>C library: memcmp and decimal printing\<close>

text \<open>\<open>memcmp\<close> over two buffers.  The sources only test the result against zero, so every difference
  is 1.\<close>
definition memcmp :: "bytes \<Rightarrow> bytes \<Rightarrow> nat \<Rightarrow> int" where
  "memcmp a b n = (if take n a = take n b then 0 else 1)"

lemma memcmp_zero_length [simp]: "memcmp a b 0 = 0"
  by (simp add: memcmp_def)

lemma memcmp_eq [simp]:
  "length a = n \<Longrightarrow> length b = n \<Longrightarrow> memcmp a b n = 0 \<longleftrightarrow> a = b"
  by (auto simp: memcmp_def)

text \<open>The decimal digits that \<open>printf\<close> writes for an unsigned number.\<close>
fun dec :: "nat \<Rightarrow> string" where
  "dec n = (if n < 10 then [char_of (48 + n)] else dec (n div 10) @ [char_of (48 + n mod 10)])"

declare dec.simps [simp del]

lemma dec_small: "n < 10 \<Longrightarrow> dec n = [char_of (48 + n)]"
  by (simp add: dec.simps)

lemma dec_big: "\<not> n < 10 \<Longrightarrow> dec n = dec (n div 10) @ [char_of (48 + n mod 10)]"
  by (subst dec.simps) simp

lemma dec_nonempty [simp]: "dec n \<noteq> []"
  by (subst dec.simps) simp

lemma length_dec: "n < 10 ^ k \<Longrightarrow> 0 < k \<Longrightarrow> length (dec n) \<le> k"
proof (induction k arbitrary: n)
  case 0
  then show ?case by simp
next
  case (Suc k)
  show ?case
  proof (cases "n < 10")
    case True
    then show ?thesis by (simp add: dec_small)
  next
    case False
    then have "0 < k" using Suc.prems(1) by (cases k) auto
    moreover have "n div 10 < 10 ^ k" using Suc.prems(1) by (simp add: less_mult_imp_div_less)
    ultimately show ?thesis using Suc.IH False by (simp add: dec_big)
  qed
qed

lemma digit_inj:
  fixes a b :: nat
  assumes "a < 10" and "b < 10" and "char_of (48 + a) = (char_of (48 + b) :: char)"
  shows "a = b"
proof -
  have "of_char (char_of (48 + a) :: char) = (of_char (char_of (48 + b) :: char) :: nat)"
    using assms(3) by simp
  then show ?thesis using assms(1,2) by simp
qed

lemma length_dec_1: "length (dec n) = 1 \<longleftrightarrow> n < 10"
  by (cases "n < 10") (simp_all add: dec_small dec_big)

lemma dec_inj: "dec m = dec n \<Longrightarrow> m = n"
proof (induction m arbitrary: n rule: dec.induct)
  case (1 m)
  show ?case
  proof (cases "m < 10")
    case True
    then have "n < 10" using 1(2) length_dec_1 by metis
    with True 1(2) show ?thesis by (auto simp: dec_small dest: digit_inj)
  next
    case False
    then have "\<not> n < 10" using 1(2) length_dec_1 by metis
    with False 1(2) have "dec (m div 10) = dec (n div 10)"
      and "char_of (48 + m mod 10) = (char_of (48 + n mod 10) :: char)"
      by (simp_all add: dec_big)
    then have "m div 10 = n div 10" "m mod 10 = n mod 10"
      using 1(1) [OF False] digit_inj by simp_all
    then show ?thesis by (metis div_mult_mod_eq)
  qed
qed

end
