(* ===== verification/Nfs4_Types.thy ===== *)
theory Nfs4_Types
  imports Ganesha_Prelude
begin

text \<open>
  The part of the NFSv4 protocol data (\<open>include/nfsv41.h\<close>) that the modelled code looks at:
  operation numbers, status codes, and the arguments and results of a compound.  The argument union
  \<open>nfs_argop4\<close> is a datatype with a constructor for every operation whose arguments are read by the
  modelled code, and \<open>ARG_OTHER\<close> for the rest.
\<close>

type_synonym nfs_opnum4 = int
type_synonym nfsstat4 = int

abbreviation NFS4_OP_ACCESS :: nfs_opnum4 where "NFS4_OP_ACCESS \<equiv> 3"
abbreviation NFS4_OP_CLOSE :: nfs_opnum4 where "NFS4_OP_CLOSE \<equiv> 4"
abbreviation NFS4_OP_CREATE :: nfs_opnum4 where "NFS4_OP_CREATE \<equiv> 6"
abbreviation NFS4_OP_GETATTR :: nfs_opnum4 where "NFS4_OP_GETATTR \<equiv> 9"
abbreviation NFS4_OP_GETFH :: nfs_opnum4 where "NFS4_OP_GETFH \<equiv> 10"
abbreviation NFS4_OP_LINK :: nfs_opnum4 where "NFS4_OP_LINK \<equiv> 11"
abbreviation NFS4_OP_LOOKUP :: nfs_opnum4 where "NFS4_OP_LOOKUP \<equiv> 15"
abbreviation NFS4_OP_LOOKUPP :: nfs_opnum4 where "NFS4_OP_LOOKUPP \<equiv> 16"
abbreviation NFS4_OP_OPEN :: nfs_opnum4 where "NFS4_OP_OPEN \<equiv> 18"
abbreviation NFS4_OP_PUTFH :: nfs_opnum4 where "NFS4_OP_PUTFH \<equiv> 22"
abbreviation NFS4_OP_PUTROOTFH :: nfs_opnum4 where "NFS4_OP_PUTROOTFH \<equiv> 24"
abbreviation NFS4_OP_READ :: nfs_opnum4 where "NFS4_OP_READ \<equiv> 25"
abbreviation NFS4_OP_READDIR :: nfs_opnum4 where "NFS4_OP_READDIR \<equiv> 26"
abbreviation NFS4_OP_REMOVE :: nfs_opnum4 where "NFS4_OP_REMOVE \<equiv> 28"
abbreviation NFS4_OP_RENAME :: nfs_opnum4 where "NFS4_OP_RENAME \<equiv> 29"
abbreviation NFS4_OP_RENEW :: nfs_opnum4 where "NFS4_OP_RENEW \<equiv> 30"
abbreviation NFS4_OP_RESTOREFH :: nfs_opnum4 where "NFS4_OP_RESTOREFH \<equiv> 31"
abbreviation NFS4_OP_SAVEFH :: nfs_opnum4 where "NFS4_OP_SAVEFH \<equiv> 32"
abbreviation NFS4_OP_SETCLIENTID :: nfs_opnum4 where "NFS4_OP_SETCLIENTID \<equiv> 35"
abbreviation NFS4_OP_SETCLIENTID_CONFIRM :: nfs_opnum4 where "NFS4_OP_SETCLIENTID_CONFIRM \<equiv> 36"
abbreviation NFS4_OP_WRITE :: nfs_opnum4 where "NFS4_OP_WRITE \<equiv> 38"
abbreviation NFS4_OP_RELEASE_LOCKOWNER :: nfs_opnum4 where "NFS4_OP_RELEASE_LOCKOWNER \<equiv> 39"
abbreviation NFS4_OP_BIND_CONN_TO_SESSION :: nfs_opnum4 where "NFS4_OP_BIND_CONN_TO_SESSION \<equiv> 41"
abbreviation NFS4_OP_EXCHANGE_ID :: nfs_opnum4 where "NFS4_OP_EXCHANGE_ID \<equiv> 42"
abbreviation NFS4_OP_CREATE_SESSION :: nfs_opnum4 where "NFS4_OP_CREATE_SESSION \<equiv> 43"
abbreviation NFS4_OP_DESTROY_SESSION :: nfs_opnum4 where "NFS4_OP_DESTROY_SESSION \<equiv> 44"
abbreviation NFS4_OP_SEQUENCE :: nfs_opnum4 where "NFS4_OP_SEQUENCE \<equiv> 53"
abbreviation NFS4_OP_DESTROY_CLIENTID :: nfs_opnum4 where "NFS4_OP_DESTROY_CLIENTID \<equiv> 57"
abbreviation NFS4_OP_COPY :: nfs_opnum4 where "NFS4_OP_COPY \<equiv> 60"
abbreviation NFS4_OP_CLONE :: nfs_opnum4 where "NFS4_OP_CLONE \<equiv> 71"
abbreviation NFS4_OP_REMOVEXATTR :: nfs_opnum4 where "NFS4_OP_REMOVEXATTR \<equiv> 75"
abbreviation NFS4_OP_ILLEGAL :: nfs_opnum4 where "NFS4_OP_ILLEGAL \<equiv> 10044"

abbreviation NFS4_OK :: nfsstat4 where "NFS4_OK \<equiv> 0"
abbreviation NFS4ERR_PERM :: nfsstat4 where "NFS4ERR_PERM \<equiv> 1"
abbreviation NFS4ERR_NOENT :: nfsstat4 where "NFS4ERR_NOENT \<equiv> 2"
abbreviation NFS4ERR_ACCESS :: nfsstat4 where "NFS4ERR_ACCESS \<equiv> 13"
abbreviation NFS4ERR_INVAL :: nfsstat4 where "NFS4ERR_INVAL \<equiv> 22"
abbreviation NFS4ERR_ROFS :: nfsstat4 where "NFS4ERR_ROFS \<equiv> 30"
abbreviation NFS4ERR_NOTSUPP :: nfsstat4 where "NFS4ERR_NOTSUPP \<equiv> 10004"
abbreviation NFS4ERR_TOOSMALL :: nfsstat4 where "NFS4ERR_TOOSMALL \<equiv> 10005"
abbreviation NFS4ERR_SERVERFAULT :: nfsstat4 where "NFS4ERR_SERVERFAULT \<equiv> 10006"
abbreviation NFS4ERR_DENIED :: nfsstat4 where "NFS4ERR_DENIED \<equiv> 10010"
abbreviation NFS4ERR_EXPIRED :: nfsstat4 where "NFS4ERR_EXPIRED \<equiv> 10011"
abbreviation NFS4ERR_CLID_INUSE :: nfsstat4 where "NFS4ERR_CLID_INUSE \<equiv> 10017"
abbreviation NFS4ERR_RESOURCE :: nfsstat4 where "NFS4ERR_RESOURCE \<equiv> 10018"
abbreviation NFS4ERR_NOFILEHANDLE :: nfsstat4 where "NFS4ERR_NOFILEHANDLE \<equiv> 10020"
abbreviation NFS4ERR_MINOR_VERS_MISMATCH :: nfsstat4 where "NFS4ERR_MINOR_VERS_MISMATCH \<equiv> 10021"
abbreviation NFS4ERR_STALE_CLIENTID :: nfsstat4 where "NFS4ERR_STALE_CLIENTID \<equiv> 10022"
abbreviation NFS4ERR_NOT_SAME :: nfsstat4 where "NFS4ERR_NOT_SAME \<equiv> 10027"
abbreviation NFS4ERR_BAD_RANGE :: nfsstat4 where "NFS4ERR_BAD_RANGE \<equiv> 10042"
abbreviation NFS4ERR_CB_PATH_DOWN :: nfsstat4 where "NFS4ERR_CB_PATH_DOWN \<equiv> 10048"
abbreviation NFS4ERR_BADSESSION :: nfsstat4 where "NFS4ERR_BADSESSION \<equiv> 10052"
abbreviation NFS4ERR_BADSLOT :: nfsstat4 where "NFS4ERR_BADSLOT \<equiv> 10053"
abbreviation NFS4ERR_CONN_NOT_BOUND_TO_SESSION :: nfsstat4 where "NFS4ERR_CONN_NOT_BOUND_TO_SESSION \<equiv> 10055"
abbreviation NFS4ERR_SEQ_MISORDERED :: nfsstat4 where "NFS4ERR_SEQ_MISORDERED \<equiv> 10063"
abbreviation NFS4ERR_SEQUENCE_POS :: nfsstat4 where "NFS4ERR_SEQUENCE_POS \<equiv> 10064"
abbreviation NFS4ERR_REP_TOO_BIG :: nfsstat4 where "NFS4ERR_REP_TOO_BIG \<equiv> 10066"
abbreviation NFS4ERR_REP_TOO_BIG_TO_CACHE :: nfsstat4 where "NFS4ERR_REP_TOO_BIG_TO_CACHE \<equiv> 10067"
abbreviation NFS4ERR_RETRY_UNCACHED_REP :: nfsstat4 where "NFS4ERR_RETRY_UNCACHED_REP \<equiv> 10068"
abbreviation NFS4ERR_TOO_MANY_OPS :: nfsstat4 where "NFS4ERR_TOO_MANY_OPS \<equiv> 10070"
abbreviation NFS4ERR_OP_NOT_IN_SESSION :: nfsstat4 where "NFS4ERR_OP_NOT_IN_SESSION \<equiv> 10071"
abbreviation NFS4ERR_CLIENTID_BUSY :: nfsstat4 where "NFS4ERR_CLIENTID_BUSY \<equiv> 10074"
abbreviation NFS4ERR_NOT_ONLY_OP :: nfsstat4 where "NFS4ERR_NOT_ONLY_OP \<equiv> 10081"

datatype open_claim_type4 =
    CLAIM_NULL | CLAIM_PREVIOUS | CLAIM_DELEGATE_CUR | CLAIM_DELEGATE_PREV | CLAIM_FH
  | CLAIM_DELEG_CUR_FH | CLAIM_DELEG_PREV_FH

datatype createmode4 = UNCHECKED4 | GUARDED4 | EXCLUSIVE4 | EXCLUSIVE4_1

text \<open>\<open>open_claim4\<close>: \<open>claim_file\<close> is the name at the common place of the union's members that
  hold one (\<open>file\<close> and \<open>delegate_cur_info.file\<close>).\<close>
record open_claim4 =
  claim :: open_claim_type4
  claim_file :: bytes

text \<open>\<open>OPEN4args\<close>; \<open>createattrs\<close> are the encoded attributes of \<open>createhow4\<close>.\<close>
record 'fattr open4args =
  open_claim :: open_claim4
  open_create :: bool
  createmode :: createmode4
  createattrs :: 'fattr

text \<open>\<open>file_handle_v4_t\<close> inside an \<open>nfs_fh4\<close>: the opaque part the FSAL sees.\<close>
record nfs_fh4 =
  fsopaque :: bytes

text \<open>The arguments of the operations on client ids and sessions.  The negotiated limits of a channel:\<close>
record channel_attrs4 =
  ca_headerpadsize :: u32
  ca_maxrequestsize :: u32
  ca_maxresponsesize :: u32
  ca_maxresponsesize_cached :: u32
  ca_maxoperations :: u32
  ca_maxrequests :: u32

record sequence4args =
  sa_sessionid :: bytes
  sa_sequenceid :: u32
  sa_slotid :: u32
  sa_cachethis_arg :: bool

record create_session4args =
  csa_clientid :: u64
  csa_sequence :: u32
  csa_flags :: u32
  csa_fore_chan_attrs :: channel_attrs4
  csa_back_chan_attrs :: channel_attrs4
  csa_cb_program :: u32

record exchange_id4args =
  co_verifier :: bytes
  co_ownerid :: bytes
  eia_flags :: u32

record setclientid4args =
  scid_verifier :: bytes
  scid_id :: bytes
  scid_cb_program :: u32
  scid_r_addr :: bytes
  scid_callback_ident :: u32

text \<open>\<open>ARG_WRITE\<close> carries the offset and the data.  \<open>ARG_COPY\<close> and \<open>ARG_CLONE\<close> carry the two
  values that a reader of the union finds at the place of \<open>opwrite.offset\<close> and
  \<open>opwrite.data.data_len\<close>.\<close>
datatype 'fattr nfs_argop4 =
    ARG_PUTFH nfs_fh4
  | ARG_PUTROOTFH
  | ARG_SAVEFH
  | ARG_RESTOREFH
  | ARG_LOOKUP bytes
  | ARG_LOOKUPP
  | ARG_OPEN "'fattr open4args"
  | ARG_CREATE bytes
  | ARG_LINK bytes
  | ARG_REMOVE bytes
  | ARG_RENAME bytes bytes
  | ARG_WRITE u64 bytes
  | ARG_COPY u64 u64
  | ARG_CLONE u64 u64
  | ARG_READDIR
  | ARG_GETATTR
  | ARG_SETCLIENTID setclientid4args
  | ARG_SETCLIENTID_CONFIRM u64 bytes
  | ARG_RENEW u64
  | ARG_EXCHANGE_ID exchange_id4args
  | ARG_CREATE_SESSION create_session4args
  | ARG_BIND_CONN_TO_SESSION bytes
  | ARG_SEQUENCE sequence4args
  | ARG_DESTROY_SESSION bytes
  | ARG_DESTROY_CLIENTID u64
  | ARG_OTHER nfs_opnum4

fun argop :: "'fattr nfs_argop4 \<Rightarrow> nfs_opnum4" where
  "argop (ARG_PUTFH _) = NFS4_OP_PUTFH"
| "argop ARG_PUTROOTFH = NFS4_OP_PUTROOTFH"
| "argop ARG_SAVEFH = NFS4_OP_SAVEFH"
| "argop ARG_RESTOREFH = NFS4_OP_RESTOREFH"
| "argop (ARG_LOOKUP _) = NFS4_OP_LOOKUP"
| "argop ARG_LOOKUPP = NFS4_OP_LOOKUPP"
| "argop (ARG_OPEN _) = NFS4_OP_OPEN"
| "argop (ARG_CREATE _) = NFS4_OP_CREATE"
| "argop (ARG_LINK _) = NFS4_OP_LINK"
| "argop (ARG_REMOVE _) = NFS4_OP_REMOVE"
| "argop (ARG_RENAME _ _) = NFS4_OP_RENAME"
| "argop (ARG_WRITE _ _) = NFS4_OP_WRITE"
| "argop (ARG_COPY _ _) = NFS4_OP_COPY"
| "argop (ARG_CLONE _ _) = NFS4_OP_CLONE"
| "argop ARG_READDIR = NFS4_OP_READDIR"
| "argop ARG_GETATTR = NFS4_OP_GETATTR"
| "argop (ARG_SETCLIENTID _) = NFS4_OP_SETCLIENTID"
| "argop (ARG_SETCLIENTID_CONFIRM _ _) = NFS4_OP_SETCLIENTID_CONFIRM"
| "argop (ARG_RENEW _) = NFS4_OP_RENEW"
| "argop (ARG_EXCHANGE_ID _) = NFS4_OP_EXCHANGE_ID"
| "argop (ARG_CREATE_SESSION _) = NFS4_OP_CREATE_SESSION"
| "argop (ARG_BIND_CONN_TO_SESSION _) = NFS4_OP_BIND_CONN_TO_SESSION"
| "argop (ARG_SEQUENCE _) = NFS4_OP_SEQUENCE"
| "argop (ARG_DESTROY_SESSION _) = NFS4_OP_DESTROY_SESSION"
| "argop (ARG_DESTROY_CLIENTID _) = NFS4_OP_DESTROY_CLIENTID"
| "argop (ARG_OTHER n) = n"

record create_session4resok =
  csr_sessionid :: bytes
  csr_sequence :: u32
  csr_flags :: u32
  csr_fore_chan_attrs :: channel_attrs4
  csr_back_chan_attrs :: channel_attrs4

record sequence4resok =
  sr_sessionid :: bytes
  sr_sequenceid :: u32
  sr_slotid :: u32
  sr_highest_slotid :: u32
  sr_target_highest_slotid :: u32
  sr_status_flags :: u32

text \<open>The member of the result union that a successful operation fills in, for the operations whose
  results the modelled code builds; \<open>RES_NONE\<close> stands for every other contents.\<close>
datatype nfs_resop4_u =
    RES_NONE
  | RES_SETCLIENTID u64 bytes
  | RES_EXCHANGE_ID u64 u32 u32
  | RES_CREATE_SESSION create_session4resok
  | RES_BIND_CONN_TO_SESSION bytes
  | RES_SEQUENCE sequence4resok

record nfs_resop4 =
  resop :: nfs_opnum4
  res_status :: nfsstat4
  res_u :: nfs_resop4_u

record compound4res =
  comp_status :: nfsstat4
  resarray :: "nfs_resop4 list"

end
