(* ===== verification/Txn_Db.thy ===== *)
theory Txn_Db
  imports Nfs4_Types
begin

text \<open>
  The per-compound handle cache and its database (\<open>FSAL_TXN/helper.c\<close>, \<open>include/txnfs.h\<close>) and the
  creation of the transaction log record (\<open>txn/txn_logger.cpp\<close>).

  LevelDB is not part of the repository: its four operations are the record \<open>leveldb\<close>, an argument
  of every definition that reaches the database, and \<open>leveldb_ok\<close> is its documented behaviour (a
  read returns the current value, a write batch is applied completely and in order, or not at all).
  The UUID that \<open>uuid_generate\<close> produces and the serialised form of a log record are arguments too.
\<close>

section \<open>LevelDB\<close>

datatype batch_op = BatchPut bytes bytes | BatchDelete bytes

record 'db leveldb =
  leveldb_get :: "'db \<Rightarrow> bytes \<Rightarrow> string + bytes option"
  leveldb_write :: "'db \<Rightarrow> batch_op list \<Rightarrow> string option \<times> 'db"
  leveldb_put :: "'db \<Rightarrow> bytes \<Rightarrow> bytes \<Rightarrow> string option \<times> 'db"
  leveldb_delete :: "'db \<Rightarrow> bytes \<Rightarrow> string option \<times> 'db"

fun apply_op :: "batch_op \<Rightarrow> (bytes \<rightharpoonup> bytes) \<Rightarrow> (bytes \<rightharpoonup> bytes)" where
  "apply_op (BatchPut k v) m = m(k \<mapsto> v)"
| "apply_op (BatchDelete k) m = m(k := None)"

definition apply_batch :: "batch_op list \<Rightarrow> (bytes \<rightharpoonup> bytes) \<Rightarrow> (bytes \<rightharpoonup> bytes)" where
  "apply_batch b m = fold apply_op b m"

definition leveldb_ok :: "'db leveldb \<Rightarrow> ('db \<Rightarrow> bytes \<rightharpoonup> bytes) \<Rightarrow> bool" where
  "leveldb_ok L view \<longleftrightarrow>
     (\<forall>d k. leveldb_get L d k = Inr (view d k)) \<and>
     (\<forall>d b err d'. leveldb_write L d b = (err, d') \<longrightarrow>
        view d' = (if err = None then apply_batch b (view d) else view d)) \<and>
     (\<forall>d k v err d'. leveldb_put L d k v = (err, d') \<longrightarrow>
        view d' = (if err = None then (view d)(k \<mapsto> v) else view d)) \<and>
     (\<forall>d k err d'. leveldb_delete L d k = (err, d') \<longrightarrow>
        view d' = (if err = None then (view d)(k := None) else view d))"

section \<open>Cache, context and keys\<close>

datatype txnfs_cache_entry_type =
  txnfs_cache_entry_create | txnfs_cache_entry_delete | txnfs_cache_entry_modify

text \<open>\<open>hdl_size\<close> is the length of \<open>ent_fh\<close>; the choice between the inline buffer and a separately
  allocated one does not show.  A path that was never set is the empty byte string.\<close>
record txnfs_cache_entry =
  ent_uuid :: bytes
  ent_type :: txnfs_cache_entry_type
  ent_fh :: bytes
  ent_path :: bytes

record txnfs_cache =
  cache_entries :: "txnfs_cache_entry list"
  cache_capacity :: nat

text \<open>The fields of \<open>op_ctx\<close> and of the module that this file uses.\<close>
record 'db txn_ctx =
  txn_cache :: "txnfs_cache option"
  txnid :: u64
  next_txn_id :: u64
  db :: 'db

definition TXN_CACHE_CAP :: nat where
  "TXN_CACHE_CAP = 256"

definition UUID_LEN :: nat where
  "UUID_LEN = 16"

definition UUID_KEY_PREFIX :: bytes where "UUID_KEY_PREFIX = ''uuid-''"
definition FH_KEY_PREFIX :: bytes where "FH_KEY_PREFIX = ''fhdl-''"
definition PATH_KEY_PREFIX :: bytes where "PATH_KEY_PREFIX = ''path-''"

definition combine_prefix :: "bytes \<Rightarrow> bytes \<Rightarrow> bytes" where
  "combine_prefix prefix src = prefix @ src"

section \<open>The cache\<close>

definition txnfs_cache_cmpfh :: "txnfs_cache_entry \<Rightarrow> bytes \<Rightarrow> int" where
  "txnfs_cache_cmpfh ent buf =
     (if length (ent_fh ent) \<noteq> length buf then - 1
      else memcmp (ent_fh ent) buf (length (ent_fh ent)))"

text \<open>The assertion admits \<open>size = capacity\<close>; the entry would then be written behind the
  allocated array, which is the abort value.\<close>
definition txnfs_cache_insert ::
  "txnfs_cache_entry_type \<Rightarrow> bytes option \<Rightarrow> bytes \<Rightarrow> bytes option
    \<Rightarrow> ('db, 'x) txn_ctx_scheme \<Rightarrow> (int \<times> ('db, 'x) txn_ctx_scheme) option"
where
  "txnfs_cache_insert entry_type hdl_desc uuid path w = do {
     c_assert (entry_type = txnfs_cache_entry_create \<and> hdl_desc \<noteq> None \<or>
               entry_type = txnfs_cache_entry_delete \<or>
               entry_type = txnfs_cache_entry_modify \<and> path \<noteq> None);
     cache \<leftarrow> txn_cache w;
     c_assert (length (cache_entries cache) \<le> cache_capacity cache);
     let entry = \<lparr>ent_uuid = uuid, ent_type = entry_type,
                  ent_fh = (case hdl_desc of Some h \<Rightarrow> h | None \<Rightarrow> []),
                  ent_path = (case path of Some p \<Rightarrow> p | None \<Rightarrow> [])\<rparr>;
     if length (cache_entries cache) < cache_capacity cache
     then Some (0, w\<lparr>txn_cache := Some (cache\<lparr>cache_entries := cache_entries cache @ [entry]\<rparr>)\<rparr>)
     else None
   }"

text \<open>\<open>Some uuid\<close> for return value 0, \<open>None\<close> for \<open>-1\<close>.\<close>
definition txnfs_cache_get_uuid :: "txnfs_cache \<Rightarrow> bytes \<Rightarrow> bytes option" where
  "txnfs_cache_get_uuid cache hdl_desc =
     map_option ent_uuid
       (find (\<lambda>e. ent_type e = txnfs_cache_entry_create \<and> txnfs_cache_cmpfh e hdl_desc = 0)
          (cache_entries cache))"

text \<open>The third argument of \<open>memcmp\<close> is the value of the comparison \<open>sizeof(uuid_t) == 0\<close>, and
  the result of \<open>memcmp\<close> itself is the condition.\<close>
definition txnfs_cache_get_path :: "txnfs_cache \<Rightarrow> bytes \<Rightarrow> bytes option" where
  "txnfs_cache_get_path cache uuid =
     map_option ent_path
       (find (\<lambda>e. (ent_type e = txnfs_cache_entry_create \<or> ent_type e = txnfs_cache_entry_modify) \<and>
                  memcmp (ent_uuid e) uuid (if UUID_LEN = 0 then 1 else 0) \<noteq> 0)
          (cache_entries cache))"

definition txnfs_cache_get_handle :: "txnfs_cache \<Rightarrow> bytes \<Rightarrow> bytes option" where
  "txnfs_cache_get_handle cache uuid =
     map_option ent_fh
       (find (\<lambda>e. ent_type e = txnfs_cache_entry_create \<and> memcmp (ent_uuid e) uuid UUID_LEN = 0)
          (cache_entries cache))"

definition txnfs_cache_delete_uuid ::
  "bytes \<Rightarrow> ('db, 'x) txn_ctx_scheme \<Rightarrow> (int \<times> ('db, 'x) txn_ctx_scheme) option" where
  "txnfs_cache_delete_uuid uuid w = txnfs_cache_insert txnfs_cache_entry_delete None uuid None w"

definition txnfs_cache_init ::
  "nat \<Rightarrow> ('db, 'x) txn_ctx_scheme \<Rightarrow> ('db, 'x) txn_ctx_scheme option" where
  "txnfs_cache_init compound_size w =
     (if txn_cache w \<noteq> None then None
      else Some (w\<lparr>txn_cache := Some \<lparr>cache_entries = [],
                                      cache_capacity = min compound_size TXN_CACHE_CAP\<rparr>\<rparr>))"

definition txnfs_cache_cleanup ::
  "('db, 'x) txn_ctx_scheme \<Rightarrow> ('db, 'x) txn_ctx_scheme option" where
  "txnfs_cache_cleanup w =
     (if txn_cache w = None then None else Some (w\<lparr>txn_cache := None\<rparr>))"

section \<open>Commit\<close>

text \<open>The batch operations of one cache entry.\<close>
definition entry_batch :: "txnfs_cache_entry \<Rightarrow> batch_op list option" where
  "entry_batch e =
     (let uuid_key = combine_prefix UUID_KEY_PREFIX (ent_uuid e);
          hdl_key = combine_prefix FH_KEY_PREFIX (ent_fh e);
          path_key = combine_prefix PATH_KEY_PREFIX (ent_uuid e)
      in case ent_type e of
           txnfs_cache_entry_create \<Rightarrow>
             Some [BatchPut uuid_key (ent_fh e), BatchPut hdl_key (ent_uuid e),
                   BatchPut path_key (ent_path e)]
         | txnfs_cache_entry_delete \<Rightarrow>
             Some (BatchDelete uuid_key #
                   (if length (ent_fh e) > 0 then [BatchDelete hdl_key] else []) @
                   (if length (ent_path e) > 0 then [BatchDelete path_key] else []))
         | txnfs_cache_entry_modify \<Rightarrow>
             do { c_assert (length (ent_path e) > 0); Some [BatchPut path_key (ent_path e)] })"

fun entries_batch :: "txnfs_cache_entry list \<Rightarrow> batch_op list option" where
  "entries_batch [] = Some []"
| "entries_batch (e # es) = do { b \<leftarrow> entry_batch e; bs \<leftarrow> entries_batch es; Some (b @ bs) }"

text \<open>\<open>char rr_key[25]\<close>, zero filled, with the prefix and the digits written into it; the whole
  array is the key.\<close>
definition rr_key :: "u64 \<Rightarrow> bytes" where
  "rr_key t = (let s = ''txn-'' @ dec (unat t) in s @ replicate (25 - length s) (CHR 0x00))"

definition log_batch :: "u64 \<Rightarrow> batch_op list" where
  "log_batch t = (if t > 0 then [BatchDelete (rr_key t)] else [])"

text \<open>The counters \<open>n_put\<close> and \<open>n_del\<close> are positive together exactly when there was an entry or a
  log record.\<close>
definition txnfs_cache_commit ::
  "'db leveldb \<Rightarrow> ('db, 'x) txn_ctx_scheme \<Rightarrow> (int \<times> ('db, 'x) txn_ctx_scheme) option"
where
  "txnfs_cache_commit L w = do {
     cache \<leftarrow> txn_cache w;
     bs \<leftarrow> entries_batch (cache_entries cache);
     let batch = bs @ log_batch (txnid w);
     if cache_entries cache \<noteq> [] \<or> txnid w > 0
     then case leveldb_write L (db w) batch of
            (err, d) \<Rightarrow> Some (if err = None then 0 else - 1, w\<lparr>db := d\<rparr>)
     else Some (0, w)
   }"

section \<open>Database access\<close>

definition txnfs_db_insert_handle ::
  "'db leveldb \<Rightarrow> bytes \<Rightarrow> bytes \<Rightarrow> bytes \<Rightarrow> ('db, 'x) txn_ctx_scheme
    \<Rightarrow> (int \<times> ('db, 'x) txn_ctx_scheme) option"
where
  "txnfs_db_insert_handle L hdl_desc uuid path w =
     (if txn_cache w \<noteq> None
      then txnfs_cache_insert txnfs_cache_entry_create (Some hdl_desc) uuid (Some path) w
      else case leveldb_write L (db w)
                  [BatchPut (combine_prefix UUID_KEY_PREFIX uuid) hdl_desc,
                   BatchPut (combine_prefix FH_KEY_PREFIX hdl_desc) uuid,
                   BatchPut (combine_prefix PATH_KEY_PREFIX uuid) path] of
             (err, d) \<Rightarrow> Some (if err = None then 0 else - 1, w\<lparr>db := d\<rparr>))"

text \<open>The outer option is the abort on a LevelDB error or a value of the wrong size, the inner one
  the return value.\<close>
definition txnfs_db_get_uuid_nocache ::
  "'db leveldb \<Rightarrow> bytes \<Rightarrow> ('db, 'x) txn_ctx_scheme \<Rightarrow> bytes option option"
where
  "txnfs_db_get_uuid_nocache L hdl_desc w =
     (case leveldb_get L (db w) (combine_prefix FH_KEY_PREFIX hdl_desc) of
        Inl err \<Rightarrow> None
      | Inr None \<Rightarrow> Some None
      | Inr (Some val) \<Rightarrow> do { c_assert (length val = UUID_LEN); Some (Some val) })"

definition txnfs_db_get_uuid ::
  "'db leveldb \<Rightarrow> bytes \<Rightarrow> ('db, 'x) txn_ctx_scheme \<Rightarrow> bytes option option"
where
  "txnfs_db_get_uuid L hdl_desc w =
     (case txn_cache w of
        Some cache \<Rightarrow>
          (case txnfs_cache_get_uuid cache hdl_desc of
             Some uuid \<Rightarrow> Some (Some uuid)
           | None \<Rightarrow> txnfs_db_get_uuid_nocache L hdl_desc w)
      | None \<Rightarrow> txnfs_db_get_uuid_nocache L hdl_desc w)"

definition txnfs_db_get_path ::
  "'db leveldb \<Rightarrow> bytes \<Rightarrow> ('db, 'x) txn_ctx_scheme \<Rightarrow> bytes option option"
where
  "txnfs_db_get_path L uuid w =
     (let from_db = (case leveldb_get L (db w) (combine_prefix PATH_KEY_PREFIX uuid) of
                       Inl err \<Rightarrow> None | Inr val \<Rightarrow> Some val)
      in case txn_cache w of
           Some cache \<Rightarrow>
             (case txnfs_cache_get_path cache uuid of Some p \<Rightarrow> Some (Some p) | None \<Rightarrow> from_db)
         | None \<Rightarrow> from_db)"

definition txnfs_db_get_handle ::
  "'db leveldb \<Rightarrow> bytes \<Rightarrow> ('db, 'x) txn_ctx_scheme \<Rightarrow> bytes option option"
where
  "txnfs_db_get_handle L uuid w =
     (let from_db = (case leveldb_get L (db w) (combine_prefix UUID_KEY_PREFIX uuid) of
                       Inl err \<Rightarrow> None | Inr val \<Rightarrow> Some val)
      in case txn_cache w of
           Some cache \<Rightarrow>
             (case txnfs_cache_get_handle cache uuid of Some h \<Rightarrow> Some (Some h) | None \<Rightarrow> from_db)
         | None \<Rightarrow> from_db)"

definition txnfs_db_delete_uuid ::
  "'db leveldb \<Rightarrow> bytes \<Rightarrow> ('db, 'x) txn_ctx_scheme \<Rightarrow> (int \<times> ('db, 'x) txn_ctx_scheme) option"
where
  "txnfs_db_delete_uuid L uuid w =
     (if txn_cache w \<noteq> None then txnfs_cache_delete_uuid uuid w
      else let uuid_key = combine_prefix UUID_KEY_PREFIX uuid in
           case leveldb_get L (db w) uuid_key of
             Inl err \<Rightarrow> Some (- 1, w)
           | Inr None \<Rightarrow> Some (- 1, w)
           | Inr (Some val) \<Rightarrow>
               (case leveldb_delete L (db w) uuid_key of
                  (err, d) \<Rightarrow> Some (if err = None then 0 else - 1, w\<lparr>db := d\<rparr>)))"

definition txnfs_db_handle_exists ::
  "'db leveldb \<Rightarrow> bytes \<Rightarrow> ('db, 'x) txn_ctx_scheme \<Rightarrow> bool option"
where
  "txnfs_db_handle_exists L hdl_desc w =
     (case txn_cache w of
        Some cache \<Rightarrow>
          if txnfs_cache_get_uuid cache hdl_desc \<noteq> None then Some False
          else map_option (\<lambda>r. r \<noteq> None) (txnfs_db_get_uuid L hdl_desc w)
      | None \<Rightarrow> map_option (\<lambda>r. r \<noteq> None) (txnfs_db_get_uuid L hdl_desc w))"

section \<open>The transaction log record\<close>

datatype txn_type = NONE | VCREATE | VMKDIR | VWRITE | VRENAME | VUNLINK | VSYMLINK | VOPEN

fun get_txn_type :: "'fattr nfs_argop4 list \<Rightarrow> txn_type" where
  "get_txn_type [] = NONE"
| "get_txn_type (op # ops) =
     (if argop op = NFS4_OP_CREATE then VCREATE
      else if argop op = NFS4_OP_WRITE then VWRITE
      else if argop op = NFS4_OP_RENAME then VRENAME
      else if argop op = NFS4_OP_REMOVE then VUNLINK
      else if argop op = NFS4_OP_LINK then VSYMLINK
      else case op of
             ARG_OPEN args \<Rightarrow> if open_create args then VOPEN else get_txn_type ops
           | _ \<Rightarrow> get_txn_type ops)"

definition log_key :: "u64 \<Rightarrow> bytes" where
  "log_key t = ''txn-'' @ dec (unat t)"

text \<open>\<open>serialize\<close> stands for the generated protobuf code.  The returned identifier is 0 when the
  compound changes nothing, or when the record could not be written.\<close>
definition create_txn_log ::
  "'db leveldb \<Rightarrow> (txn_type \<Rightarrow> u64 \<Rightarrow> bytes option) \<Rightarrow> 'fattr nfs_argop4 list
    \<Rightarrow> ('db, 'x) txn_ctx_scheme \<Rightarrow> u64 \<times> ('db, 'x) txn_ctx_scheme"
where
  "create_txn_log L serialize args w =
     (let ty = get_txn_type args in
      if ty = NONE then (0, w)
      else
        let t = next_txn_id w; w = w\<lparr>next_txn_id := t + 1\<rparr> in
        case serialize ty t of
          None \<Rightarrow> (0, w)
        | Some val \<Rightarrow>
            (case leveldb_put L (db w) (log_key t) val of
               (err, d) \<Rightarrow> (if err = None then t else 0, w\<lparr>db := d\<rparr>)))"

section \<open>Abstract database\<close>

text \<open>What the key space means: three maps.\<close>
record handle_index =
  ix_handle :: "bytes \<rightharpoonup> bytes"
  ix_uuid :: "bytes \<rightharpoonup> bytes"
  ix_path :: "bytes \<rightharpoonup> bytes"

definition index_of :: "(bytes \<rightharpoonup> bytes) \<Rightarrow> handle_index" where
  "index_of m = \<lparr>ix_handle = (\<lambda>u. m (combine_prefix UUID_KEY_PREFIX u)),
                  ix_uuid = (\<lambda>h. m (combine_prefix FH_KEY_PREFIX h)),
                  ix_path = (\<lambda>u. m (combine_prefix PATH_KEY_PREFIX u))\<rparr>"

definition index_entry :: "txnfs_cache_entry \<Rightarrow> handle_index \<Rightarrow> handle_index" where
  "index_entry e ix =
     (let u = ent_uuid e; h = ent_fh e; p = ent_path e in
      case ent_type e of
        txnfs_cache_entry_create \<Rightarrow>
          \<lparr>ix_handle = (ix_handle ix)(u \<mapsto> h), ix_uuid = (ix_uuid ix)(h \<mapsto> u),
           ix_path = (ix_path ix)(u \<mapsto> p)\<rparr>
      | txnfs_cache_entry_delete \<Rightarrow>
          \<lparr>ix_handle = (ix_handle ix)(u := None),
           ix_uuid = (if h = [] then ix_uuid ix else (ix_uuid ix)(h := None)),
           ix_path = (if p = [] then ix_path ix else (ix_path ix)(u := None))\<rparr>
      | txnfs_cache_entry_modify \<Rightarrow> ix\<lparr>ix_path := (ix_path ix)(u \<mapsto> p)\<rparr>)"

lemmas key_defs = combine_prefix_def UUID_KEY_PREFIX_def FH_KEY_PREFIX_def PATH_KEY_PREFIX_def

lemma combine_prefix_inj [simp]: "combine_prefix p a = combine_prefix p b \<longleftrightarrow> a = b"
  by (simp add: combine_prefix_def)

lemma combine_prefix_disjoint [simp]:
  "combine_prefix UUID_KEY_PREFIX a \<noteq> combine_prefix FH_KEY_PREFIX b"
  "combine_prefix UUID_KEY_PREFIX a \<noteq> combine_prefix PATH_KEY_PREFIX b"
  "combine_prefix FH_KEY_PREFIX a \<noteq> combine_prefix UUID_KEY_PREFIX b"
  "combine_prefix FH_KEY_PREFIX a \<noteq> combine_prefix PATH_KEY_PREFIX b"
  "combine_prefix PATH_KEY_PREFIX a \<noteq> combine_prefix UUID_KEY_PREFIX b"
  "combine_prefix PATH_KEY_PREFIX a \<noteq> combine_prefix FH_KEY_PREFIX b"
  by (simp_all add: key_defs)

lemma index_of_put [simp]:
  "index_of (m(combine_prefix UUID_KEY_PREFIX u := x)) =
     (index_of m)\<lparr>ix_handle := (ix_handle (index_of m))(u := x)\<rparr>"
  "index_of (m(combine_prefix FH_KEY_PREFIX h := x)) =
     (index_of m)\<lparr>ix_uuid := (ix_uuid (index_of m))(h := x)\<rparr>"
  "index_of (m(combine_prefix PATH_KEY_PREFIX u := x)) =
     (index_of m)\<lparr>ix_path := (ix_path (index_of m))(u := x)\<rparr>"
  by (simp_all add: index_of_def fun_eq_iff)

lemma apply_batch_Nil [simp]: "apply_batch [] m = m"
  and apply_batch_Cons [simp]: "apply_batch (b # bs) m = apply_batch bs (apply_op b m)"
  and apply_batch_append [simp]: "apply_batch (bs @ cs) m = apply_batch cs (apply_batch bs m)"
  by (simp_all add: apply_batch_def)

lemma index_entry_batch:
  assumes "entry_batch e = Some b"
  shows "index_of (apply_batch b m) = index_entry e (index_of m)"
  using assms
  by (cases "ent_type e")
    (simp_all add: entry_batch_def index_entry_def Let_def c_assert_def split: if_splits,
     auto)

lemma index_entries_batch:
  "entries_batch es = Some b \<Longrightarrow> index_of (apply_batch b m) = fold index_entry es (index_of m)"
proof (induction es arbitrary: b m)
  case Nil
  then show ?case by simp
next
  case (Cons e es)
  then obtain be bs where "entry_batch e = Some be" "entries_batch es = Some bs" "b = be @ bs"
    by (auto simp: abort_simps)
  then show ?case using Cons.IH [of bs] index_entry_batch [of e be] by simp
qed

lemma index_log_batch [simp]: "index_of (apply_batch (log_batch t) m) = index_of m"
  by (auto simp: log_batch_def rr_key_def index_of_def key_defs Let_def)

text \<open>Entries the operations of this file create: a modification carries a path.\<close>
definition entry_ok :: "txnfs_cache_entry \<Rightarrow> bool" where
  "entry_ok e \<longleftrightarrow> (ent_type e = txnfs_cache_entry_modify \<longrightarrow> ent_path e \<noteq> [])"

lemma entries_batch_total:
  "list_all entry_ok es \<Longrightarrow> \<exists>b. entries_batch es = Some b"
proof (induction es)
  case Nil
  then show ?case by simp
next
  case (Cons e es)
  then obtain bs where "entries_batch es = Some bs" by auto
  moreover have "\<exists>b. entry_batch e = Some b"
    using Cons.prems by (cases "ent_type e") (auto simp: entry_ok_def entry_batch_def Let_def c_assert_def)
  ultimately show ?case by auto
qed

lemma leveldb_getD: "leveldb_ok L view \<Longrightarrow> leveldb_get L d k = Inr (view d k)"
  by (simp add: leveldb_ok_def)

lemma leveldb_writeD:
  "leveldb_ok L view \<Longrightarrow> leveldb_write L d b = (err, d') \<Longrightarrow>
     view d' = (if err = None then apply_batch b (view d) else view d)"
  by (simp add: leveldb_ok_def)

lemma leveldb_putD:
  "leveldb_ok L view \<Longrightarrow> leveldb_put L d k v = (err, d') \<Longrightarrow>
     view d' = (if err = None then (view d)(k \<mapsto> v) else view d)"
  by (simp add: leveldb_ok_def)

lemma leveldb_deleteD:
  "leveldb_ok L view \<Longrightarrow> leveldb_delete L d k = (err, d') \<Longrightarrow>
     view d' = (if err = None then (view d)(k := None) else view d)"
  by (simp add: leveldb_ok_def)

lemma cache_commit_spec:
  assumes "leveldb_ok L view" and "txn_cache w = Some c" and "list_all entry_ok (cache_entries c)"
  shows "\<exists>r d. txnfs_cache_commit L w = Some (r, w\<lparr>db := d\<rparr>) \<and>
     (if r = 0 then index_of (view d) = fold index_entry (cache_entries c) (index_of (view (db w)))
      else view d = view (db w))"
proof -
  obtain bs where bs: "entries_batch (cache_entries c) = Some bs"
    using entries_batch_total [OF assms(3)] by blast
  show ?thesis
  proof (cases "cache_entries c \<noteq> [] \<or> txnid w > 0")
    case False
    then show ?thesis
      using assms(2) by (auto simp: txnfs_cache_commit_def intro!: exI [of _ "db w"])
  next
    case True
    obtain err d where wr: "leveldb_write L (db w) (bs @ log_batch (txnid w)) = (err, d)"
      by (metis surj_pair)
    have com: "txnfs_cache_commit L w = Some (if err = None then 0 else - 1, w\<lparr>db := d\<rparr>)"
      using True assms(2) bs wr by (auto simp: txnfs_cache_commit_def Let_def)
    have v: "view d = (if err = None then apply_batch (bs @ log_batch (txnid w)) (view (db w))
                       else view (db w))"
      by (rule leveldb_writeD [OF assms(1) wr])
    show ?thesis
      unfolding com using v index_entries_batch [OF bs, of "view (db w)"]
      by (intro exI [of _ "if err = None then 0 else - 1"] exI [of _ d]) simp
  qed
qed

section \<open>Compounds\<close>

text \<open>The two database operations the handle code performs, and a sequence of them.\<close>
datatype db_op = DbInsert bytes bytes bytes | DbDelete bytes

fun db_step ::
  "'db leveldb \<Rightarrow> db_op \<Rightarrow> ('db, 'x) txn_ctx_scheme \<Rightarrow> (int \<times> ('db, 'x) txn_ctx_scheme) option"
where
  "db_step L (DbInsert h u p) w = txnfs_db_insert_handle L h u p w"
| "db_step L (DbDelete u) w = txnfs_db_delete_uuid L u w"

fun db_run ::
  "'db leveldb \<Rightarrow> db_op list \<Rightarrow> ('db, 'x) txn_ctx_scheme \<Rightarrow> ('db, 'x) txn_ctx_scheme option"
where
  "db_run L [] w = Some w"
| "db_run L (x # xs) w = do { (r, w) \<leftarrow> db_step L x w; db_run L xs w }"

fun op_entry :: "db_op \<Rightarrow> txnfs_cache_entry" where
  "op_entry (DbInsert h u p) = \<lparr>ent_uuid = u, ent_type = txnfs_cache_entry_create, ent_fh = h, ent_path = p\<rparr>"
| "op_entry (DbDelete u) = \<lparr>ent_uuid = u, ent_type = txnfs_cache_entry_delete, ent_fh = [], ent_path = []\<rparr>"

lemma op_entry_ok: "list_all entry_ok (map op_entry xs)"
proof -
  have "entry_ok (op_entry x)" for x by (cases x) (simp_all add: entry_ok_def)
  then show ?thesis by (simp add: list_all_iff)
qed

lemma db_step_cached:
  assumes "txn_cache w = Some c"
  shows "db_step L x w =
    (if length (cache_entries c) < cache_capacity c
     then Some (0, w\<lparr>txn_cache := Some (c\<lparr>cache_entries := cache_entries c @ [op_entry x]\<rparr>)\<rparr>)
     else None)"
  using assms
  by (cases x) (auto simp: txnfs_db_insert_handle_def txnfs_db_delete_uuid_def
      txnfs_cache_delete_uuid_def txnfs_cache_insert_def c_assert_def)

lemma db_run_cached:
  assumes "txn_cache w = Some c" and "length (cache_entries c) \<le> cache_capacity c"
  shows "db_run L xs w =
    (if length (cache_entries c) + length xs \<le> cache_capacity c
     then Some (w\<lparr>txn_cache := Some (c\<lparr>cache_entries := cache_entries c @ map op_entry xs\<rparr>)\<rparr>)
     else None)"
  using assms
proof (induction xs arbitrary: w c)
  case Nil
  then show ?case by simp
next
  case (Cons x xs)
  show ?case
  proof (cases "length (cache_entries c) < cache_capacity c")
    case True
    let ?c = "c\<lparr>cache_entries := cache_entries c @ [op_entry x]\<rparr>"
    have "db_run L xs (w\<lparr>txn_cache := Some ?c\<rparr>) =
      (if length (cache_entries ?c) + length xs \<le> cache_capacity ?c
       then Some (w\<lparr>txn_cache := Some (?c\<lparr>cache_entries := cache_entries ?c @ map op_entry xs\<rparr>)\<rparr>)
       else None)"
      using True by (subst Cons.IH [of _ ?c]) auto
    with True show ?thesis by (simp add: db_step_cached [OF Cons.prems(1)])
  next
    case False
    then show ?thesis by (simp add: db_step_cached [OF Cons.prems(1)])
  qed
qed

definition txn_body ::
  "'db leveldb \<Rightarrow> nat \<Rightarrow> db_op list \<Rightarrow> ('db, 'x) txn_ctx_scheme
    \<Rightarrow> ('db, 'x) txn_ctx_scheme option"
where
  "txn_body L n xs w = do { w \<leftarrow> txnfs_cache_init n w; db_run L xs w }"

definition run_txn ::
  "'db leveldb \<Rightarrow> nat \<Rightarrow> db_op list \<Rightarrow> ('db, 'x) txn_ctx_scheme
    \<Rightarrow> (int \<times> ('db, 'x) txn_ctx_scheme) option"
where
  "run_txn L n xs w = do {
     w \<leftarrow> txn_body L n xs w;
     (r, w) \<leftarrow> txnfs_cache_commit L w;
     w \<leftarrow> txnfs_cache_cleanup w;
     Some (r, w)
   }"

lemma ctx_without_cache: "txn_cache w = None \<Longrightarrow> w\<lparr>txn_cache := None\<rparr> = w"
  by (cases w) simp

lemma txn_body_cached:
  assumes "txn_cache w = None"
  shows "txn_body L n xs w =
    (if length xs \<le> min n TXN_CACHE_CAP
     then Some (w\<lparr>txn_cache := Some \<lparr>cache_entries = map op_entry xs,
                                     cache_capacity = min n TXN_CACHE_CAP\<rparr>\<rparr>)
     else None)"
  using assms by (simp add: txn_body_def txnfs_cache_init_def db_run_cached)

definition never_fails :: "'db leveldb \<Rightarrow> bool" where
  "never_fails L \<longleftrightarrow> (\<forall>d b. fst (leveldb_write L d b) = None) \<and> (\<forall>d k. fst (leveldb_delete L d k) = None)"

lemma db_step_direct:
  assumes "leveldb_ok L view" "never_fails L" "txn_cache w = None"
  shows "\<exists>r d. db_step L x w = Some (r, w\<lparr>db := d\<rparr>) \<and>
    index_of (view d) = index_entry (op_entry x) (index_of (view (db w)))"
proof (cases x)
  case (DbInsert h u p)
  let ?b = "[BatchPut (combine_prefix UUID_KEY_PREFIX u) h, BatchPut (combine_prefix FH_KEY_PREFIX h) u,
             BatchPut (combine_prefix PATH_KEY_PREFIX u) p]"
  obtain d where d: "leveldb_write L (db w) ?b = (None, d)"
    using assms(2) by (metis never_fails_def prod.collapse)
  with DbInsert assms(3) leveldb_writeD [OF assms(1) d] show ?thesis
    by (auto simp: txnfs_db_insert_handle_def index_entry_def)
next
  case (DbDelete u)
  let ?k = "combine_prefix UUID_KEY_PREFIX u"
  show ?thesis
  proof (cases "view (db w) ?k")
    case None
    then have "(ix_handle (index_of (view (db w))))(u := None) = ix_handle (index_of (view (db w)))"
      by (auto simp: index_of_def)
    with None DbDelete assms(3) show ?thesis
      by (auto simp: txnfs_db_delete_uuid_def leveldb_getD [OF assms(1)] index_entry_def Let_def
          intro!: exI [of _ "db w"])
  next
    case (Some v)
    obtain d where d: "leveldb_delete L (db w) ?k = (None, d)"
      using assms(2) by (metis never_fails_def prod.collapse)
    with Some DbDelete assms(3) leveldb_deleteD [OF assms(1) d] show ?thesis
      by (auto simp: txnfs_db_delete_uuid_def leveldb_getD [OF assms(1)] index_entry_def Let_def)
  qed
qed

lemma db_run_direct:
  assumes "leveldb_ok L view" "never_fails L" "txn_cache w = None"
  shows "\<exists>d. db_run L xs w = Some (w\<lparr>db := d\<rparr>) \<and>
    index_of (view d) = fold index_entry (map op_entry xs) (index_of (view (db w)))"
  using assms(3)
proof (induction xs arbitrary: w)
  case Nil
  then show ?case by (auto intro!: exI [of _ "db w"])
next
  case (Cons x xs)
  obtain r d where d: "db_step L x w = Some (r, w\<lparr>db := d\<rparr>)"
    "index_of (view d) = index_entry (op_entry x) (index_of (view (db w)))"
    using db_step_direct [OF assms(1,2) Cons.prems] by blast
  then show ?case using Cons.IH [of "w\<lparr>db := d\<rparr>"] Cons.prems by auto
qed

lemma commit_never_fails:
  assumes "never_fails L" "txnfs_cache_commit L w = Some (r, w')"
  shows "r = 0"
proof -
  obtain c bs where c: "txn_cache w = Some c" "entries_batch (cache_entries c) = Some bs"
    using assms(2) by (auto simp: txnfs_cache_commit_def abort_simps)
  obtain d' where "leveldb_write L (db w) (bs @ log_batch (txnid w)) = (None, d')"
    using assms(1) by (metis never_fails_def prod.collapse)
  with assms(2) c show ?thesis by (simp add: txnfs_cache_commit_def Let_def split: if_splits)
qed

section \<open>Properties\<close>

text \<open>A LevelDB that keeps its map in memory, for concrete evaluations.\<close>
definition map_db :: "(bytes \<rightharpoonup> bytes) leveldb" where
  "map_db = \<lparr>leveldb_get = (\<lambda>d k. Inr (d k)), leveldb_write = (\<lambda>d b. (None, apply_batch b d)),
             leveldb_put = (\<lambda>d k v. (None, d(k \<mapsto> v))), leveldb_delete = (\<lambda>d k. (None, d(k := None)))\<rparr>"

lemma map_db_ok: "leveldb_ok map_db (\<lambda>d. d)"
  by (simp add: leveldb_ok_def map_db_def)

lemma map_db_never_fails: "never_fails map_db"
  by (simp add: never_fails_def map_db_def)

definition empty_ctx :: "(bytes \<rightharpoonup> bytes) txn_ctx" where
  "empty_ctx = \<lparr>txn_cache = None, txnid = 0, next_txn_id = 1, db = Map.empty\<rparr>"

text \<open>C3. Commit is atomic: on a cache whose entries are well formed it always returns, and either
  the three indexes (UUID to handle, handle to UUID, UUID to path) are exactly the cached
  insertions and deletions applied in order, or an error is returned and the database is unchanged.
  Nothing but the database changes.\<close>
theorem cache_commit_atomic:
  assumes "leveldb_ok L view" and "txn_cache w = Some c" and "list_all entry_ok (cache_entries c)"
  shows "\<exists>r d. txnfs_cache_commit L w = Some (r, w\<lparr>db := d\<rparr>) \<and>
     (if r = 0 then index_of (view d) = fold index_entry (cache_entries c) (index_of (view (db w)))
      else view d = view (db w))"
  using assms by (rule cache_commit_spec)

theorem cache_commit_atomic_witness:
  "\<exists>d. txnfs_cache_commit map_db
          (empty_ctx\<lparr>txn_cache := Some \<lparr>cache_entries = [op_entry (DbInsert ''h'' ''u'' ''/p'')],
                                         cache_capacity = 1\<rparr>\<rparr>) =
       Some (0, (empty_ctx\<lparr>txn_cache := Some \<lparr>cache_entries = [op_entry (DbInsert ''h'' ''u'' ''/p'')],
                                         cache_capacity = 1\<rparr>\<rparr>)\<lparr>db := d\<rparr>) \<and>
       ix_handle (index_of d) = [''u'' \<mapsto> ''h'']"
proof -
  let ?c = "\<lparr>cache_entries = [op_entry (DbInsert ''h'' ''u'' ''/p'')], cache_capacity = 1\<rparr>"
  let ?w = "empty_ctx\<lparr>txn_cache := Some ?c\<rparr>"
  obtain r d where r: "txnfs_cache_commit map_db ?w = Some (r, ?w\<lparr>db := d\<rparr>)"
    "if r = 0 then index_of d = fold index_entry (cache_entries ?c) (index_of (db ?w))
     else d = db ?w"
    using cache_commit_atomic [OF map_db_ok, of ?w ?c] by (auto simp: entry_ok_def)
  moreover have "r = 0"
    using r(1) by (auto simp: txnfs_cache_commit_def map_db_def abort_simps entry_batch_def)
  ultimately show ?thesis
    by (auto simp: index_entry_def index_of_def empty_ctx_def Let_def intro!: exI [of _ d])
qed

text \<open>C9. A transaction has the effect of its operations: initialising the cache, performing
  insertions and deletions, committing and cleaning up leaves the same context and the same indexes
  as performing the operations directly on a database that accepts every write, for every sequence
  that fits the cache.\<close>
theorem transaction_equals_direct_execution:
  assumes "leveldb_ok L view" and "never_fails L" and "txn_cache w = None"
    and "length xs \<le> min n TXN_CACHE_CAP"
  shows "\<exists>w1 w2. run_txn L n xs w = Some (0, w1) \<and> db_run L xs w = Some w2 \<and>
    index_of (view (db w1)) = index_of (view (db w2)) \<and> w1\<lparr>db := db w2\<rparr> = w2"
proof -
  let ?c = "\<lparr>cache_entries = map op_entry xs, cache_capacity = min n TXN_CACHE_CAP\<rparr>"
  let ?w = "w\<lparr>txn_cache := Some ?c\<rparr>"
  have body: "txn_body L n xs w = Some ?w"
    using txn_body_cached [OF assms(3)] assms(4) by simp
  obtain d where d: "txnfs_cache_commit L ?w = Some (0, ?w\<lparr>db := d\<rparr>)"
    "index_of (view d) = fold index_entry (map op_entry xs) (index_of (view (db w)))"
    using cache_commit_spec [OF assms(1), of ?w ?c] op_entry_ok [of xs]
      commit_never_fails [OF assms(2), of ?w] by fastforce
  have "run_txn L n xs w = Some (0, w\<lparr>db := d\<rparr>)"
    using d(1) ctx_without_cache [of "w\<lparr>db := d\<rparr>"] assms(3)
    by (simp add: run_txn_def body txnfs_cache_cleanup_def)
  with d(2) db_run_direct [OF assms(1-3), of xs] show ?thesis by auto
qed

theorem transaction_equals_direct_execution_witness:
  "\<exists>w1 w2. run_txn map_db 2 [DbInsert ''h'' ''u'' ''/p'', DbDelete ''v''] empty_ctx = Some (0, w1) \<and>
     db_run map_db [DbInsert ''h'' ''u'' ''/p'', DbDelete ''v''] empty_ctx = Some w2 \<and>
     index_of (db w1) = index_of (db w2) \<and> w1\<lparr>db := db w2\<rparr> = w2"
  by (rule transaction_equals_direct_execution [OF map_db_ok map_db_never_fails])
    (simp_all add: empty_ctx_def TXN_CACHE_CAP_def)

text \<open>C21. Isolation and rollback of the handle database: the operations of a compound run to the end
  exactly when they fit the cache (the smaller of the compound's length and 256); then the database
  is untouched, and dropping the cache instead of committing gives back the context from before the
  compound.  A longer sequence writes behind the array.\<close>
theorem compound_isolated_until_commit:
  assumes "txn_cache w = None"
  shows "case txn_body L n xs w of
      Some w' \<Rightarrow> length xs \<le> min n TXN_CACHE_CAP \<and> db w' = db w \<and> txnfs_cache_cleanup w' = Some w
    | None \<Rightarrow> length xs > min n TXN_CACHE_CAP"
  using txn_body_cached [OF assms, of L n xs] assms
  by (auto simp: txnfs_cache_cleanup_def ctx_without_cache)

theorem compound_isolated_until_commit_witness:
  "(\<exists>w'. txn_body map_db 1 [DbInsert ''h'' ''u'' ''/p''] empty_ctx = Some w' \<and> txnfs_cache_cleanup w' = Some empty_ctx) \<and>
   txn_body map_db 1 [DbInsert ''h'' ''u'' ''/p'', DbInsert ''i'' ''v'' ''/q''] empty_ctx = None"
proof -
  have e: "txn_cache empty_ctx = None" by (simp add: empty_ctx_def)
  show ?thesis
    using compound_isolated_until_commit [OF e, where L = map_db and n = 1 and xs = "[DbInsert ''h'' ''u'' ''/p'']"]
      compound_isolated_until_commit [OF e, where L = map_db and n = 1 and xs = "[DbInsert ''h'' ''u'' ''/p'', DbInsert ''i'' ''v'' ''/q'']"]
    by (auto simp: TXN_CACHE_CAP_def split: option.splits)
qed

text \<open>The handles and UUIDs a sequence inserts.\<close>
fun inserted :: "db_op list \<Rightarrow> (bytes \<times> bytes) list" where
  "inserted [] = []"
| "inserted (DbInsert h u p # xs) = (h, u) # inserted xs"
| "inserted (DbDelete u # xs) = inserted xs"

lemma memcmp_full: "length a = n \<Longrightarrow> length b = n \<Longrightarrow> memcmp a b n = 0 \<longleftrightarrow> a = b"
  by (simp add: memcmp_def)

lemma cmpfh_eq: "txnfs_cache_cmpfh e h = 0 \<longleftrightarrow> ent_fh e = h"
  by (auto simp: txnfs_cache_cmpfh_def memcmp_full)

lemma cache_get_uuid_inserted:
  "txnfs_cache_get_uuid \<lparr>cache_entries = map op_entry xs, cache_capacity = n\<rparr> h = map_of (inserted xs) h"
  by (induction xs rule: inserted.induct) (auto simp: txnfs_cache_get_uuid_def cmpfh_eq)

lemma cache_get_handle_inserted:
  assumes "length u = UUID_LEN" and "\<forall>(h, v) \<in> set (inserted xs). length v = UUID_LEN"
  shows "txnfs_cache_get_handle \<lparr>cache_entries = map op_entry xs, cache_capacity = n\<rparr> u =
    map_of (map prod.swap (inserted xs)) u"
  using assms(2)
  by (induction xs rule: inserted.induct) (auto simp: txnfs_cache_get_handle_def memcmp_full assms(1))

lemma cache_get_path_misses: "txnfs_cache_get_path c u = None"
proof -
  have "find (\<lambda>e. False) es = None" for es :: "txnfs_cache_entry list" by (induction es) auto
  then show ?thesis by (simp add: txnfs_cache_get_path_def UUID_LEN_def memcmp_def)
qed

text \<open>C27. A compound sees its own insertions: while it runs, a handle it inserted is found under its
  UUID and the UUID under the handle (the first insertion wins), whatever the database holds; a
  handle it did not insert is answered by the database.\<close>
theorem compound_reads_its_writes:
  assumes "leveldb_ok L view" and "txn_cache w = None" and "txn_body L n xs w = Some w'"
    and "length u = UUID_LEN" and "\<forall>(h, v) \<in> set (inserted xs). length v = UUID_LEN"
    and "distinct (map fst (inserted xs))" and "distinct (map snd (inserted xs))"
  shows "((h, u) \<in> set (inserted xs) \<longrightarrow>
           txnfs_db_get_uuid L h w' = Some (Some u) \<and> txnfs_db_get_handle L u w' = Some (Some h)) \<and>
         (h \<notin> fst ` set (inserted xs) \<longrightarrow> txnfs_db_get_uuid L h w' = txnfs_db_get_uuid L h w) \<and>
         (u \<notin> snd ` set (inserted xs) \<longrightarrow>
           txnfs_db_get_handle L u w' = Some (ix_handle (index_of (view (db w))) u))"
proof -
  let ?c = "\<lparr>cache_entries = map op_entry xs, cache_capacity = min n TXN_CACHE_CAP\<rparr>"
  have w': "w' = w\<lparr>txn_cache := Some ?c\<rparr>"
    using txn_body_cached [OF assms(2), of L n xs] assms(3) by (auto split: if_splits)
  have "map_of (inserted xs) h = Some u" "map_of (map prod.swap (inserted xs)) u = Some h"
    if "(h, u) \<in> set (inserted xs)"
  proof -
    show "map_of (inserted xs) h = Some u" using that assms(6) by simp
    have "distinct (map fst (map prod.swap (inserted xs)))" using assms(7) by (simp add: comp_def)
    moreover have "(u, h) \<in> set (map prod.swap (inserted xs))" using that by force
    ultimately show "map_of (map prod.swap (inserted xs)) u = Some h" by simp
  qed
  moreover have "map_of (inserted xs) h = None" if "h \<notin> fst ` set (inserted xs)"
    using that by (simp add: map_of_eq_None_iff)
  moreover have "map_of (map prod.swap (inserted xs)) u = None" if "u \<notin> snd ` set (inserted xs)"
    using that by (force simp: map_of_eq_None_iff)
  ultimately show ?thesis
    using assms(2) cache_get_handle_inserted [OF assms(4,5)] leveldb_getD [OF assms(1)]
    by (auto simp: w' txnfs_db_get_uuid_def txnfs_db_get_handle_def cache_get_uuid_inserted
        txnfs_db_get_uuid_nocache_def index_of_def)
qed

theorem compound_reads_its_writes_witness:
  "let u = replicate 16 CHR ''u''; xs = [DbInsert ''h'' u ''/p''] in
   \<exists>w'. txn_body map_db 1 xs empty_ctx = Some w' \<and> txnfs_db_get_uuid map_db ''h'' w' = Some (Some u) \<and>
     txnfs_db_get_handle map_db u w' = Some (Some ''h'')"
proof -
  let ?u = "replicate 16 CHR ''u''" and ?h = "''h''"
  let ?xs = "[DbInsert ?h ?u ''/p'']"
  have e: "txn_cache empty_ctx = None" by (simp add: empty_ctx_def)
  obtain w' where w': "txn_body map_db 1 ?xs empty_ctx = Some w'"
    using txn_body_cached [OF e, of map_db 1 ?xs] by (auto simp: TXN_CACHE_CAP_def)
  show ?thesis
    using compound_reads_its_writes [OF map_db_ok e w', of ?u ?h] w' by (simp add: UUID_LEN_def)
qed

text \<open>C36. The path lookup does not see the compound's own insertions: \<open>txnfs_cache_get_path\<close> compares
  zero bytes and never finds an entry, so the answer is the committed path, and a UUID inserted by
  this compound has none.\<close>
theorem path_lookup_ignores_cache:
  assumes "leveldb_ok L view"
  shows "txnfs_db_get_path L u w = Some (ix_path (index_of (view (db w))) u)"
  using leveldb_getD [OF assms]
  by (simp add: txnfs_db_get_path_def cache_get_path_misses index_of_def Let_def split: option.splits)

theorem path_lookup_ignores_cache_witness:
  "let u = replicate 16 CHR ''u'' in
   \<exists>w'. txn_body map_db 1 [DbInsert ''h'' u ''/p''] empty_ctx = Some w' \<and>
     txnfs_db_get_path map_db u w' = Some None"
proof -
  let ?u = "replicate 16 CHR ''u''"
  have e: "txn_cache empty_ctx = None" by (simp add: empty_ctx_def)
  obtain w' where w': "txn_body map_db 1 [DbInsert ''h'' ?u ''/p''] empty_ctx = Some w'"
    "db w' = Map.empty"
    using txn_body_cached [OF e, of map_db 1 "[DbInsert ''h'' ?u ''/p'']"]
    by (auto simp: TXN_CACHE_CAP_def empty_ctx_def)
  show ?thesis
    using path_lookup_ignores_cache [OF map_db_ok, of ?u w'] w' by (simp add: index_of_def)
qed

text \<open>\<open>txnfs_db_handle_exists\<close> denies the handles of the running compound: it answers no for a
  handle that is in the cache, although the UUID lookup finds it, and what the database says
  otherwise.\<close>
theorem cached_handle_reported_absent:
  assumes "txn_cache w = Some c" and "txnfs_cache_get_uuid c h = Some u"
  shows "txnfs_db_get_uuid L h w = Some (Some u) \<and> txnfs_db_handle_exists L h w = Some False"
  using assms by (simp add: txnfs_db_get_uuid_def txnfs_db_handle_exists_def)

theorem cached_handle_reported_absent_witness:
  "let c = \<lparr>cache_entries = [op_entry (DbInsert ''h'' ''u'' ''/p'')], cache_capacity = 1\<rparr> in
   txnfs_db_handle_exists map_db ''h'' (empty_ctx\<lparr>txn_cache := Some c\<rparr>) = Some False"
  using cached_handle_reported_absent [of "empty_ctx\<lparr>txn_cache :=
      Some \<lparr>cache_entries = [op_entry (DbInsert ''h'' ''u'' ''/p'')], cache_capacity = 1\<rparr>\<rparr>"
      "\<lparr>cache_entries = [op_entry (DbInsert ''h'' ''u'' ''/p'')], cache_capacity = 1\<rparr>" "''h''" "''u''"
      map_db]
  by (simp add: txnfs_cache_get_uuid_def cmpfh_eq)

lemma log_key_distinct:
  "log_key t \<noteq> rr_key t'" "log_key t \<noteq> combine_prefix UUID_KEY_PREFIX a"
  "log_key t \<noteq> combine_prefix FH_KEY_PREFIX a" "log_key t \<noteq> combine_prefix PATH_KEY_PREFIX a"
proof -
  have len: "length (dec (unat x)) \<le> 20" for x :: u64
  proof (rule length_dec)
    have "unat x < 2 ^ 64" using unsigned_less [of x] by simp
    then show "unat x < 10 ^ 20" by simp
  qed simp
  have "length (rr_key t') = 25" using len [of t'] by (simp add: rr_key_def Let_def)
  moreover have "length (log_key t) \<le> 24" using len [of t] by (simp add: log_key_def)
  ultimately show "log_key t \<noteq> rr_key t'" by auto
qed (simp_all add: log_key_def key_defs)

lemma entry_batch_keeps_log:
  "entry_batch e = Some b \<Longrightarrow> apply_batch b m (log_key t) = m (log_key t)"
  using log_key_distinct [of t]
  by (cases "ent_type e") (auto simp: entry_batch_def Let_def c_assert_def split: if_splits)

lemma entries_batch_keeps_log:
  "entries_batch es = Some b \<Longrightarrow> apply_batch b m (log_key t) = m (log_key t)"
proof (induction es arbitrary: b m)
  case Nil
  then show ?case by simp
next
  case (Cons e es)
  then obtain be bs where "entry_batch e = Some be" "entries_batch es = Some bs" "b = be @ bs"
    by (auto simp: abort_simps)
  then show ?case using Cons.IH [of bs] entry_batch_keeps_log [of e be] by simp
qed

text \<open>C37. A transaction's log record outlives its commit: the commit deletes the 25-byte buffer
  \<open>rr_key\<close>, the record was written under the exact string, so after a compound that created a log
  record and committed, the record is still in the database.\<close>
theorem txn_log_survives_commit:
  assumes "leveldb_ok L view" and "create_txn_log L serialize args w = (t, w1)" and "t \<noteq> 0"
    and "txnfs_cache_init n (w1\<lparr>txnid := t\<rparr>) = Some w2" and "db_run L xs w2 = Some w3"
    and "txnfs_cache_commit L w3 = Some (r, w4)"
  shows "view (db w4) (log_key t) = serialize (get_txn_type args) t \<and> view (db w4) (log_key t) \<noteq> None"
proof -
  obtain val d where val: "serialize (get_txn_type args) t = Some val"
    and put: "leveldb_put L (db w) (log_key t) val = (None, d)" and w1: "db w1 = d"
    using assms(2,3) by (auto simp: create_txn_log_def Let_def split: if_splits option.splits prod.splits)
  have "view (db w1) (log_key t) = Some val"
    using leveldb_putD [OF assms(1) put] w1 by simp
  moreover have "db w3 = db w1"
    using assms(4,5) db_run_cached [of w2 _ L xs]
    by (auto simp: txnfs_cache_init_def split: if_splits)
  moreover have "view (db w4) (log_key t) = view (db w3) (log_key t)"
  proof -
    obtain c bs where c: "txn_cache w3 = Some c" "entries_batch (cache_entries c) = Some bs"
      using assms(6) by (auto simp: txnfs_cache_commit_def abort_simps)
    obtain err d' where wr: "leveldb_write L (db w3) (bs @ log_batch (txnid w3)) = (err, d')"
      by (metis surj_pair)
    have "apply_batch (log_batch (txnid w3)) m (log_key t) = m (log_key t)" for m
      using log_key_distinct(1) by (simp add: log_batch_def)
    then show ?thesis
      using assms(6) c wr leveldb_writeD [OF assms(1) wr] entries_batch_keeps_log [OF c(2)]
      by (auto simp: txnfs_cache_commit_def Let_def split: if_splits)
  qed
  ultimately show ?thesis using val by simp
qed

theorem txn_log_survives_commit_witness:
  "let (t, w1) = create_txn_log map_db (\<lambda>ty t. Some ''rec'') [ARG_CREATE ''f'' :: unit nfs_argop4] empty_ctx in
   t = 1 \<and> (\<exists>w2 w3 w4. txnfs_cache_init 1 (w1\<lparr>txnid := t\<rparr>) = Some w2 \<and>
     db_run map_db [DbInsert ''h'' ''u'' ''/f''] w2 = Some w3 \<and>
     txnfs_cache_commit map_db w3 = Some (0, w4) \<and> db w4 (log_key 1) = Some ''rec'')"
proof -
  let ?args = "[ARG_CREATE ''f'' :: unit nfs_argop4]" and ?ser = "\<lambda>ty (t :: u64). Some ''rec''"
  let ?w1 = "empty_ctx\<lparr>next_txn_id := 2, db := [log_key 1 \<mapsto> ''rec'']\<rparr>"
  have cr: "create_txn_log map_db ?ser ?args empty_ctx = (1, ?w1)"
    by (simp add: create_txn_log_def empty_ctx_def map_db_def)
  obtain w2 where w2: "txnfs_cache_init 1 (?w1\<lparr>txnid := 1\<rparr>) = Some w2"
    by (simp add: txnfs_cache_init_def empty_ctx_def)
  obtain w3 where w3: "db_run map_db [DbInsert ''h'' ''u'' ''/f''] w2 = Some w3"
    "list_all entry_ok (cache_entries (the (txn_cache w3)))" "txn_cache w3 \<noteq> None"
    using w2 db_run_cached [of w2 "\<lparr>cache_entries = [], cache_capacity = 1\<rparr>" map_db
        "[DbInsert ''h'' ''u'' ''/f'']"]
    by (auto simp: txnfs_cache_init_def entry_ok_def TXN_CACHE_CAP_def
        simp del: db_run.simps split: if_splits)
  obtain r w4 where w4: "txnfs_cache_commit map_db w3 = Some (r, w4)"
    using cache_commit_spec [OF map_db_ok, of w3 "the (txn_cache w3)"] w3 by auto
  have "r = 0" using commit_never_fails [OF map_db_never_fails w4] .
  then show ?thesis
    using txn_log_survives_commit [OF map_db_ok cr _ w2 w3(1) w4] cr w2 w3(1) w4 by auto
qed

end
