(* ===== verification/Txn_Opvec.thy ===== *)
theory Txn_Opvec
  imports Nfs4_Types
begin

text \<open>
  The operation vector of the rollback executor (\<open>FSAL_TXN/opvec.c\<close>, \<open>opvec.h\<close>): a growing array
  of descriptors of the state-changing operations a compound has completed.  \<open>opvec_init\<close>,
  \<open>opvec_push\<close> and \<open>opvec_destroy\<close> are translated one to one; \<open>opvec_iter_back\<close> is the list of
  descriptors the macro of the same name visits.  The counters are \<open>unsigned int\<close> and wrap around.  Array
  slots that were allocated and not yet written are \<open>None\<close>; a store outside of the array aborts.
\<close>

record ('arg, 'res, 'h) op_desc =
  od_opidx :: nat
  od_opcode :: nfs_opnum4
  od_arg :: 'arg
  od_res :: 'res
  od_cwh :: "'h option"
  od_savedh :: "'h option"

record ('arg, 'res, 'h) op_vector =
  vec_v :: "('arg, 'res, 'h) op_desc option list"
  vec_txnid :: u64
  vec_len :: u32
  vec_max :: u32
  vec_op :: nfs_opnum4

definition VEC_INIT_SIZE :: u32 where
  "VEC_INIT_SIZE = 16"

definition opvec_init :: "u64 \<Rightarrow> ('arg, 'res, 'h) op_vector" where
  "opvec_init txnid =
     \<lparr>vec_v = replicate (unat VEC_INIT_SIZE) None, vec_txnid = txnid, vec_len = 0,
      vec_max = VEC_INIT_SIZE, vec_op = 0\<rparr>"

text \<open>\<open>gsh_realloc\<close> to \<open>n\<close> descriptors.\<close>
definition vec_realloc :: "nat \<Rightarrow> 'd option list \<Rightarrow> 'd option list" where
  "vec_realloc n v = take n v @ replicate (n - length v) None"

definition opvec_push ::
  "('arg, 'res, 'h) op_vector \<Rightarrow> nat \<Rightarrow> nfs_opnum4 \<Rightarrow> 'arg \<Rightarrow> 'res \<Rightarrow> 'h option \<Rightarrow> 'h option
    \<Rightarrow> (fsal_errors_t \<times> ('arg, 'res, 'h) op_vector) option"
where
  "opvec_push vec idx op a r current saved = do {
     let vec = (if vec_op vec = 0 then vec\<lparr>vec_op := op\<rparr> else vec);
     if op \<noteq> vec_op vec then Some (ERR_FSAL_BADTYPE, vec)
     else do {
       let vec = (if vec_len vec = vec_max vec
                  then vec\<lparr>vec_v := vec_realloc (unat (2 * vec_max vec)) (vec_v vec),
                           vec_max := 2 * vec_max vec\<rparr>
                  else vec);
       let d = \<lparr>od_opidx = idx, od_opcode = op, od_arg = a, od_res = r, od_cwh = current, od_savedh = saved\<rparr>;
       c_assert (unat (vec_len vec) < length (vec_v vec));
       Some (ERR_FSAL_NO_ERROR,
             vec\<lparr>vec_v := (vec_v vec)[unat (vec_len vec) := Some d], vec_len := vec_len vec + 1\<rparr>) } }"

definition opvec_destroy :: "('arg, 'res, 'h) op_vector \<Rightarrow> ('arg, 'res, 'h) op_vector" where
  "opvec_destroy vec = vec\<lparr>vec_len := 0, vec_max := 0, vec_v := [], vec_op := - 1\<rparr>"

text \<open>The descriptors that \<open>opvec_iter\<close> and \<open>opvec_iter_back\<close> visit, in order.\<close>
definition opvec_iter :: "('arg, 'res, 'h) op_vector \<Rightarrow> ('arg, 'res, 'h) op_desc option list" where
  "opvec_iter vec = take (unat (vec_len vec)) (vec_v vec)"

definition opvec_iter_back :: "('arg, 'res, 'h) op_vector \<Rightarrow> ('arg, 'res, 'h) op_desc option list"
where
  "opvec_iter_back vec = rev (take (unat (vec_len vec)) (vec_v vec))"

section \<open>Invariant and contents\<close>

definition opvec_ok :: "('arg, 'res, 'h) op_vector \<Rightarrow> bool" where
  "opvec_ok vec \<longleftrightarrow>
     length (vec_v vec) = unat (vec_max vec) \<and> unat (vec_len vec) \<le> unat (vec_max vec) \<and> 0 < unat (vec_max vec) \<and>
     (vec_op vec = 0 \<longrightarrow> vec_len vec = 0)"

text \<open>A sequence of pushes, as the loop of the rollback executor makes them; it stops at the first push
  that fails.\<close>
fun opvec_push_all ::
  "('arg, 'res, 'h) op_vector \<Rightarrow> ('arg, 'res, 'h) op_desc list
    \<Rightarrow> (fsal_errors_t \<times> ('arg, 'res, 'h) op_vector) option"
where
  "opvec_push_all vec [] = Some (ERR_FSAL_NO_ERROR, vec)"
| "opvec_push_all vec (d # ds) = do {
     (e, vec) \<leftarrow> opvec_push vec (od_opidx d) (od_opcode d) (od_arg d) (od_res d) (od_cwh d) (od_savedh d);
     if e = ERR_FSAL_NO_ERROR then opvec_push_all vec ds else Some (e, vec) }"

lemma opvec_init_ok [simp]: "opvec_ok (opvec_init t)"
  by (simp add: opvec_ok_def opvec_init_def VEC_INIT_SIZE_def)

lemma opvec_iter_init [simp]: "opvec_iter (opvec_init t) = []"
  by (simp add: opvec_init_def opvec_iter_def)

lemma opvec_init_fields [simp]:
  "vec_op (opvec_init t) = 0" "vec_len (opvec_init t) = 0" "vec_max (opvec_init t) = 16"
  by (simp_all add: opvec_init_def VEC_INIT_SIZE_def)

lemma opvec_push_refused:
  "vec_op vec \<noteq> 0 \<Longrightarrow> op \<noteq> vec_op vec \<Longrightarrow> opvec_push vec i op a r c s = Some (ERR_FSAL_BADTYPE, vec)"
  by (simp add: opvec_push_def)

text \<open>A push of the vector's own kind: below two thousand million descriptors no counter wraps around.\<close>
lemma opvec_push_recorded:
  assumes "opvec_ok vec" "vec_op vec = 0 \<or> vec_op vec = op" "op \<noteq> 0" "unat (vec_len vec) < 2 ^ 31 - 1"
  shows "\<exists>vec'. opvec_push vec i op a r c s = Some (ERR_FSAL_NO_ERROR, vec') \<and> opvec_ok vec' \<and> vec_op vec' = op \<and>
    opvec_iter vec' = opvec_iter vec @
      [Some \<lparr>od_opidx = i, od_opcode = op, od_arg = a, od_res = r, od_cwh = c, od_savedh = s\<rparr>] \<and>
    unat (vec_len vec') = Suc (unat (vec_len vec)) \<and>
    unat (vec_max vec') \<le> max (unat (vec_max vec)) (2 * unat (vec_len vec))"
proof -
  have l: "unat (vec_len vec + 1) = Suc (unat (vec_len vec))" using assms(4) by (simp add: unat_word_ariths)
  have m: "unat (2 * vec_max vec) = 2 * unat (vec_max vec)" if "vec_len vec = vec_max vec"
    using assms(4) that by (simp add: unat_word_ariths)
  show ?thesis
  proof (cases "vec_len vec = vec_max vec")
    case True
    then show ?thesis using assms(1-3) l m [OF True]
      by (auto simp: opvec_push_def opvec_ok_def opvec_iter_def vec_realloc_def take_Suc_conv_app_nth)
  next
    case False
    then have "unat (vec_len vec) < unat (vec_max vec)"
      using assms(1) by (metis le_neq_implies_less opvec_ok_def word_unat_eq_iff)
    then show ?thesis using assms(1-3) l False
      by (auto simp: opvec_push_def opvec_ok_def opvec_iter_def take_Suc_conv_app_nth)
  qed
qed

text \<open>The descriptors of one kind at the start of a sequence.\<close>
definition of_kind :: "nfs_opnum4 \<Rightarrow> ('arg, 'res, 'h) op_desc list \<Rightarrow> ('arg, 'res, 'h) op_desc list" where
  "of_kind op ds = takeWhile (\<lambda>d. od_opcode d = op) ds"

lemma opvec_push_all_spec:
  assumes "opvec_ok vec" "op \<noteq> 0" "vec_op vec = op \<or> vec_op vec = 0 \<and> ds \<noteq> [] \<and> od_opcode (hd ds) = op"
    and "unat (vec_len vec) + length ds < 2 ^ 31"
  shows "\<exists>vec'. opvec_push_all vec ds =
      Some (if of_kind op ds = ds then ERR_FSAL_NO_ERROR else ERR_FSAL_BADTYPE, vec') \<and>
    opvec_ok vec' \<and> vec_op vec' = op \<and> opvec_iter vec' = opvec_iter vec @ map Some (of_kind op ds) \<and>
    unat (vec_len vec') = unat (vec_len vec) + length (of_kind op ds) \<and>
    unat (vec_max vec') \<le> max (unat (vec_max vec)) (2 * unat (vec_len vec'))"
  using assms
proof (induction ds arbitrary: vec)
  case Nil
  then show ?case by (simp add: of_kind_def)
next
  case (Cons d ds)
  show ?case
  proof (cases "od_opcode d = op")
    case False
    then show ?thesis using Cons.prems opvec_push_refused [of vec "od_opcode d"] by (auto simp: of_kind_def)
  next
    case True
    obtain vec1 where p: "opvec_push vec (od_opidx d) op (od_arg d) (od_res d) (od_cwh d) (od_savedh d) =
        Some (ERR_FSAL_NO_ERROR, vec1)" "opvec_ok vec1" "vec_op vec1 = op"
        "opvec_iter vec1 = opvec_iter vec @ [Some \<lparr>od_opidx = od_opidx d, od_opcode = op, od_arg = od_arg d,
           od_res = od_res d, od_cwh = od_cwh d, od_savedh = od_savedh d\<rparr>]"
        "unat (vec_len vec1) = Suc (unat (vec_len vec))"
        "unat (vec_max vec1) \<le> max (unat (vec_max vec)) (2 * unat (vec_len vec))"
      using opvec_push_recorded [OF Cons.prems(1) _ Cons.prems(2)] Cons.prems(3,4) by fastforce
    have d: "\<lparr>od_opidx = od_opidx d, od_opcode = op, od_arg = od_arg d, od_res = od_res d, od_cwh = od_cwh d,
        od_savedh = od_savedh d\<rparr> = d" using True by simp
    have k: "of_kind op (d # ds) = d # of_kind op ds" using True by (simp add: of_kind_def)
    obtain vec' where IH: "opvec_push_all vec1 ds =
        Some (if of_kind op ds = ds then ERR_FSAL_NO_ERROR else ERR_FSAL_BADTYPE, vec')" "opvec_ok vec'" "vec_op vec' = op"
        "opvec_iter vec' = opvec_iter vec1 @ map Some (of_kind op ds)"
        "unat (vec_len vec') = unat (vec_len vec1) + length (of_kind op ds)"
        "unat (vec_max vec') \<le> max (unat (vec_max vec1)) (2 * unat (vec_len vec'))"
      using Cons.IH [OF p(2) Cons.prems(2) disjI1 [OF p(3)]] Cons.prems(4) p(5) by auto
    have "unat (vec_max vec') \<le> max (unat (vec_max vec)) (2 * unat (vec_len vec'))"
      using IH(5,6) p(5,6) by linarith
    then show ?thesis using IH p(1,4,5) True k d by (intro exI [of _ vec']) simp
  qed
qed

text \<open>C28. Recording a sequence of operations in a fresh vector records exactly those before the first one
  of another kind, and succeeds when there is none; otherwise it stops there with \<open>ERR_FSAL_BADTYPE\<close>.
  The reverse iteration the undoers use visits the recorded descriptors once each, the last one first,
  every store is inside the allocated array, which is never larger than the initial sixteen slots or twice
  the number of recorded operations, and a further push of another kind is refused and changes nothing.\<close>
theorem opvec_records_homogeneous_compound:
  fixes ds :: "('arg, 'res, 'h) op_desc list"
  assumes "ds \<noteq> []" "od_opcode (hd ds) = op" "op \<noteq> 0" "length ds < 2 ^ 31"
  shows "\<exists>vec. opvec_push_all (opvec_init t) ds =
      Some (if \<forall>d \<in> set ds. od_opcode d = op then ERR_FSAL_NO_ERROR else ERR_FSAL_BADTYPE, vec) \<and>
    opvec_iter_back vec = map Some (rev (takeWhile (\<lambda>d. od_opcode d = op) ds)) \<and>
    length (vec_v vec) = unat (vec_max vec) \<and> unat (vec_len vec) \<le> unat (vec_max vec) \<and>
    unat (vec_max vec) \<le> max 16 (2 * unat (vec_len vec)) \<and>
    (\<forall>i op' a r c s. op' \<noteq> op \<longrightarrow> opvec_push vec i op' a r c s = Some (ERR_FSAL_BADTYPE, vec))"
proof -
  have s: "vec_op (opvec_init t :: ('arg, 'res, 'h) op_vector) = op \<or>
      vec_op (opvec_init t :: ('arg, 'res, 'h) op_vector) = 0 \<and> ds \<noteq> [] \<and> od_opcode (hd ds) = op"
    "unat (vec_len (opvec_init t :: ('arg, 'res, 'h) op_vector)) + length ds < 2 ^ 31"
    using assms by simp_all
  obtain vec where v: "opvec_push_all (opvec_init t) ds =
      Some (if of_kind op ds = ds then ERR_FSAL_NO_ERROR else ERR_FSAL_BADTYPE, vec)" "opvec_ok vec" "vec_op vec = op"
      "opvec_iter vec = map Some (of_kind op ds)" "unat (vec_max vec) \<le> max 16 (2 * unat (vec_len vec))"
    using opvec_push_all_spec [OF opvec_init_ok assms(3) s] by auto
  have "of_kind op ds = ds \<longleftrightarrow> (\<forall>d \<in> set ds. od_opcode d = op)"
    by (simp add: of_kind_def takeWhile_eq_all_conv)
  moreover have "opvec_iter_back vec = rev (opvec_iter vec)" by (simp add: opvec_iter_def opvec_iter_back_def)
  ultimately show ?thesis using v opvec_push_refused [of vec] assms(3)
    by (intro exI [of _ vec]) (simp add: of_kind_def rev_map opvec_ok_def)
qed

definition sample_desc :: "nat \<Rightarrow> nfs_opnum4 \<Rightarrow> (unit, unit, unit) op_desc" where
  "sample_desc i op = \<lparr>od_opidx = i, od_opcode = op, od_arg = (), od_res = (), od_cwh = None, od_savedh = None\<rparr>"

theorem opvec_records_homogeneous_compound_witness:
  "(\<exists>vec. opvec_push_all (opvec_init 7) [sample_desc 1 6, sample_desc 3 6] = Some (ERR_FSAL_NO_ERROR, vec) \<and>
      opvec_iter_back vec = [Some (sample_desc 3 6), Some (sample_desc 1 6)]) \<and>
   (\<exists>vec. opvec_push_all (opvec_init 7) [sample_desc 1 6, sample_desc 3 38] = Some (ERR_FSAL_BADTYPE, vec) \<and>
      opvec_iter_back vec = [Some (sample_desc 1 6)] \<and>
      opvec_push vec 4 38 () () None None = Some (ERR_FSAL_BADTYPE, vec))"
proof -
  have k: "od_opcode (sample_desc i op) = op" for i op by (simp add: sample_desc_def)
  show ?thesis
    using opvec_records_homogeneous_compound [of "[sample_desc 1 6, sample_desc 3 6]" 6 7]
      opvec_records_homogeneous_compound [of "[sample_desc 1 6, sample_desc 3 38]" 6 7]
    by (auto simp: k)
qed

end
