(* ===== verification/Txn_Cleanup_Queue.thy ===== *)
theory Txn_Cleanup_Queue
  imports Ganesha_Prelude
begin

text \<open>
  The circular queue of finished transactions whose backup folders have to be removed
  (\<open>FSAL_TXN/cleanup.c\<close>, \<open>cleanup.h\<close>).  The array is a list of length \<open>q_capacity\<close>; the result
  of \<open>pthread_spin_init\<close> and \<open>pthread_spin_lock\<close> is an argument, so that the error returns of the
  source are branches of the model.  A read outside the array is the abort value \<open>None\<close>.

  The interface \<open>bounded_fifo\<close> states what the producers (the end of every compound) and the
  consumer (the backup worker thread) rely on; it is interpreted on \<open>cleanup_push_txnid\<close> and
  \<open>cleanup_pop_many\<close>.
\<close>

section \<open>The queue operations\<close>

record 'h cleanup_arg =
  ca_txnid :: u64
  ca_bkp_folder :: "'h option"

record 'h cleanup_queue =
  q_vec :: "'h cleanup_arg list"
  q_head :: nat
  q_tail :: nat
  q_size :: nat
  q_capacity :: nat

abbreviation ENOSPC :: int where "ENOSPC \<equiv> 28"
abbreviation ENODATA :: int where "ENODATA \<equiv> 61"

definition cleanup_queue_init :: "int \<Rightarrow> nat \<Rightarrow> int \<times> 'h cleanup_queue" where
  "cleanup_queue_init spin_init capacity =
     (let q = \<lparr>q_vec = replicate capacity \<lparr>ca_txnid = 0, ca_bkp_folder = None\<rparr>,
               q_head = 0, q_tail = 0, q_size = 0, q_capacity = capacity\<rparr>
      in if spin_init \<noteq> 0 then (spin_init, q\<lparr>q_vec := [], q_capacity := 0\<rparr>)
         else (0, q))"

definition cleanup_push_txnid ::
  "int \<Rightarrow> 'h cleanup_queue \<Rightarrow> u64 \<Rightarrow> 'h option \<Rightarrow> int \<times> 'h cleanup_queue"
where
  "cleanup_push_txnid spin_lock q txnid bkp_folder =
     (if spin_lock \<noteq> 0 then (spin_lock, q)
      else if q_size q \<ge> q_capacity q then (ENOSPC, q)
      else (0, q\<lparr>q_vec := (q_vec q)[q_head q := \<lparr>ca_txnid = txnid, ca_bkp_folder = bkp_folder\<rparr>],
                 q_head := (q_head q + 1) mod q_capacity q,
                 q_size := q_size q + 1\<rparr>))"

definition cleanup_pop_txnid ::
  "int \<Rightarrow> 'h cleanup_queue \<Rightarrow> (int \<times> 'h cleanup_arg option \<times> 'h cleanup_queue) option"
where
  "cleanup_pop_txnid spin_lock q =
     (if spin_lock \<noteq> 0 then Some (spin_lock, None, q)
      else if q_size q = 0 then Some (ENODATA, None, q)
      else if q_tail q < length (q_vec q)
      then Some (0, Some (q_vec q ! q_tail q),
                 q\<lparr>q_tail := q_tail q + (q_tail q + 1) mod q_capacity q,
                   q_size := q_size q - 1\<rparr>)
      else None)"

text \<open>The loop of \<open>cleanup_pop_many\<close>; the entries moved to the caller's buffer, in order.\<close>
fun pop_many_loop ::
  "nat \<Rightarrow> 'h cleanup_queue \<Rightarrow> ('h cleanup_arg list \<times> 'h cleanup_queue) option"
where
  "pop_many_loop 0 q = Some ([], q)"
| "pop_many_loop (Suc remaining) q =
     (if q_size q > 0
      then if q_tail q < length (q_vec q)
           then map_option (\<lambda>(xs, q'). (q_vec q ! q_tail q # xs, q'))
                  (pop_many_loop remaining
                     (q\<lparr>q_tail := (q_tail q + 1) mod q_capacity q, q_size := q_size q - 1\<rparr>))
           else None
      else Some ([], q))"

definition cleanup_pop_many ::
  "int \<Rightarrow> 'h cleanup_queue \<Rightarrow> nat \<Rightarrow> (int \<times> 'h cleanup_arg list \<times> 'h cleanup_queue) option"
where
  "cleanup_pop_many spin_lock q num =
     (if spin_lock \<noteq> 0 then Some (- spin_lock, [], q)
      else map_option (\<lambda>(xs, q'). (int (length xs), xs, q')) (pop_many_loop num q))"

definition cleanup_queue_destroy :: "'h cleanup_queue \<Rightarrow> 'h cleanup_queue" where
  "cleanup_queue_destroy q = q\<lparr>q_vec := [], q_capacity := 0\<rparr>"

section \<open>Interface: a bounded first-in first-out queue\<close>

datatype 'a queue_event = Push 'a | Pop nat

text \<open>Producers and the consumer in any order.  The result lists the entries that were accepted,
  those that were handed out, and the queue that is left.\<close>
fun queue_run ::
  "('q \<Rightarrow> 'a \<Rightarrow> 'q option) \<Rightarrow> (nat \<Rightarrow> 'q \<Rightarrow> 'a list \<times> 'q) \<Rightarrow> 'q \<Rightarrow> 'a queue_event list
    \<Rightarrow> 'a list \<times> 'a list \<times> 'q"
where
  "queue_run push pop q [] = ([], [], q)"
| "queue_run push pop q (Push x # evs) =
    (case push q x of
       None \<Rightarrow> queue_run push pop q evs
     | Some q' \<Rightarrow> (case queue_run push pop q' evs of (acc, out, q'') \<Rightarrow> (x # acc, out, q'')))"
| "queue_run push pop q (Pop n # evs) =
    (case pop n q of
       (xs, q') \<Rightarrow> (case queue_run push pop q' evs of (acc, out, q'') \<Rightarrow> (acc, xs @ out, q'')))"

locale bounded_fifo =
  fixes push :: "'q \<Rightarrow> 'a \<Rightarrow> 'q option"
    and pop :: "nat \<Rightarrow> 'q \<Rightarrow> 'a list \<times> 'q"
    and contents :: "'q \<Rightarrow> 'a list"
    and capacity :: "'q \<Rightarrow> nat"
    and invar :: "'q \<Rightarrow> bool"
  assumes push_full: "invar q \<Longrightarrow> capacity q \<le> length (contents q) \<Longrightarrow> push q x = None"
    and push_room: "invar q \<Longrightarrow> length (contents q) < capacity q \<Longrightarrow>
      \<exists>q'. push q x = Some q' \<and> invar q' \<and> contents q' = contents q @ [x] \<and>
           capacity q' = capacity q"
    and pop_takes: "invar q \<Longrightarrow> pop n q = (xs, q') \<Longrightarrow>
      invar q' \<and> xs = take n (contents q) \<and> contents q' = drop n (contents q) \<and>
      capacity q' = capacity q"
    and within_capacity: "invar q \<Longrightarrow> length (contents q) \<le> capacity q"
begin

lemma push_cases:
  assumes "invar q"
  obtains (full) "push q x = None" "length (contents q) = capacity q"
    | (room) q' where "push q x = Some q'" "invar q'" "contents q' = contents q @ [x]"
        "capacity q' = capacity q"
proof (cases "length (contents q) < capacity q")
  case True
  then show ?thesis using push_room [OF assms, of x] room by blast
next
  case False
  then show ?thesis using push_full [OF assms, of x] within_capacity [OF assms] full by simp
qed

lemma run_fifo:
  assumes "invar q" and "queue_run push pop q evs = (acc, out, q')"
  shows "invar q' \<and> contents q @ acc = out @ contents q' \<and> capacity q' = capacity q"
  using assms
proof (induction evs arbitrary: q acc out)
  case Nil
  then show ?case by simp
next
  case (Cons ev evs)
  show ?case
  proof (cases ev)
    case (Push x)
    show ?thesis
      using \<open>invar q\<close>
    proof (cases rule: push_cases [where x = x])
      case full
      with Push Cons.prems(2) Cons.IH [OF Cons.prems(1)] show ?thesis by simp
    next
      case (room q1)
      from Push Cons.prems(2) room(1) obtain acc1 where
        "queue_run push pop q1 evs = (acc1, out, q')" "acc = x # acc1"
        by (auto split: prod.splits)
      with Cons.IH [OF room(2)] room(3,4) show ?thesis by force
    qed
  next
    case (Pop n)
    obtain xs q1 where p: "pop n q = (xs, q1)" by (metis surj_pair)
    note t = pop_takes [OF Cons.prems(1) p]
    from Pop Cons.prems(2) p obtain out1 where
      "queue_run push pop q1 evs = (acc, out1, q')" "out = xs @ out1"
      by (auto split: prod.splits)
    with Cons.IH [of q1 acc out1] t show ?thesis
      by (metis append.assoc append_take_drop_id)
  qed
qed

end

section \<open>The circular queue implements the interface\<close>

definition cq_ok :: "'h cleanup_queue \<Rightarrow> bool" where
  "cq_ok q \<longleftrightarrow> length (q_vec q) = q_capacity q \<and> 0 < q_capacity q \<and> q_tail q < q_capacity q \<and>
     q_size q \<le> q_capacity q \<and> q_head q = (q_tail q + q_size q) mod q_capacity q"

definition cq_contents :: "'h cleanup_queue \<Rightarrow> 'h cleanup_arg list" where
  "cq_contents q = map (\<lambda>i. q_vec q ! ((q_tail q + i) mod q_capacity q)) [0..<q_size q]"

definition cq_push :: "'h cleanup_queue \<Rightarrow> 'h cleanup_arg \<Rightarrow> 'h cleanup_queue option" where
  "cq_push q a = (case cleanup_push_txnid 0 q (ca_txnid a) (ca_bkp_folder a) of
     (err, q') \<Rightarrow> if err = 0 then Some q' else None)"

definition cq_pop :: "nat \<Rightarrow> 'h cleanup_queue \<Rightarrow> 'h cleanup_arg list \<times> 'h cleanup_queue" where
  "cq_pop n q = (case cleanup_pop_many 0 q n of Some (_, xs, q') \<Rightarrow> (xs, q') | None \<Rightarrow> ([], q))"

lemma length_cq_contents [simp]: "length (cq_contents q) = q_size q"
  by (simp add: cq_contents_def)

lemma cleanup_queue_init_ok:
  "0 < c \<Longrightarrow> cq_ok (snd (cleanup_queue_init 0 c)) \<and> cq_contents (snd (cleanup_queue_init 0 c)) = []"
  by (simp add: cleanup_queue_init_def cq_ok_def cq_contents_def)

lemma mod_window_inj:
  fixes t c i j :: nat
  assumes "i < j" "j < c"
  shows "(t + i) mod c \<noteq> (t + j) mod c"
proof
  assume "(t + i) mod c = (t + j) mod c"
  then have "c dvd (t + j) - (t + i)"
    by (metis mod_eq_dvd_iff_nat add_le_cancel_left assms(1) less_imp_le)
  then have "c dvd j - i" by simp
  moreover have "0 < j - i" "j - i < c" using assms by auto
  ultimately show False by (meson nat_dvd_not_less)
qed

lemma mod_window_step:
  fixes t c s :: nat
  assumes "0 < s"
  shows "((t + 1) mod c + (s - 1)) mod c = (t + s) mod c"
proof -
  have "((t + 1) mod c + (s - 1)) mod c = (t + 1 + (s - 1)) mod c"
    by (rule mod_add_left_eq)
  then show ?thesis using assms by simp
qed

lemma cq_push_spec:
  assumes "cq_ok q" and "q_size q < q_capacity q"
    and "cleanup_push_txnid 0 q t b = (err, q')"
  shows "err = 0 \<and> cq_ok q' \<and> q_capacity q' = q_capacity q \<and>
    cq_contents q' = cq_contents q @ [\<lparr>ca_txnid = t, ca_bkp_folder = b\<rparr>]"
proof -
  let ?c = "q_capacity q" and ?a = "\<lparr>ca_txnid = t, ca_bkp_folder = b\<rparr>"
  from assms have q': "q' = q\<lparr>q_vec := (q_vec q)[q_head q := ?a],
      q_head := (q_head q + 1) mod ?c, q_size := q_size q + 1\<rparr>" and err: "err = 0"
    by (auto simp: cleanup_push_txnid_def)
  have hd: "q_head q = (q_tail q + q_size q) mod ?c" and c: "0 < ?c" "length (q_vec q) = ?c"
    using assms(1) by (auto simp: cq_ok_def)
  have "cq_ok q'"
    using assms(1,2) q' by (auto simp: cq_ok_def mod_Suc_eq)
  moreover have "cq_contents q' = cq_contents q @ [?a]"
  proof -
    have "(q_vec q)[q_head q := ?a] ! ((q_tail q + i) mod ?c) = q_vec q ! ((q_tail q + i) mod ?c)"
      if "i < q_size q" for i
      using mod_window_inj [OF that assms(2), of "q_tail q"] hd by simp
    moreover have "(q_vec q)[q_head q := ?a] ! ((q_tail q + q_size q) mod ?c) = ?a"
      using hd c by simp
    ultimately show ?thesis using q' by (simp add: cq_contents_def)
  qed
  ultimately show ?thesis using err q' by simp
qed

lemma cq_contents_step:
  assumes "cq_ok q" and "0 < q_size q"
  shows "cq_contents q = q_vec q ! q_tail q #
    cq_contents (q\<lparr>q_tail := (q_tail q + 1) mod q_capacity q, q_size := q_size q - 1\<rparr>)"
proof -
  have "[0..<q_size q] = 0 # map Suc [0..<q_size q - 1]"
    using assms(2) by (metis Suc_pred' map_Suc_upt upt_conv_Cons)
  then show ?thesis
    using assms by (simp add: cq_contents_def cq_ok_def mod_add_left_eq mod_simps)
qed

lemma cq_ok_step:
  assumes "cq_ok q" and "0 < q_size q"
  shows "cq_ok (q\<lparr>q_tail := (q_tail q + 1) mod q_capacity q, q_size := q_size q - 1\<rparr>)"
  using assms mod_window_step [of "q_size q" "q_tail q" "q_capacity q"] by (auto simp: cq_ok_def)

lemma pop_many_loop_spec:
  "cq_ok q \<Longrightarrow> \<exists>q'. pop_many_loop n q = Some (take n (cq_contents q), q') \<and> cq_ok q' \<and>
     cq_contents q' = drop n (cq_contents q) \<and> q_capacity q' = q_capacity q"
proof (induction n arbitrary: q)
  case 0
  then show ?case by simp
next
  case (Suc n)
  show ?case
  proof (cases "0 < q_size q")
    case False
    then have "cq_contents q = []" by (simp add: cq_contents_def)
    with False Suc.prems show ?thesis by simp
  next
    case True
    let ?q = "q\<lparr>q_tail := (q_tail q + 1) mod q_capacity q, q_size := q_size q - 1\<rparr>"
    obtain q' where "pop_many_loop n ?q = Some (take n (cq_contents ?q), q')" "cq_ok q'"
      "cq_contents q' = drop n (cq_contents ?q)" "q_capacity q' = q_capacity q"
      using Suc.IH [OF cq_ok_step [OF Suc.prems True]] by auto
    moreover have "q_tail q < length (q_vec q)" using Suc.prems by (simp add: cq_ok_def)
    ultimately show ?thesis
      using True cq_contents_step [OF Suc.prems True] by simp
  qed
qed

lemma cleanup_pop_many_total:
  "cq_ok q \<Longrightarrow> \<exists>q'. cleanup_pop_many 0 q n =
     Some (int (length (take n (cq_contents q))), take n (cq_contents q), q') \<and> cq_ok q' \<and>
     cq_contents q' = drop n (cq_contents q) \<and> q_capacity q' = q_capacity q"
  using pop_many_loop_spec [of q n] by (auto simp: cleanup_pop_many_def)

interpretation cq: bounded_fifo cq_push cq_pop cq_contents q_capacity cq_ok
proof unfold_locales
  fix q :: "'h cleanup_queue" and x
  assume "cq_ok q" "q_capacity q \<le> length (cq_contents q)"
  then show "cq_push q x = None" by (simp add: cq_push_def cleanup_push_txnid_def)
next
  fix q :: "'h cleanup_queue" and x
  assume "cq_ok q" "length (cq_contents q) < q_capacity q"
  then show "\<exists>q'. cq_push q x = Some q' \<and> cq_ok q' \<and> cq_contents q' = cq_contents q @ [x] \<and>
      q_capacity q' = q_capacity q"
    using cq_push_spec [of q "ca_txnid x" "ca_bkp_folder x"]
    by (cases "cleanup_push_txnid 0 q (ca_txnid x) (ca_bkp_folder x)") (auto simp: cq_push_def)
next
  fix q q' :: "'h cleanup_queue" and n xs
  assume "cq_ok q" "cq_pop n q = (xs, q')"
  then show "cq_ok q' \<and> xs = take n (cq_contents q) \<and> cq_contents q' = drop n (cq_contents q) \<and>
      q_capacity q' = q_capacity q"
    using cleanup_pop_many_total [of q n] by (auto simp: cq_pop_def)
next
  fix q :: "'h cleanup_queue"
  assume "cq_ok q"
  then show "length (cq_contents q) \<le> q_capacity q" by (simp add: cq_ok_def)
qed

section \<open>Properties\<close>

text \<open>C18. First-in first-out, nothing lost, nothing cleaned twice: start from a freshly initialised
  queue and let compounds push finished transactions and the worker pop batches in any order.  Then
  the accepted transactions are, in order, those handed to the worker followed by those still
  queued.\<close>
theorem cleanup_queue_fifo:
  assumes "0 < c" and "cleanup_queue_init 0 c = (0, q)"
    and "queue_run cq_push cq_pop q evs = (accepted, popped, q')"
  shows "accepted = popped @ cq_contents q' \<and> length (cq_contents q') \<le> c"
proof -
  have "cq_ok q" "cq_contents q = []" "q_capacity q = c"
    using cleanup_queue_init_ok [OF assms(1)] assms(2)
    by (auto simp: cleanup_queue_init_def)
  with cq.run_fifo [OF _ assms(3)] cq.within_capacity [of q'] show ?thesis by simp
qed

theorem cleanup_queue_fifo_witness:
  "let a = \<lparr>ca_txnid = 1, ca_bkp_folder = Some ()\<rparr>; b = \<lparr>ca_txnid = 2, ca_bkp_folder = None\<rparr>;
       q = snd (cleanup_queue_init 0 2);
       (accepted, popped, q') = queue_run cq_push cq_pop q [Push a, Push b, Push a, Pop 1, Push b]
   in accepted = [a, b, b] \<and> popped = [a] \<and> accepted = popped @ cq_contents q'"
proof -
  let ?a = "\<lparr>ca_txnid = 1, ca_bkp_folder = Some ()\<rparr>" and ?b = "\<lparr>ca_txnid = 2, ca_bkp_folder = None\<rparr>"
  let ?q = "snd (cleanup_queue_init 0 2) :: unit cleanup_queue"
  have init: "cleanup_queue_init 0 2 = (0, ?q)" by (simp add: cleanup_queue_init_def)
  obtain acc out q' where run:
    "queue_run cq_push cq_pop ?q [Push ?a, Push ?b, Push ?a, Pop 1, Push ?b] = (acc, out, q')"
    by (metis surj_pair)
  have "acc = [?a, ?b, ?b] \<and> out = [?a]"
    using run by (auto simp: cleanup_queue_init_def cq_push_def cq_pop_def cleanup_push_txnid_def
        cleanup_pop_many_def numeral_2_eq_2)
  with run cleanup_queue_fifo [OF _ init run] show ?thesis by simp
qed

text \<open>C38. The single-entry pop advances the tail by \<open>tail + 1\<close> positions instead of one
  (\<open>q->tail += (q->tail + 1) % q->capacity\<close>).  It hands out the oldest entry, and leaves a well
  formed queue exactly when the tail was still at index zero.\<close>
theorem cleanup_pop_txnid_breaks_queue:
  assumes "cq_ok q" and "0 < q_size q" and "1 < q_capacity q"
    and "cleanup_pop_txnid 0 q = Some (err, out, q')"
  shows "err = 0 \<and> out = Some (hd (cq_contents q)) \<and> (cq_ok q' \<longleftrightarrow> q_tail q = 0)"
proof -
  let ?t = "q_tail q" and ?c = "q_capacity q"
  have t: "?t < ?c" and h: "q_head q = (?t + q_size q) mod ?c" and sz: "q_size q \<le> ?c"
    and len: "length (q_vec q) = ?c"
    using assms(1) by (auto simp: cq_ok_def)
  from assms t len have q': "q' = q\<lparr>q_tail := ?t + (?t + 1) mod ?c, q_size := q_size q - 1\<rparr>"
    and out: "err = 0" "out = Some (q_vec q ! ?t)"
    by (auto simp: cleanup_pop_txnid_def)
  have "cq_ok q' \<longleftrightarrow> ?t = 0"
  proof
    assume ok: "cq_ok q'"
    have lt: "?t + (?t + 1) mod ?c < ?c"
      and eq: "(?t + q_size q) mod ?c = (?t + (?t + 1) mod ?c + (q_size q - 1)) mod ?c"
      using ok q' h by (auto simp: cq_ok_def)
    have "(?t + (?t + 1) mod ?c + (q_size q - 1)) mod ?c = (?t + (?t + q_size q)) mod ?c"
      using mod_window_step [OF assms(2), of ?t ?c]
      by (metis add.assoc mod_add_right_eq)
    with eq have "(?t + q_size q + 0) mod ?c = (?t + q_size q + ?t) mod ?c"
      by (simp add: ac_simps)
    with mod_window_inj [of 0 ?t ?c "?t + q_size q"] t show "?t = 0" by fastforce
  next
    assume "?t = 0"
    then show "cq_ok q'"
      using assms(1,2,3) q' h by (auto simp: cq_ok_def)
  qed
  moreover have "hd (cq_contents q) = q_vec q ! ?t"
    using cq_contents_step [OF assms(1,2)] by simp
  ultimately show ?thesis using out by simp
qed

theorem cleanup_pop_txnid_breaks_queue_witness:
  "let a = \<lparr>ca_txnid = 1, ca_bkp_folder = Some ()\<rparr>;
       q = \<lparr>q_vec = [a, a, a, a], q_head = 3, q_tail = 1, q_size = 2, q_capacity = 4\<rparr>
   in cq_ok q \<and> cleanup_pop_txnid 0 q = Some (0, Some a, q\<lparr>q_tail := 3, q_size := 1\<rparr>) \<and>
      \<not> cq_ok (q\<lparr>q_tail := 3, q_size := 1\<rparr>)"
proof -
  let ?a = "\<lparr>ca_txnid = 1, ca_bkp_folder = Some ()\<rparr>"
  let ?q = "\<lparr>q_vec = [?a, ?a, ?a, ?a], q_head = 3, q_tail = 1, q_size = 2, q_capacity = 4\<rparr>"
  have ok: "cq_ok ?q" by (simp add: cq_ok_def)
  have pop: "cleanup_pop_txnid 0 ?q = Some (0, Some ?a, ?q\<lparr>q_tail := 3, q_size := 1\<rparr>)"
    by (simp add: cleanup_pop_txnid_def)
  show ?thesis
    using ok pop cleanup_pop_txnid_breaks_queue [OF ok _ _ pop] by simp
qed

end
