(* ===== verification/Txn_Path.thy ===== *)
theory Txn_Path
  imports Ganesha_Prelude
begin

text \<open>
  Path strings (\<open>txn/util/path_utils.cpp\<close>) over the slices and buffers of
  \<open>txn/util/slice.h\<close> and \<open>include/common_types.h\<close>.

  A C string is the list of its bytes without the terminator.  A slice is the pair of its offset in
  the path it points into and the bytes it shows; a buffer is the bytes written so far, with its
  capacity as an argument.  Appends that do not fit are dropped, as in the source, whose callers
  ignore the result.

  The normalisation is often called with the path inside the very buffer it writes to.  The last
  section models that case on a store of bytes, where every copy reads what earlier copies left, and
  shows that it computes the same string.
\<close>

abbreviation slash :: char where "slash \<equiv> CHR ''/''"

definition TC_PATH_MAX :: nat where "TC_PATH_MAX = 4096"
definition PATH_MAX :: nat where "PATH_MAX = 4096"

section \<open>Slices and buffers\<close>

type_synonym slice = "nat \<times> bytes"

definition rtrim :: "char \<Rightarrow> bytes \<Rightarrow> bytes" where
  "rtrim c s = rev (dropWhile (\<lambda>x. x = c) (rev s))"

definition ltrim_count :: "char \<Rightarrow> bytes \<Rightarrow> nat" where
  "ltrim_count c s = length (takeWhile (\<lambda>x. x = c) s)"

text \<open>\<open>Slice::trim\<close>: first the end, then the front; the offset moves with the front.\<close>
definition trim :: "char \<Rightarrow> slice \<Rightarrow> slice" where
  "trim c sl = (case sl of (off, s) \<Rightarrow>
     let s' = rtrim c s; n = ltrim_count c s' in (off + n, drop n s'))"

definition buf_append_char :: "nat \<Rightarrow> bytes \<Rightarrow> char \<Rightarrow> int \<times> bytes" where
  "buf_append_char capacity b c = (if capacity \<le> length b then (- 1, b) else (1, b @ [c]))"

definition buf_append_slice :: "nat \<Rightarrow> bytes \<Rightarrow> bytes \<Rightarrow> int \<times> bytes" where
  "buf_append_slice capacity b s =
     (if length b + length s > capacity then (- 1, b) else (int (length s), b @ s))"

definition buf_append_null :: "nat \<Rightarrow> bytes \<Rightarrow> bool" where
  "buf_append_null capacity b \<longleftrightarrow> length b < capacity"

definition asstr :: "nat \<Rightarrow> bytes \<Rightarrow> bytes option" where
  "asstr capacity b = (if buf_append_null capacity b then Some b else None)"

definition buf_remaining :: "nat \<Rightarrow> bytes \<Rightarrow> nat" where
  "buf_remaining capacity b = capacity - length b"

section \<open>Components\<close>

definition push_comp :: "bool \<Rightarrow> slice list \<Rightarrow> slice \<Rightarrow> slice list" where
  "push_comp is_absolute comps cpt =
     (if snd cpt = ''..'' then
        if comps = [] then (if is_absolute then comps else comps @ [cpt])
        else if snd (last comps) \<noteq> ''..'' then butlast comps
        else comps @ [cpt]
      else if snd cpt \<noteq> [] \<and> snd cpt \<noteq> ''/'' \<and> snd cpt \<noteq> ''.'' then comps @ [cpt]
      else comps)"

text \<open>The loop over the trimmed path: \<open>rest\<close> is what is left from index \<open>beg\<close> on, at offset
  \<open>off\<close>.\<close>
function (sequential) comp_loop :: "bool \<Rightarrow> nat \<Rightarrow> bytes \<Rightarrow> slice list \<Rightarrow> slice list" where
  "comp_loop is_absolute off [] comps = comps"
| "comp_loop is_absolute off (c # cs) comps =
     (let cpt = takeWhile (\<lambda>x. x \<noteq> slash) (c # cs); n = length cpt + 1
      in comp_loop is_absolute (off + n) (drop n (c # cs)) (push_comp is_absolute comps (off, cpt)))"
  by pat_completeness auto
termination
  by (relation "measure (\<lambda>(_, _, r, _). length r)") auto

definition tc_get_path_components :: "bytes \<Rightarrow> slice list" where
  "tc_get_path_components path =
     (if path = [] then []
      else
        let is_absolute = (path ! 0 = slash);
            (off, p) = trim slash (0, path);
            comps = comp_loop is_absolute off p []
        in if is_absolute
           then case comps of
                  [] \<Rightarrow> [(0, [slash])]
                | (o0, c0) # rest \<Rightarrow> (o0 - 1, slash # c0) # rest
           else comps)"

abbreviation comp_strings :: "bytes \<Rightarrow> bytes list" where
  "comp_strings path \<equiv> map snd (tc_get_path_components path)"

definition tc_path_depth_s :: "bytes \<Rightarrow> nat" where
  "tc_path_depth_s path =
     (if comp_strings path = [''/''] then 0 else length (comp_strings path))"

fun common_prefix :: "bytes list \<Rightarrow> bytes list \<Rightarrow> nat" where
  "common_prefix (x # xs) (y # ys) = (if x = y then Suc (common_prefix xs ys) else 0)"
| "common_prefix _ _ = 0"

definition tc_path_distance_s :: "bytes \<Rightarrow> bytes \<Rightarrow> nat option" where
  "tc_path_distance_s src dst = do {
     c_assert (dst \<noteq> []);
     if dst ! 0 \<noteq> slash then Some (length (comp_strings dst))
     else do {
       c_assert (src \<noteq> [] \<and> src ! 0 = slash);
       let s = comp_strings src;
       let d = comp_strings dst;
       if s = [''/''] then Some (if d = [''/''] then 0 else length d)
       else if d = [''/''] then Some (length s)
       else let l = common_prefix s d in Some (length s - l + (length d - l))
     }
   }"

section \<open>Normalisation and joining\<close>

fun append_comps :: "nat \<Rightarrow> bytes \<Rightarrow> bytes list \<Rightarrow> bool \<Rightarrow> bytes" where
  "append_comps capacity b [] later = b"
| "append_comps capacity b (c # cs) later =
     append_comps capacity
       (snd (buf_append_slice capacity (if later then snd (buf_append_char capacity b slash) else b) c))
       cs True"

definition tc_path_normalize_s :: "nat \<Rightarrow> bytes \<Rightarrow> bytes \<Rightarrow> int \<times> bytes" where
  "tc_path_normalize_s capacity path b =
     (if comp_strings path = [] then (1, snd (buf_append_char capacity b (CHR ''.'')))
      else let b' = append_comps capacity b (comp_strings path) False
           in (int (length b') - int (length b), b'))"

text \<open>The result is the return value with the string in the caller's buffer, which is left alone
  on failure.  \<open>path = None\<close> is the null pointer.\<close>
definition tc_path_normalize :: "bytes option \<Rightarrow> bytes \<Rightarrow> nat \<Rightarrow> int \<times> bytes" where
  "tc_path_normalize path buf buf_size =
     (case path of
        None \<Rightarrow> (- 1, buf)
      | Some p \<Rightarrow> if length p \<ge> TC_PATH_MAX \<or> buf_size \<le> 1 then (- 1, buf)
                  else tc_path_normalize_s buf_size p [])"

definition tc_path_append_impl :: "nat \<Rightarrow> bytes \<Rightarrow> bytes \<Rightarrow> int \<times> bytes" where
  "tc_path_append_impl capacity b cpt =
     (if cpt = [] then (0, b)
      else if length cpt > buf_remaining capacity b then (- 1, b)
      else (0, snd (buf_append_slice capacity
                      (if b \<noteq> [] then snd (buf_append_char capacity b slash) else b) cpt)))"

definition tc_path_join_s :: "nat \<Rightarrow> bytes \<Rightarrow> bytes \<Rightarrow> bytes \<Rightarrow> int \<times> bytes" where
  "tc_path_join_s capacity path1 path2 b =
     (let b = snd (tc_path_append_impl capacity b path1);
          b = snd (tc_path_append_impl capacity b path2)
      in tc_path_normalize (asstr capacity b) b capacity)"

text \<open>\<open>buf\<close> is the old content of the destination; it stays when a path is too long.\<close>
definition tc_path_join :: "bytes \<Rightarrow> bytes \<Rightarrow> bytes \<Rightarrow> nat \<Rightarrow> int \<times> bytes" where
  "tc_path_join path1 path2 buf buf_size =
     (if length path1 \<ge> TC_PATH_MAX \<or> length path2 \<ge> TC_PATH_MAX then (- 1, buf)
      else tc_path_join_s buf_size path1 path2 [])"

definition tc_path_append :: "nat \<Rightarrow> bytes \<Rightarrow> bytes \<Rightarrow> int \<times> bytes" where
  "tc_path_append capacity b cpt =
     (let b = snd (tc_path_append_impl capacity b cpt)
      in tc_path_normalize (asstr capacity b) b capacity)"

definition tc_path_rebase_s :: "nat \<Rightarrow> bytes \<Rightarrow> bytes \<Rightarrow> bytes \<Rightarrow> int \<times> bytes" where
  "tc_path_rebase_s capacity base path b =
     (let bs = comp_strings base; ps = comp_strings path; l = common_prefix bs ps;
          rel = replicate (length bs - l) ''..'' @ drop l ps;
          result_size = of_nat (sum_list (map length rel)) + (of_nat (length rel) - 1) :: u64
      in if result_size > of_nat (buf_remaining capacity b) then (- 1, b)
         else let b' = append_comps capacity b rel False;
                  b' = (if length b' = length b then snd (buf_append_char capacity b (CHR ''.'')) else b')
              in (int (length b') - int (length b), b'))"

definition tc_path_dir_base_s :: "bytes \<Rightarrow> bool \<times> bytes \<times> bytes" where
  "tc_path_dir_base_s path =
     (if path = [] then (False, [], [])
      else
        let p = rtrim slash path in
        if p = [] then (True, ''/'', [])
        else if slash \<notin> set p then (False, [], p)
        else let base = rev (takeWhile (\<lambda>x. x \<noteq> slash) (rev p));
                 i = length p - length base - 1
             in (True, take (if i = 0 then 1 else i) p, base))"

section \<open>Canonical paths\<close>

text \<open>The components of a path as strings, and the stack they leave.\<close>
function (sequential) split_slash :: "bytes \<Rightarrow> bytes list" where
  "split_slash [] = []"
| "split_slash (c # cs) =
     (let x = takeWhile (\<lambda>x. x \<noteq> slash) (c # cs) in x # split_slash (drop (length x + 1) (c # cs)))"
  by pat_completeness auto
termination
  by (relation "measure length") auto

definition resolve_step :: "bool \<Rightarrow> bytes list \<Rightarrow> bytes \<Rightarrow> bytes list" where
  "resolve_step ab stack c =
     (if c = ''..'' then
        if stack = [] then (if ab then [] else [''..''])
        else if last stack = ''..'' then stack @ [''..''] else butlast stack
      else if c = [] \<or> c = ''.'' \<or> c = ''/'' then stack else stack @ [c])"

definition resolve :: "bool \<Rightarrow> bytes list \<Rightarrow> bytes list" where
  "resolve ab cs = foldl (resolve_step ab) [] cs"

fun path_str :: "bytes list \<Rightarrow> bytes" where
  "path_str [] = []"
| "path_str [c] = c"
| "path_str (c # d # cs) = c @ slash # path_str (d # cs)"

definition is_absolute :: "bytes \<Rightarrow> bool" where
  "is_absolute p \<longleftrightarrow> p \<noteq> [] \<and> p ! 0 = slash"

definition stack_of :: "bytes \<Rightarrow> bytes list" where
  "stack_of p = resolve (is_absolute p) (split_slash (snd (trim slash (0, p))))"

definition canonical_path :: "bool \<Rightarrow> bytes list \<Rightarrow> bytes" where
  "canonical_path ab cs = (if ab then slash # path_str cs else if cs = [] then ''.'' else path_str cs)"

definition proper :: "bytes \<Rightarrow> bool" where
  "proper c \<longleftrightarrow> c \<noteq> [] \<and> slash \<notin> set c \<and> c \<noteq> ''.'' \<and> c \<noteq> ''..''"

definition normal :: "bool \<Rightarrow> bytes list \<Rightarrow> bool" where
  "normal ab cs \<longleftrightarrow> (\<exists>k ps. cs = replicate k ''..'' @ ps \<and> list_all proper ps \<and> (ab \<longrightarrow> k = 0))"

lemma push_comp_strings:
  "map snd (push_comp ab cs c) = resolve_step ab (map snd cs) (snd c)"
  by (auto simp: push_comp_def resolve_step_def last_map map_butlast)

lemma comp_loop_strings:
  "map snd (comp_loop ab off r cs) = foldl (resolve_step ab) (map snd cs) (split_slash r)"
  by (induction ab off r cs rule: comp_loop.induct) (simp_all add: Let_def push_comp_strings)

lemma comp_strings_eq:
  "comp_strings p =
     (if is_absolute p then (case stack_of p of [] \<Rightarrow> [''/''] | c # cs \<Rightarrow> (slash # c) # cs) else stack_of p)"
proof (cases "p = []")
  case True
  then show ?thesis
    by (simp add: tc_get_path_components_def stack_of_def is_absolute_def resolve_def trim_def rtrim_def)
next
  case False
  obtain off q where t: "trim slash (0, p) = (off, q)" by (metis surj_pair)
  let ?cs = "comp_loop (is_absolute p) off q []"
  have st: "stack_of p = map snd ?cs"
    by (simp add: comp_loop_strings resolve_def stack_of_def t)
  have "(p ! 0 = slash) = is_absolute p" using False by (simp add: is_absolute_def)
  then show ?thesis
    unfolding st using False t by (cases ?cs) (auto simp: tc_get_path_components_def)
qed

lemma split_slash_no_slash: "c \<in> set (split_slash r) \<Longrightarrow> slash \<notin> set c"
proof (induction r rule: split_slash.induct)
  case 1
  then show ?case by simp
next
  case (2 x xs)
  then show ?case by (auto simp: Let_def dest: set_takeWhileD split: if_splits)
qed

lemma resolve_step_normal:
  assumes "normal ab cs" and "slash \<notin> set c"
  shows "normal ab (resolve_step ab cs c)"
proof -
  obtain k ps where cs: "cs = replicate k ''..'' @ ps" "list_all proper ps" "ab \<longrightarrow> k = 0"
    using assms(1) by (auto simp: normal_def)
  show ?thesis
  proof (cases "c = ''..''")
    case False
    then show ?thesis
    proof (cases "c = [] \<or> c = ''.'' \<or> c = ''/''")
      case True
      with False assms(1) show ?thesis by (auto simp: resolve_step_def)
    next
      case False
      with \<open>c \<noteq> ''..''\<close> assms(2) cs have "list_all proper (ps @ [c])" by (auto simp: proper_def)
      with False \<open>c \<noteq> ''..''\<close> cs show ?thesis
        unfolding normal_def resolve_step_def by (intro exI [of _ k] exI [of _ "ps @ [c]"]) auto
    qed
  next
    case True
    show ?thesis
    proof (cases ps rule: rev_cases)
      case Nil
      show ?thesis
      proof (cases k)
        case 0
        with Nil cs True show ?thesis
          unfolding normal_def resolve_step_def
          by (intro exI [of _ "if ab then 0 else 1"] exI [of _ "[]"]) auto
      next
        case (Suc j)
        then have "resolve_step ab cs c = replicate (Suc k) ''..''"
          using Nil cs True by (auto simp: resolve_step_def replicate_append_same)
        then show ?thesis using cs Suc
          unfolding normal_def by (intro exI [of _ "Suc k"] exI [of _ "[]"]) auto
      qed
    next
      case (snoc qs q)
      then have "last cs \<noteq> ''..''" "butlast cs = replicate k ''..'' @ qs" "list_all proper qs"
        using cs by (auto simp: proper_def butlast_append)
      with True cs snoc show ?thesis
        unfolding normal_def resolve_step_def by (intro exI [of _ k] exI [of _ qs]) auto
    qed
  qed
qed

lemma foldl_resolve_normal:
  "normal ab acc \<Longrightarrow> (\<And>c. c \<in> set cs \<Longrightarrow> slash \<notin> set c) \<Longrightarrow> normal ab (foldl (resolve_step ab) acc cs)"
  by (induction cs arbitrary: acc) (auto intro!: resolve_step_normal)

lemma normal_Nil [simp]: "normal ab []"
  unfolding normal_def by (intro exI [of _ 0] exI [of _ "[]"]) simp

lemma stack_of_normal: "normal (is_absolute p) (stack_of p)"
  unfolding stack_of_def resolve_def
  by (rule foldl_resolve_normal) (auto dest: split_slash_no_slash)

lemma normal_no_slash: "normal ab cs \<Longrightarrow> c \<in> set cs \<Longrightarrow> slash \<notin> set c \<and> c \<noteq> []"
proof -
  assume "normal ab cs" "c \<in> set cs"
  then obtain k ps where "cs = replicate k ''..'' @ ps" "list_all proper ps"
    unfolding normal_def by blast
  with \<open>c \<in> set cs\<close> have "c = ''..'' \<or> proper c" by (auto simp: list_all_iff in_set_replicate)
  then show ?thesis unfolding proper_def by (elim disjE) simp_all
qed

lemma takeWhile_path_str:
  "slash \<notin> set c \<Longrightarrow> takeWhile (\<lambda>x. x \<noteq> slash) (c @ slash # r) = c"
  by (induction c) auto

lemma split_slash_rec:
  "r \<noteq> [] \<Longrightarrow> takeWhile (\<lambda>x. x \<noteq> slash) r = c \<Longrightarrow> split_slash r = c # split_slash (drop (length c + 1) r)"
  by (cases r) (simp_all only: split_slash.simps Let_def, simp_all)

lemma takeWhile_no_slash: "slash \<notin> set c \<Longrightarrow> takeWhile (\<lambda>x. x \<noteq> slash) c = c"
  by (induction c) auto

lemma split_path_str:
  "(\<And>c. c \<in> set cs \<Longrightarrow> slash \<notin> set c \<and> c \<noteq> []) \<Longrightarrow> split_slash (path_str cs) = cs"
proof (induction cs rule: path_str.induct)
  case 1
  then show ?case by simp
next
  case (2 c)
  then have "slash \<notin> set c" "c \<noteq> []" by simp_all
  from split_slash_rec [OF this(2) takeWhile_no_slash [OF this(1)]] show ?case by simp
next
  case (3 c d cs)
  have c: "slash \<notin> set c" "c \<noteq> []" using "3.prems" [of c] by simp_all
  have IH: "split_slash (path_str (d # cs)) = d # cs" by (rule "3.IH") (use "3.prems" in simp)
  have "split_slash (c @ slash # path_str (d # cs)) = c # split_slash (path_str (d # cs))"
    using c(2) by (subst split_slash_rec [OF _ takeWhile_path_str [OF c(1)]]) simp_all
  with IH show ?case by simp
qed

lemma foldl_proper:
  "list_all proper ps \<Longrightarrow> foldl (resolve_step ab) acc ps = acc @ ps"
  by (induction ps arbitrary: acc) (auto simp: resolve_step_def proper_def)

lemma foldl_dotdot:
  "foldl (resolve_step False) (replicate j ''..'') (replicate k ''..'') = replicate (j + k) ''..''"
proof (induction k arbitrary: j)
  case 0
  then show ?case by simp
next
  case (Suc k)
  have "resolve_step False (replicate j ''..'') ''..'' = replicate (Suc j) ''..''"
    by (cases j) (auto simp: resolve_step_def replicate_append_same)
  with Suc [of "Suc j"] show ?case by simp
qed

lemma resolve_normal: 
  assumes "normal ab cs"
  shows "resolve ab cs = cs"
proof -
  obtain k ps where cs: "cs = replicate k ''..'' @ ps" "list_all proper ps" "ab \<longrightarrow> k = 0"
    using assms by (auto simp: normal_def)
  have "foldl (resolve_step ab) [] (replicate k ''..'') = replicate k ''..''"
    using cs(3) foldl_dotdot [of 0 k] by (cases ab) auto
  with cs foldl_proper show ?thesis by (simp add: resolve_def)
qed

lemma path_str_ends:
  assumes "cs \<noteq> []" and "\<And>c. c \<in> set cs \<Longrightarrow> slash \<notin> set c \<and> c \<noteq> []"
  shows "path_str cs \<noteq> [] \<and> hd (path_str cs) \<noteq> slash \<and> last (path_str cs) \<noteq> slash"
  using assms
proof (induction cs rule: path_str.induct)
  case (2 c)
  then have "slash \<notin> set c" "c \<noteq> []" by simp_all
  then show ?case by (simp, metis hd_in_set last_in_set)
next
  case (3 c d cs)
  have c: "slash \<notin> set c" "c \<noteq> []" using 3(3) by simp_all
  have "path_str (d # cs) \<noteq> [] \<and> hd (path_str (d # cs)) \<noteq> slash \<and> last (path_str (d # cs)) \<noteq> slash"
    by (rule 3(1)) (use 3(3) in auto)
  moreover have "hd c \<noteq> slash" using c by (metis hd_in_set)
  ultimately show ?case using c by simp
qed simp

lemma trim_none:
  assumes "q \<noteq> []" "hd q \<noteq> c" "last q \<noteq> c"
  shows "snd (trim c (off, q)) = q" "snd (trim c (off, c # q)) = q"
proof -
  have r: "rtrim c q = q" "rtrim c (c # q) = c # q"
  proof -
    have "dropWhile (\<lambda>x. x = c) (rev q) = rev q" "dropWhile (\<lambda>x. x = c) (rev q @ [c]) = rev q @ [c]"
      using assms by (cases q rule: rev_cases; simp)+
    then show "rtrim c q = q" "rtrim c (c # q) = c # q" by (simp_all add: rtrim_def)
  qed
  have "takeWhile (\<lambda>x. x = c) q = []" using assms by (cases q) auto
  with r show "snd (trim c (off, q)) = q" "snd (trim c (off, c # q)) = q"
    by (simp_all add: trim_def ltrim_count_def Let_def)
qed

lemma trim_only [simp]: "snd (trim c (off, [c])) = []"
  by (simp add: trim_def rtrim_def Let_def)

lemma canonical_stack:
  assumes "normal ab cs"
  shows "is_absolute (canonical_path ab cs) = ab \<and> stack_of (canonical_path ab cs) = cs"
proof (cases "cs = []")
  case True
  have "split_slash ''.'' = [''.'']" by (simp add: Let_def)
  moreover have "snd (trim slash (0, ''.'')) = ''.''" by (rule trim_none) auto
  ultimately show ?thesis
    using True by (auto simp: canonical_path_def is_absolute_def stack_of_def resolve_def resolve_step_def)
next
  case False
  note ns = normal_no_slash [OF assms]
  note e = path_str_ends [OF False ns]
  have ab: "is_absolute (canonical_path ab cs) = ab"
    using e False by (auto simp: canonical_path_def is_absolute_def hd_conv_nth)
  moreover have "snd (trim slash (0, canonical_path ab cs)) = path_str cs"
    using trim_none [of "path_str cs" slash 0] e False by (auto simp: canonical_path_def)
  ultimately show ?thesis
    using split_path_str [OF ns] resolve_normal [OF assms] by (simp add: stack_of_def)
qed

lemma canonical_path_comps:
  "(if comp_strings p = [] then ''.'' else path_str (comp_strings p)) =
     canonical_path (is_absolute p) (stack_of p)"
proof -
  have "path_str ((slash # c) # cs) = slash # path_str (c # cs)" for c cs by (cases cs) auto
  then show ?thesis by (auto simp: comp_strings_eq canonical_path_def split: list.splits)
qed

section \<open>Lengths and capacities\<close>

definition weight :: "bytes list \<Rightarrow> nat" where
  "weight cs = sum_list (map (\<lambda>c. length c + 1) cs)"

lemma weight_simps [simp]: "weight [] = 0" "weight (c # cs) = length c + 1 + weight cs"
  "weight (cs @ ds) = weight cs + weight ds"
  by (simp_all add: weight_def)

lemma length_path_str: "cs \<noteq> [] \<Longrightarrow> length (path_str cs) + 1 = weight cs"
  by (induction cs rule: path_str.induct) auto

lemma weight_butlast: "weight (butlast cs) \<le> weight cs"
  by (induction cs) auto

lemma weight_resolve_step: "weight (resolve_step ab cs c) \<le> weight cs + length c + 1"
  using weight_butlast [of cs] by (auto simp: resolve_step_def)

lemma weight_foldl: "weight (foldl (resolve_step ab) acc cs) \<le> weight acc + weight cs"
proof (induction cs arbitrary: acc)
  case Nil
  then show ?case by simp
next
  case (Cons c cs)
  show ?case using Cons [of "resolve_step ab acc c"] weight_resolve_step [of ab acc c] by simp
qed

lemma weight_split: "weight (split_slash r) \<le> length r + 1"
proof (induction r rule: split_slash.induct)
  case 1
  then show ?case by simp
next
  case (2 c cs)
  define x where "x = takeWhile (\<lambda>x. x \<noteq> slash) (c # cs)"
  have len: "length x \<le> length (c # cs)" unfolding x_def by (rule length_takeWhile_le)
  have eq: "split_slash (c # cs) = x # split_slash (drop (length x + 1) (c # cs))"
    by (rule split_slash_rec) (simp_all add: x_def)
  show ?case
  proof (cases "drop (length x + 1) (c # cs) = []")
    case True
    then show ?thesis unfolding eq using len by simp
  next
    case False
    have "weight (split_slash (drop (length x + 1) (c # cs))) \<le> length (drop (length x + 1) (c # cs)) + 1"
      using "2" [OF x_def] .
    then show ?thesis unfolding eq using False len by simp
  qed
qed

lemma weight_stack: "weight (stack_of p) \<le> length (snd (trim slash (0, p))) + 1"
  using weight_foldl [of "is_absolute p" "[]" "split_slash (snd (trim slash (0, p)))"]
    weight_split [of "snd (trim slash (0, p))"]
  by (simp add: stack_of_def resolve_def)

lemma rtrim_length: "length (rtrim c s) \<le> length s"
  unfolding rtrim_def using length_dropWhile_le [of "\<lambda>x. x = c" "rev s"] by simp

lemma trim_length: "length (snd (trim c (off, s))) \<le> length s"
  using rtrim_length [of c s] by (simp add: trim_def Let_def)

lemma trim_length_absolute:
  assumes "is_absolute p"
  shows "length (snd (trim slash (0, p))) < length p"
proof -
  obtain q where p: "p = slash # q" using assms by (cases p) (auto simp: is_absolute_def)
  show ?thesis
  proof (cases "rtrim slash p = []")
    case True
    then show ?thesis using p by (simp add: trim_def)
  next
    case False
    then obtain r where "rtrim slash p = slash # r"
    proof -
      have "\<exists>zs. p = rtrim slash p @ zs"
        unfolding rtrim_def by (metis rev_append rev_rev_ident takeWhile_dropWhile_id)
      then show ?thesis using p False that by (cases "rtrim slash p") auto
    qed
    then show ?thesis using rtrim_length [of slash p] by (simp add: trim_def ltrim_count_def)
  qed
qed

lemma length_canonical:
  assumes "p \<noteq> []"
  shows "length (canonical_path (is_absolute p) (stack_of p)) \<le> length p"
proof (cases "stack_of p = []")
  case True
  then show ?thesis using assms by (cases p) (auto simp: canonical_path_def)
next
  case False
  then show ?thesis
    using length_path_str [OF False] weight_stack [of p] trim_length [of slash 0 p]
      trim_length_absolute [of p] by (auto simp: canonical_path_def)
qed

lemma append_comps_later:
  "cs \<noteq> [] \<Longrightarrow> length b + 1 + length (path_str cs) \<le> cap \<Longrightarrow>
     append_comps cap b cs True = b @ slash # path_str cs"
proof (induction cs arbitrary: b rule: path_str.induct)
  case (3 c d cs)
  have "append_comps cap b (c # d # cs) True = append_comps cap (b @ slash # c) (d # cs) True"
    using "3.prems" by (simp add: buf_append_slice_def buf_append_char_def)
  also have "\<dots> = (b @ slash # c) @ slash # path_str (d # cs)"
    using "3.prems" by (intro "3.IH") simp_all
  finally show ?case by simp
qed (simp_all add: buf_append_slice_def buf_append_char_def)

lemma append_comps_fits:
  "cs \<noteq> [] \<Longrightarrow> length b + length (path_str cs) \<le> cap \<Longrightarrow>
     append_comps cap b cs False = b @ path_str cs"
proof (induction cs rule: path_str.induct)
  case (3 c d cs)
  have "append_comps cap b (c # d # cs) False = append_comps cap (b @ c) (d # cs) True"
    using "3.prems" by (simp add: buf_append_slice_def)
  then show ?case using append_comps_later [of "d # cs" "b @ c" cap] "3.prems" by simp
qed (simp_all add: buf_append_slice_def)

lemma normalize_s_canonical:
  assumes "length p \<le> cap" and "0 < cap"
  shows "tc_path_normalize_s cap p [] =
    (int (length (canonical_path (is_absolute p) (stack_of p))), canonical_path (is_absolute p) (stack_of p))"
proof (cases "comp_strings p = []")
  case True
  then show ?thesis
    using canonical_path_comps [of p] assms(2)
    by (simp add: tc_path_normalize_s_def buf_append_char_def flip: canonical_path_comps)
next
  case False
  then have "p \<noteq> []" by (auto simp: tc_get_path_components_def)
  then have "length (path_str (comp_strings p)) \<le> cap"
    using length_canonical [of p] assms(1) False canonical_path_comps [of p] by simp
  then have "append_comps cap [] (comp_strings p) False = path_str (comp_strings p)"
    using append_comps_fits [OF False, of "[]" cap] by simp
  then show ?thesis
    using False canonical_path_comps [of p] by (simp add: tc_path_normalize_s_def Let_def)
qed

lemma normalize_canonical:
  assumes "length p < TC_PATH_MAX" and "length p \<le> cap" and "1 < cap"
  shows "tc_path_normalize (Some p) b cap =
    (int (length (canonical_path (is_absolute p) (stack_of p))), canonical_path (is_absolute p) (stack_of p))"
  using normalize_s_canonical [of p cap] assms by (simp add: tc_path_normalize_def)

section \<open>Normalising a path in its own buffer\<close>

text \<open>A store of bytes; a buffer is an address and the number of bytes written so far.  A slice in
  the store is an address and a length.  \<open>memmove\<close> reads the store as it was before the copy.\<close>
type_synonym store = "nat \<Rightarrow> char"

definition read_store :: "store \<Rightarrow> nat \<Rightarrow> nat \<Rightarrow> bytes" where
  "read_store m a n = map (\<lambda>i. m (a + i)) [0..<n]"

definition store_append_char :: "nat \<Rightarrow> nat \<Rightarrow> store \<times> nat \<Rightarrow> char \<Rightarrow> store \<times> nat" where
  "store_append_char cap b ms c =
     (case ms of (m, sz) \<Rightarrow> if cap \<le> sz then (m, sz) else (m(b + sz := c), sz + 1))"

definition store_append_slice :: "nat \<Rightarrow> nat \<Rightarrow> store \<times> nat \<Rightarrow> nat \<times> nat \<Rightarrow> store \<times> nat" where
  "store_append_slice cap b ms sl =
     (case ms of (m, sz) \<Rightarrow> case sl of (a, n) \<Rightarrow>
        if sz + n > cap then (m, sz)
        else (\<lambda>i. if b + sz \<le> i \<and> i < b + sz + n then m (a + (i - (b + sz))) else m i, sz + n))"

fun store_append_comps :: "nat \<Rightarrow> nat \<Rightarrow> store \<times> nat \<Rightarrow> (nat \<times> nat) list \<Rightarrow> bool \<Rightarrow> store \<times> nat" where
  "store_append_comps cap b ms [] later = ms"
| "store_append_comps cap b ms (sl # sls) later =
     store_append_comps cap b
       (store_append_slice cap b (if later then store_append_char cap b ms slash else ms) sl) sls True"

text \<open>\<open>tc_path_normalize_s\<close> with the path at address \<open>a\<close> and an empty buffer at the same
  address.\<close>
definition normalize_in_place :: "nat \<Rightarrow> store \<Rightarrow> nat \<Rightarrow> nat \<Rightarrow> int \<times> store" where
  "normalize_in_place cap m a plen =
     (let comps = tc_get_path_components (read_store m a plen)
      in if comps = [] then (1, fst (store_append_char cap a (m, 0) (CHR ''.'')))
         else case store_append_comps cap a (m, 0) (map (\<lambda>(off, s). (a + off, length s)) comps) False of
                (m', sz) \<Rightarrow> (int sz, m'))"

text \<open>Slices of \<open>p\<close>: each shows what \<open>p\<close> holds there, and each ends before the byte in front of
  the next one.\<close>
fun slices_of :: "bytes \<Rightarrow> nat \<Rightarrow> slice list \<Rightarrow> bool" where
  "slices_of p lo [] \<longleftrightarrow> True"
| "slices_of p lo ((off, s) # sls) \<longleftrightarrow>
     lo \<le> off \<and> off + length s \<le> length p \<and> take (length s) (drop off p) = s \<and>
     slices_of p (off + length s + 1) sls"

fun slices_end :: "nat \<Rightarrow> slice list \<Rightarrow> nat" where
  "slices_end lo [] = lo"
| "slices_end lo ((off, s) # sls) = slices_end (off + length s + 1) sls"

lemma slices_of_snoc:
  "slices_of p lo (sls @ [(off, s)]) \<longleftrightarrow>
     slices_of p lo sls \<and> slices_end lo sls \<le> off \<and> off + length s \<le> length p \<and>
     take (length s) (drop off p) = s"
  by (induction p lo sls rule: slices_of.induct) auto

lemma slices_end_snoc [simp]: "slices_end lo (sls @ [(off, s)]) = off + length s + 1"
  by (induction sls arbitrary: lo) auto

lemma slices_end_butlast:
  "slices_of p lo sls \<Longrightarrow> sls \<noteq> [] \<Longrightarrow> slices_end lo (butlast sls) \<le> slices_end lo sls"
  by (cases sls rule: rev_cases) (auto simp: slices_of_snoc)

lemma slices_of_butlast: "slices_of p lo sls \<Longrightarrow> slices_of p lo (butlast sls)"
  by (cases sls rule: rev_cases) (auto simp: slices_of_snoc)

lemma push_comp_slices:
  assumes "slices_of p lo sls" "slices_end lo sls \<le> off" "off + length s \<le> length p"
    "take (length s) (drop off p) = s"
  shows "slices_of p lo (push_comp ab sls (off, s)) \<and>
    slices_end lo (push_comp ab sls (off, s)) \<le> off + length s + 1"
  using assms slices_end_butlast [OF assms(1)] slices_of_butlast [OF assms(1)]
  by (auto simp: push_comp_def slices_of_snoc)

lemma comp_loop_slices:
  assumes "slices_of p lo sls" "slices_end lo sls \<le> off"
    "take (length r) (drop off p) = r" "off + length r \<le> length p"
  shows "slices_of p lo (comp_loop ab off r sls)"
  using assms
proof (induction ab off r sls rule: comp_loop.induct)
  case (1 ab off sls)
  then show ?case by simp
next
  case (2 ab off c cs sls)
  define x where "x = takeWhile (\<lambda>x. x \<noteq> slash) (c # cs)"
  define r where "r = c # cs"
  have len: "length x \<le> length r" unfolding x_def r_def by (rule length_takeWhile_le)
  have xr: "take (length x) r = x" unfolding x_def r_def by (rule takeWhile_eq_take [symmetric])
  have "take (length x) (drop off p) = x"
    using 2(4) xr len unfolding r_def [symmetric] by (metis min.absorb1 take_take)
  then have push: "slices_of p lo (push_comp ab sls (off, x))"
    "slices_end lo (push_comp ab sls (off, x)) \<le> off + length x + 1"
    using push_comp_slices [OF 2(2,3), of x ab] 2(5) len by (auto simp: r_def)
  show ?case
  proof (cases "length r \<le> length x")
    case True
    then have "drop (length x + 1) r = []" by simp
    with push show ?thesis unfolding r_def [symmetric]
      by (simp add: comp_loop.simps(2) [of ab off c cs sls, folded r_def] Let_def flip: x_def)
         (simp add: r_def x_def)
  next
    case False
    have "slices_of p lo (comp_loop ab (off + (length x + 1)) (drop (length x + 1) r) (push_comp ab sls (off, x)))"
    proof (rule 2(1) [OF x_def refl, folded r_def])
      show "take (length (drop (length x + 1) r)) (drop (off + (length x + 1)) p) = drop (length x + 1) r"
        using 2(4) unfolding r_def [symmetric]
        by (metis add.commute drop_drop drop_take length_drop)
    qed (use push 2(5) False in \<open>auto simp: r_def\<close>)
    then show ?thesis by (simp add: Let_def r_def x_def)
  qed
qed

lemma read_store_append: "read_store m a (i + j) = read_store m a i @ read_store m (a + i) j"
  by (induction j) (simp_all add: read_store_def add.assoc)

lemma read_store_cong: "(\<And>i. i < n \<Longrightarrow> m (a + i) = m' (a + i)) \<Longrightarrow> read_store m a n = read_store m' a n"
  by (simp add: read_store_def)

lemma length_read_store [simp]: "length (read_store m a n) = n"
  by (simp add: read_store_def)

lemma nth_read_store: "i < n \<Longrightarrow> read_store m a n ! i = m (a + i)"
  by (simp add: read_store_def)

text \<open>One copy: the bytes of the slice have not been overwritten yet, and what is written stays in
  front of everything still to be read.\<close>
lemma store_append_slice_step:
  assumes "take (length s) (drop off p) = s" "off + length s \<le> length p" "length p \<le> cap" "sz \<le> off"
    and "\<forall>i. off \<le> i \<longrightarrow> i < length p \<longrightarrow> m (a + i) = p ! i"
  shows "\<exists>m'. store_append_slice cap a (m, sz) (a + off, length s) = (m', sz + length s) \<and>
    read_store m' a (sz + length s) = read_store m a sz @ s \<and>
    (\<forall>i. off + length s \<le> i \<longrightarrow> m' (a + i) = m (a + i))"
proof (intro exI conjI)
  let ?m = "\<lambda>i. if a + sz \<le> i \<and> i < a + sz + length s then m (a + off + (i - (a + sz))) else m i"
  show "store_append_slice cap a (m, sz) (a + off, length s) = (?m, sz + length s)"
    using assms by (simp add: store_append_slice_def)
  have "read_store ?m (a + sz) (length s) = s"
  proof (rule nth_equalityI)
    fix i assume "i < length (read_store ?m (a + sz) (length s))"
    then have i: "i < length s" by simp
    then have "m (a + (off + i)) = p ! (off + i)" using assms by simp
    also have "\<dots> = s ! i" using assms(1,2) i by (metis add_leD1 nth_drop nth_take)
    finally show "read_store ?m (a + sz) (length s) ! i = s ! i"
      using i by (simp add: nth_read_store ac_simps)
  qed simp
  moreover have "read_store ?m a sz = read_store m a sz" by (rule read_store_cong) simp
  ultimately show "read_store ?m a (sz + length s) = read_store m a sz @ s"
    by (simp add: read_store_append)
  show "\<forall>i. off + length s \<le> i \<longrightarrow> ?m (a + i) = m (a + i)" using assms(4) by simp
qed

abbreviation at :: "nat \<Rightarrow> slice list \<Rightarrow> (nat \<times> nat) list" where
  "at a sls \<equiv> map (\<lambda>(off, s). (a + off, length s)) sls"

lemma store_append_comps_later:
  assumes "slices_of p lo sls" "sz < lo" "length p \<le> cap"
    and "\<And>i. lo \<le> i \<Longrightarrow> i < length p \<Longrightarrow> m (a + i) = p ! i"
  shows "\<exists>m' sz'. store_append_comps cap a (m, sz) (at a sls) True = (m', sz') \<and>
    read_store m' a sz' = read_store m a sz @ concat (map (\<lambda>sl. slash # snd sl) sls)"
  using assms
proof (induction sls arbitrary: lo m sz)
  case Nil
  then show ?case by simp
next
  case (Cons sl sls)
  obtain off s where sl: "sl = (off, s)" by (metis surj_pair)
  have sl_ok: "lo \<le> off" "off + length s \<le> length p" "take (length s) (drop off p) = s"
    "slices_of p (off + length s + 1) sls"
    using Cons.prems(1) sl by auto
  let ?m1 = "m(a + sz := slash)"
  have chr: "store_append_char cap a (m, sz) slash = (?m1, sz + 1)"
    using Cons.prems(2,3) sl_ok(1,2) by (simp add: store_append_char_def)
  have pre: "sz + 1 \<le> off" "\<forall>i. off \<le> i \<longrightarrow> i < length p \<longrightarrow> ?m1 (a + i) = p ! i"
    using Cons.prems(2,4) sl_ok(1) by simp_all
  obtain m2 where m2: "store_append_slice cap a (?m1, sz + 1) (a + off, length s) = (m2, sz + 1 + length s)"
    "read_store m2 a (sz + 1 + length s) = read_store ?m1 a (sz + 1) @ s"
    "\<And>i. off + length s \<le> i \<Longrightarrow> m2 (a + i) = ?m1 (a + i)"
    using store_append_slice_step [OF sl_ok(3,2) Cons.prems(3) pre] by blast
  have "read_store ?m1 a sz = read_store m a sz" by (rule read_store_cong) simp
  then have r1: "read_store ?m1 a (sz + 1) = read_store m a sz @ [slash]"
    unfolding read_store_append by (simp add: read_store_def)
  have keep: "m2 (a + i) = p ! i" if "off + length s + 1 \<le> i" "i < length p" for i
    using m2(3) [of i] that Cons.prems(2,4) sl_ok(1) by simp
  have lt: "sz + 1 + length s < off + length s + 1" using Cons.prems(2) sl_ok(1) by simp
  obtain m' sz' where
    "store_append_comps cap a (m2, sz + 1 + length s) (at a sls) True = (m', sz')"
    "read_store m' a sz' = read_store m2 a (sz + 1 + length s) @ concat (map (\<lambda>sl. slash # snd sl) sls)"
    using Cons.IH [OF sl_ok(4) lt Cons.prems(3) keep] by blast
  then show ?case using chr m2(1,2) r1 by (simp add: sl)
qed

lemma path_str_Cons: "path_str (c # cs) = c @ concat (map (\<lambda>d. slash # d) cs)"
  by (induction cs arbitrary: c) simp_all

lemma store_append_comps_first:
  assumes "slices_of p 0 sls" "sls \<noteq> []" "length p \<le> cap"
    and "\<And>i. i < length p \<Longrightarrow> m (a + i) = p ! i"
  shows "\<exists>m' sz'. store_append_comps cap a (m, 0) (at a sls) False = (m', sz') \<and>
    read_store m' a sz' = path_str (map snd sls)"
proof -
  obtain off s rest where sls: "sls = (off, s) # rest" using assms(2) by (metis list.exhaust surj_pair)
  have ok: "off + length s \<le> length p" "take (length s) (drop off p) = s"
    "slices_of p (off + length s + 1) rest"
    using assms(1) sls by auto
  have pre: "\<forall>i. off \<le> i \<longrightarrow> i < length p \<longrightarrow> m (a + i) = p ! i" using assms(4) by simp
  obtain m1 where m1: "store_append_slice cap a (m, 0) (a + off, length s) = (m1, 0 + length s)"
    "read_store m1 a (0 + length s) = read_store m a 0 @ s"
    "\<And>i. off + length s \<le> i \<Longrightarrow> m1 (a + i) = m (a + i)"
    using store_append_slice_step [OF ok(2,1) assms(3) le0 pre] by blast
  have "m1 (a + i) = p ! i" if "off + length s + 1 \<le> i" "i < length p" for i
    using m1(3) [of i] assms(4) that by simp
  from store_append_comps_later [OF ok(3) _ assms(3) this, of "length s"]
  obtain m' sz' where "store_append_comps cap a (m1, length s) (at a rest) True = (m', sz')"
    "read_store m' a sz' = read_store m1 a (length s) @ concat (map (\<lambda>sl. slash # snd sl) rest)"
    by auto
  then show ?thesis using m1(1,2) by (simp add: sls path_str_Cons read_store_def comp_def)
qed

lemma push_comp_subset: "set (push_comp ab sls c) \<subseteq> insert c (set sls)"
  by (auto simp: push_comp_def dest: in_set_butlastD)

lemma comp_loop_after_slash:
  assumes "\<forall>sl \<in> set sls. fst sl = 0 \<or> p ! (fst sl - 1) = slash"
    and "r \<noteq> [] \<Longrightarrow> off = 0 \<or> p ! (off - 1) = slash"
    and "take (length r) (drop off p) = r"
  shows "\<forall>sl \<in> set (comp_loop ab off r sls). fst sl = 0 \<or> p ! (fst sl - 1) = slash"
  using assms
proof (induction ab off r sls rule: comp_loop.induct)
  case (1 ab off sls)
  then show ?case by simp
next
  case (2 ab off c cs sls)
  define r where "r = c # cs"
  define x where "x = takeWhile (\<lambda>x. x \<noteq> slash) r"
  have xr: "take (length x) r = x" unfolding x_def by (rule takeWhile_eq_take [symmetric])
  have push: "\<forall>sl \<in> set (push_comp ab sls (off, x)). fst sl = 0 \<or> p ! (fst sl - 1) = slash"
  proof
    fix sl assume "sl \<in> set (push_comp ab sls (off, x))"
    then have "sl = (off, x) \<or> sl \<in> set sls" using push_comp_subset [of ab sls "(off, x)"] by blast
    then show "fst sl = 0 \<or> p ! (fst sl - 1) = slash" using 2(2,3) by (elim disjE) simp_all
  qed
  have next_slash: "p ! (off + length x) = slash" if "length x < length r"
  proof -
    have "r ! length x = slash" 
      using that nth_length_takeWhile [of "\<lambda>x. x \<noteq> slash" r] unfolding x_def by simp
    moreover have "off \<le> length p"
    proof (rule ccontr)
      assume "\<not> off \<le> length p"
      then have "r = []" using 2(4) unfolding r_def [symmetric] by simp
      then show False by (simp add: r_def)
    qed
    then have "p ! (off + length x) = drop off p ! length x" by simp
    moreover have "drop off p ! length x = r ! length x"
      using nth_take [OF that, of "drop off p"] 2(4) unfolding r_def [symmetric] by simp
    ultimately show ?thesis by simp
  qed
  have "\<forall>sl \<in> set (comp_loop ab (off + (length x + 1)) (drop (length x + 1) r) (push_comp ab sls (off, x))).
      fst sl = 0 \<or> p ! (fst sl - 1) = slash"
  proof (rule 2(1) [OF x_def [unfolded r_def] refl, folded r_def, OF push])
    assume "drop (length x + 1) r \<noteq> []"
    then show "off + (length x + 1) = 0 \<or> p ! (off + (length x + 1) - 1) = slash"
      using next_slash by simp
  next
    show "take (length (drop (length x + 1) r)) (drop (off + (length x + 1)) p) = drop (length x + 1) r"
      using 2(4) unfolding r_def [symmetric] by (metis add.commute drop_drop drop_take length_drop)
  qed
  then show ?case by (simp add: Let_def r_def x_def)
qed

lemma rtrim_prefix: "\<exists>zs. s = rtrim c s @ zs"
  unfolding rtrim_def by (metis rev_append rev_rev_ident takeWhile_dropWhile_id)

lemma ltrim_bytes: "i < ltrim_count c s \<Longrightarrow> s ! i = c"
proof -
  assume i: "i < ltrim_count c s"
  have "takeWhile (\<lambda>x. x = c) s ! i \<in> set (takeWhile (\<lambda>x. x = c) s)"
    using i by (intro nth_mem) (simp add: ltrim_count_def)
  then have "takeWhile (\<lambda>x. x = c) s ! i = c" by (auto dest: set_takeWhileD)
  moreover have "takeWhile (\<lambda>x. x = c) s ! i = s ! i"
    using i by (intro takeWhile_nth) (simp add: ltrim_count_def)
  ultimately show ?thesis by simp
qed

lemma trim_spec:
  assumes "trim slash (0, p) = (off, q)"
  shows "take (length q) (drop off p) = q" "off + length q \<le> length p"
    "q \<noteq> [] \<Longrightarrow> is_absolute p \<Longrightarrow> 0 < off \<and> p ! (off - 1) = slash"
proof -
  let ?s = "rtrim slash p"
  have off: "off = ltrim_count slash ?s" and q: "q = drop off ?s"
    using assms by (auto simp: trim_def Let_def)
  obtain zs where p: "p = ?s @ zs" using rtrim_prefix by blast
  have le: "off \<le> length ?s" unfolding off ltrim_count_def by (rule length_takeWhile_le)
  have dp: "drop off p = q @ zs" using le q by (subst p) simp
  then show "take (length q) (drop off p) = q" by simp
  show "off + length q \<le> length p" using le q by (subst p) simp
  assume ne: "q \<noteq> []" and ab: "is_absolute p"
  from ne q have "?s \<noteq> []" by auto
  then have "?s ! 0 = slash" using ab p unfolding is_absolute_def by (metis length_greater_0_conv nth_append)
  with \<open>?s \<noteq> []\<close> have "0 < off" unfolding off ltrim_count_def by (cases ?s) auto
  moreover have "p ! (off - 1) = ?s ! (off - 1)"
  proof -
    have "off - 1 < length ?s" using le \<open>0 < off\<close> by linarith
    then show ?thesis by (subst p) (simp only: nth_append if_True)
  qed
  ultimately show "0 < off \<and> p ! (off - 1) = slash" using ltrim_bytes [of "off - 1" slash ?s] off by simp
qed

lemma components_slices: "slices_of p 0 (tc_get_path_components p)"
proof (cases "p = []")
  case True
  then show ?thesis by (simp add: tc_get_path_components_def)
next
  case False
  obtain off q where t: "trim slash (0, p) = (off, q)" by (metis surj_pair)
  note ts = trim_spec [OF t]
  let ?cs = "comp_loop (is_absolute p) off q []"
  have abs: "(p ! 0 = slash) = is_absolute p" using False by (simp add: is_absolute_def)
  have sl: "slices_of p lo ?cs" if "lo \<le> off" for lo
    by (rule comp_loop_slices) (use ts that in auto)
  show ?thesis
  proof (cases "is_absolute p")
    case False
    then show ?thesis using sl [of 0] t abs \<open>p \<noteq> []\<close> by (simp add: tc_get_path_components_def)
  next
    case True
    show ?thesis
    proof (cases ?cs)
      case Nil
      with True t abs \<open>p \<noteq> []\<close> have "tc_get_path_components p = [(0, [slash])]"
        by (simp add: tc_get_path_components_def)
      moreover have "take 1 p = [slash]" using True by (cases p) (simp_all add: is_absolute_def)
      ultimately show ?thesis using \<open>p \<noteq> []\<close> by (simp add: Suc_le_eq)
    next
      case (Cons c rest)
      obtain o0 c0 where c: "c = (o0, c0)" by (metis surj_pair)
      have q: "q \<noteq> []" using Cons by (cases q) auto
      note pos = ts(3) [OF q True]
      have s1: "slices_of p 1 ((o0, c0) # rest)" using sl [of 1] pos Cons c by simp
      have "\<forall>sl \<in> set ?cs. fst sl = 0 \<or> p ! (fst sl - 1) = slash"
        by (rule comp_loop_after_slash) (use ts(1) pos in auto)
      then have "o0 = 0 \<or> p ! (o0 - 1) = slash" unfolding Cons c by simp
      moreover have b: "1 \<le> o0" "o0 + length c0 \<le> length p" "take (length c0) (drop o0 p) = c0"
        "slices_of p (o0 + length c0 + 1) rest"
        using s1 by simp_all
      ultimately have "p ! (o0 - 1) = slash" by simp
      moreover have "drop (o0 - 1) p = p ! (o0 - 1) # drop o0 p"
      proof -
        have "o0 - 1 < length p" using b by linarith
        from Cons_nth_drop_Suc [OF this] show ?thesis using b(1) by simp
      qed
      ultimately have "slices_of p 0 ((o0 - 1, slash # c0) # rest)" using b by simp
      with Cons c True t abs \<open>p \<noteq> []\<close> show ?thesis by (simp add: tc_get_path_components_def)
    qed
  qed
qed

section \<open>Properties\<close>

text \<open>C22. Normalisation is canonical: every path shorter than the limit is turned into a string without
  empty, \<open>.\<close> or resolvable \<open>..\<close> components, absolute exactly when the path was, not longer than the
  path (or one byte), and a fixed point of the normalisation.\<close>
theorem tc_path_normalize_canonical:
  assumes "length p < TC_PATH_MAX" and "length p \<le> cap" and "1 < cap"
  shows "\<exists>cs q. normal (is_absolute p) cs \<and> q = canonical_path (is_absolute p) cs \<and>
    tc_path_normalize (Some p) b cap = (int (length q), q) \<and> is_absolute q = is_absolute p \<and>
    length q \<le> max 1 (length p) \<and> tc_path_normalize (Some q) b' cap = (int (length q), q)"
proof -
  let ?q = "canonical_path (is_absolute p) (stack_of p)"
  note n = stack_of_normal [of p]
  have len: "length ?q \<le> max 1 (length p)"
    using length_canonical [of p]
    by (cases "p = []") (auto simp: canonical_path_def is_absolute_def stack_of_def trim_def rtrim_def resolve_def)
  have "is_absolute ?q = is_absolute p \<and> stack_of ?q = stack_of p" using canonical_stack [OF n] .
  moreover have "tc_path_normalize (Some ?q) b' cap =
      (int (length (canonical_path (is_absolute ?q) (stack_of ?q))), canonical_path (is_absolute ?q) (stack_of ?q))"
    using len assms by (intro normalize_canonical) (auto simp: TC_PATH_MAX_def)
  ultimately show ?thesis
    using n len normalize_canonical [OF assms, of b]
    by (intro exI [of _ "stack_of p"] exI [of _ ?q]) simp
qed

theorem tc_path_normalize_canonical_witness:
  "tc_path_normalize (Some ''/a//b/./../c/'') [] 4096 = (4, ''/a/c'') \<and>
   (\<exists>cs. normal True cs \<and> ''/a/c'' = canonical_path True cs)"
proof -
  let ?p = "''/a//b/./../c/''"
  have v: "tc_path_normalize (Some ?p) [] 4096 = (4, ''/a/c'')" by code_simp
  have ab: "is_absolute ?p" by (simp add: is_absolute_def)
  have "length ?p < TC_PATH_MAX" "length ?p \<le> 4096" "(1::nat) < 4096" by (simp_all add: TC_PATH_MAX_def)
  from tc_path_normalize_canonical [OF this, of "[]" "[]"] v ab show ?thesis by auto
qed

text \<open>C23. Normalising a path inside its own buffer is safe: although every component is copied within
  the bytes the other components are still read from, the buffer ends up holding the string that the
  normalisation into a separate buffer gives.\<close>
theorem normalize_in_place_safe:
  assumes "plen \<le> cap" and "0 < cap" and "normalize_in_place cap m a plen = (n, m')"
  shows "tc_path_normalize_s cap (read_store m a plen) [] = (n, read_store m' a (nat n))"
proof -
  let ?p = "read_store m a plen"
  show ?thesis
  proof (cases "tc_get_path_components ?p = []")
    case True
    with assms(2,3) show ?thesis
      by (auto simp: normalize_in_place_def tc_path_normalize_s_def store_append_char_def
          buf_append_char_def read_store_def)
  next
    case False
    obtain m1 sz where r: "store_append_comps cap a (m, 0) (at a (tc_get_path_components ?p)) False = (m1, sz)"
      "read_store m1 a sz = path_str (comp_strings ?p)"
      using store_append_comps_first [OF components_slices False, of cap m a] assms(1)
      by (auto simp: nth_read_store)
    have m': "n = int sz" "m' = m1" using assms(3) False r(1) by (auto simp: normalize_in_place_def Let_def)
    have ne: "comp_strings ?p \<noteq> []" using False by simp
    have "sz = length (path_str (comp_strings ?p))" using r(2) by (metis length_read_store)
    moreover have "tc_path_normalize_s cap ?p [] = (int (length (path_str (comp_strings ?p))), path_str (comp_strings ?p))"
      using normalize_s_canonical [of ?p cap] assms(1,2) canonical_path_comps [of ?p] ne by simp
    ultimately show ?thesis using m' r(2) by simp
  qed
qed

lemma read_store_string: "read_store (\<lambda>i. if i < length p then p ! i else c) 0 (length p) = p"
  by (rule nth_equalityI) (simp_all add: nth_read_store)

theorem normalize_in_place_safe_witness:
  "let p = ''/a/../b''; m = (\<lambda>i. if i < length p then p ! i else CHR 0x00);
       (n, m') = normalize_in_place 8 m 0 (length p)
   in n = 2 \<and> read_store m' 0 2 = ''/b''"
proof -
  define p where "p = ''/a/../b''"
  define m where "m = (\<lambda>i. if i < length p then p ! i else CHR 0x00)"
  obtain n m' where r: "normalize_in_place 8 m 0 (length p) = (n, m')" by (metis surj_pair)
  have "length p \<le> 8" by (simp add: p_def)
  from normalize_in_place_safe [OF this _ r]
  have "tc_path_normalize_s 8 p [] = (n, read_store m' 0 (nat n))"
    by (simp add: m_def read_store_string)
  moreover have "tc_path_normalize_s 8 p [] = (2, ''/b'')" unfolding p_def by code_simp
  ultimately have "n = 2 \<and> read_store m' 0 2 = ''/b''" by auto
  with r show ?thesis unfolding m_def p_def by (simp add: Let_def)
qed

lemma rtrim_none: "s \<noteq> [] \<Longrightarrow> last s \<noteq> c \<Longrightarrow> rtrim c s = s"
  by (cases s rule: rev_cases) (simp_all add: rtrim_def)

lemma stack_of_join:
  assumes "normal True ds" and "slash \<notin> set name" and "name \<noteq> []"
  shows "stack_of (canonical_path True ds @ slash # name) = resolve True (ds @ [name])"
proof -
  let ?s = "canonical_path True ds @ slash # name"
  have ns: "\<And>c. c \<in> set (ds @ [name]) \<Longrightarrow> slash \<notin> set c \<and> c \<noteq> []"
    using normal_no_slash [OF assms(1)] assms(2,3) by auto
  have "snd (trim slash (0, ?s)) = path_str (ds @ [name])"
  proof (cases ds)
    case Nil
    have "last name \<noteq> slash" "takeWhile (\<lambda>x. x = slash) name = []"
      using assms(2,3) by (metis last_in_set, cases name) auto
    with Nil rtrim_none [of "slash # slash # name" slash] assms(3) show ?thesis
      by (simp add: canonical_path_def trim_def ltrim_count_def)
  next
    case (Cons d ds')
    have "?s = slash # path_str (ds @ [name])"
      using Cons by (simp add: canonical_path_def path_str_Cons)
    then show ?thesis
      using trim_none(2) [of "path_str (ds @ [name])" slash 0] path_str_ends [of "ds @ [name]", OF _ ns]
      by simp
  qed
  moreover have "is_absolute ?s" by (simp add: canonical_path_def is_absolute_def)
  ultimately show ?thesis using split_path_str [of "ds @ [name]", OF ns] by (simp add: stack_of_def)
qed

lemma resolve_child:
  assumes "list_all proper ds" and "proper name \<or> name = ''..''"
  shows "resolve True (ds @ [name]) = (if name = ''..'' then butlast ds else ds @ [name])"
proof -
  have "resolve True ds = ds" using foldl_proper [OF assms(1), of True "[]"] by (simp add: resolve_def)
  then have "resolve True (ds @ [name]) = resolve_step True ds name" by (simp add: resolve_def)
  moreover have "ds \<noteq> [] \<Longrightarrow> last ds \<noteq> ''..''" using assms(1) by (auto simp: list_all_iff proper_def)
  ultimately show ?thesis using assms(2) by (auto simp: resolve_step_def proper_def)
qed

lemma join_child:
  assumes "list_all proper ds" and "proper name \<or> name = ''..''"
    and "length (canonical_path True ds) + 1 + length name < cap" and "cap \<le> TC_PATH_MAX"
  shows "let child = canonical_path True (if name = ''..'' then butlast ds else ds @ [name])
         in tc_path_join (canonical_path True ds) name buf cap = (int (length child), child)"
proof -
  let ?dir = "canonical_path True ds"
  let ?s = "?dir @ slash # name"
  have name: "slash \<notin> set name" "name \<noteq> []" using assms(2) by (auto simp: proper_def)
  have nd: "normal True ds" using assms(1) unfolding normal_def by (intro exI [of _ 0] exI [of _ ds]) simp
  have dir: "?dir \<noteq> []" "is_absolute ?s" by (auto simp: canonical_path_def is_absolute_def)
  have "\<not> cap - length ?dir < length name" using assms(3) by linarith
  then have "tc_path_join ?dir name buf cap = tc_path_normalize (Some ?s) ?s cap"
    using assms(3,4) dir(1) name(2)
    by (simp add: tc_path_join_def tc_path_join_s_def tc_path_append_impl_def buf_remaining_def
        buf_append_slice_def buf_append_char_def asstr_def buf_append_null_def Let_def)
  also have "\<dots> = (int (length (canonical_path (is_absolute ?s) (stack_of ?s))), canonical_path (is_absolute ?s) (stack_of ?s))"
    using assms(3,4) by (intro normalize_canonical) auto
  finally show ?thesis
    using dir(2) stack_of_join [OF nd name] resolve_child [OF assms(1,2)] by simp
qed

text \<open>C32. Joining a directory and a name gives the entry: for a canonical absolute directory path and a
  single component the joined path is the child, and for \<open>..\<close> the parent, the root being its own
  parent.\<close>
theorem tc_path_join_child:
  assumes "list_all proper ds" and "proper name \<or> name = ''..''"
    and "length (canonical_path True ds) + 1 + length name < cap" and "cap \<le> TC_PATH_MAX"
  shows "let child = canonical_path True (if name = ''..'' then butlast ds else ds @ [name])
         in tc_path_join (canonical_path True ds) name buf cap = (int (length child), child)"
  using assms by (rule join_child)

theorem tc_path_join_child_witness:
  "tc_path_join ''/a/b'' ''c'' [] 4096 = (6, ''/a/b/c'') \<and> tc_path_join ''/a/b'' ''..'' [] 4096 = (2, ''/a'')"
proof -
  have d: "list_all proper [''a'', ''b'']" by (simp add: proper_def)
  show ?thesis
    using tc_path_join_child [OF d, of "''c''" 4096 "[]"] tc_path_join_child [OF d, of "''..''" 4096 "[]"]
    by (simp add: proper_def canonical_path_def TC_PATH_MAX_def)
qed

text \<open>Rebasing a path on itself fails: with no component left the size of the result is counted as
  zero minus one, which wraps around and never fits, so the branch that would answer \<open>.\<close> is not
  reached and the caller gets \<open>-1\<close>.\<close>
theorem tc_path_rebase_same_fails:
  assumes "comp_strings base = comp_strings path" and "length b + 1 < cap" and "cap < 2 ^ 32"
  shows "tc_path_rebase_s cap base path b = (- 1, b)"
proof -
  have l: "common_prefix cs cs = length cs" for cs by (induction cs) auto
  have "(of_nat (cap - length b) :: u64) < - 1"
  proof -
    have "unat (of_nat (cap - length b) :: u64) = cap - length b"
      using assms(3) by (simp add: unat_of_nat)
    moreover have "unat (- 1 :: u64) = 2 ^ 64 - 1" by (simp add: unsigned_minus_1_eq_mask mask_eq_exp_minus_1)
    ultimately show ?thesis using assms(3) by (simp add: word_less_nat_alt)
  qed
  then show ?thesis using assms(1) by (simp add: tc_path_rebase_s_def l buf_remaining_def Let_def)
qed

theorem tc_path_rebase_same_fails_witness:
  "tc_path_rebase_s 100 ''/a/b'' ''/a/./b'' [] = (- 1, [])"
proof -
  have "comp_strings ''/a/b'' = comp_strings ''/a/./b''" by code_simp
  then show ?thesis by (rule tc_path_rebase_same_fails) simp_all
qed

end
