(* ===== verification/Txn_Lock_Manager.thy ===== *)
theory Txn_Lock_Manager
  imports Txn_Path "HOL-Library.List_Lexorder" "HOL-Library.Char_ord" "HOL-Library.Multiset"
begin

text \<open>
  The in-memory path lock manager (\<open>txn/lock_manager.cpp\<close>, \<open>lock_manager.hpp\<close>) that serialises
  transactions which touch the same files.

  The table is a map from clean paths to a write flag and a reference count.  Each operation holds
  \<open>paths_mutex\<close> from start to end, so an interleaving of threads is a sequence of operations.  A
  \<open>std::set\<close> of requests is the list of its elements in its order.  \<open>lock\<close> polls the table: its
  model takes the tables that the successive polls see, and has no result while all of them refuse.

  The interface \<open>lock_table\<close> says what a table of shared and exclusive locks promises; what a set of
  clients may rely on is proved from it, and it is interpreted on the lock manager.
\<close>

section \<open>The lock manager\<close>

record lock_ref_count =
  write_lock :: bool
  refcount :: int

type_synonym lock_paths = "bytes \<rightharpoonup> lock_ref_count"

text \<open>\<open>CleanLockRequest\<close>: the path and the write flag.\<close>
type_synonym clean_request = "bytes \<times> bool"

definition clean_path :: "bytes \<Rightarrow> bytes option" where
  "clean_path path = (case tc_path_normalize (Some path) [] PATH_MAX of
     (ret, s) \<Rightarrow> if ret = - 1 then None else Some s)"

text \<open>\<open>std::set\<close> ordered by \<open>CleanLockRequestCompare\<close>.\<close>
fun set_find :: "bytes \<Rightarrow> clean_request list \<Rightarrow> clean_request option" where
  "set_find p [] = None"
| "set_find p (x # xs) = (if fst x = p then Some x else set_find p xs)"

definition set_erase :: "bytes \<Rightarrow> clean_request list \<Rightarrow> clean_request list" where
  "set_erase p xs = filter (\<lambda>x. fst x \<noteq> p) xs"

fun set_insert :: "clean_request \<Rightarrow> clean_request list \<Rightarrow> clean_request list" where
  "set_insert x [] = [x]"
| "set_insert x (y # ys) =
     (if fst x < fst y then x # y # ys else if fst y < fst x then y # set_insert x ys else y # ys)"

fun clean_paths :: "clean_request list \<Rightarrow> (bytes \<times> bool) list \<Rightarrow> clean_request list option" where
  "clean_paths paths [] = Some paths"
| "clean_paths paths ((path, w) # files) =
     (case clean_path path of
        None \<Rightarrow> None
      | Some cp \<Rightarrow>
          (case set_find cp paths of
             Some it \<Rightarrow> clean_paths (set_insert (cp, w \<or> snd it) (set_erase cp paths)) files
           | None \<Rightarrow> clean_paths (set_insert (cp, w) paths) files))"

definition could_lock :: "lock_paths \<Rightarrow> clean_request \<Rightarrow> bool" where
  "could_lock paths file = (case paths (fst file) of
     None \<Rightarrow> True | Some it \<Rightarrow> \<not> snd file \<and> \<not> write_lock it)"

text \<open>The second loop of \<open>try_lock_clean_paths\<close>, with its assertion.\<close>
fun add_locks :: "lock_paths \<Rightarrow> clean_request list \<Rightarrow> (bytes list \<times> lock_paths) option" where
  "add_locks paths [] = Some ([], paths)"
| "add_locks paths ((p, w) # files) = do {
     paths \<leftarrow> (case paths p of
                 Some it \<Rightarrow> do {
                   c_assert (\<not> w \<and> \<not> write_lock it);
                   Some (paths(p \<mapsto> it\<lparr>refcount := refcount it + 1\<rparr>)) }
               | None \<Rightarrow> Some (paths(p \<mapsto> \<lparr>write_lock = w, refcount = 1\<rparr>)));
     (locked, paths) \<leftarrow> add_locks paths files;
     Some (p # locked, paths)
   }"

text \<open>A lock handle is the list of its paths; the handle with \<open>success = false\<close> is \<open>None\<close>.\<close>
definition try_lock_clean_paths ::
  "lock_paths \<Rightarrow> clean_request list \<Rightarrow> (bytes list option \<times> lock_paths) option" where
  "try_lock_clean_paths paths files =
     (if \<not> list_all (could_lock paths) files then Some (None, paths)
      else map_option (\<lambda>(locked, paths). (Some locked, paths)) (add_locks paths files))"

definition try_lock ::
  "lock_paths \<Rightarrow> (bytes \<times> bool) list \<Rightarrow> (bytes list option \<times> lock_paths) option" where
  "try_lock paths files =
     (case clean_paths [] files of
        None \<Rightarrow> Some (None, paths) | Some cs \<Rightarrow> try_lock_clean_paths paths cs)"

text \<open>\<open>polls\<close> are the tables the iterations of the loop find.  \<open>Some None\<close>: still polling.\<close>
fun lock_polls ::
  "clean_request list \<Rightarrow> lock_paths list \<Rightarrow> (bytes list \<times> lock_paths) option option" where
  "lock_polls cs [] = Some None"
| "lock_polls cs (m # ms) =
     (case try_lock_clean_paths m cs of
        None \<Rightarrow> None
      | Some (Some locked, m') \<Rightarrow> Some (Some (locked, m'))
      | Some (None, _) \<Rightarrow> lock_polls cs ms)"

definition lock_acquire ::
  "(bytes \<times> bool) list \<Rightarrow> lock_paths list \<Rightarrow> (bytes list option \<times> lock_paths option) option option"
where
  "lock_acquire files polls =
     (case clean_paths [] files of
        None \<Rightarrow> Some (Some (None, None))
      | Some cs \<Rightarrow> map_option (map_option (\<lambda>(locked, m). (Some locked, Some m))) (lock_polls cs polls))"

fun unlock :: "bytes list \<Rightarrow> lock_paths \<Rightarrow> lock_paths" where
  "unlock [] paths = paths"
| "unlock (p # files) paths =
     unlock files
       (case paths p of
          Some it \<Rightarrow>
            (let it = it\<lparr>refcount := refcount it - 1\<rparr>
             in if refcount it = 0 then paths(p := None) else paths(p \<mapsto> it))
        | None \<Rightarrow> paths)"

section \<open>Interface: shared and exclusive locks\<close>

datatype lock_event = Acquire "clean_request list" | Release nat

text \<open>Clients acquire and release in any order; \<open>held\<close> are the request sets of the handles that are
  out.\<close>
fun lock_run ::
  "(clean_request list \<Rightarrow> 's \<Rightarrow> 's option) \<Rightarrow> (bytes list \<Rightarrow> 's \<Rightarrow> 's) \<Rightarrow> lock_event list
    \<Rightarrow> 's \<times> clean_request list list \<Rightarrow> 's \<times> clean_request list list"
where
  "lock_run acq rel [] sh = sh"
| "lock_run acq rel (Acquire cs # es) (s, held) =
     (case acq cs s of
        None \<Rightarrow> lock_run acq rel es (s, held)
      | Some s' \<Rightarrow> lock_run acq rel es (s', held @ [cs]))"
| "lock_run acq rel (Release i # es) (s, held) =
     (if i < length held
      then lock_run acq rel es (rel (map fst (held ! i)) s, take i held @ drop (Suc i) held)
      else lock_run acq rel es (s, held))"

text \<open>The write flags with which a path is requested.\<close>
definition flags :: "bytes \<Rightarrow> clean_request list \<Rightarrow> bool multiset" where
  "flags p cs = mset (map snd (filter (\<lambda>x. fst x = p) cs))"

definition conflict_free :: "bool multiset \<Rightarrow> bool" where
  "conflict_free F \<longleftrightarrow> (True \<in># F \<longrightarrow> size F = 1)"

fun lock_event_ok :: "lock_event \<Rightarrow> bool" where
  "lock_event_ok (Acquire cs) \<longleftrightarrow> distinct (map fst cs)"
| "lock_event_ok (Release i) \<longleftrightarrow> True"

lemma flags_mem: "flags p cs = {#} \<longleftrightarrow> p \<notin> set (map fst cs)"
  by (force simp: flags_def filter_empty_conv simp del: mset_filter)

lemma flags_distinct: "distinct (map fst cs) \<Longrightarrow> size (flags p cs) \<le> 1"
proof -
  assume "distinct (map fst cs)"
  then have "length (filter (\<lambda>x. fst x = p) cs) \<le> 1"
    by (induction cs) (auto simp: filter_empty_conv image_iff)
  then show ?thesis by (simp add: flags_def del: mset_filter)
qed

lemma flags_size: "distinct (map fst cs) \<Longrightarrow> size (flags p cs) = (if p \<in> set (map fst cs) then 1 else 0)"
  using flags_distinct [of cs p] flags_mem [of p cs]
  by (metis One_nat_def Suc_leI le_antisym nonempty_has_size size_empty)

lemma conflict_free_mono: "conflict_free F \<Longrightarrow> G \<subseteq># F \<Longrightarrow> conflict_free G"
  unfolding conflict_free_def
  by (metis Suc_leI le_antisym mset_subset_eqD nonempty_has_size One_nat_def size_mset_mono empty_iff set_mset_empty)

lemma no_True_replicate: "True \<notin># F \<Longrightarrow> F = replicate_mset (size F) False"
  by (metis (full_types) set_mset_subset_singletonD subsetI singletonI)

lemma conflict_free_release:
  assumes "conflict_free F" and "size W \<le> 1" and "W \<subseteq># F" and "G \<subseteq># F" and "size G = size F - size W"
  shows "G = F - W"
proof (cases "True \<in># F")
  case True
  then have "size F = 1" using assms(1) by (simp add: conflict_free_def)
  show ?thesis
  proof (cases "W = {#}")
    case True
    then show ?thesis using assms(4,5) by (metis diff_empty diff_zero mset_subset_size nat_neq_iff size_empty subset_mset.le_imp_less_or_eq)
  next
    case False
    then have "size W = 1" using assms(2) by (metis One_nat_def Suc_leI le_antisym nonempty_has_size)
    then have "size (F - W) = 0" "size G = 0"
      using assms(3,5) \<open>size F = 1\<close> by (simp_all add: size_Diff_submset)
    then show ?thesis by (simp only: size_eq_0_iff_empty)
  qed
next
  case False
  have "F - W = replicate_mset (size (F - W)) False" "G = replicate_mset (size G) False"
    using False assms(4) by (intro no_True_replicate; metis in_diffD mset_subset_eqD)+
  then show ?thesis using assms(3,5) by (metis size_Diff_submset)
qed

locale lock_table =
  fixes acq :: "clean_request list \<Rightarrow> 's \<Rightarrow> 's option"
    and rel :: "bytes list \<Rightarrow> 's \<Rightarrow> 's"
    and holds :: "'s \<Rightarrow> bytes \<Rightarrow> bool multiset"
    and invar :: "'s \<Rightarrow> bool"
  assumes acq_refused: "invar s \<Longrightarrow> distinct (map fst cs) \<Longrightarrow>
      acq cs s = None \<longleftrightarrow> (\<exists>p. \<not> conflict_free (holds s p + flags p cs))"
    and acq_holds: "invar s \<Longrightarrow> distinct (map fst cs) \<Longrightarrow> acq cs s = Some s' \<Longrightarrow>
      invar s' \<and> holds s' p = holds s p + flags p cs"
    and rel_holds: "invar s \<Longrightarrow> distinct ps \<Longrightarrow> (\<And>q. q \<in> set ps \<Longrightarrow> holds s q \<noteq> {#}) \<Longrightarrow>
      invar (rel ps s) \<and> holds (rel ps s) p \<subseteq># holds s p \<and>
      size (holds (rel ps s) p) = size (holds s p) - (if p \<in> set ps then 1 else 0)"
begin

lemma run_holds:
  assumes "invar s" and "\<And>p. holds s p = (\<Sum>cs\<leftarrow>held. flags p cs)" and "\<And>p. conflict_free (holds s p)"
    and "\<And>cs. cs \<in> set held \<Longrightarrow> distinct (map fst cs)" and "list_all lock_event_ok es"
    and "lock_run acq rel es (s, held) = (s', held')"
  shows "invar s' \<and> (\<forall>p. holds s' p = (\<Sum>cs\<leftarrow>held'. flags p cs) \<and> conflict_free (holds s' p))"
  using assms
proof (induction es arbitrary: s held)
  case Nil
  then show ?case by simp
next
  case (Cons e es)
  show ?case
  proof (cases e)
    case (Acquire cs)
    have d: "distinct (map fst cs)" using Cons.prems(5) Acquire by simp
    show ?thesis
    proof (cases "acq cs s")
      case None
      then show ?thesis
        by (intro Cons.IH [OF Cons.prems(1-4)]) (use Acquire Cons.prems(5,6) in simp_all)
    next
      case (Some s1)
      note h = acq_holds [OF Cons.prems(1) d Some]
      have cf: "conflict_free (holds s1 p)" for p
        using acq_refused [OF Cons.prems(1) d] Some h by auto
      have ds: "distinct (map fst cs')" if "cs' \<in> set (held @ [cs])" for cs'
        using that d Cons.prems(4) by auto
      show ?thesis
        by (rule Cons.IH [OF _ _ cf ds]) (use Some Acquire Cons.prems h in auto)
    qed
  next
    case (Release i)
    show ?thesis
    proof (cases "i < length held")
      case False
      then show ?thesis
        by (intro Cons.IH [OF Cons.prems(1-4)]) (use Release Cons.prems(5,6) in simp_all)
    next
      case True
      let ?cs = "held ! i" and ?rest = "take i held @ drop (Suc i) held"
      let ?s1 = "rel (map fst ?cs) s"
      have d: "distinct (map fst ?cs)" using Cons.prems(4) True by simp
      have sum: "holds s p = flags p ?cs + (\<Sum>cs\<leftarrow>?rest. flags p cs)" for p
        unfolding Cons.prems(2) by (subst id_take_nth_drop [OF True]) (simp add: ac_simps)
      have ne: "holds s q \<noteq> {#}" if "q \<in> set (map fst ?cs)" for q
        using that sum [of q] flags_mem [of q ?cs] by auto
      note r = rel_holds [OF Cons.prems(1) d ne]
      have eq: "holds ?s1 p = (\<Sum>cs\<leftarrow>?rest. flags p cs)" for p
      proof -
        have "holds ?s1 p = holds s p - flags p ?cs"
        proof (rule conflict_free_release [OF Cons.prems(3) flags_distinct [OF d]])
          show "flags p ?cs \<subseteq># holds s p" using sum [of p] by simp
        qed (use r [of p] flags_size [OF d, of p] in simp_all)
        then show ?thesis using sum [of p] by simp
      qed
      have cf: "conflict_free (holds ?s1 p)" for p
        using Cons.prems(3) [of p] r [of p] conflict_free_mono by blast
      have ds: "distinct (map fst cs')" if "cs' \<in> set ?rest" for cs'
        using that Cons.prems(4) by (auto dest: in_set_takeD in_set_dropD)
      show ?thesis
        by (rule Cons.IH [OF _ eq cf ds]) (use Release True Cons.prems r in auto)
    qed
  qed
qed

end

section \<open>The lock manager implements the interface\<close>

definition lm_acquire :: "clean_request list \<Rightarrow> lock_paths \<Rightarrow> lock_paths option" where
  "lm_acquire cs m = (case try_lock_clean_paths m cs of Some (Some _, m') \<Rightarrow> Some m' | _ \<Rightarrow> None)"

definition lm_holds :: "lock_paths \<Rightarrow> bytes \<Rightarrow> bool multiset" where
  "lm_holds m p = (case m p of None \<Rightarrow> {#} | Some it \<Rightarrow> replicate_mset (nat (refcount it)) (write_lock it))"

definition lm_ok :: "lock_paths \<Rightarrow> bool" where
  "lm_ok m \<longleftrightarrow> (\<forall>p it. m p = Some it \<longrightarrow> 1 \<le> refcount it \<and> (write_lock it \<longrightarrow> refcount it = 1))"

definition locked_entry :: "bool \<Rightarrow> lock_ref_count option \<Rightarrow> lock_ref_count" where
  "locked_entry w e = (case e of Some it \<Rightarrow> it\<lparr>refcount := refcount it + 1\<rparr> | None \<Rightarrow> \<lparr>write_lock = w, refcount = 1\<rparr>)"

definition unlocked_entry :: "lock_ref_count option \<Rightarrow> lock_ref_count option" where
  "unlocked_entry e = (case e of
     Some it \<Rightarrow> if refcount it = 1 then None else Some (it\<lparr>refcount := refcount it - 1\<rparr>) | None \<Rightarrow> None)"

lemma add_locks_spec:
  "distinct (map fst cs) \<Longrightarrow> list_all (could_lock m) cs \<Longrightarrow>
   add_locks m cs = Some (map fst cs,
     \<lambda>q. case map_of cs q of None \<Rightarrow> m q | Some w \<Rightarrow> Some (locked_entry w (m q)))"
proof (induction cs arbitrary: m)
  case Nil
  then show ?case by simp
next
  case (Cons c cs)
  obtain p w where c: "c = (p, w)" by (metis surj_pair)
  have ok: "case m p of None \<Rightarrow> True | Some it \<Rightarrow> \<not> w \<and> \<not> write_lock it"
    using Cons.prems(2) c by (simp add: could_lock_def split: option.splits)
  let ?m = "m(p \<mapsto> locked_entry w (m p))"
  have step: "add_locks m (c # cs) = map_option (\<lambda>(l, m). (p # l, m)) (add_locks ?m cs)"
    using ok c by (auto simp: locked_entry_def c_assert_def map_option_case
        split: option.splits prod.splits)
  have np: "p \<notin> fst ` set cs" using Cons.prems(1) c by simp
  have la: "list_all (could_lock ?m) cs"
    using Cons.prems(2) np by (force simp: list_all_iff could_lock_def)
  have "distinct (map fst cs)" using Cons.prems(1) by simp
  note IH = Cons.IH [OF this la]
  have "map_of cs p = None" using np by (simp add: map_of_eq_None_iff)
  then have "(\<lambda>q. case map_of cs q of None \<Rightarrow> ?m q | Some w \<Rightarrow> Some (locked_entry w (?m q))) =
      (\<lambda>q. case map_of (c # cs) q of None \<Rightarrow> m q | Some w \<Rightarrow> Some (locked_entry w (m q)))"
    using c by (intro ext) (simp split: option.splits)
  then show ?case unfolding step IH using c by simp
qed

lemma unlock_spec:
  "distinct ps \<Longrightarrow> unlock ps m = (\<lambda>q. if q \<in> set ps then unlocked_entry (m q) else m q)"
proof (induction ps arbitrary: m)
  case Nil
  then show ?case by simp
next
  case (Cons p ps)
  have "unlock (p # ps) m = unlock ps (m(p := unlocked_entry (m p)))"
    by (auto simp: unlocked_entry_def Let_def fun_upd_idem split: option.splits)
  with Cons.IH Cons.prems show ?case by (auto simp: fun_eq_iff)
qed

lemma flags_map_of: "distinct (map fst cs) \<Longrightarrow>
    flags p cs = (case map_of cs p of None \<Rightarrow> {#} | Some w \<Rightarrow> {#w#})"
proof (induction cs)
  case Nil
  then show ?case by (simp add: flags_def)
next
  case (Cons c cs)
  obtain q w where c: "c = (q, w)" by (metis surj_pair)
  have "flags p (c # cs) = (if q = p then {#w#} + flags p cs else flags p cs)"
    by (simp add: flags_def c)
  moreover have "q = p \<Longrightarrow> map_of cs p = None" using Cons.prems c by (simp add: map_of_eq_None_iff)
  ultimately show ?case using Cons c by auto
qed

lemma lm_holds_conflict_free: "lm_ok m \<Longrightarrow> conflict_free (lm_holds m p)"
  by (auto simp: lm_ok_def lm_holds_def conflict_free_def split: option.splits)

lemma could_lock_cf:
  assumes "lm_ok m"
  shows "could_lock m (p, w) \<longleftrightarrow> conflict_free (lm_holds m p + {#w#})"
proof (cases "m p")
  case None
  then show ?thesis by (simp add: could_lock_def lm_holds_def conflict_free_def)
next
  case (Some it)
  then have "1 \<le> refcount it" using assms by (auto simp: lm_ok_def)
  then have "0 < nat (refcount it)" by simp
  with Some show ?thesis by (auto simp: could_lock_def lm_holds_def conflict_free_def)
qed

lemma could_lock_iff:
  assumes "lm_ok m" "distinct (map fst cs)"
  shows "list_all (could_lock m) cs \<longleftrightarrow> (\<forall>p. conflict_free (lm_holds m p + flags p cs))"
proof
  assume l: "list_all (could_lock m) cs"
  show "\<forall>p. conflict_free (lm_holds m p + flags p cs)"
  proof
    fix p
    show "conflict_free (lm_holds m p + flags p cs)"
    proof (cases "map_of cs p")
      case None
      then show ?thesis using lm_holds_conflict_free [OF assms(1)] by (simp add: flags_map_of [OF assms(2)])
    next
      case (Some w)
      then have "could_lock m (p, w)" using l by (auto simp: list_all_iff dest: map_of_SomeD)
      then show ?thesis using Some could_lock_cf [OF assms(1)] by (simp add: flags_map_of [OF assms(2)])
    qed
  qed
next
  assume cf: "\<forall>p. conflict_free (lm_holds m p + flags p cs)"
  have "could_lock m c" if "c \<in> set cs" for c
  proof -
    have "map_of cs (fst c) = Some (snd c)" using that assms(2) by simp
    then show ?thesis
      using cf [rule_format, of "fst c"] could_lock_cf [OF assms(1), of "fst c" "snd c"]
      by (simp add: flags_map_of [OF assms(2)])
  qed
  then show "list_all (could_lock m) cs" by (simp add: list_all_iff)
qed

lemma try_lock_clean_paths_spec:
  assumes "distinct (map fst cs)"
  shows "try_lock_clean_paths m cs =
    (if list_all (could_lock m) cs
     then Some (Some (map fst cs), \<lambda>q. case map_of cs q of None \<Rightarrow> m q | Some w \<Rightarrow> Some (locked_entry w (m q)))
     else Some (None, m))"
  using add_locks_spec [OF assms] by (simp add: try_lock_clean_paths_def)

lemma locked_entry_holds:
  assumes "lm_ok m" and "could_lock m (p, w)"
  shows "(case locked_entry w (m p) of it \<Rightarrow> replicate_mset (nat (refcount it)) (write_lock it)) =
      lm_holds m p + {#w#} \<and> 1 \<le> refcount (locked_entry w (m p)) \<and>
    (write_lock (locked_entry w (m p)) \<longrightarrow> refcount (locked_entry w (m p)) = 1)"
proof (cases "m p")
  case None
  then show ?thesis by (simp add: locked_entry_def lm_holds_def)
next
  case (Some it)
  then have "1 \<le> refcount it" using assms(1) by (auto simp: lm_ok_def)
  moreover have "\<not> w" "\<not> write_lock it" using assms(2) Some by (auto simp: could_lock_def)
  moreover have "nat (refcount it + 1) = Suc (nat (refcount it))" using calculation(1) by simp
  ultimately show ?thesis using Some by (simp add: locked_entry_def lm_holds_def)
qed

interpretation lm: lock_table lm_acquire unlock lm_holds lm_ok
proof unfold_locales
  fix s :: lock_paths and cs :: "clean_request list"
  assume a: "lm_ok s" "distinct (map fst cs)"
  show "lm_acquire cs s = None \<longleftrightarrow> (\<exists>p. \<not> conflict_free (lm_holds s p + flags p cs))"
    using could_lock_iff [OF a] by (auto simp: lm_acquire_def try_lock_clean_paths_spec [OF a(2)])
next
  fix s s' :: lock_paths and cs :: "clean_request list" and p
  assume a: "lm_ok s" "distinct (map fst cs)" "lm_acquire cs s = Some s'"
  then have l: "list_all (could_lock s) cs"
    and s': "s' = (\<lambda>q. case map_of cs q of None \<Rightarrow> s q | Some w \<Rightarrow> Some (locked_entry w (s q)))"
    by (auto simp: lm_acquire_def try_lock_clean_paths_spec split: if_splits)
  have e: "could_lock s (q, w)" if "map_of cs q = Some w" for q w
    using l that by (auto simp: list_all_iff dest: map_of_SomeD)
  have "lm_ok s'"
    unfolding lm_ok_def s'
    using a(1) locked_entry_holds [OF a(1) e] by (auto simp: lm_ok_def split: option.splits)
  moreover have "lm_holds s' p = lm_holds s p + flags p cs"
  proof (cases "map_of cs p")
    case None
    then show ?thesis by (simp add: s' lm_holds_def flags_map_of [OF a(2)])
  next
    case (Some w)
    then show ?thesis using locked_entry_holds [OF a(1) e [OF Some]]
      by (simp add: s' lm_holds_def flags_map_of [OF a(2)])
  qed
  ultimately show "lm_ok s' \<and> lm_holds s' p = lm_holds s p + flags p cs" ..
next
  fix s :: lock_paths and ps :: "bytes list" and p
  assume a: "lm_ok s" "distinct ps" and ne: "\<And>q. q \<in> set ps \<Longrightarrow> lm_holds s q \<noteq> {#}"
  have u: "lm_holds (unlock ps s) p \<subseteq># lm_holds s p \<and>
      size (lm_holds (unlock ps s) p) = size (lm_holds s p) - (if p \<in> set ps then 1 else 0)"
  proof (cases "p \<in> set ps")
    case False
    then show ?thesis by (simp add: unlock_spec [OF a(2)] lm_holds_def)
  next
    case True
    then obtain it where it: "s p = Some it" using ne [OF True] by (auto simp: lm_holds_def split: option.splits)
    then have "1 \<le> refcount it" using a(1) by (auto simp: lm_ok_def)
    then have "nat (refcount it) = Suc (nat (refcount it - 1))" by simp
    then show ?thesis using True it
      by (auto simp: unlock_spec [OF a(2)] lm_holds_def unlocked_entry_def)
  qed
  moreover have "lm_ok (unlock ps s)"
    using a(1) by (force simp: lm_ok_def unlock_spec [OF a(2)] unlocked_entry_def split: option.splits if_splits)
  ultimately show "lm_ok (unlock ps s) \<and> lm_holds (unlock ps s) p \<subseteq># lm_holds s p \<and>
      size (lm_holds (unlock ps s) p) = size (lm_holds s p) - (if p \<in> set ps then 1 else 0)" by simp
qed

lemma conflict_free_sum_pair:
  assumes "conflict_free (\<Sum>cs\<leftarrow>held. flags p cs)" and "i < j" and "j < length held"
    and "(p, w) \<in> set (held ! i)" and "(p, w') \<in> set (held ! j)"
  shows "\<not> w \<and> \<not> w'"
proof -
  let ?F = "\<Sum>cs\<leftarrow>held. flags p cs"
  have flag: "v \<in># flags p cs" if "(p, v) \<in> set cs" for v cs
    using that by (force simp: flags_def)
  obtain xs zs vs where h: "held = xs @ held ! i # zs @ held ! j # vs"
  proof
    have "take j held = take i held @ held ! i # drop (Suc i) (take j held)"
      using id_take_nth_drop [of i "take j held"] assms(2,3) by (simp add: min_def)
    then show "held = take i held @ held ! i # drop (Suc i) (take j held) @ held ! j # drop (Suc j) held"
      using id_take_nth_drop [OF assms(3)] by (metis append.assoc append_Cons)
  qed
  have F: "?F = flags p (held ! i) + flags p (held ! j) + (\<Sum>cs\<leftarrow>xs @ zs @ vs. flags p cs)"
    by (subst (1) h) (simp add: ac_simps)
  have "w \<in># ?F" "w' \<in># ?F" using F flag [OF assms(4)] flag [OF assms(5)] by auto
  moreover have "1 < size ?F"
  proof -
    have "0 < size (flags p (held ! i))" "0 < size (flags p (held ! j))"
      using flag [OF assms(4)] flag [OF assms(5)] by (metis empty_iff nonempty_has_size set_mset_empty)+
    then show ?thesis by (simp add: F)
  qed
  ultimately show ?thesis using assms(1) unfolding conflict_free_def by (cases w; cases w') auto
qed

section \<open>Properties\<close>

lemma lm_run_exclusive:
  assumes "list_all lock_event_ok es" and "lock_run lm_acquire unlock es (Map.empty, []) = (m, held)"
  shows "(\<forall>p. lm_holds m p = (\<Sum>cs\<leftarrow>held. flags p cs)) \<and>
    (\<forall>i j p w w'. i < j \<longrightarrow> j < length held \<longrightarrow> (p, w) \<in> set (held ! i) \<longrightarrow> (p, w') \<in> set (held ! j) \<longrightarrow>
       \<not> w \<and> \<not> w') \<and> (held = [] \<longrightarrow> m = Map.empty)"
proof -
  have "lm_ok m \<and> (\<forall>p. lm_holds m p = (\<Sum>cs\<leftarrow>held. flags p cs) \<and> conflict_free (lm_holds m p))"
    by (rule lm.run_holds [OF _ _ _ _ assms]) (simp_all add: lm_ok_def lm_holds_def conflict_free_def)
  then have inv: "lm_ok m" "\<And>p. lm_holds m p = (\<Sum>cs\<leftarrow>held. flags p cs)"
    and cf: "\<And>p. conflict_free (\<Sum>cs\<leftarrow>held. flags p cs)"
    by (blast, blast, metis)
  have "m = Map.empty" if "held = []"
  proof
    fix p
    have "lm_holds m p = {#}" using inv(2) that by simp
    then show "m p = None" using inv(1) by (force simp: lm_holds_def lm_ok_def split: option.splits)
  qed
  with inv conflict_free_sum_pair [OF cf] show ?thesis by blast
qed

text \<open>C7. Mutual exclusion: in every interleaving of acquisitions and releases, starting from an empty
  table, two handles that are out at the same time never share a path unless both hold it for
  reading; every count in the table is the number of handles out on that path; and when the last
  handle is released the table is empty again.\<close>
theorem lock_manager_exclusive:
  assumes "list_all lock_event_ok es" and "lock_run lm_acquire unlock es (Map.empty, []) = (m, held)"
  shows "(\<forall>p. lm_holds m p = (\<Sum>cs\<leftarrow>held. flags p cs)) \<and>
    (\<forall>i j p w w'. i < j \<longrightarrow> j < length held \<longrightarrow> (p, w) \<in> set (held ! i) \<longrightarrow> (p, w') \<in> set (held ! j) \<longrightarrow>
       \<not> w \<and> \<not> w') \<and> (held = [] \<longrightarrow> m = Map.empty)"
  using assms by (rule lm_run_exclusive)

theorem lock_manager_exclusive_witness:
  "let r = [(''/a'', False)]; w = [(''/a'', True)];
       (m, held) = lock_run lm_acquire unlock [Acquire r, Acquire w, Acquire r, Release 0] (Map.empty, [])
   in held = [r] \<and> lm_holds m ''/a'' = {#False#}"
proof -
  let ?r = "[(''/a'', False)]" and ?w = "[(''/a'', True)]"
  let ?es = "[Acquire ?r, Acquire ?w, Acquire ?r, Release 0]"
  obtain m held where run: "lock_run lm_acquire unlock ?es (Map.empty, []) = (m, held)" by (metis surj_pair)
  have ok: "list_all lock_event_ok ?es" by simp
  have "held = [?r]"
    using run by (auto simp: lm_acquire_def try_lock_clean_paths_def could_lock_def)
  then show ?thesis
    using lock_manager_exclusive [OF ok run] run by (simp add: flags_def)
qed

lemma try_lock_unlock:
  assumes "lm_ok m" and "distinct (map fst cs)"
  shows "\<exists>h m'. try_lock_clean_paths m cs = Some (h, m') \<and>
    (case h of
       Some locked \<Rightarrow> list_all (could_lock m) cs \<and> locked = map fst cs \<and> unlock locked m' = m
     | None \<Rightarrow> \<not> list_all (could_lock m) cs \<and> m' = m)"
proof (cases "list_all (could_lock m) cs")
  case False
  then show ?thesis by (simp add: try_lock_clean_paths_spec [OF assms(2)])
next
  case True
  let ?m = "\<lambda>q. case map_of cs q of None \<Rightarrow> m q | Some w \<Rightarrow> Some (locked_entry w (m q))"
  have "unlock (map fst cs) ?m q = m q" for q
  proof (cases "map_of cs q")
    case None
    then have "q \<notin> set (map fst cs)" by (simp add: map_of_eq_None_iff)
    with None show ?thesis by (simp add: unlock_spec [OF assms(2)])
  next
    case (Some w)
    then have "q \<in> set (map fst cs)" by (force dest: map_of_SomeD)
    moreover have "unlocked_entry (Some (locked_entry w (m q))) = m q"
      using assms(1) by (cases "m q") (force simp: locked_entry_def unlocked_entry_def lm_ok_def)+
    ultimately show ?thesis using Some by (simp add: unlock_spec [OF assms(2)])
  qed
  then have "unlock (map fst cs) ?m = m" by blast
  with True show ?thesis by (simp add: try_lock_clean_paths_spec [OF assms(2)])
qed

text \<open>C24. Try-lock never fails its assertion, is granted exactly when every requested path is free or
  shared by readers only with a read requested, changes nothing when it is refused, and unlocking
  the handle it returns restores the table.\<close>
theorem try_lock_unlock_roundtrip:
  assumes "lm_ok m" and "distinct (map fst cs)"
  shows "\<exists>h m'. try_lock_clean_paths m cs = Some (h, m') \<and>
    (case h of
       Some locked \<Rightarrow> list_all (could_lock m) cs \<and> locked = map fst cs \<and> unlock locked m' = m
     | None \<Rightarrow> \<not> list_all (could_lock m) cs \<and> m' = m)"
  using assms by (rule try_lock_unlock)

theorem try_lock_unlock_roundtrip_witness:
  "\<exists>m'. try_lock_clean_paths [''/a'' \<mapsto> \<lparr>write_lock = False, refcount = 2\<rparr>] [(''/a'', False), (''/b'', True)] =
     Some (Some [''/a'', ''/b''], m') \<and>
     unlock [''/a'', ''/b''] m' = [''/a'' \<mapsto> \<lparr>write_lock = False, refcount = 2\<rparr>]"
proof -
  let ?m = "[''/a'' \<mapsto> \<lparr>write_lock = False, refcount = 2\<rparr>]" and ?cs = "[(''/a'', False), (''/b'', True)]"
  have "lm_ok ?m" "distinct (map fst ?cs)" by (simp_all add: lm_ok_def)
  from try_lock_unlock_roundtrip [OF this] obtain h m' where
    h: "try_lock_clean_paths ?m ?cs = Some (h, m')"
    "case h of Some locked \<Rightarrow> list_all (could_lock ?m) ?cs \<and> locked = map fst ?cs \<and> unlock locked m' = ?m
     | None \<Rightarrow> \<not> list_all (could_lock ?m) ?cs \<and> m' = ?m" by blast
  have "list_all (could_lock ?m) ?cs" by (simp add: could_lock_def)
  then obtain locked where "h = Some locked" using h(2) by (cases h) auto
  with h show ?thesis by auto
qed

lemma set_find_map_of: "set_find p xs = map_option (Pair p) (map_of xs p)"
  by (induction xs) auto

lemma set_insert_sorted:
  "sorted_wrt (<) (map fst xs) \<Longrightarrow> p \<notin> fst ` set xs \<Longrightarrow>
     sorted_wrt (<) (map fst (set_insert (p, w) xs)) \<and> set (set_insert (p, w) xs) = insert (p, w) (set xs)"
proof (induction xs)
  case Nil
  then show ?case by simp
next
  case (Cons y ys)
  show ?case
  proof (cases "p < fst y")
    case True
    then show ?thesis using Cons.prems by (auto dest: order.strict_trans)
  next
    case False
    moreover have "p \<noteq> fst y" using Cons.prems(2) by auto
    ultimately have "fst y < p" by simp
    then show ?thesis using Cons False by auto
  qed
qed

lemma map_of_sorted:
  assumes "sorted_wrt (<) (map fst (xs :: clean_request list))"
  shows "map_of xs p = Some w \<longleftrightarrow> (p, w) \<in> set xs"
  using assms by (simp add: strict_sorted_iff)

text \<open>The write flags asked for a clean path by a request list.\<close>
definition requested :: "(bytes \<times> bool) list \<Rightarrow> bytes \<Rightarrow> bool list" where
  "requested files p = [w. (q, w) \<leftarrow> files, clean_path q = Some p]"

definition merged :: "bool option \<Rightarrow> bool list \<Rightarrow> bool option" where
  "merged e ws = (if e = None \<and> ws = [] then None else Some (e = Some True \<or> True \<in> set ws))"

lemma clean_paths_step:
  assumes "sorted_wrt (<) (map fst ps)"
  shows "let ps' = (case set_find cp ps of
            Some it \<Rightarrow> set_insert (cp, w \<or> snd it) (set_erase cp ps) | None \<Rightarrow> set_insert (cp, w) ps)
    in sorted_wrt (<) (map fst ps') \<and> map_of ps' = (map_of ps)(cp \<mapsto> w \<or> map_of ps cp = Some True)"
proof -
  let ?v = "w \<or> map_of ps cp = Some True"
  let ?ps = "case set_find cp ps of
            Some it \<Rightarrow> set_insert (cp, w \<or> snd it) (set_erase cp ps) | None \<Rightarrow> set_insert (cp, w) ps"
  have er: "sorted_wrt (<) (map fst (set_erase cp ps))" "cp \<notin> fst ` set (set_erase cp ps)"
    using assms by (auto simp: set_erase_def sorted_wrt_map intro: sorted_wrt_filter)
  have eq: "?ps = set_insert (cp, ?v) (set_erase cp ps)"
  proof (cases "map_of ps cp")
    case None
    then have "set_erase cp ps = ps"
      by (auto simp: set_erase_def filter_id_conv map_of_eq_None_iff)
    with None show ?thesis by (simp add: set_find_map_of)
  next
    case (Some b)
    then show ?thesis by (simp add: set_find_map_of)
  qed
  note ins = set_insert_sorted [OF er, of ?v]
  have "map_of (set_insert (cp, ?v) (set_erase cp ps)) q = ((map_of ps)(cp \<mapsto> ?v)) q" for q
  proof -
    have "map_of (set_insert (cp, ?v) (set_erase cp ps)) q = Some b \<longleftrightarrow> ((map_of ps)(cp \<mapsto> ?v)) q = Some b" for b
      using map_of_sorted [of "set_insert (cp, ?v) (set_erase cp ps)" q b] ins map_of_sorted [OF assms, of q b]
      by (auto simp: set_erase_def)
    then show ?thesis by (metis not_None_eq)
  qed
  then show ?thesis unfolding eq Let_def using ins by blast
qed

lemma clean_paths_merged:
  "sorted_wrt (<) (map fst ps) \<Longrightarrow> clean_paths ps files = Some cs \<Longrightarrow>
     sorted_wrt (<) (map fst cs) \<and> map_of cs p = merged (map_of ps p) (requested files p)"
proof (induction ps files rule: clean_paths.induct)
  case (1 paths)
  then show ?case by (auto simp: merged_def requested_def)
next
  case (2 ps path w files)
  obtain cp where cp: "clean_path path = Some cp" using 2(4) by (auto split: option.splits)
  define ps' where "ps' = (case set_find cp ps of
            Some it \<Rightarrow> set_insert (cp, w \<or> snd it) (set_erase cp ps) | None \<Rightarrow> set_insert (cp, w) ps)"
  have st: "sorted_wrt (<) (map fst ps')" "map_of ps' = (map_of ps)(cp \<mapsto> w \<or> map_of ps cp = Some True)"
    using clean_paths_step [OF 2(3), of cp w] unfolding ps'_def Let_def by simp_all
  have run: "clean_paths ps' files = Some cs" 
    using 2(4) cp by (cases "set_find cp ps") (simp_all add: ps'_def)
  have "sorted_wrt (<) (map fst cs) \<and> map_of cs p = merged (map_of ps' p) (requested files p)"
  proof (cases "set_find cp ps")
    case None
    then show ?thesis using 2(1) [OF cp None] st(1) run by (simp add: ps'_def)
  next
    case (Some it)
    then show ?thesis using 2(2) [OF cp Some] st(1) run by (simp add: ps'_def)
  qed
  moreover have "requested ((path, w) # files) p = (if cp = p then w # requested files p else requested files p)"
    using cp by (simp add: requested_def)
  ultimately show ?case using st(2) by (auto simp: merged_def)
qed

lemma clean_paths_set:
  assumes "clean_paths [] files = Some cs"
  shows "sorted_wrt (<) (map fst cs) \<and>
    (\<forall>p w. (p, w) \<in> set cs \<longleftrightarrow> requested files p \<noteq> [] \<and> w = (True \<in> set (requested files p)))"
proof -
  have m: "sorted_wrt (<) (map fst cs)" "\<And>p. map_of cs p = merged None (requested files p)"
    using clean_paths_merged [OF _ assms] by auto
  have "(p, w) \<in> set cs \<longleftrightarrow> requested files p \<noteq> [] \<and> w = (True \<in> set (requested files p))" for p w
    unfolding map_of_sorted [OF m(1), symmetric] m(2) by (auto simp: merged_def)
  with m(1) show ?thesis by simp
qed

text \<open>C33. Requests on the same file are merged: whatever spellings of a path and whatever order a
  compound uses, the cleaned set has each normalised path once, in ascending order, for writing
  exactly when at least one of the requests on it was for writing.\<close>
theorem clean_paths_merge_requests:
  assumes "clean_paths [] files = Some cs"
  shows "sorted_wrt (<) (map fst cs) \<and>
    (\<forall>p w. (p, w) \<in> set cs \<longleftrightarrow> requested files p \<noteq> [] \<and> w = (True \<in> set (requested files p)))"
  using assms by (rule clean_paths_set)

theorem clean_paths_merge_requests_witness:
  "\<exists>cs. clean_paths [] [(''/b'', False), (''/a/../b'', True), (''/a/'', False)] = Some cs \<and>
     cs = [(''/a'', False), (''/b'', True)] \<and> sorted_wrt (<) (map fst cs)"
proof -
  have r: "clean_paths [] [(''/b'', False), (''/a/../b'', True), (''/a/'', False)] =
      Some [(''/a'', False), (''/b'', True)]" by code_simp
  with clean_paths_merge_requests [OF r] show ?thesis by blast
qed

end
