(* ===== verification/Txn_Locking.thy ===== *)
theory Txn_Locking
  imports Nfs4_Types Txn_Lock_Manager
begin

text \<open>
  The analysis of a compound's arguments that decides which paths its transaction locks
  (\<open>FSAL_TXN/locking.c\<close>).

  Resolving an NFS file handle goes through the cache layer above this one: it is the argument
  \<open>resolve_fh\<close>, whose outer \<open>None\<close> is the null handle and whose inner \<open>None\<close> a handle without an
  absolute path.  The UTF-8 check of a component name is the argument \<open>utf8\<close> (\<open>None\<close> for an error).
  Both buffers have one byte more than \<open>PATH_MAX\<close>, so a copy keeps the first \<open>PATH_MAX\<close> bytes.
\<close>

type_synonym fh_resolver = "nfs_fh4 \<Rightarrow> bytes option option"
type_synonym utf8_scan = "bytes \<Rightarrow> bytes option"

definition extract_open_name :: "open_claim4 \<Rightarrow> bytes option" where
  "extract_open_name cl = (case claim cl of
       CLAIM_NULL \<Rightarrow> Some (claim_file cl)
     | CLAIM_DELEGATE_CUR \<Rightarrow> Some (claim_file cl)
     | _ \<Rightarrow> None)"

definition strncpy :: "bytes \<Rightarrow> bytes" where
  "strncpy s = take PATH_MAX s"

record lock_scan =
  current_path :: bytes
  saved_path :: bytes
  lr_vec :: "(bytes \<times> bool) list"

text \<open>The array of the caller has 256 elements; a write behind it is the abort value.\<close>
definition add_lock_request :: "bytes \<Rightarrow> bool \<Rightarrow> lock_scan \<Rightarrow> lock_scan option" where
  "add_lock_request path is_write st =
     (if length (lr_vec st) < 256 then Some (st\<lparr>lr_vec := lr_vec st @ [(strncpy path, is_write)]\<rparr>)
      else None)"

definition scan_op ::
  "fh_resolver \<Rightarrow> utf8_scan \<Rightarrow> bytes \<Rightarrow> 'fattr nfs_argop4 \<Rightarrow> lock_scan \<Rightarrow> lock_scan option"
where
  "scan_op resolve_fh utf8 root_path op st =
     (let cur = current_path st in
      case op of
        ARG_PUTFH fh \<Rightarrow> do {
          path \<leftarrow> resolve_fh fh;
          Some (st\<lparr>current_path := strncpy (case path of None \<Rightarrow> ''/undefined'' | Some p \<Rightarrow> p)\<rparr>) }
      | ARG_PUTROOTFH \<Rightarrow> Some (st\<lparr>current_path := strncpy root_path\<rparr>)
      | ARG_SAVEFH \<Rightarrow> Some (st\<lparr>saved_path := strncpy cur\<rparr>)
      | ARG_RESTOREFH \<Rightarrow> Some (st\<lparr>current_path := strncpy (saved_path st)\<rparr>)
      | ARG_LOOKUP objname \<Rightarrow> do {
          name \<leftarrow> utf8 objname;
          let (ret, p) = tc_path_join cur name cur PATH_MAX;
          c_assert (ret \<ge> 0);
          Some (st\<lparr>current_path := p\<rparr>) }
      | ARG_LOOKUPP \<Rightarrow> do {
          let (ret, p) = tc_path_join cur ''..'' cur PATH_MAX;
          c_assert (ret \<ge> 0);
          Some (st\<lparr>current_path := p\<rparr>) }
      | ARG_OPEN args \<Rightarrow> do {
          (parent_path, st) \<leftarrow>
            (case extract_open_name (open_claim args) of
               Some u8name \<Rightarrow> do {
                 name \<leftarrow> utf8 u8name;
                 Some (strncpy cur, st\<lparr>current_path := snd (tc_path_join cur name cur PATH_MAX)\<rparr>) }
             | None \<Rightarrow> Some (snd (tc_path_join cur ''..'' [] PATH_MAX), st));
          add_lock_request parent_path (open_create args) st }
      | ARG_CREATE _ \<Rightarrow> add_lock_request cur True st
      | ARG_REMOVE _ \<Rightarrow> add_lock_request cur True st
      | ARG_WRITE _ _ \<Rightarrow> add_lock_request cur True st
      | ARG_LINK _ \<Rightarrow> do {
          let srcbuf = snd (tc_path_join (saved_path st) ''..'' (saved_path st) (length (saved_path st)));
          st \<leftarrow> add_lock_request srcbuf False st;
          add_lock_request cur True st }
      | ARG_READDIR \<Rightarrow> add_lock_request cur False st
      | ARG_GETATTR \<Rightarrow> add_lock_request cur False st
      | _ \<Rightarrow> Some st)"

fun scan_ops ::
  "fh_resolver \<Rightarrow> utf8_scan \<Rightarrow> bytes \<Rightarrow> 'fattr nfs_argop4 list \<Rightarrow> lock_scan \<Rightarrow> lock_scan option"
where
  "scan_ops resolve_fh utf8 root_path [] st = Some st"
| "scan_ops resolve_fh utf8 root_path (op # ops) st = do {
     st \<leftarrow> scan_op resolve_fh utf8 root_path op st;
     scan_ops resolve_fh utf8 root_path ops st }"

definition find_relevant_handles ::
  "fh_resolver \<Rightarrow> utf8_scan \<Rightarrow> bytes \<Rightarrow> 'fattr nfs_argop4 list \<Rightarrow> (bytes \<times> bool) list option"
where
  "find_relevant_handles resolve_fh utf8 root_path ops =
     map_option lr_vec
       (scan_ops resolve_fh utf8 root_path ops
          \<lparr>current_path = strncpy root_path, saved_path = [], lr_vec = []\<rparr>)"

section \<open>Abstract analysis\<close>
















lemma link_source_unchanged: "snd (tc_path_join s ''..'' s (length s)) = s"
proof (cases "length s \<ge> TC_PATH_MAX")
  case True
  then show ?thesis by (simp add: tc_path_join_def)
next
  case False
  have "tc_path_append_impl (length s) [] s = (0, s)"
    by (simp add: tc_path_append_impl_def buf_remaining_def buf_append_slice_def)
  moreover have "snd (tc_path_append_impl (length s) s ''..'') = s"
    by (simp add: tc_path_append_impl_def buf_remaining_def)
  ultimately show ?thesis
    using False by (simp add: tc_path_join_def tc_path_join_s_def asstr_def buf_append_null_def
        tc_path_normalize_def TC_PATH_MAX_def)
qed






section \<open>Properties\<close>



section \<open>What the operations access\<close>


abbreviation NFS4_OP_SETATTR :: nfs_opnum4 where "NFS4_OP_SETATTR \<equiv> 34"

definition accessed :: "'fattr nfs_argop4 \<Rightarrow> bytes list \<Rightarrow> bytes list option \<Rightarrow> (bytes list \<times> bool) list" where
  "accessed op cur saved = (let src = (\<lambda>w. case saved of None \<Rightarrow> [] | Some ds \<Rightarrow> [(ds, w)]) in case op of
       ARG_OPEN args \<Rightarrow> (case extract_open_name (open_claim args) of Some n \<Rightarrow> [(cur, open_create args)] | None \<Rightarrow> [(cur, False)])
     | ARG_CREATE _ \<Rightarrow> [(cur, True)]
     | ARG_REMOVE _ \<Rightarrow> [(cur, True)]
     | ARG_WRITE _ _ \<Rightarrow> [(cur, True)]
     | ARG_READDIR \<Rightarrow> [(cur, False)]
     | ARG_GETATTR \<Rightarrow> [(cur, False)]
     | ARG_LINK _ \<Rightarrow> src True @ [(cur, True)]
     | ARG_RENAME _ _ \<Rightarrow> src True @ [(cur, True)]
     | ARG_COPY _ _ \<Rightarrow> src False @ [(cur, True)]
     | ARG_CLONE _ _ \<Rightarrow> src False @ [(cur, True)]
     | ARG_OTHER n \<Rightarrow> if n = NFS4_OP_READ then [(cur, False)] else if n = NFS4_OP_SETATTR then [(cur, True)] else []
     | _ \<Rightarrow> [])"









text \<open>\<open>RENAME\<close>, \<open>COPY\<close>, \<open>CLONE\<close> and \<open>SETATTR\<close> change an object and \<open>READ\<close> reads one; the analysis asks for nothing.\<close>
lemma unlocked_operations:
  assumes "op \<in> {ARG_RENAME n1 n2, ARG_COPY o1 o2, ARG_CLONE o3 o4, ARG_OTHER NFS4_OP_SETATTR, ARG_OTHER NFS4_OP_READ}"
  shows "scan_op resolve_fh utf8 root_path op st = Some st" "accessed op cur saved \<noteq> []"
  using assms by (auto simp: scan_op_def accessed_def Let_def split: option.splits)

text \<open>\<open>CREATE\<close> makes the new object current; the analysis stays at its parent.\<close>
lemma create_not_followed:
  "scan_op resolve_fh utf8 root_path (ARG_CREATE n) st = Some st' \<Longrightarrow> current_path st' = current_path st"
  by (auto simp: scan_op_def add_lock_request_def Let_def split: if_splits)

text \<open>C40. A \<open>LINK\<close> locks its source, not the source's parent: the join that should compute the parent
  is given a capacity without room for the name, leaves the path alone, and its failure is
  ignored.\<close>
theorem link_locks_source_itself:
  assumes "length (lr_vec st) < 255" and "length (saved_path st) \<le> PATH_MAX"
  shows "\<exists>st'. scan_op resolve_fh utf8 root_path (ARG_LINK name) st = Some st' \<and>
    lr_vec st' = lr_vec st @ [(saved_path st, False), (strncpy (current_path st), True)]"
  using assms by (simp add: scan_op_def link_source_unchanged add_lock_request_def strncpy_def Let_def)

theorem link_locks_source_itself_witness:
  "\<exists>st'. scan_op (\<lambda>_. None) Some ''/'' (ARG_LINK ''n'' :: unit nfs_argop4)
       \<lparr>current_path = ''/d'', saved_path = ''/s/f'', lr_vec = []\<rparr> = Some st' \<and>
     lr_vec st' = [(''/s/f'', False), (''/d'', True)]"
  using link_locks_source_itself [of "\<lparr>current_path = ''/d'', saved_path = ''/s/f'', lr_vec = []\<rparr>" "\<lambda>_. None" Some "''/''" "''n''"]
  by (simp add: PATH_MAX_def strncpy_def)

text \<open>C8. Conflicting compounds exclude each other: if the analyses of two compounds ask for the same
  file, under any spelling, and at least one of them for writing, then in no interleaving of the lock
  manager are the locks of both held at the same time.\<close>
theorem conflicting_compounds_exclude:
  assumes "find_relevant_handles resolve_fh utf8 root_path ops1 = Some rs1"
    and "find_relevant_handles resolve_fh utf8 root_path ops2 = Some rs2"
    and "clean_paths [] rs1 = Some cs1" and "clean_paths [] rs2 = Some cs2"
    and "(p1, w1) \<in> set rs1" and "(p2, w2) \<in> set rs2" and "w1 \<or> w2"
    and "clean_path p1 = Some p" and "clean_path p2 = Some p"
    and "list_all lock_event_ok es" and "lock_run lm_acquire unlock es (Map.empty, []) = (m, held)"
    and "i < j" and "j < length held"
  shows "\<not> (held ! i = cs1 \<and> held ! j = cs2) \<and> \<not> (held ! i = cs2 \<and> held ! j = cs1)"
proof -
  have q: "w1 \<in> set (requested rs1 p)" "w2 \<in> set (requested rs2 p)"
    using assms(5,6,8,9) by (force simp: requested_def)+
  have "(p, True \<in> set (requested rs1 p)) \<in> set cs1" "(p, True \<in> set (requested rs2 p)) \<in> set cs2"
    using clean_paths_set [OF assms(3)] clean_paths_set [OF assms(4)] q by auto
  moreover have "True \<in> set (requested rs1 p) \<or> True \<in> set (requested rs2 p)"
    using q assms(7) by (cases w1; cases w2) auto
  ultimately show ?thesis
    using lm_run_exclusive [OF assms(10,11)] assms(12,13) by blast
qed

theorem conflicting_compounds_exclude_witness:
  "let ops1 = [ARG_CREATE ''x'' :: unit nfs_argop4]; ops2 = [ARG_GETATTR :: unit nfs_argop4];
       cs1 = [(''/e'', True)]; cs2 = [(''/e'', False)];
       held = snd (lock_run lm_acquire unlock [Acquire cs2, Acquire cs1, Acquire cs2] (Map.empty, []))
   in find_relevant_handles (\<lambda>_. None) Some ''/e/'' ops1 = Some [(''/e/'', True)] \<and>
      find_relevant_handles (\<lambda>_. None) Some ''/e/'' ops2 = Some [(''/e/'', False)] \<and>
      held = [cs2, cs2] \<and> \<not> (held ! 0 = cs1 \<and> held ! 1 = cs2)"
proof -
  let ?cs1 = "[(''/e'', True)]" and ?cs2 = "[(''/e'', False)]"
  let ?es = "[Acquire ?cs2, Acquire ?cs1, Acquire ?cs2]"
  have f: "find_relevant_handles (\<lambda>_. None) Some ''/e/'' [ARG_CREATE ''x'' :: unit nfs_argop4] = Some [(''/e/'', True)]"
    "find_relevant_handles (\<lambda>_. None) Some ''/e/'' [ARG_GETATTR :: unit nfs_argop4] = Some [(''/e/'', False)]"
    by (simp_all add: find_relevant_handles_def scan_op_def add_lock_request_def strncpy_def PATH_MAX_def)
  have c: "clean_paths [] [(''/e/'', True)] = Some ?cs1" "clean_paths [] [(''/e/'', False)] = Some ?cs2"
    "clean_path ''/e/'' = Some ''/e''"
    by code_simp+
  obtain m held where run: "lock_run lm_acquire unlock ?es (Map.empty, []) = (m, held)" by (metis surj_pair)
  have held: "held = [?cs2, ?cs2]"
    using run by (auto simp: lm_acquire_def try_lock_clean_paths_def could_lock_def c_assert_def)
  have ok: "list_all lock_event_ok ?es" by simp
  have "\<not> (held ! 0 = ?cs1 \<and> held ! 1 = ?cs2)"
    using conflicting_compounds_exclude [OF f c(1,2) _ _ _ c(3,3) ok run, of True False 0 1] held by simp
  then show ?thesis using f run held by simp
qed

end
