(* ===== verification/Txn_World.thy ===== *)
theory Txn_World
  imports Txn_Db Txn_Opvec Txn_Cleanup_Queue Txn_Locking
begin

unbundle bit_operations_syntax

text \<open>
  The state that the transactional layer works on, and the file system underneath it.

  The FSAL below is a stack parameter of the program (any FSAL can be configured): its method tables
  are the record \<open>sub_fsal\<close>, whose functions act on an opaque state and receive the export that
  \<open>op_ctx->fsal_export\<close> points to at the call, because the source switches that pointer around every
  call.  Methods whose arguments the layer only hands through are the slots of \<open>s_pass\<close>.  The minor
  part of \<open>fsal_status_t\<close> is not modelled.

  The handles of this layer live in a heap, so that a released handle is an address without a
  value; using it, or taking \<open>container_of\<close> in the wrong export, is the abort value.  The handles of
  the FSAL below are opaque values.  The helpers of \<open>FSAL/fsal_helper.c\<close> that this layer calls on
  them are modelled here.
\<close>

section \<open>Attributes\<close>

record attrlist =
  valid_mask :: u64
  filesize :: u64
  amode :: u32
  aowner :: u64
  agroup :: u64

definition no_attrs :: attrlist where
  "no_attrs = \<lparr>valid_mask = 0, filesize = 0, amode = 0, aowner = 0, agroup = 0\<rparr>"

abbreviation ATTR_SIZE :: u64 where "ATTR_SIZE \<equiv> 0x4"
abbreviation ATTR_MODE :: u64 where "ATTR_MODE \<equiv> 0x80"
abbreviation ATTR_OWNER :: u64 where "ATTR_OWNER \<equiv> 0x200"
abbreviation ATTR_GROUP :: u64 where "ATTR_GROUP \<equiv> 0x400"

section \<open>The FSAL below\<close>

datatype export_ctx = TxnExport | SubExport

datatype fsal_dir_result = DIR_CONTINUE | DIR_READAHEAD | DIR_TERMINATE

datatype fsal_create_mode =
    FSAL_NO_CREATE | FSAL_UNCHECKED | FSAL_GUARDED | FSAL_EXCLUSIVE | FSAL_EXCLUSIVE_41
  | FSAL_EXCLUSIVE_9P

text \<open>Methods that are only handed through.\<close>
datatype pass_op =
    P_compute_readdir_cookie | P_dirent_cmp | P_setattr2 | P_is_referral
  | P_check_verifier | P_status2 | P_reopen2 | P_read2 | P_write2 | P_seek2 | P_io_advise2
  | P_commit2 | P_lock_op2 | P_close2 | P_fallocate | P_copy | P_clone | P_clone2
  | P_list_ext_attrs | P_getextattr_id_by_name | P_getextattr_value_by_name
  | P_getextattr_value_by_id | P_setextattr_value | P_setextattr_value_by_id
  | P_remove_extattr_by_id | P_remove_extattr_by_name
  | P_get_fs_dynamic_info | P_fs_supports | P_fs_maxfilesize | P_fs_maxread | P_fs_maxwrite
  | P_fs_maxlink | P_fs_maxnamelen | P_fs_maxpathlen | P_fs_acl_support | P_fs_supported_attrs
  | P_fs_umask | P_get_quota | P_set_quota | P_alloc_state | P_free_state | P_is_superuser
  | P_prepare_unexport

type_synonym ('r, 'fs) sub_op = "export_ctx \<Rightarrow> 'fs \<Rightarrow> 'r \<times> 'fs"
type_synonym 'h obj_result = "fsal_errors_t \<times> 'h option \<times> attrlist"

text \<open>A directory is read as the list of entries for which the method calls its callback, with the
  status and the end-of-directory flag.\<close>
record ('fs, 'h, 'a, 'r) sub_fsal =
  s_type :: "'h \<Rightarrow> object_file_type_t"
  s_fileid :: "'h \<Rightarrow> u64"
  s_handle_to_key :: "'h \<Rightarrow> (bytes, 'fs) sub_op"
  s_lookup :: "'h \<Rightarrow> bytes \<Rightarrow> ('h obj_result, 'fs) sub_op"
  s_mkdir :: "'h \<Rightarrow> bytes \<Rightarrow> attrlist \<Rightarrow> ('h obj_result, 'fs) sub_op"
  s_mknode :: "'h \<Rightarrow> bytes \<Rightarrow> object_file_type_t \<Rightarrow> attrlist \<Rightarrow> ('h obj_result, 'fs) sub_op"
  s_symlink :: "'h \<Rightarrow> bytes \<Rightarrow> bytes \<Rightarrow> attrlist \<Rightarrow> ('h obj_result, 'fs) sub_op"
  s_open2 :: "'h \<Rightarrow> 'a \<Rightarrow> fsal_create_mode \<Rightarrow> bytes option \<Rightarrow> ('h obj_result, 'fs) sub_op"
  s_readlink :: "'h \<Rightarrow> bool \<Rightarrow> (fsal_errors_t \<times> bytes, 'fs) sub_op"
  s_link :: "'h \<Rightarrow> 'h \<Rightarrow> bytes \<Rightarrow> (fsal_errors_t, 'fs) sub_op"
  s_readdir :: "'h \<Rightarrow> u64 option \<Rightarrow>
    (fsal_errors_t \<times> (bytes \<times> 'h \<times> attrlist \<times> u64) list \<times> bool, 'fs) sub_op"
  s_rename :: "'h \<Rightarrow> 'h \<Rightarrow> bytes \<Rightarrow> 'h \<Rightarrow> bytes \<Rightarrow> (fsal_errors_t, 'fs) sub_op"
  s_getattrs :: "'h \<Rightarrow> (fsal_errors_t \<times> attrlist, 'fs) sub_op"
  s_setattr2 :: "'h \<Rightarrow> attrlist \<Rightarrow> (fsal_errors_t, 'fs) sub_op"
  s_unlink :: "'h \<Rightarrow> 'h \<Rightarrow> bytes \<Rightarrow> (fsal_errors_t, 'fs) sub_op"
  s_close :: "'h \<Rightarrow> (fsal_errors_t, 'fs) sub_op"
  s_copy :: "'h \<Rightarrow> u64 \<Rightarrow> 'h \<Rightarrow> u64 \<Rightarrow> u64 \<Rightarrow> (fsal_errors_t, 'fs) sub_op"
  s_clone2 :: "'h \<Rightarrow> u64 \<Rightarrow> 'h \<Rightarrow> u64 \<Rightarrow> u64 \<Rightarrow> (fsal_errors_t, 'fs) sub_op"
  s_release :: "'h \<Rightarrow> (unit, 'fs) sub_op"
  s_test_access :: "'h \<Rightarrow> (fsal_errors_t, 'fs) sub_op"
  s_pass :: "pass_op \<Rightarrow> 'a \<Rightarrow> 'h list \<Rightarrow> ('r, 'fs) sub_op"
  s_lookup_path :: "bytes \<Rightarrow> ('h obj_result, 'fs) sub_op"
  s_create_handle :: "bytes \<Rightarrow> ('h obj_result, 'fs) sub_op"
  s_start_compound :: "(fsal_errors_t, 'fs) sub_op option"
  s_end_compound :: "(fsal_errors_t, 'fs) sub_op option"
  s_backup_nfs4_op :: "(nat \<Rightarrow> 'h \<Rightarrow> (fsal_errors_t, 'fs) sub_op) option"

section \<open>The state\<close>

text \<open>\<open>txnfs_fsal_obj_handle\<close>.\<close>
record 'h txn_handle =
  th_sub :: 'h
  th_uuid :: bytes
  th_path :: bytes
  th_type :: object_file_type_t
  th_fileid :: u64

text \<open>A pointer to a \<open>fsal_obj_handle\<close>: one of this layer or one of the layer below.\<close>
datatype 'h obj_hdl = SubHdl 'h | TxnHdl nat

text \<open>\<open>op_ctx\<close>, the export and the heap.  \<open>worker_up\<close> is \<open>cleanup_worker_tid != 0\<close>.\<close>
record ('db, 'fs, 'h, 'fattr) world = "'db txn_ctx" +
  fsal_export :: export_ctx
  opidx :: nat
  op_args :: "'fattr nfs_argop4 list option"
  txn_bkp_folder :: "'h option"
  txn_hdl_set :: "'h obj_hdl list option"
  exp_root :: "nat option"
  bkproot :: "'h option"
  cqueue :: "'h cleanup_queue"
  worker_up :: bool
  lock_handle :: "bytes list option"
  locked_paths :: "bytes list"
  lm_paths :: lock_paths
  heap :: "nat \<rightharpoonup> 'h txn_handle"
  next_hdl :: nat
  uuid_count :: nat
  fs :: 'fs

text \<open>What surrounds the layer: the database, the FSAL below, the values of \<open>uuid_generate\<close>, the
  export's full path, the caller's credentials, the UTF-8 check, the resolution of wire handles by
  the cache layer above, protobuf, the attribute decoder (the result is \<open>Some\<close> on success), and the
  two helpers of \<open>fsal_helper.c\<close> that are not modelled.\<close>
record ('db, 'fs, 'h, 'a, 'r, 'fattr) env =
  e_db :: "'db leveldb"
  e_sub :: "('fs, 'h, 'a, 'r) sub_fsal"
  e_uuid :: "nat \<Rightarrow> bytes"
  e_fullpath :: bytes
  e_uid :: u64
  e_gid :: u64
  e_utf8 :: utf8_scan
  e_resolve_fh :: fh_resolver
  e_serialize :: "txn_type \<Rightarrow> u64 \<Rightarrow> bytes option"
  e_fattr :: "'fattr \<Rightarrow> attrlist option"
  e_fsal_open2 :: "'h \<Rightarrow> bytes \<Rightarrow> attrlist \<Rightarrow> ('h obj_result, 'fs) sub_op"
  e_fsal_lookupp :: "'h \<Rightarrow> ('h obj_result, 'fs) sub_op"

text \<open>A call of a method below, in the current export.\<close>
definition sub_call ::
  "('r, 'fs) sub_op \<Rightarrow> ('db, 'fs, 'h, 'fattr, 'x) world_scheme
    \<Rightarrow> 'r \<times> ('db, 'fs, 'h, 'fattr, 'x) world_scheme"
where
  "sub_call g w = (case g (fsal_export w) (fs w) of (r, fs') \<Rightarrow> (r, w\<lparr>fs := fs'\<rparr>))"

text \<open>\<open>container_of(op_ctx->fsal_export, struct txnfs_fsal_export, export)\<close> followed by the switch to
  its \<open>sub_export\<close>, and the switch back.\<close>
definition enter_sub ::
  "('db, 'fs, 'h, 'fattr, 'x) world_scheme \<Rightarrow> ('db, 'fs, 'h, 'fattr, 'x) world_scheme option" where
  "enter_sub w = (if fsal_export w = TxnExport then Some (w\<lparr>fsal_export := SubExport\<rparr>) else None)"

definition leave_sub ::
  "('db, 'fs, 'h, 'fattr, 'x) world_scheme \<Rightarrow> ('db, 'fs, 'h, 'fattr, 'x) world_scheme" where
  "leave_sub w = w\<lparr>fsal_export := TxnExport\<rparr>"

section \<open>Helpers of the common layer on handles below\<close>

text \<open>As this layer calls them: \<open>fsal_lookup\<close> without attributes to fill in, \<open>get_optional_attrs\<close> with
  attributes to fill in and without the request to hide errors.  \<open>fsal_access\<close> is the slot
  \<open>s_test_access\<close>; the count of open descriptors of the process is not modelled.\<close>

definition get_optional_attrs ::
  "('fs, 'h, 'a, 'r) sub_fsal \<Rightarrow> 'h \<Rightarrow> ('db, 'fs, 'h, 'fattr, 'x) world_scheme
    \<Rightarrow> (fsal_errors_t \<times> attrlist) \<times> ('db, 'fs, 'h, 'fattr, 'x) world_scheme"
where
  "get_optional_attrs S h w = sub_call (s_getattrs S h) w"

definition fsal_close ::
  "('fs, 'h, 'a, 'r) sub_fsal \<Rightarrow> 'h \<Rightarrow> ('db, 'fs, 'h, 'fattr, 'x) world_scheme
    \<Rightarrow> fsal_errors_t \<times> ('db, 'fs, 'h, 'fattr, 'x) world_scheme"
where
  "fsal_close S h w =
     (if s_type S h \<noteq> REGULAR_FILE then (ERR_FSAL_NO_ERROR, w)
      else case sub_call (s_close S h) w of
             (st, w) \<Rightarrow> (if st = ERR_FSAL_NOT_OPENED then ERR_FSAL_NO_ERROR else st, w))"

definition fsal_readlink ::
  "('fs, 'h, 'a, 'r) sub_fsal \<Rightarrow> 'h \<Rightarrow> ('db, 'fs, 'h, 'fattr, 'x) world_scheme
    \<Rightarrow> (fsal_errors_t \<times> bytes) \<times> ('db, 'fs, 'h, 'fattr, 'x) world_scheme"
where
  "fsal_readlink S h w =
     (if s_type S h \<noteq> SYMBOLIC_LINK then ((ERR_FSAL_BADTYPE, []), w)
      else sub_call (s_readlink S h False) w)"

definition fsal_lookup ::
  "('db, 'fs, 'h, 'a, 'r, 'fattr) env \<Rightarrow> 'h \<Rightarrow> bytes \<Rightarrow> ('db, 'fs, 'h, 'fattr, 'x) world_scheme
    \<Rightarrow> 'h obj_result \<times> ('db, 'fs, 'h, 'fattr, 'x) world_scheme"
where
  "fsal_lookup E parent name w =
     (if s_type (e_sub E) parent \<noteq> DIRECTORY then ((ERR_FSAL_NOTDIR, None, no_attrs), w)
      else case sub_call (s_test_access (e_sub E) parent) w of
        (st, w) \<Rightarrow>
          if FSAL_IS_ERROR st then ((st, None, no_attrs), w)
          else if name = ''.'' then ((ERR_FSAL_NO_ERROR, Some parent, no_attrs), w)
          else if name = ''..'' then sub_call (e_fsal_lookupp E parent) w
          else sub_call (s_lookup (e_sub E) parent name) w)"

definition fsal_copy ::
  "('fs, 'h, 'a, 'r) sub_fsal \<Rightarrow> 'h \<Rightarrow> u64 \<Rightarrow> 'h \<Rightarrow> u64 \<Rightarrow> u64
    \<Rightarrow> ('db, 'fs, 'h, 'fattr, 'x) world_scheme
    \<Rightarrow> fsal_errors_t \<times> ('db, 'fs, 'h, 'fattr, 'x) world_scheme"
where
  "fsal_copy S src src_offset dst dst_offset nbytes w =
     (case (if nbytes = 0 then sub_call (s_getattrs S src) w
            else ((ERR_FSAL_NO_ERROR, no_attrs), w)) of
        ((st, attrs), w) \<Rightarrow>
          if FSAL_IS_ERROR st then (st, w)
          else sub_call (s_copy S src src_offset dst dst_offset
                           (if nbytes = 0 then filesize attrs - src_offset else nbytes)) w)"

text \<open>Owner and group are not set when they are the caller's own.\<close>
definition strip_own :: "u64 \<Rightarrow> u64 \<Rightarrow> attrlist \<Rightarrow> attrlist" where
  "strip_own uid gid a =
     (let a = (if valid_mask a AND ATTR_OWNER \<noteq> 0 \<and> aowner a = uid
               then a\<lparr>valid_mask := valid_mask a AND NOT ATTR_OWNER\<rparr> else a)
      in if valid_mask a AND ATTR_GROUP \<noteq> 0 \<and> agroup a = gid
         then a\<lparr>valid_mask := valid_mask a AND NOT ATTR_GROUP\<rparr> else a)"

definition create_by_type ::
  "('db, 'fs, 'h, 'a, 'r, 'fattr) env \<Rightarrow> 'h \<Rightarrow> bytes \<Rightarrow> object_file_type_t \<Rightarrow> attrlist \<Rightarrow> bytes
    \<Rightarrow> ('db, 'fs, 'h, 'fattr, 'x) world_scheme
    \<Rightarrow> 'h obj_result \<times> ('db, 'fs, 'h, 'fattr, 'x) world_scheme"
where
  "create_by_type E parent name ty attrs link_content w =
     (let S = e_sub E in
      if ty = REGULAR_FILE then
        (case sub_call (e_fsal_open2 E parent name attrs) w of
           ((st, obj, a), w) \<Rightarrow>
             (case obj of
                Some h \<Rightarrow> ((st, obj, a), if FSAL_IS_SUCCESS st then snd (fsal_close S h w) else w)
              | None \<Rightarrow> ((st, obj, a), w)))
      else if ty = DIRECTORY then sub_call (s_mkdir S parent name attrs) w
      else if ty = SYMBOLIC_LINK then sub_call (s_symlink S parent name link_content attrs) w
      else sub_call (s_mknode S parent name ty attrs) w)"

definition fsal_create ::
  "('db, 'fs, 'h, 'a, 'r, 'fattr) env \<Rightarrow> 'h \<Rightarrow> bytes \<Rightarrow> object_file_type_t \<Rightarrow> attrlist \<Rightarrow> bytes
    \<Rightarrow> ('db, 'fs, 'h, 'fattr, 'x) world_scheme
    \<Rightarrow> 'h obj_result \<times> ('db, 'fs, 'h, 'fattr, 'x) world_scheme"
where
  "fsal_create E parent name ty attrs link_content w =
     (if ty \<in> {NO_FILE_TYPE, EXTENDED_ATTR} then ((ERR_FSAL_BADTYPE, None, no_attrs), w)
      else
        case create_by_type E parent name ty (strip_own (e_uid E) (e_gid E) attrs) link_content w of
          ((st, obj, a), w) \<Rightarrow>
            if FSAL_IS_SUCCESS st then ((st, obj, a), w)
            else if st = ERR_FSAL_STALE then ((st, obj, a), w)
            else if st = ERR_FSAL_EXIST then
              (case fsal_lookup E parent name w of
                 ((st, obj, a), w) \<Rightarrow>
                   (case obj of
                      Some h \<Rightarrow>
                        ((ERR_FSAL_EXIST, if s_type (e_sub E) h \<noteq> ty then None else obj, a), w)
                    | None \<Rightarrow> ((st, obj, a), w)))
            else ((st, None, a), w))"

end
