(* ===== verification/Txn_Handle.thy ===== *)
theory Txn_Handle
  imports Txn_World
begin

text \<open>
  The object handles of the transactional layer: allocation and the operations that wrap or hand
  through the handles of the FSAL below (\<open>FSAL_TXN/handle.c\<close>, \<open>file.c\<close>, \<open>xattrs.c\<close>, the queries of
  \<open>export.c\<close>, and \<open>get_txn_root\<close> of \<open>helper.c\<close>).
\<close>

type_synonym ('db, 'fs, 'h, 'fattr, 'v) act =
  "('db, 'fs, 'h, 'fattr) world \<Rightarrow> ('v \<times> ('db, 'fs, 'h, 'fattr) world) option"

abbreviation NUL :: char where "NUL \<equiv> CHR 0x00"

section \<open>Allocation\<close>

definition txnfs_alloc_handle ::
  "('fs, 'h, 'a, 'r) sub_fsal \<Rightarrow> 'h \<Rightarrow> bytes \<Rightarrow> bytes \<Rightarrow> ('db, 'fs, 'h, 'fattr) world
    \<Rightarrow> nat \<times> ('db, 'fs, 'h, 'fattr) world"
where
  "txnfs_alloc_handle S sub uuid abs_path w =
     (next_hdl w,
      w\<lparr>heap := (heap w)(next_hdl w \<mapsto> \<lparr>th_sub = sub, th_uuid = uuid, th_path = abs_path,
                                       th_type = s_type S sub, th_fileid = s_fileid S sub\<rparr>),
        next_hdl := next_hdl w + 1\<rparr>)"

text \<open>\<open>txnfs_db_insert_handle\<close> with the UUID it generates, which is returned.\<close>
definition insert_new_uuid ::
  "('db, 'fs, 'h, 'a, 'r, 'fattr) env \<Rightarrow> bytes \<Rightarrow> bytes \<Rightarrow> ('db, 'fs, 'h, 'fattr, bytes) act"
where
  "insert_new_uuid E key pathbuf w = do {
     let uuid = e_uuid E (uuid_count w);
     let w = w\<lparr>uuid_count := uuid_count w + 1\<rparr>;
     (ret, w) \<leftarrow> txnfs_db_insert_handle (e_db E) key uuid pathbuf w;
     c_assert (ret = 0);
     Some (uuid, w)
   }"

text \<open>The UUID of the new handle: a fresh one for a created object or one without an entry.\<close>
definition handle_uuid ::
  "('db, 'fs, 'h, 'a, 'r, 'fattr) env \<Rightarrow> bytes \<Rightarrow> bytes \<Rightarrow> bool \<Rightarrow> ('db, 'fs, 'h, 'fattr, bytes) act"
where
  "handle_uuid E key pathbuf is_creation w =
     (if is_creation then insert_new_uuid E key pathbuf w
      else do {
        found \<leftarrow> txnfs_db_get_uuid (e_db E) key w;
        (case found of
           Some uuid \<Rightarrow> Some (uuid, w)
         | None \<Rightarrow> insert_new_uuid E key pathbuf w) })"

definition txnfs_alloc_and_check_handle ::
  "('db, 'fs, 'h, 'a, 'r, 'fattr) env \<Rightarrow> 'h option \<Rightarrow> bytes \<Rightarrow> bytes \<Rightarrow> fsal_errors_t \<Rightarrow> bool
    \<Rightarrow> ('db, 'fs, 'h, 'fattr, fsal_errors_t \<times> nat option) act"
where
  "txnfs_alloc_and_check_handle E sub_handle parent_path this_path subfsal_status is_creation w =
     (if FSAL_IS_ERROR subfsal_status then Some ((subfsal_status, None), w)
      else do {
        sub \<leftarrow> sub_handle;
        let (key, w) = sub_call (s_handle_to_key (e_sub E) sub) (w\<lparr>fsal_export := SubExport\<rparr>);
        let w = w\<lparr>fsal_export := TxnExport\<rparr>;
        let (ret, abs_path) = tc_path_join parent_path this_path [] PATH_MAX;
        c_assert (ret \<ge> 0);
        let pathbuf = abs_path @ [NUL];
        (uuid, w) \<leftarrow> handle_uuid E key pathbuf is_creation w;
        let (n, w) = txnfs_alloc_handle (e_sub E) sub uuid abs_path w;
        Some ((subfsal_status, Some n), w)
      })"

section \<open>Operations that create handles\<close>

type_synonym hdl_result = "fsal_errors_t \<times> nat option \<times> attrlist"

text \<open>The common part of \<open>lookup\<close>, \<open>makedir\<close>, \<open>makenode\<close> and \<open>makesymlink\<close>: a method of the parent
  below, then the new handle.\<close>
definition wrap_child ::
  "('db, 'fs, 'h, 'a, 'r, 'fattr) env \<Rightarrow> nat \<Rightarrow> bytes \<Rightarrow> ('h \<Rightarrow> ('h obj_result, 'fs) sub_op) \<Rightarrow> bool
    \<Rightarrow> ('db, 'fs, 'h, 'fattr, hdl_result) act"
where
  "wrap_child E parent name method is_creation w = do {
     p \<leftarrow> heap w parent;
     w \<leftarrow> enter_sub w;
     let ((status, sub_handle, attrs), w) = sub_call (method (th_sub p)) w;
     let w = leave_sub w;
     ((status, n), w) \<leftarrow>
       txnfs_alloc_and_check_handle E sub_handle (th_path p) name status is_creation w;
     Some ((status, n, attrs), w)
   }"

definition lookup ::
  "('db, 'fs, 'h, 'a, 'r, 'fattr) env \<Rightarrow> nat \<Rightarrow> bytes \<Rightarrow> ('db, 'fs, 'h, 'fattr, hdl_result) act" where
  "lookup E parent path = wrap_child E parent path (\<lambda>h. s_lookup (e_sub E) h path) False"

definition makedir ::
  "('db, 'fs, 'h, 'a, 'r, 'fattr) env \<Rightarrow> nat \<Rightarrow> bytes \<Rightarrow> attrlist \<Rightarrow> ('db, 'fs, 'h, 'fattr, hdl_result) act"
where
  "makedir E dir_hdl name attrs_in =
     wrap_child E dir_hdl name (\<lambda>h. s_mkdir (e_sub E) h name attrs_in) True"

definition makenode ::
  "('db, 'fs, 'h, 'a, 'r, 'fattr) env \<Rightarrow> nat \<Rightarrow> bytes \<Rightarrow> object_file_type_t \<Rightarrow> attrlist
    \<Rightarrow> ('db, 'fs, 'h, 'fattr, hdl_result) act"
where
  "makenode E dir_hdl name nodetype attrs_in =
     wrap_child E dir_hdl name (\<lambda>h. s_mknode (e_sub E) h name nodetype attrs_in) True"

definition makesymlink ::
  "('db, 'fs, 'h, 'a, 'r, 'fattr) env \<Rightarrow> nat \<Rightarrow> bytes \<Rightarrow> bytes \<Rightarrow> attrlist
    \<Rightarrow> ('db, 'fs, 'h, 'fattr, hdl_result) act"
where
  "makesymlink E dir_hdl name link_path attrs_in =
     wrap_child E dir_hdl name (\<lambda>h. s_symlink (e_sub E) h name link_path attrs_in) True"

text \<open>The name of the path is the opened name only when the call may create the file.\<close>
definition txnfs_open2 ::
  "('db, 'fs, 'h, 'a, 'r, 'fattr) env \<Rightarrow> nat \<Rightarrow> 'a \<Rightarrow> fsal_create_mode \<Rightarrow> bytes option
    \<Rightarrow> ('db, 'fs, 'h, 'fattr, hdl_result) act"
where
  "txnfs_open2 E obj_hdl a cmode name w = do {
     p \<leftarrow> heap w obj_hdl;
     w \<leftarrow> enter_sub w;
     let ((status, sub_handle, attrs), w) = sub_call (s_open2 (e_sub E) (th_sub p) a cmode name) w;
     let w = leave_sub w;
     (case sub_handle of
        None \<Rightarrow> Some ((status, None, attrs), w)
      | Some _ \<Rightarrow> do {
          let is_creation = (cmode \<noteq> FSAL_NO_CREATE);
          filename \<leftarrow> (if is_creation then name else Some []);
          ((status, n), w) \<leftarrow>
            txnfs_alloc_and_check_handle E sub_handle (th_path p) filename status is_creation w;
          Some ((status, n, attrs), w) })
   }"

definition txnfs_lookup_path ::
  "('db, 'fs, 'h, 'a, 'r, 'fattr) env \<Rightarrow> bytes \<Rightarrow> ('db, 'fs, 'h, 'fattr, hdl_result) act"
where
  "txnfs_lookup_path E path w = do {
     let w = w\<lparr>fsal_export := SubExport\<rparr>;
     let ((status, sub_handle, attrs), w) = sub_call (s_lookup_path (e_sub E) path) w;
     sub \<leftarrow> sub_handle;
     let (fh_desc, w) = sub_call (s_handle_to_key (e_sub E) sub) w;
     let w = w\<lparr>fsal_export := TxnExport\<rparr>;
     exists \<leftarrow> txnfs_db_handle_exists (e_db E) fh_desc w;
     ((status, n), w) \<leftarrow> txnfs_alloc_and_check_handle E sub_handle path [] status (\<not> exists) w;
     Some ((status, n, attrs), w)
   }"

text \<open>\<open>helper.c\<close>.  In the export below there is no root of this layer: the branch is only reached in
  this layer's own export.\<close>
definition get_txn_root ::
  "('db, 'fs, 'h, 'a, 'r, 'fattr) env \<Rightarrow> ('db, 'fs, 'h, 'fattr, nat) act"
where
  "get_txn_root E w = do {
     c_assert (fsal_export w = TxnExport);
     (case exp_root w of
        Some n \<Rightarrow> Some (n, w)
      | None \<Rightarrow> do {
          ((status, n, attrs), w) \<leftarrow> txnfs_lookup_path E (e_fullpath E) w;
          c_assert (FSAL_IS_SUCCESS status);
          root \<leftarrow> n;
          Some (root, w\<lparr>exp_root := Some root\<rparr>) })
   }"

text \<open>A buffer read as a C string.\<close>
definition c_string :: "bytes \<Rightarrow> bytes option" where
  "c_string b = (if NUL \<in> set b then Some (takeWhile (\<lambda>c. c \<noteq> NUL) b) else None)"

definition txnfs_create_handle ::
  "('db, 'fs, 'h, 'a, 'r, 'fattr) env \<Rightarrow> bytes \<Rightarrow> ('db, 'fs, 'h, 'fattr, hdl_result) act"
where
  "txnfs_create_handle E hdl_desc w = do {
     c_assert (length hdl_desc \<ge> UUID_LEN);
     let uuid = take UUID_LEN hdl_desc;
     sub_fh \<leftarrow> txnfs_db_get_handle (e_db E) uuid w;
     (case sub_fh of
        None \<Rightarrow> Some ((ERR_FSAL_INVAL, None, no_attrs), w)
      | Some key \<Rightarrow> do {
          let w = w\<lparr>fsal_export := SubExport\<rparr>;
          let ((status, sub_handle, attrs), w) = sub_call (s_create_handle (e_sub E) key) w;
          let w = w\<lparr>fsal_export := TxnExport\<rparr>;
          (root, w) \<leftarrow> get_txn_root E w;
          r \<leftarrow> heap w root;
          sub \<leftarrow> sub_handle;
          abs_path \<leftarrow>
            (if s_fileid (e_sub E) sub = th_fileid r then Some (th_path r)
             else do {
               path \<leftarrow> txnfs_db_get_path (e_db E) uuid w;
               p \<leftarrow> path;
               c_string p });
          ((status, n), w) \<leftarrow>
            txnfs_alloc_and_check_handle E sub_handle [] abs_path status False w;
          Some ((status, n, attrs), w) })
   }"

section \<open>Handles on the wire\<close>

text \<open>\<open>release\<close> is modelled for a thread with a request context.\<close>
definition handle_to_wire ::
  "nat \<Rightarrow> nat \<Rightarrow> ('db, 'fs, 'h, 'fattr, fsal_errors_t \<times> bytes) act"
where
  "handle_to_wire obj_hdl len w = do {
     h \<leftarrow> heap w obj_hdl;
     Some (if len \<ge> UUID_LEN then (ERR_FSAL_NO_ERROR, th_uuid h) else (ERR_FSAL_TOOSMALL, []), w)
   }"

definition handle_to_key :: "nat \<Rightarrow> ('db, 'fs, 'h, 'fattr, bytes) act" where
  "handle_to_key obj_hdl w = do { h \<leftarrow> heap w obj_hdl; Some (th_uuid h, w) }"

definition release ::
  "('fs, 'h, 'a, 'r) sub_fsal \<Rightarrow> nat \<Rightarrow> ('db, 'fs, 'h, 'fattr, unit) act"
where
  "release S obj_hdl w = do {
     h \<leftarrow> heap w obj_hdl;
     w \<leftarrow> enter_sub w;
     let (u, w) = sub_call (s_release S (th_sub h)) w;
     let w = leave_sub w;
     Some ((), w\<lparr>heap := (heap w)(obj_hdl := None)\<rparr>)
   }"

section \<open>Reading a directory\<close>

text \<open>The callback of the layer above acts on its own state.\<close>
type_synonym 'd readdir_cb = "bytes \<Rightarrow> nat \<Rightarrow> attrlist \<Rightarrow> 'd \<Rightarrow> u64 \<Rightarrow> fsal_dir_result \<times> 'd"

definition txnfs_readdir_cb ::
  "('db, 'fs, 'h, 'a, 'r, 'fattr) env \<Rightarrow> 'd readdir_cb \<Rightarrow> bytes \<Rightarrow> bytes \<Rightarrow> 'h \<Rightarrow> attrlist \<Rightarrow> u64
    \<Rightarrow> 'd \<Rightarrow> ('db, 'fs, 'h, 'fattr, fsal_dir_result \<times> 'd) act"
where
  "txnfs_readdir_cb E cb parent_path name sub_handle attrs cookie d w = do {
     ((status, new_obj), w) \<leftarrow>
       txnfs_alloc_and_check_handle E (Some sub_handle) parent_path name ERR_FSAL_NO_ERROR False w;
     if FSAL_IS_ERROR status then Some ((DIR_CONTINUE, d), w)
     else do {
       n \<leftarrow> new_obj;
       let w = w\<lparr>fsal_export := TxnExport\<rparr>;
       let (result, d) = cb name n attrs d cookie;
       Some ((result, d), w\<lparr>fsal_export := SubExport\<rparr>) }
   }"

text \<open>The FSAL below goes on with the next entry only after \<open>DIR_CONTINUE\<close>.\<close>
fun readdir_entries ::
  "('db, 'fs, 'h, 'a, 'r, 'fattr) env \<Rightarrow> 'd readdir_cb \<Rightarrow> bytes
    \<Rightarrow> (bytes \<times> 'h \<times> attrlist \<times> u64) list \<Rightarrow> 'd \<Rightarrow> ('db, 'fs, 'h, 'fattr, 'd) act"
where
  "readdir_entries E cb parent_path [] d w = Some (d, w)"
| "readdir_entries E cb parent_path ((name, sub, attrs, cookie) # es) d w = do {
     ((result, d), w) \<leftarrow> txnfs_readdir_cb E cb parent_path name sub attrs cookie d w;
     if result = DIR_CONTINUE then readdir_entries E cb parent_path es d w else Some (d, w)
   }"

definition read_dirents ::
  "('db, 'fs, 'h, 'a, 'r, 'fattr) env \<Rightarrow> 'd readdir_cb \<Rightarrow> nat \<Rightarrow> u64 option \<Rightarrow> 'd
    \<Rightarrow> ('db, 'fs, 'h, 'fattr, fsal_errors_t \<times> 'd \<times> bool) act"
where
  "read_dirents E cb dir_hdl whence d w = do {
     h \<leftarrow> heap w dir_hdl;
     w \<leftarrow> enter_sub w;
     let ((status, entries, eof), w) = sub_call (s_readdir (e_sub E) (th_sub h) whence) w;
     (d, w) \<leftarrow> readdir_entries E cb (th_path h) entries d w;
     Some ((status, d, eof), leave_sub w)
   }"

section \<open>Operations that are handed through\<close>

text \<open>A method of the object below, called with the objects below.\<close>
definition with_subs ::
  "('h list \<Rightarrow> ('v, 'fs) sub_op) \<Rightarrow> nat list \<Rightarrow> ('db, 'fs, 'h, 'fattr, 'v) act"
where
  "with_subs method ns w = do {
     subs \<leftarrow> those (map (\<lambda>n. map_option th_sub (heap w n)) ns);
     w \<leftarrow> enter_sub w;
     let (r, w) = sub_call (method subs) w;
     Some (r, leave_sub w)
   }"

definition readsymlink ::
  "('fs, 'h, 'a, 'r) sub_fsal \<Rightarrow> nat \<Rightarrow> bool \<Rightarrow> ('db, 'fs, 'h, 'fattr, fsal_errors_t \<times> bytes) act" where
  "readsymlink S n refresh = with_subs (\<lambda>hs. s_readlink S (hs ! 0) refresh) [n]"

definition linkfile ::
  "('fs, 'h, 'a, 'r) sub_fsal \<Rightarrow> nat \<Rightarrow> nat \<Rightarrow> bytes \<Rightarrow> ('db, 'fs, 'h, 'fattr, fsal_errors_t) act" where
  "linkfile S obj destdir name = with_subs (\<lambda>hs. s_link S (hs ! 0) (hs ! 1) name) [obj, destdir]"

definition renamefile ::
  "('fs, 'h, 'a, 'r) sub_fsal \<Rightarrow> nat \<Rightarrow> nat \<Rightarrow> bytes \<Rightarrow> nat \<Rightarrow> bytes
    \<Rightarrow> ('db, 'fs, 'h, 'fattr, fsal_errors_t) act"
where
  "renamefile S obj olddir old_name newdir new_name =
     with_subs (\<lambda>hs. s_rename S (hs ! 0) (hs ! 1) old_name (hs ! 2) new_name) [obj, olddir, newdir]"

definition getattrs ::
  "('fs, 'h, 'a, 'r) sub_fsal \<Rightarrow> nat \<Rightarrow> ('db, 'fs, 'h, 'fattr, fsal_errors_t \<times> attrlist) act" where
  "getattrs S n = with_subs (\<lambda>hs. s_getattrs S (hs ! 0)) [n]"

definition txnfs_close ::
  "('fs, 'h, 'a, 'r) sub_fsal \<Rightarrow> nat \<Rightarrow> ('db, 'fs, 'h, 'fattr, fsal_errors_t) act" where
  "txnfs_close S n = with_subs (\<lambda>hs. s_close S (hs ! 0)) [n]"

type_synonym ('db, 'fs, 'h, 'a, 'r, 'fattr) pass1 =
  "('fs, 'h, 'a, 'r) sub_fsal \<Rightarrow> nat \<Rightarrow> 'a \<Rightarrow> ('db, 'fs, 'h, 'fattr, 'r) act"
type_synonym ('db, 'fs, 'h, 'a, 'r, 'fattr) pass2 =
  "('fs, 'h, 'a, 'r) sub_fsal \<Rightarrow> nat \<Rightarrow> nat \<Rightarrow> 'a \<Rightarrow> ('db, 'fs, 'h, 'fattr, 'r) act"

definition compute_readdir_cookie :: "('db, 'fs, 'h, 'a, 'r, 'fattr) pass1" where
  "compute_readdir_cookie S n a = with_subs (s_pass S P_compute_readdir_cookie a) [n]"

definition dirent_cmp :: "('db, 'fs, 'h, 'a, 'r, 'fattr) pass1" where
  "dirent_cmp S n a = with_subs (s_pass S P_dirent_cmp a) [n]"

definition txnfs_setattr2 :: "('db, 'fs, 'h, 'a, 'r, 'fattr) pass1" where
  "txnfs_setattr2 S n a = with_subs (s_pass S P_setattr2 a) [n]"

definition txnfs_is_referral :: "('db, 'fs, 'h, 'a, 'r, 'fattr) pass1" where
  "txnfs_is_referral S n a = with_subs (s_pass S P_is_referral a) [n]"

definition txnfs_check_verifier :: "('db, 'fs, 'h, 'a, 'r, 'fattr) pass1" where
  "txnfs_check_verifier S n a = with_subs (s_pass S P_check_verifier a) [n]"

definition txnfs_status2 :: "('db, 'fs, 'h, 'a, 'r, 'fattr) pass1" where
  "txnfs_status2 S n a = with_subs (s_pass S P_status2 a) [n]"

definition txnfs_reopen2 :: "('db, 'fs, 'h, 'a, 'r, 'fattr) pass1" where
  "txnfs_reopen2 S n a = with_subs (s_pass S P_reopen2 a) [n]"

text \<open>Reads and writes report through a callback of the layer above.  The FSAL below calls the callback
  it is given, once, before its method returns; \<open>super_export\<close> of the export below is this layer's.\<close>
definition null_async_cb ::
  "('r \<Rightarrow> ('db, 'fs, 'h, 'fattr, 'c) act) \<Rightarrow> 'r \<Rightarrow> ('db, 'fs, 'h, 'fattr, 'c) act"
where
  "null_async_cb cb ret w = do {
     let save_exp = fsal_export w;
     c_assert (save_exp = SubExport);
     (c, w) \<leftarrow> cb ret (w\<lparr>fsal_export := TxnExport\<rparr>);
     Some (c, w\<lparr>fsal_export := save_exp\<rparr>)
   }"

definition txnfs_read2 ::
  "('fs, 'h, 'a, 'r) sub_fsal \<Rightarrow> ('r \<Rightarrow> ('db, 'fs, 'h, 'fattr, 'c) act) \<Rightarrow> nat \<Rightarrow> 'a
    \<Rightarrow> ('db, 'fs, 'h, 'fattr, 'c) act"
where
  "txnfs_read2 S done_cb n a w = do {
     h \<leftarrow> heap w n;
     w \<leftarrow> enter_sub w;
     let (r, w) = sub_call (s_pass S P_read2 a [th_sub h]) w;
     (c, w) \<leftarrow> null_async_cb done_cb r w;
     Some (c, leave_sub w)
   }"

definition txnfs_write2 ::
  "('fs, 'h, 'a, 'r) sub_fsal \<Rightarrow> ('r \<Rightarrow> ('db, 'fs, 'h, 'fattr, 'c) act) \<Rightarrow> nat \<Rightarrow> 'a
    \<Rightarrow> ('db, 'fs, 'h, 'fattr, 'c) act"
where
  "txnfs_write2 S done_cb n a w = do {
     h \<leftarrow> heap w n;
     w \<leftarrow> enter_sub w;
     let (r, w) = sub_call (s_pass S P_write2 a [th_sub h]) w;
     (c, w) \<leftarrow> null_async_cb done_cb r w;
     Some (c, leave_sub w)
   }"

definition txnfs_seek2 :: "('db, 'fs, 'h, 'a, 'r, 'fattr) pass1" where
  "txnfs_seek2 S n a = with_subs (s_pass S P_seek2 a) [n]"

definition txnfs_io_advise2 :: "('db, 'fs, 'h, 'a, 'r, 'fattr) pass1" where
  "txnfs_io_advise2 S n a = with_subs (s_pass S P_io_advise2 a) [n]"

definition txnfs_commit2 :: "('db, 'fs, 'h, 'a, 'r, 'fattr) pass1" where
  "txnfs_commit2 S n a = with_subs (s_pass S P_commit2 a) [n]"

definition txnfs_lock_op2 :: "('db, 'fs, 'h, 'a, 'r, 'fattr) pass1" where
  "txnfs_lock_op2 S n a = with_subs (s_pass S P_lock_op2 a) [n]"

definition txnfs_close2 :: "('db, 'fs, 'h, 'a, 'r, 'fattr) pass1" where
  "txnfs_close2 S n a = with_subs (s_pass S P_close2 a) [n]"

definition txnfs_fallocate :: "('db, 'fs, 'h, 'a, 'r, 'fattr) pass1" where
  "txnfs_fallocate S n a = with_subs (s_pass S P_fallocate a) [n]"

definition txnfs_list_ext_attrs :: "('db, 'fs, 'h, 'a, 'r, 'fattr) pass1" where
  "txnfs_list_ext_attrs S n a = with_subs (s_pass S P_list_ext_attrs a) [n]"

definition txnfs_getextattr_id_by_name :: "('db, 'fs, 'h, 'a, 'r, 'fattr) pass1" where
  "txnfs_getextattr_id_by_name S n a = with_subs (s_pass S P_getextattr_id_by_name a) [n]"

definition txnfs_getextattr_value_by_name :: "('db, 'fs, 'h, 'a, 'r, 'fattr) pass1" where
  "txnfs_getextattr_value_by_name S n a = with_subs (s_pass S P_getextattr_value_by_name a) [n]"

definition txnfs_getextattr_value_by_id :: "('db, 'fs, 'h, 'a, 'r, 'fattr) pass1" where
  "txnfs_getextattr_value_by_id S n a = with_subs (s_pass S P_getextattr_value_by_id a) [n]"

definition txnfs_setextattr_value :: "('db, 'fs, 'h, 'a, 'r, 'fattr) pass1" where
  "txnfs_setextattr_value S n a = with_subs (s_pass S P_setextattr_value a) [n]"

definition txnfs_setextattr_value_by_id :: "('db, 'fs, 'h, 'a, 'r, 'fattr) pass1" where
  "txnfs_setextattr_value_by_id S n a = with_subs (s_pass S P_setextattr_value_by_id a) [n]"

definition txnfs_remove_extattr_by_id :: "('db, 'fs, 'h, 'a, 'r, 'fattr) pass1" where
  "txnfs_remove_extattr_by_id S n a = with_subs (s_pass S P_remove_extattr_by_id a) [n]"

definition txnfs_remove_extattr_by_name :: "('db, 'fs, 'h, 'a, 'r, 'fattr) pass1" where
  "txnfs_remove_extattr_by_name S n a = with_subs (s_pass S P_remove_extattr_by_name a) [n]"

definition txnfs_copy :: "('db, 'fs, 'h, 'a, 'r, 'fattr) pass2" where
  "txnfs_copy S src dst a = with_subs (s_pass S P_copy a) [src, dst]"

definition txnfs_clone :: "('db, 'fs, 'h, 'a, 'r, 'fattr) pass2" where
  "txnfs_clone S src dst a = with_subs (s_pass S P_clone a) [src, dst]"

definition txnfs_clone2 :: "('db, 'fs, 'h, 'a, 'r, 'fattr) pass2" where
  "txnfs_clone2 S src dst a = with_subs (s_pass S P_clone2 a) [src, dst]"

section \<open>Queries on the export\<close>

text \<open>These take the export from their argument and not from \<open>op_ctx\<close>.\<close>
definition export_pass ::
  "pass_op \<Rightarrow> ('fs, 'h, 'a, 'r) sub_fsal \<Rightarrow> 'h list \<Rightarrow> 'a \<Rightarrow> ('db, 'fs, 'h, 'fattr, 'r) act"
where
  "export_pass slot S hs a w =
     (case sub_call (s_pass S slot a hs) (w\<lparr>fsal_export := SubExport\<rparr>) of
        (r, w) \<Rightarrow> Some (r, w\<lparr>fsal_export := TxnExport\<rparr>))"

type_synonym ('db, 'fs, 'h, 'a, 'r, 'fattr) export_query =
  "('fs, 'h, 'a, 'r) sub_fsal \<Rightarrow> 'a \<Rightarrow> ('db, 'fs, 'h, 'fattr, 'r) act"

definition get_dynamic_info :: "('db, 'fs, 'h, 'a, 'r, 'fattr) pass1" where
  "get_dynamic_info S n a w = do {
     h \<leftarrow> heap w n; export_pass P_get_fs_dynamic_info S [th_sub h] a w }"

text \<open>\<open>fso_transaction\<close> is answered here.\<close>
definition fs_supports ::
  "('fs, 'h, 'a, 'r) sub_fsal \<Rightarrow> bool \<Rightarrow> 'a \<Rightarrow> ('db, 'fs, 'h, 'fattr, bool + 'r) act" where
  "fs_supports S is_fso_transaction a w =
     (if is_fso_transaction then Some (Inl True, w)
      else map_option (\<lambda>(r, w). (Inr r, w)) (export_pass P_fs_supports S [] a w))"

definition fs_maxfilesize :: "('db, 'fs, 'h, 'a, 'r, 'fattr) export_query" where
  "fs_maxfilesize S = export_pass P_fs_maxfilesize S []"

definition fs_maxread :: "('db, 'fs, 'h, 'a, 'r, 'fattr) export_query" where
  "fs_maxread S = export_pass P_fs_maxread S []"

definition fs_maxwrite :: "('db, 'fs, 'h, 'a, 'r, 'fattr) export_query" where
  "fs_maxwrite S = export_pass P_fs_maxwrite S []"

definition fs_maxlink :: "('db, 'fs, 'h, 'a, 'r, 'fattr) export_query" where
  "fs_maxlink S = export_pass P_fs_maxlink S []"

definition fs_maxnamelen :: "('db, 'fs, 'h, 'a, 'r, 'fattr) export_query" where
  "fs_maxnamelen S = export_pass P_fs_maxnamelen S []"

definition fs_maxpathlen :: "('db, 'fs, 'h, 'a, 'r, 'fattr) export_query" where
  "fs_maxpathlen S = export_pass P_fs_maxpathlen S []"

definition fs_acl_support :: "('db, 'fs, 'h, 'a, 'r, 'fattr) export_query" where
  "fs_acl_support S = export_pass P_fs_acl_support S []"

definition fs_supported_attrs :: "('db, 'fs, 'h, 'a, 'r, 'fattr) export_query" where
  "fs_supported_attrs S = export_pass P_fs_supported_attrs S []"

definition fs_umask :: "('db, 'fs, 'h, 'a, 'r, 'fattr) export_query" where
  "fs_umask S = export_pass P_fs_umask S []"

definition get_quota :: "('db, 'fs, 'h, 'a, 'r, 'fattr) export_query" where
  "get_quota S = export_pass P_get_quota S []"

definition set_quota :: "('db, 'fs, 'h, 'a, 'r, 'fattr) export_query" where
  "set_quota S = export_pass P_set_quota S []"

definition txnfs_free_state :: "('db, 'fs, 'h, 'a, 'r, 'fattr) export_query" where
  "txnfs_free_state S = export_pass P_free_state S []"

definition txnfs_is_superuser :: "('db, 'fs, 'h, 'a, 'r, 'fattr) export_query" where
  "txnfs_is_superuser S = export_pass P_is_superuser S []"

definition txnfs_prepare_unexport :: "('db, 'fs, 'h, 'a, 'r, 'fattr) export_query" where
  "txnfs_prepare_unexport S = export_pass P_prepare_unexport S []"

text \<open>The state that is returned is marked with this layer's export.\<close>
definition txnfs_alloc_state ::
  "('fs, 'h, 'a, 'r) sub_fsal \<Rightarrow> 'a \<Rightarrow> ('db, 'fs, 'h, 'fattr, 'r \<times> export_ctx) act" where
  "txnfs_alloc_state S a w =
     map_option (\<lambda>(r, w). ((r, TxnExport), w)) (export_pass P_alloc_state S [] a w)"

definition txnfs_host_to_key :: "bytes \<Rightarrow> ('db, 'fs, 'h, 'fattr, fsal_errors_t \<times> bytes) act" where
  "txnfs_host_to_key fh_desc w = Some ((ERR_FSAL_NO_ERROR, fh_desc), w)"

definition wire_to_host :: "bytes \<Rightarrow> ('db, 'fs, 'h, 'fattr, fsal_errors_t \<times> bytes) act" where
  "wire_to_host fh_desc w = Some ((ERR_FSAL_NO_ERROR, fh_desc), w)"

end
