(* ===== verification/Txn_Backup.thy ===== *)
theory Txn_Backup
  imports Txn_Handle
begin

text \<open>
  Backups of the files a compound changes: the backup directories, the copy of a file range before it
  is written, and the removal of a file by renaming it into the backup directory
  (\<open>FSAL_TXN/backup.c\<close>, \<open>file_unlink\<close> of \<open>FSAL_TXN/handle.c\<close>, the rounding functions of
  \<open>txnfs_methods.h\<close>).
\<close>

definition BKP_FN_LEN :: nat where "BKP_FN_LEN = 20"
definition TXN_BKP_DIR :: bytes where "TXN_BKP_DIR = ''.txn''"

text \<open>\<open>snprintf\<close> into a buffer of \<open>BKP_FN_LEN\<close> bytes.\<close>
definition txn_dir_name :: "u64 \<Rightarrow> bytes" where
  "txn_dir_name t = take (BKP_FN_LEN - 1) (dec (unat t))"

definition backup_name :: "nat \<Rightarrow> bytes" where
  "backup_name idx = take (BKP_FN_LEN - 1) (dec idx @ ''.bkp'')"

section \<open>Rounding\<close>

text \<open>The parameters and results are of type \<open>int\<close>: a 64-bit argument is cut to 32 bits and read as
  signed, a result is sign-extended.  A result outside the type is undefined.\<close>
definition to_c_int :: "u64 \<Rightarrow> int" where
  "to_c_int x = sint (ucast x :: u32)"

definition round_down :: "int \<Rightarrow> int \<Rightarrow> int" where
  "round_down n unit = unit * (if n \<ge> 0 then n div unit else - ((- n) div unit))"

definition round_up :: "int \<Rightarrow> int \<Rightarrow> int option" where
  "round_up n unit =
     (let r = round_down n unit + unit in if r < 2 ^ 31 then Some r else None)"

section \<open>Backup directories\<close>

text \<open>Both queries run in the export below, whose \<open>super_export\<close> is this layer's.\<close>
definition query_backup_root ::
  "('db, 'fs, 'h, 'a, 'r, 'fattr) env \<Rightarrow> nat \<Rightarrow> ('db, 'fs, 'h, 'fattr, 'h option) act"
where
  "query_backup_root E txn_root w = do {
     c_assert (fsal_export w = SubExport);
     (case bkproot w of
        Some h \<Rightarrow> Some (Some h, w)
      | None \<Rightarrow> do {
          r \<leftarrow> heap w txn_root;
          let ((ret, obj, attrs), w) = fsal_lookup E (th_sub r) TXN_BKP_DIR w;
          if FSAL_IS_SUCCESS ret then do { h \<leftarrow> obj; Some (Some h, w\<lparr>bkproot := Some h\<rparr>) }
          else if ret = ERR_FSAL_NOENT then Some (None, w)
          else None })
   }"

definition query_txn_backup ::
  "('db, 'fs, 'h, 'a, 'r, 'fattr) env \<Rightarrow> 'h \<Rightarrow> u64 \<Rightarrow> ('db, 'fs, 'h, 'fattr, 'h option) act"
where
  "query_txn_backup E backup_root tid w =
     (case txn_bkp_folder w of
        Some h \<Rightarrow> Some (Some h, w)
      | None \<Rightarrow> do {
          let ((ret, obj, attrs), w) = fsal_lookup E backup_root (txn_dir_name tid) w;
          if FSAL_IS_SUCCESS ret then Some (obj, w\<lparr>txn_bkp_folder := obj\<rparr>)
          else if ret = ERR_FSAL_NOENT then Some (None, w)
          else None })"

definition bkp_dir_attrs :: attrlist where
  "bkp_dir_attrs = no_attrs\<lparr>valid_mask := ATTR_MODE OR ATTR_OWNER OR ATTR_GROUP, amode := 0x1FF\<rparr>"

text \<open>The global backup directory, created when it does not exist \<dots>\<close>
definition backup_root_dir ::
  "('db, 'fs, 'h, 'a, 'r, 'fattr) env \<Rightarrow> nat \<Rightarrow> ('db, 'fs, 'h, 'fattr, fsal_errors_t \<times> 'h) act"
where
  "backup_root_dir E root w = do {
     (bkp, w) \<leftarrow> query_backup_root E root w;
     (case bkp of
        Some h \<Rightarrow> Some ((ERR_FSAL_NO_ERROR, h), w)
      | None \<Rightarrow> do {
          r \<leftarrow> heap w root;
          let ((status, obj, attrs), w) =
            fsal_create E (th_sub r) TXN_BKP_DIR DIRECTORY bkp_dir_attrs [] w;
          c_assert (FSAL_IS_SUCCESS status);
          h \<leftarrow> obj;
          Some ((status, h), w\<lparr>bkproot := Some h\<rparr>) })
   }"

text \<open>\<dots> and the one of a transaction.\<close>
definition txn_backup_dir ::
  "('db, 'fs, 'h, 'a, 'r, 'fattr) env \<Rightarrow> fsal_errors_t \<Rightarrow> 'h \<Rightarrow> u64
    \<Rightarrow> ('db, 'fs, 'h, 'fattr, fsal_errors_t \<times> 'h) act"
where
  "txn_backup_dir E status txn_handle tid w = do {
     (dir, w) \<leftarrow> query_txn_backup E txn_handle tid w;
     (case dir of
        Some h \<Rightarrow> Some ((status, h), w)
      | None \<Rightarrow> do {
          let ((status, obj, attrs), w) =
            fsal_create E txn_handle (txn_dir_name tid) DIRECTORY bkp_dir_attrs [] w;
          c_assert (FSAL_IS_SUCCESS status);
          h \<leftarrow> obj;
          Some ((status, h), w\<lparr>txn_bkp_folder := Some h\<rparr>) })
   }"

definition txnfs_create_or_lookup_backup_dir ::
  "('db, 'fs, 'h, 'a, 'r, 'fattr) env \<Rightarrow> ('db, 'fs, 'h, 'fattr, fsal_errors_t \<times> 'h) act"
where
  "txnfs_create_or_lookup_backup_dir E w = do {
     let tid = txnid w;
     (root, w) \<leftarrow> get_txn_root E w;
     w \<leftarrow> enter_sub w;
     ((status, txn_handle), w) \<leftarrow> backup_root_dir E root w;
     ((status, bkp_handle), w) \<leftarrow> txn_backup_dir E status txn_handle tid w;
     Some ((status, bkp_handle), leave_sub w)
   }"

section \<open>Backup of a range\<close>

definition bkp_file_attrs :: attrlist where
  "bkp_file_attrs = no_attrs\<lparr>valid_mask := ATTR_MODE OR ATTR_OWNER OR ATTR_GROUP, amode := 0x1B6\<rparr>"

text \<open>The range that is cloned, \<open>src_offset\<close> and \<open>sz\<close>.\<close>
definition backup_range :: "u64 \<Rightarrow> u64 \<Rightarrow> u64 \<Rightarrow> (u64 \<times> u64) option" where
  "backup_range fsize offset len = do {
     let src_offset = word_of_int (round_down (to_c_int offset) 4096);
     let delta = offset - src_offset;
     up \<leftarrow> round_up (to_c_int (len + delta)) 4096;
     let len = word_of_int up;
     Some (src_offset, if src_offset + len \<le> fsize then len else fsize - src_offset)
   }"

text \<open>Only the contents of a regular file are copied; \<open>status\<close> is the result of \<open>fsal_create\<close>.\<close>
definition backup_data ::
  "('fs, 'h, 'a, 'r) sub_fsal \<Rightarrow> 'h \<Rightarrow> 'h \<Rightarrow> u64 \<Rightarrow> u64 \<Rightarrow> u64 \<Rightarrow> fsal_errors_t
    \<Rightarrow> ('db, 'fs, 'h, 'fattr, fsal_errors_t) act"
where
  "backup_data S src_hdl dst_hdl fsize offset len status w =
     (if s_type S src_hdl = REGULAR_FILE \<and> offset < fsize then do {
        (src_offset, sz) \<leftarrow> backup_range fsize offset len;
        let (status, w) = sub_call (s_clone2 S src_hdl src_offset dst_hdl 0 sz) w;
        if FSAL_IS_SUCCESS status then Some (status, w)
        else do {
          let (status, w) = fsal_copy S src_hdl offset dst_hdl 0 sz w;
          c_assert (FSAL_IS_SUCCESS status);
          Some (status, w) } }
      else Some (status, w))"

definition txnfs_backup_file ::
  "('db, 'fs, 'h, 'a, 'r, 'fattr) env \<Rightarrow> nat \<Rightarrow> 'h \<Rightarrow> u64 \<Rightarrow> u64
    \<Rightarrow> ('db, 'fs, 'h, 'fattr, fsal_errors_t) act"
where
  "txnfs_backup_file E idx src_hdl offset len w = do {
     let S = e_sub E;
     ((status, bkp_folder), w) \<leftarrow> txnfs_create_or_lookup_backup_dir E w;
     c_assert (FSAL_IS_SUCCESS status);
     w \<leftarrow> enter_sub w;
     let ((status, attrs_out), w) = get_optional_attrs S src_hdl w;
     c_assert (FSAL_IS_SUCCESS status);
     (content, w) \<leftarrow>
       (if s_type S src_hdl = SYMBOLIC_LINK then do {
          let ((status, content), w) = fsal_readlink S src_hdl w;
          c_assert (FSAL_IS_SUCCESS status);
          Some (content, w) }
        else Some ([], w));
     let ((status, obj, attrs), w) =
       fsal_create E bkp_folder (backup_name idx) (s_type S src_hdl) bkp_file_attrs content w;
     c_assert (FSAL_IS_SUCCESS status);
     dst_hdl \<leftarrow> obj;
     (status, w) \<leftarrow> backup_data S src_hdl dst_hdl (filesize attrs_out) offset len status w;
     let (u, w) = sub_call (s_release S dst_hdl) w;
     Some (status, leave_sub w)
   }"

section \<open>Removal\<close>

text \<open>Reading the directory with \<open>mark_nonempty\<close>, which releases the first entry and stops there.\<close>
definition mark_nonempty ::
  "('fs, 'h, 'a, 'r) sub_fsal \<Rightarrow> 'h \<Rightarrow> ('db, 'fs, 'h, 'fattr, fsal_errors_t \<times> bool) act"
where
  "mark_nonempty S h w =
     (case sub_call (s_readdir S h None) w of
        ((status, entries, eof), w) \<Rightarrow>
          (case entries of
             [] \<Rightarrow> Some ((status, True), w)
           | (name, obj, attrs, cookie) # _ \<Rightarrow>
               Some ((status, False), snd (sub_call (s_release S obj) w))))"

definition remove_entry ::
  "('fs, 'h, 'a, 'r) sub_fsal \<Rightarrow> 'h option \<Rightarrow> 'h txn_handle \<Rightarrow> 'h txn_handle \<Rightarrow> bytes
    \<Rightarrow> ('db, 'fs, 'h, 'fattr, fsal_errors_t) act"
where
  "remove_entry S bkp_folder dir obj name w =
     (if txnid w > 0 then do {
        ((status, dir_empty), w) \<leftarrow>
          (if th_type obj = DIRECTORY then mark_nonempty S (th_sub obj) w
           else Some ((ERR_FSAL_NO_ERROR, True), w));
        c_assert (FSAL_IS_SUCCESS status);
        if \<not> dir_empty then Some (ERR_FSAL_NOTEMPTY, w)
        else do {
          bkp \<leftarrow> bkp_folder;
          Some (sub_call (s_rename S (th_sub dir) (th_sub dir) name bkp (backup_name (opidx w))) w) } }
      else Some (sub_call (s_unlink S (th_sub dir) (th_sub obj) name) w))"

definition file_unlink ::
  "('db, 'fs, 'h, 'a, 'r, 'fattr) env \<Rightarrow> nat \<Rightarrow> nat \<Rightarrow> bytes
    \<Rightarrow> ('db, 'fs, 'h, 'fattr, fsal_errors_t) act"
where
  "file_unlink E dir_hdl obj_hdl name w = do {
     dir \<leftarrow> heap w dir_hdl;
     obj \<leftarrow> heap w obj_hdl;
     (bkp_folder, w) \<leftarrow>
       (if txnid w > 0
        then map_option (\<lambda>((status, h), w). (Some h, w)) (txnfs_create_or_lookup_backup_dir E w)
        else Some (None, w));
     w \<leftarrow> enter_sub w;
     (status, w) \<leftarrow> remove_entry (e_sub E) bkp_folder dir obj name w;
     let w = leave_sub w;
     if FSAL_IS_SUCCESS status
     then map_option (\<lambda>(ret, w). (status, w)) (txnfs_db_delete_uuid (e_db E) (th_uuid obj) w)
     else Some (status, w)
   }"

end
