(* ===== verification/Txn_Undo.thy ===== *)
theory Txn_Undo
  imports Txn_Backup
begin

text \<open>
  The rollback of a compound that failed (\<open>FSAL_TXN/undo.c\<close>, \<open>txnfs_compound_restore\<close> of
  \<open>FSAL_TXN/backup.c\<close>): the compound is replayed up to the failed operation to find the current file
  handle of every operation that changed something; these are collected in a vector and undone from
  the last to the first.

  An \<open>int\<close> result is a FSAL error code, with \<open>ERR_FSAL_NO_ERROR\<close> for 0.  The current and the saved
  handle are handles of this layer; the files in the backup directory are handles of the layer below.
  A null name that reaches a callee that reads it is the abort value.
\<close>

section \<open>The set of handles to release\<close>

text \<open>The hash set of handle addresses, in the order of insertion.\<close>
definition insert_handle ::
  "'h obj_hdl \<Rightarrow> ('db, 'fs, 'h, 'fattr) world \<Rightarrow> ('db, 'fs, 'h, 'fattr) world" where
  "insert_handle hdl w =
     (case txn_hdl_set w of
        None \<Rightarrow> w
      | Some hs \<Rightarrow> if hdl \<in> set hs then w else w\<lparr>txn_hdl_set := Some (hs @ [hdl])\<rparr>)"

definition hdlset_free_func ::
  "('fs, 'h, 'a, 'r) sub_fsal \<Rightarrow> 'h obj_hdl \<Rightarrow> ('db, 'fs, 'h, 'fattr, unit) act"
where
  "hdlset_free_func S hdl w =
     (case hdl of
        TxnHdl n \<Rightarrow> if exp_root w = Some n then Some ((), w) else release S n w
      | SubHdl h \<Rightarrow>
          if bkproot w = Some h \<or> txn_bkp_folder w = Some h then Some ((), w)
          else Some (sub_call (s_release S h) w))"

fun free_handles ::
  "('fs, 'h, 'a, 'r) sub_fsal \<Rightarrow> 'h obj_hdl list \<Rightarrow> ('db, 'fs, 'h, 'fattr, unit) act"
where
  "free_handles S [] w = Some ((), w)"
| "free_handles S (hdl # hs) w = do { (u, w) \<leftarrow> hdlset_free_func S hdl w; free_handles S hs w }"

definition release_all_handles ::
  "('fs, 'h, 'a, 'r) sub_fsal \<Rightarrow> ('db, 'fs, 'h, 'fattr, unit) act"
where
  "release_all_handles S w = do {
     hs \<leftarrow> txn_hdl_set w;
     (u, w) \<leftarrow> free_handles S hs w;
     Some ((), w\<lparr>txn_hdl_set := None\<rparr>)
   }"

text \<open>\<open>exchange_cfh\<close>, \<open>save_cfh\<close> and \<open>restore_cfh\<close> have the same body: the variable is replaced, and its
  old value is put into the set.\<close>
definition exchange_cfh ::
  "nat option \<Rightarrow> nat option \<Rightarrow> ('db, 'fs, 'h, 'fattr) world
    \<Rightarrow> nat option \<times> ('db, 'fs, 'h, 'fattr) world"
where
  "exchange_cfh var new w =
     (case new of
        None \<Rightarrow> (var, w)
      | Some n \<Rightarrow> (Some n, case var of Some c \<Rightarrow> insert_handle (TxnHdl c) w | None \<Rightarrow> w))"

section \<open>Helpers\<close>

definition my_lookup ::
  "('db, 'fs, 'h, 'a, 'r, 'fattr) env \<Rightarrow> nat \<Rightarrow> bytes \<Rightarrow> ('db, 'fs, 'h, 'fattr, hdl_result) act"
where
  "my_lookup E parent name w = do {
     ((res, out, attrs), w) \<leftarrow> lookup E parent name w;
     if FSAL_IS_SUCCESS res
     then do { n \<leftarrow> out; Some ((res, out, attrs), insert_handle (TxnHdl n) w) }
     else Some ((res, out, attrs), w)
   }"

text \<open>The same function on a handle below, called in the export below.\<close>
definition my_lookup_sub ::
  "('fs, 'h, 'a, 'r) sub_fsal \<Rightarrow> 'h \<Rightarrow> bytes \<Rightarrow> ('db, 'fs, 'h, 'fattr, 'h obj_result) act"
where
  "my_lookup_sub S parent name w =
     (case sub_call (s_lookup S parent name) w of
        ((res, out, attrs), w) \<Rightarrow>
          if FSAL_IS_SUCCESS res
          then do { h \<leftarrow> out; Some ((res, out, attrs), insert_handle (SubHdl h) w) }
          else Some ((res, out, attrs), w))"

definition my_unlink ::
  "('fs, 'h, 'a, 'r) sub_fsal \<Rightarrow> nat \<Rightarrow> nat \<Rightarrow> bytes \<Rightarrow> ('db, 'fs, 'h, 'fattr, fsal_errors_t) act"
where
  "my_unlink S parent obj name = with_subs (\<lambda>hs. s_unlink S (hs ! 0) (hs ! 1) name) [parent, obj]"

definition fh_to_obj_handle ::
  "('db, 'fs, 'h, 'a, 'r, 'fattr) env \<Rightarrow> nfs_fh4 \<Rightarrow> ('db, 'fs, 'h, 'fattr, nat option) act"
where
  "fh_to_obj_handle E fh w = do {
     c_assert (fsal_export w = TxnExport);
     ((ret, buf), w) \<leftarrow> wire_to_host (fsopaque fh) w;
     c_assert (FSAL_IS_SUCCESS ret);
     ((ret, handle, attrs), w) \<leftarrow> txnfs_create_handle E buf w;
     if FSAL_IS_SUCCESS ret then do { n \<leftarrow> handle; Some (Some n, insert_handle (TxnHdl n) w) }
     else Some (None, w)
   }"

definition is_op_ok :: "nfs_resop4 \<Rightarrow> bool" where
  "is_op_ok res = (res_status res = NFS4_OK)"

definition replay_lookup ::
  "('db, 'fs, 'h, 'a, 'r, 'fattr) env \<Rightarrow> bytes \<Rightarrow> nat option
    \<Rightarrow> ('db, 'fs, 'h, 'fattr, fsal_errors_t \<times> nat option) act"
where
  "replay_lookup E str current w = do {
     name \<leftarrow> e_utf8 E str;
     cur \<leftarrow> current;
     ((status, queried, attrs), w) \<leftarrow> my_lookup E cur name w;
     if FSAL_IS_ERROR status then Some ((status, current), w)
     else let (current, w) = exchange_cfh current queried w in Some ((ERR_FSAL_NO_ERROR, current), w)
   }"

text \<open>\<open>extract_open_name\<close> of this file: the checked name.\<close>
definition undo_open_name :: "utf8_scan \<Rightarrow> open_claim4 \<Rightarrow> bytes option" where
  "undo_open_name utf8 cl = (case claim cl of
       CLAIM_NULL \<Rightarrow> utf8 (claim_file cl)
     | CLAIM_DELEGATE_CUR \<Rightarrow> utf8 (claim_file cl)
     | _ \<Rightarrow> None)"

definition file_has_uuid ::
  "('db, 'fs, 'h, 'a, 'r, 'fattr) env \<Rightarrow> nat \<Rightarrow> ('db, 'fs, 'h, 'fattr, bool) act"
where
  "file_has_uuid E file w = do {
     w \<leftarrow> enter_sub w;
     h \<leftarrow> heap w file;
     let (fh_desc, w) = sub_call (s_handle_to_key (e_sub E) (th_sub h)) w;
     let w = leave_sub w;
     ret \<leftarrow> txnfs_db_get_uuid_nocache (e_db E) fh_desc w;
     Some (ret \<noteq> None, w)
   }"

section \<open>Restoring data\<close>

definition truncate_file ::
  "('fs, 'h, 'a, 'r) sub_fsal \<Rightarrow> 'h \<Rightarrow> u64 \<Rightarrow> ('db, 'fs, 'h, 'fattr) world
    \<Rightarrow> ('db, 'fs, 'h, 'fattr) world"
where
  "truncate_file S f new_size w =
     (let w = snd (sub_call (s_setattr2 S f (no_attrs\<lparr>valid_mask := ATTR_SIZE, filesize := new_size\<rparr>)) w)
      in snd (fsal_close S f w))"

definition get_file_size ::
  "('fs, 'h, 'a, 'r) sub_fsal \<Rightarrow> 'h \<Rightarrow> ('db, 'fs, 'h, 'fattr) world
    \<Rightarrow> u64 \<times> ('db, 'fs, 'h, 'fattr) world"
where
  "get_file_size S f w =
     (case sub_call (s_getattrs S f) w of
        ((status, attrs), w) \<Rightarrow> (if FSAL_IS_ERROR status then 0 else filesize attrs, w))"

definition restore_file ::
  "('fs, 'h, 'a, 'r) sub_fsal \<Rightarrow> 'h \<Rightarrow> u64 \<Rightarrow> 'h \<Rightarrow> bool \<Rightarrow> u64 \<Rightarrow> u64
    \<Rightarrow> ('db, 'fs, 'h, 'fattr) world \<Rightarrow> fsal_errors_t \<times> ('db, 'fs, 'h, 'fattr) world"
where
  "restore_file S backup_file bsize sub_cur truncate_dest wr_offset wr_len w =
     (let w = (if truncate_dest \<and> wr_len > bsize then truncate_file S sub_cur (wr_offset + bsize) w else w)
      in if bsize = 0 then (ERR_FSAL_NO_ERROR, w)
         else
           let out = word_of_int (round_down (to_c_int wr_offset) 4096);
               (status, w) = sub_call (s_clone2 S backup_file 0 sub_cur out bsize) w
           in if FSAL_IS_ERROR status then sub_call (s_copy S backup_file 0 sub_cur wr_offset bsize) w
              else (status, w))"

definition restore_data ::
  "('db, 'fs, 'h, 'a, 'r, 'fattr) env \<Rightarrow> nat \<Rightarrow> u64 \<Rightarrow> nat \<Rightarrow> bool \<Rightarrow> u64 \<Rightarrow> u64
    \<Rightarrow> ('db, 'fs, 'h, 'fattr, fsal_errors_t) act"
where
  "restore_data E target tid idx truncate_dest wr_offset wr_len w = do {
     let S = e_sub E;
     (root, w) \<leftarrow> get_txn_root E w;
     w \<leftarrow> enter_sub w;
     (broot, w) \<leftarrow> query_backup_root E root w;
     backup_root \<leftarrow> broot;
     (bdir, w) \<leftarrow> query_txn_backup E backup_root tid w;
     (case bdir of
        None \<Rightarrow> Some (ERR_FSAL_NOENT, leave_sub w)
      | Some backup_dir \<Rightarrow> do {
          ((status, file, attrs), w) \<leftarrow> my_lookup_sub S backup_dir (backup_name idx) w;
          if FSAL_IS_ERROR status then Some (status, leave_sub w)
          else do {
            backup_file \<leftarrow> file;
            h \<leftarrow> heap w target;
            let (ret, w) =
              restore_file S backup_file (filesize attrs) (th_sub h) truncate_dest wr_offset wr_len w;
            Some (ret, leave_sub w) } })
   }"

section \<open>Undoing one operation\<close>

definition undo_created ::
  "('db, 'fs, 'h, 'a, 'r, 'fattr) env \<Rightarrow> bytes \<Rightarrow> nat \<Rightarrow> ('db, 'fs, 'h, 'fattr, fsal_errors_t) act"
where
  "undo_created E name cur w = do {
     ((status, created, attrs), w) \<leftarrow> my_lookup E cur name w;
     c_assert (FSAL_IS_SUCCESS status);
     n \<leftarrow> created;
     my_unlink (e_sub E) cur n name w
   }"

definition undo_create ::
  "('db, 'fs, 'h, 'a, 'r, 'fattr) env \<Rightarrow> bytes \<Rightarrow> nat \<Rightarrow> ('db, 'fs, 'h, 'fattr, fsal_errors_t) act" where
  "undo_create E objname cur w = do { name \<leftarrow> e_utf8 E objname; undo_created E name cur w }"

definition undo_link ::
  "('db, 'fs, 'h, 'a, 'r, 'fattr) env \<Rightarrow> bytes \<Rightarrow> nat \<Rightarrow> ('db, 'fs, 'h, 'fattr, fsal_errors_t) act" where
  "undo_link E newname cur w = do { name \<leftarrow> e_utf8 E newname; undo_created E name cur w }"

definition undo_open ::
  "('db, 'fs, 'h, 'a, 'r, 'fattr) env \<Rightarrow> 'fattr open4args \<Rightarrow> nat option \<Rightarrow> u64 \<Rightarrow> nat
    \<Rightarrow> ('db, 'fs, 'h, 'fattr, fsal_errors_t \<times> nat option) act"
where
  "undo_open E args current tid idx w = do {
     let name = undo_open_name (e_utf8 E) (open_claim args);
     cur \<leftarrow> current;
     ((status, target, attrs), w) \<leftarrow>
       (case name of
          Some nm \<Rightarrow> my_lookup E cur nm w
        | None \<Rightarrow> map_option (\<lambda>((st, a), w). ((st, Some cur, a), w)) (getattrs (e_sub E) cur w));
     if FSAL_IS_ERROR status then Some ((status, current), w)
     else do {
       t \<leftarrow> target;
       (st, w) \<leftarrow> txnfs_close (e_sub E) t w;
       (has, w) \<leftarrow> file_has_uuid E t w;
       (ret, w) \<leftarrow>
         (if \<not> has then do { nm \<leftarrow> name; my_unlink (e_sub E) cur t nm w }
          else if open_create args then
            map_option (\<lambda>(ret, w). (if ret = ERR_FSAL_NOENT then ERR_FSAL_NO_ERROR else ret, w))
              (restore_data E t tid idx False 0 (- 1) w)
          else Some (ERR_FSAL_NO_ERROR, w));
       let (current, w) = exchange_cfh current target w;
       Some ((ret, current), w) }
   }"

definition undo_remove ::
  "('db, 'fs, 'h, 'a, 'r, 'fattr) env \<Rightarrow> bytes \<Rightarrow> nat \<Rightarrow> u64 \<Rightarrow> nat
    \<Rightarrow> ('db, 'fs, 'h, 'fattr, fsal_errors_t) act"
where
  "undo_remove E target cur tid idx w = do {
     let S = e_sub E;
     (root, w) \<leftarrow> get_txn_root E w;
     w \<leftarrow> enter_sub w;
     (broot, w) \<leftarrow> query_backup_root E root w;
     backup_root \<leftarrow> broot;
     (bdir, w) \<leftarrow> query_txn_backup E backup_root tid w;
     backup_dir \<leftarrow> bdir;
     h \<leftarrow> heap w cur;
     real_name \<leftarrow> e_utf8 E target;
     let (status, w) =
       sub_call (s_rename S (th_sub h) backup_dir (backup_name idx) (th_sub h) real_name) w;
     Some (status, leave_sub w)
   }"

text \<open>The argument is read as that of a WRITE whatever the operation is.\<close>
fun write_range :: "'fattr nfs_argop4 \<Rightarrow> (u64 \<times> u64) option" where
  "write_range (ARG_WRITE offset data) = Some (offset, word_of_nat (length data))"
| "write_range (ARG_COPY a b) = Some (a, b)"
| "write_range (ARG_CLONE a b) = Some (a, b)"
| "write_range _ = None"

definition undo_write ::
  "('db, 'fs, 'h, 'a, 'r, 'fattr) env \<Rightarrow> 'fattr nfs_argop4 \<Rightarrow> nat \<Rightarrow> u64 \<Rightarrow> nat
    \<Rightarrow> ('db, 'fs, 'h, 'fattr, fsal_errors_t) act"
where
  "undo_write E arg cur tid idx w = do {
     (offset, len) \<leftarrow> write_range arg;
     restore_data E cur tid idx True offset len w
   }"

section \<open>The executor\<close>

text \<open>The union of the arguments is read with the member that belongs to the operation.\<close>
definition undo_op ::
  "('db, 'fs, 'h, 'a, 'r, 'fattr) env \<Rightarrow> nfs_opnum4 \<Rightarrow> u64
    \<Rightarrow> ('fattr nfs_argop4, nfs_resop4, nat) op_desc \<Rightarrow> ('db, 'fs, 'h, 'fattr, fsal_errors_t) act"
where
  "undo_op E op tid el w =
     (if op = NFS4_OP_CREATE then
        (case od_arg el of
           ARG_CREATE name \<Rightarrow> do { cur \<leftarrow> od_cwh el; undo_create E name cur w } | _ \<Rightarrow> None)
      else if op = NFS4_OP_LINK then
        (case od_arg el of
           ARG_LINK name \<Rightarrow> do { cur \<leftarrow> od_cwh el; undo_link E name cur w } | _ \<Rightarrow> None)
      else if op = NFS4_OP_REMOVE then
        (case od_arg el of
           ARG_REMOVE name \<Rightarrow> do { cur \<leftarrow> od_cwh el; undo_remove E name cur tid (od_opidx el) w }
         | _ \<Rightarrow> None)
      else if op = NFS4_OP_RENAME then Some (ERR_FSAL_NO_ERROR, w)
      else if op \<in> {NFS4_OP_WRITE, NFS4_OP_COPY, NFS4_OP_CLONE} then
        do { cur \<leftarrow> od_cwh el; undo_write E (od_arg el) cur tid (od_opidx el) w }
      else Some (ERR_FSAL_NOTSUPP, w))"

fun undo_ops ::
  "('db, 'fs, 'h, 'a, 'r, 'fattr) env \<Rightarrow> nfs_opnum4 \<Rightarrow> u64
    \<Rightarrow> ('fattr nfs_argop4, nfs_resop4, nat) op_desc option list
    \<Rightarrow> ('db, 'fs, 'h, 'fattr, fsal_errors_t) act"
where
  "undo_ops E op tid [] w = Some (ERR_FSAL_NO_ERROR, w)"
| "undo_ops E op tid (d # ds) w = do {
     el \<leftarrow> d;
     (ret, w) \<leftarrow> undo_op E op tid el w;
     if ret \<noteq> ERR_FSAL_NO_ERROR then Some (ret, w) else undo_ops E op tid ds w
   }"

definition dispatch_undoer ::
  "('db, 'fs, 'h, 'a, 'r, 'fattr) env \<Rightarrow> ('fattr nfs_argop4, nfs_resop4, nat) op_vector
    \<Rightarrow> ('db, 'fs, 'h, 'fattr, fsal_errors_t) act"
where
  "dispatch_undoer E vec = undo_ops E (vec_op vec) (vec_txnid vec) (opvec_iter_back vec)"

record ('arg, 'res) replay =
  rp_current :: "nat option"
  rp_saved :: "nat option"
  rp_vector :: "('arg, 'res, nat) op_vector"

text \<open>The body of the loop of \<open>do_txn_rollback\<close> for operation number \<open>i\<close>.\<close>
definition replay_op ::
  "('db, 'fs, 'h, 'a, 'r, 'fattr) env \<Rightarrow> nat \<Rightarrow> u64 \<Rightarrow> nat \<Rightarrow> 'fattr nfs_argop4 \<Rightarrow> nfs_resop4
    \<Rightarrow> ('fattr nfs_argop4, nfs_resop4) replay
    \<Rightarrow> ('db, 'fs, 'h, 'fattr, fsal_errors_t \<times> ('fattr nfs_argop4, nfs_resop4) replay) act"
where
  "replay_op E root tid i arg res rp w =
     (let op = resop res in
      if op = NFS4_OP_PUTFH then
        (case arg of
           ARG_PUTFH fh \<Rightarrow> do {
             (temp, w) \<leftarrow> fh_to_obj_handle E fh w;
             let (cur, w) = exchange_cfh (rp_current rp) temp w;
             Some ((if cur = None then ERR_FSAL_NOENT else ERR_FSAL_NO_ERROR, rp\<lparr>rp_current := cur\<rparr>), w) }
         | _ \<Rightarrow> None)
      else if op = NFS4_OP_PUTROOTFH then
        (let (cur, w) = exchange_cfh (rp_current rp) (Some root) w
         in Some ((ERR_FSAL_NO_ERROR, rp\<lparr>rp_current := cur\<rparr>), w))
      else if op = NFS4_OP_SAVEFH then
        (let (sav, w) = exchange_cfh (rp_saved rp) (rp_current rp) w
         in Some ((ERR_FSAL_NO_ERROR, rp\<lparr>rp_saved := sav\<rparr>), w))
      else if op = NFS4_OP_RESTOREFH then
        (if rp_saved rp = None then Some ((ERR_FSAL_FAULT, rp), w)
         else let (cur, w) = exchange_cfh (rp_current rp) (rp_saved rp) w
              in Some ((ERR_FSAL_NO_ERROR, rp\<lparr>rp_current := cur\<rparr>), w))
      else if op = NFS4_OP_LOOKUP then
        (case arg of
           ARG_LOOKUP name \<Rightarrow> do {
             ((ret, cur), w) \<leftarrow> replay_lookup E name (rp_current rp) w;
             Some ((ret, rp\<lparr>rp_current := cur\<rparr>), w) }
         | _ \<Rightarrow> None)
      else if op = NFS4_OP_LOOKUPP then do {
        cur \<leftarrow> rp_current rp;
        ((status, temp, attrs), w) \<leftarrow> my_lookup E cur ''..'' w;
        let (cur', w) = exchange_cfh (rp_current rp) temp w;
        Some ((status, rp\<lparr>rp_current := cur'\<rparr>), w) }
      else if op = NFS4_OP_OPEN then
        (case arg of
           ARG_OPEN args \<Rightarrow> do {
             ((ret, cur), w) \<leftarrow> undo_open E args (rp_current rp) tid i w;
             Some ((ret, rp\<lparr>rp_current := cur\<rparr>), w) }
         | _ \<Rightarrow> None)
      else if op \<in> {NFS4_OP_CREATE, NFS4_OP_LINK, NFS4_OP_REMOVE, NFS4_OP_RENAME, NFS4_OP_WRITE,
                    NFS4_OP_COPY, NFS4_OP_CLONE} then
        do {
          (ret, v) \<leftarrow> opvec_push (rp_vector rp) i op arg res (rp_current rp) (rp_saved rp);
          Some ((ret, rp\<lparr>rp_vector := v\<rparr>), w) }
      else Some ((ERR_FSAL_NO_ERROR, rp), w))"

text \<open>The loop over the results, with the arguments at the same positions.\<close>
fun replay_ops ::
  "('db, 'fs, 'h, 'a, 'r, 'fattr) env \<Rightarrow> nat \<Rightarrow> u64 \<Rightarrow> 'fattr nfs_argop4 list \<Rightarrow> nat \<Rightarrow> nfs_resop4 list
    \<Rightarrow> ('fattr nfs_argop4, nfs_resop4) replay
    \<Rightarrow> ('db, 'fs, 'h, 'fattr, fsal_errors_t \<times> ('fattr nfs_argop4, nfs_resop4) replay) act"
where
  "replay_ops E root tid args i [] rp w = Some ((ERR_FSAL_NO_ERROR, rp), w)"
| "replay_ops E root tid args i (res # rs) rp w =
     (if \<not> is_op_ok res then Some ((ERR_FSAL_NO_ERROR, rp), w)
      else if i \<ge> length args then None
      else do {
        ((ret, rp), w) \<leftarrow> replay_op E root tid i (args ! i) res rp w;
        if ret \<noteq> ERR_FSAL_NO_ERROR then Some ((ret, rp), w)
        else replay_ops E root tid args (Suc i) rs rp w })"

definition do_txn_rollback ::
  "('db, 'fs, 'h, 'a, 'r, 'fattr) env \<Rightarrow> u64 \<Rightarrow> compound4res \<Rightarrow> ('db, 'fs, 'h, 'fattr, fsal_errors_t) act"
where
  "do_txn_rollback E tid res w = do {
     args \<leftarrow> op_args w;
     let w = w\<lparr>txn_hdl_set := Some []\<rparr>;
     (root, w) \<leftarrow> get_txn_root E w;
     ((ret, rp), w) \<leftarrow>
       replay_ops E root tid args 0 (resarray res)
         \<lparr>rp_current = Some root, rp_saved = None, rp_vector = opvec_init tid\<rparr> w;
     (ret, w) \<leftarrow> (if ret = ERR_FSAL_NO_ERROR then dispatch_undoer E (rp_vector rp) w else Some (ret, w));
     (u, w) \<leftarrow> release_all_handles (e_sub E) w;
     Some (ret, w)
   }"

definition txnfs_compound_restore ::
  "('db, 'fs, 'h, 'a, 'r, 'fattr) env \<Rightarrow> u64 \<Rightarrow> compound4res \<Rightarrow> ('db, 'fs, 'h, 'fattr, fsal_errors_t) act"
where
  "txnfs_compound_restore E tid res w = do {
     c_assert (comp_status res \<noteq> NFS4_OK);
     do_txn_rollback E tid res w
   }"

end
