(* ===== verification/Txn_Export.thy ===== *)
theory Txn_Export
  imports Txn_Undo
begin

text \<open>
  The life of a transaction as the export sees it (\<open>FSAL_TXN/export.c\<close>): beginning and end of a
  compound, the backup before every operation, the creation of the export; and the thread that removes
  backup directories of finished transactions (the rest of \<open>FSAL_TXN/cleanup.c\<close>).

  The outcomes of \<open>pthread\<close> calls are arguments.  \<open>lm_lock\<close> waits until the paths are free: its
  argument \<open>polls\<close> holds the lock tables its attempts find, and the result \<open>None\<close> of the beginning of a
  compound is that it still waits.  The handle of the locks is \<open>None\<close> when it is null or was freed.
\<close>

abbreviation EINVAL :: int where "EINVAL \<equiv> 22"
abbreviation ENAVAIL :: int where "ENAVAIL \<equiv> 119"

definition CLEANUP_QUEUE_LEN :: nat where "CLEANUP_QUEUE_LEN = 131072"
definition NAME_MAX :: nat where "NAME_MAX = 255"

section \<open>Cleaning up backups\<close>

text \<open>\<open>record_dirent\<close> puts every entry at the head of the list.\<close>
definition record_dirent ::
  "(bytes \<times> 'h \<times> attrlist \<times> u64) list \<Rightarrow> (bytes \<times> 'h) list" where
  "record_dirent entries = rev (map (\<lambda>(name, obj, attrs, cookie). (take NAME_MAX name, obj)) entries)"

fun unlink_entries ::
  "('fs, 'h, 'a, 'r) sub_fsal \<Rightarrow> 'h \<Rightarrow> (bytes \<times> 'h) list \<Rightarrow> ('db, 'fs, 'h, 'fattr, unit) act"
where
  "unlink_entries S bkp_folder [] w = Some ((), w)"
| "unlink_entries S bkp_folder ((name, obj) # es) w = do {
     let (status, w) = sub_call (s_unlink S bkp_folder obj name) w;
     c_assert (FSAL_IS_SUCCESS status);
     let (u, w) = sub_call (s_release S obj) w;
     unlink_entries S bkp_folder es w
   }"

definition txnfs_cleanup_backup ::
  "('db, 'fs, 'h, 'a, 'r, 'fattr) env \<Rightarrow> u64 \<Rightarrow> 'h \<Rightarrow> ('db, 'fs, 'h, 'fattr, unit) act"
where
  "txnfs_cleanup_backup E tid bkp_folder w = do {
     let S = e_sub E;
     (txn_root, w) \<leftarrow> get_txn_root E w;
     w \<leftarrow> enter_sub w;
     (broot, w) \<leftarrow> query_backup_root E txn_root w;
     (case broot of
        None \<Rightarrow> Some ((), leave_sub w)
      | Some bkp_root \<Rightarrow> do {
          let ((status, entries, eof), w) = sub_call (s_readdir S bkp_folder None) w;
          c_assert (FSAL_IS_SUCCESS status);
          (u, w) \<leftarrow> unlink_entries S bkp_folder (record_dirent entries) w;
          let (status, w) = sub_call (s_unlink S bkp_root bkp_folder (txn_dir_name tid)) w;
          let (u, w) = sub_call (s_release S bkp_folder) w;
          Some ((), leave_sub w) })
   }"

definition submit_cleanup_task ::
  "('db, 'fs, 'h, 'a, 'r, 'fattr) env \<Rightarrow> int \<Rightarrow> u64 \<Rightarrow> 'h option \<Rightarrow> ('db, 'fs, 'h, 'fattr, int) act"
where
  "submit_cleanup_task E spin_lock tid bkp_folder w =
     (if tid = 0 then Some (0, w)
      else case bkp_folder of
        None \<Rightarrow> Some (EINVAL, w)
      | Some folder \<Rightarrow>
          if \<not> worker_up w then map_option (\<lambda>(u, w). (ENAVAIL, w)) (txnfs_cleanup_backup E tid folder w)
          else case cleanup_push_txnid spin_lock (cqueue w) tid (Some folder) of
            (err, q) \<Rightarrow>
              let w = w\<lparr>cqueue := q\<rparr> in
              if err \<noteq> 0 then map_option (\<lambda>(u, w). (err, w)) (txnfs_cleanup_backup E tid folder w)
              else Some (0, w))"

fun cleanup_all ::
  "('db, 'fs, 'h, 'a, 'r, 'fattr) env \<Rightarrow> 'h cleanup_arg list \<Rightarrow> ('db, 'fs, 'h, 'fattr, unit) act"
where
  "cleanup_all E [] w = Some ((), w)"
| "cleanup_all E (a # as) w = do {
     folder \<leftarrow> ca_bkp_folder a;
     (u, w) \<leftarrow> txnfs_cleanup_backup E (ca_txnid a) folder w;
     cleanup_all E as w
   }"

text \<open>One round of the thread's loop.\<close>
definition backup_worker ::
  "('db, 'fs, 'h, 'a, 'r, 'fattr) env \<Rightarrow> int \<Rightarrow> ('db, 'fs, 'h, 'fattr, unit) act"
where
  "backup_worker E spin_lock w = do {
     (n, ids, q) \<leftarrow> cleanup_pop_many spin_lock (cqueue w) 1024;
     let w = w\<lparr>cqueue := q\<rparr>;
     c_assert (n \<ge> 0);
     cleanup_all E ids w
   }"

text \<open>When the thread cannot be started, \<open>cleanup_queue_destroy\<close> frees the queue, which is a member of
  the export and no allocation of its own.\<close>
definition init_backup_worker ::
  "int \<Rightarrow> int \<Rightarrow> ('db, 'fs, 'h, 'fattr, int) act"
where
  "init_backup_worker spin_init pthread_create w =
     (case cleanup_queue_init spin_init CLEANUP_QUEUE_LEN of
        (err, q) \<Rightarrow>
          if err \<noteq> 0 then Some (err, w\<lparr>cqueue := q\<rparr>)
          else if pthread_create \<noteq> 0 then None
          else Some (0, w\<lparr>cqueue := q, worker_up := True\<rparr>))"

section \<open>Begin and end of a compound\<close>

definition txnfs_start_compound ::
  "('db, 'fs, 'h, 'a, 'r, 'fattr) env \<Rightarrow> lock_paths list \<Rightarrow> 'fattr nfs_argop4 list
    \<Rightarrow> ('db, 'fs, 'h, 'fattr, fsal_errors_t option) act"
where
  "txnfs_start_compound E polls args w = do {
     let (t, w) = create_txn_log (e_db E) (e_serialize E) args w;
     w \<leftarrow> txnfs_cache_init (length args) (w\<lparr>txnid := t\<rparr>);
     lrs \<leftarrow> find_relevant_handles (e_resolve_fh E) (e_utf8 E) (e_fullpath E) args;
     let w = w\<lparr>locked_paths := map fst lrs\<rparr>;
     locked \<leftarrow> lock_acquire lrs polls;
     (case locked of
        None \<Rightarrow> Some (None, w)
      | Some (lh, table) \<Rightarrow> do {
          c_assert (lrs \<noteq> [] \<longrightarrow> lh \<noteq> None);
          let w = w\<lparr>lock_handle := lh, lm_paths := (case table of Some m \<Rightarrow> m | None \<Rightarrow> lm_paths w),
                    op_args := Some args\<rparr>;
          (case s_start_compound (e_sub E) of
             None \<Rightarrow> Some (Some ERR_FSAL_NO_ERROR, w)
           | Some g \<Rightarrow>
               (case sub_call g (w\<lparr>fsal_export := SubExport\<rparr>) of
                  (res, w) \<Rightarrow> Some (Some res, w\<lparr>fsal_export := TxnExport\<rparr>))) })
   }"

text \<open>The part of \<open>txnfs_end_compound\<close> up to the release of the locks \<dots>\<close>
definition end_release ::
  "('db, 'fs, 'h, 'a, 'r, 'fattr) env \<Rightarrow> ('db, 'fs, 'h, 'fattr, fsal_errors_t) act"
where
  "end_release E w = do {
     let (ret, w) = (case s_end_compound (e_sub E) of
        None \<Rightarrow> (ERR_FSAL_NO_ERROR, w)
      | Some g \<Rightarrow>
          (case sub_call g (w\<lparr>fsal_export := SubExport\<rparr>) of
             (ret, w) \<Rightarrow> (ret, w\<lparr>fsal_export := TxnExport\<rparr>)));
     lh \<leftarrow> lock_handle w;
     Some (ret, w\<lparr>lm_paths := unlock lh (lm_paths w), lock_handle := None, locked_paths := []\<rparr>)
   }"

text \<open>\<dots> and the part after it.\<close>
definition end_settle ::
  "('db, 'fs, 'h, 'a, 'r, 'fattr) env \<Rightarrow> int \<Rightarrow> compound4res \<Rightarrow> ('db, 'fs, 'h, 'fattr, unit) act"
where
  "end_settle E spin_lock res w =
     (if op_args w = None then Some ((), w)
      else do {
        w \<leftarrow> (if comp_status res = NFS4_OK then map_option snd (txnfs_cache_commit (e_db E) w)
              else if txnid w > 0 then map_option snd (txnfs_compound_restore E (txnid w) res w)
              else Some w);
        w \<leftarrow> txnfs_cache_cleanup w;
        (err, w) \<leftarrow> submit_cleanup_task E spin_lock (txnid w) (txn_bkp_folder w) w;
        Some ((), w\<lparr>txn_bkp_folder := None\<rparr>) })"

definition txnfs_end_compound ::
  "('db, 'fs, 'h, 'a, 'r, 'fattr) env \<Rightarrow> int \<Rightarrow> compound4res \<Rightarrow> ('db, 'fs, 'h, 'fattr, fsal_errors_t) act"
where
  "txnfs_end_compound E spin_lock res w = do {
     (ret, w) \<leftarrow> end_release E w;
     (u, w) \<leftarrow> end_settle E spin_lock res w;
     Some (ret, w)
   }"

section \<open>Backup before an operation\<close>

text \<open>The decoder of the attributes fails on an empty attribute mask.\<close>
definition open_is_truncate :: "('fattr \<Rightarrow> attrlist option) \<Rightarrow> 'fattr open4args \<Rightarrow> bool" where
  "open_is_truncate fattr_to_attr args =
     (createmode args = UNCHECKED4 \<and>
      (case fattr_to_attr (createattrs args) of
         None \<Rightarrow> False
       | Some attrs \<Rightarrow> valid_mask attrs AND ATTR_SIZE \<noteq> 0 \<and> filesize attrs = 0))"

definition get_open_filename :: "utf8_scan \<Rightarrow> 'fattr open4args \<Rightarrow> bytes option" where
  "get_open_filename utf8 args = utf8 (claim_file (open_claim args))"

definition backup_open ::
  "('db, 'fs, 'h, 'a, 'r, 'fattr) env \<Rightarrow> nat \<Rightarrow> 'h txn_handle \<Rightarrow> 'fattr open4args
    \<Rightarrow> ('db, 'fs, 'h, 'fattr, fsal_errors_t) act"
where
  "backup_open E idx cur args w = do {
     let S = e_sub E;
     pathname \<leftarrow> get_open_filename (e_utf8 E) args;
     w \<leftarrow> enter_sub w;
     let ((status, handle, attrs), w) = sub_call (s_lookup S (th_sub cur) pathname) w;
     let w = leave_sub w;
     if status = ERR_FSAL_NO_ERROR then do {
       h \<leftarrow> handle;
       (st, w) \<leftarrow> txnfs_backup_file E idx h 0 (filesize attrs) w;
       let (u, w) = sub_call (s_release S h) w;
       Some (status, w) }
     else do {
       c_assert (status = ERR_FSAL_NOENT);
       Some (status, w) }
   }"

definition txnfs_backup_nfs4_op ::
  "('db, 'fs, 'h, 'a, 'r, 'fattr) env \<Rightarrow> nat \<Rightarrow> nat \<Rightarrow> 'fattr nfs_argop4
    \<Rightarrow> ('db, 'fs, 'h, 'fattr, fsal_errors_t) act"
where
  "txnfs_backup_nfs4_op E idx current op w = do {
     cur \<leftarrow> heap w current;
     (status, w) \<leftarrow> (case s_backup_nfs4_op (e_sub E) of
        None \<Rightarrow> Some (ERR_FSAL_NO_ERROR, w)
      | Some g \<Rightarrow> do {
          w \<leftarrow> enter_sub w;
          let (status, w) = sub_call (g idx (th_sub cur)) w;
          Some (status, leave_sub w) });
     if op_args w = None \<or> txnid w = 0 then Some (status, w)
     else case op of
       ARG_OPEN args \<Rightarrow>
         if open_is_truncate (e_fattr E) args then backup_open E idx cur args w else Some (status, w)
     | ARG_WRITE offset data \<Rightarrow>
         map_option (\<lambda>(st, w). (status, w))
           (txnfs_backup_file E idx (th_sub cur) offset (word_of_nat (length data)) w)
     | _ \<Rightarrow> Some (status, w)
   }"

section \<open>Creating the export\<close>

text \<open>The results of reading the configuration, of finding the FSAL below and of creating its export are
  arguments; the export becomes the current one.\<close>
definition txnfs_create_export ::
  "('db, 'fs, 'h, 'a, 'r, 'fattr) env \<Rightarrow> int \<Rightarrow> bool \<Rightarrow> fsal_errors_t \<Rightarrow> int \<Rightarrow> int
    \<Rightarrow> ('db, 'fs, 'h, 'fattr, fsal_errors_t) act"
where
  "txnfs_create_export E retval stack_found expres spin_init pthread_create w =
     (if retval \<noteq> 0 then Some (ERR_FSAL_INVAL, w)
      else if \<not> stack_found then Some (ERR_FSAL_INVAL, w)
      else if FSAL_IS_ERROR expres then Some (expres, w)
      else do {
        let w = w\<lparr>exp_root := None, bkproot := None, txn_bkp_folder := None, lm_paths := Map.empty,
                  worker_up := False, fsal_export := TxnExport\<rparr>;
        (root, w) \<leftarrow> get_txn_root E w;
        (err, w) \<leftarrow> init_backup_worker spin_init pthread_create w;
        Some (ERR_FSAL_NO_ERROR, w) })"

end
