(* ===== verification/Txn_Frame.thy ===== *)
theory Txn_Frame
  imports Txn_Export
begin

text \<open>
  A calculus for relations between the state before and the state after an operation of the
  transactional layer.  A relation that is reflexive and transitive and that admits changes of the file
  system below and of the current export is an instance of the locale; its rules follow the syntax of
  the operations, so that a frame condition of an operation is proved from those of the operations it
  calls.
\<close>

section \<open>Calls\<close>

lemma sub_call_eq:
  "sub_call g w = (r, w') \<longleftrightarrow> (\<exists>fs'. g (fsal_export w) (fs w) = (r, fs') \<and> w' = w\<lparr>fs := fs'\<rparr>)"
  by (auto simp: sub_call_def split: prod.splits)

lemma enter_sub_eq: "enter_sub w = Some w' \<longleftrightarrow> fsal_export w = TxnExport \<and> w' = w\<lparr>fsal_export := SubExport\<rparr>"
  by (auto simp: enter_sub_def)

lemma sub_call_beta:
  "sub_call g w = (fst (g (fsal_export w) (fs w)), w\<lparr>fs := snd (g (fsal_export w) (fs w))\<rparr>)"
  by (simp add: sub_call_def case_prod_beta)

lemmas op_simps = abort_simps enter_sub_eq leave_sub_def sub_call_beta Let_def

text \<open>The helpers of the common layer change the state of the file system below and nothing else.\<close>
definition fs_only :: "('db, 'fs, 'h, 'fattr) world \<Rightarrow> ('db, 'fs, 'h, 'fattr) world \<Rightarrow> bool" where
  "fs_only w w' \<longleftrightarrow> w' = w\<lparr>fs := fs w'\<rparr>"

lemma fs_only_refl: "fs_only w w"
  by (simp add: fs_only_def)

lemma fs_only_upd: "fs_only w (w\<lparr>fs := x\<rparr>)"
  by (simp add: fs_only_def)

lemma fs_only_trans:
  assumes "fs_only u v" "fs_only v w"
  shows "fs_only u w"
proof -
  have "v = u\<lparr>fs := fs v\<rparr>" "w = v\<lparr>fs := fs w\<rparr>" using assms by (simp_all add: fs_only_def)
  then have "w = u\<lparr>fs := fs v, fs := fs w\<rparr>" by argo
  then show ?thesis by (simp add: fs_only_def)
qed

lemma fs_only_call: "fs_only w (snd (sub_call g w))"
  by (simp add: sub_call_beta fs_only_upd)

lemma fs_only_close: "fs_only w (snd (fsal_close S h w))"
  by (simp add: fsal_close_def sub_call_beta fs_only_upd fs_only_refl)

lemma fs_only_lookup: "fs_only w (snd (fsal_lookup E p n w))"
  by (simp add: fsal_lookup_def sub_call_beta fs_only_upd fs_only_refl)

lemma fs_only_create_by_type: "fs_only w (snd (create_by_type E p n ty a l w))"
  using fs_only_trans [OF fs_only_call fs_only_close]
  by (auto simp: create_by_type_def Let_def sub_call_beta fs_only_upd fs_only_refl case_prod_beta split: option.splits)

lemma fs_only_create: "fs_only w (snd (fsal_create E p n ty a l w))"
proof -
  obtain r w1 where c: "create_by_type E p n ty (strip_own (e_uid E) (e_gid E) a) l w = (r, w1)" by fastforce
  then have w1: "fs_only w w1" using fs_only_create_by_type [of w E p n ty "strip_own (e_uid E) (e_gid E) a" l] by simp
  obtain r2 w2 where l: "fsal_lookup E p n w1 = (r2, w2)" by fastforce
  then have w2: "fs_only w w2" using fs_only_trans [OF w1] fs_only_lookup [of w1 E p n] by simp
  show ?thesis using w1 w2
    by (auto simp: fsal_create_def c l fs_only_refl split: prod.splits option.splits)
qed


lemma fs_only_attrs: "fs_only w (snd (get_optional_attrs S h w))"
  unfolding get_optional_attrs_def by (rule fs_only_call)

lemma fs_only_readlink: "fs_only w (snd (fsal_readlink S h w))"
  by (simp add: fsal_readlink_def sub_call_beta fs_only_upd fs_only_refl)

lemma fs_only_copy: "fs_only w (snd (fsal_copy S h i k j n w))"
  by (simp add: fsal_copy_def sub_call_beta fs_only_upd fs_only_refl case_prod_beta)

lemma fs_only_truncate: "fs_only w (truncate_file S f n w)"
  unfolding truncate_file_def Let_def by (rule fs_only_trans [OF fs_only_call fs_only_close])

lemma fs_only_restore: "fs_only w (snd (restore_file S b z c t i l w))"
  using fs_only_truncate [of w S c "i + z"]
  by (auto simp: restore_file_def Let_def case_prod_beta intro: fs_only_trans [OF _ fs_only_call] fs_only_trans
      fs_only_call fs_only_refl)

section \<open>Relations between states\<close>

definition acts ::
  "(('db, 'fs, 'h, 'fattr) world \<Rightarrow> ('db, 'fs, 'h, 'fattr) world \<Rightarrow> bool)
    \<Rightarrow> ('db, 'fs, 'h, 'fattr, 'v) act \<Rightarrow> bool"
where
  "acts R m \<longleftrightarrow> (\<forall>w r w'. m w = Some (r, w') \<longrightarrow> R w w')"

lemma actsD: "acts R m \<Longrightarrow> m w = Some (r, w') \<Longrightarrow> R w w'"
  unfolding acts_def by blast

lemma actsI: "(\<And>w r w'. m w = Some (r, w') \<Longrightarrow> R w w') \<Longrightarrow> acts R m"
  unfolding acts_def by blast

lemma acts_cong: "(\<And>w. m w = n w) \<Longrightarrow> acts R n \<Longrightarrow> acts R m"
  unfolding acts_def by simp

locale step_relation =
  fixes R :: "('db, 'fs, 'h, 'fattr) world \<Rightarrow> ('db, 'fs, 'h, 'fattr) world \<Rightarrow> bool"
  assumes R_refl: "R w w"
    and R_trans: "R u v \<Longrightarrow> R v w \<Longrightarrow> R u w"
    and R_fs: "R w (w\<lparr>fs := f\<rparr>)"
    and R_export: "R w (w\<lparr>fsal_export := x\<rparr>)"
begin

lemma none: "acts R (\<lambda>w. None)"
  by (simp add: acts_def)

lemma ret: "(\<And>w. R w (h w)) \<Longrightarrow> acts R (\<lambda>w. Some (g w, h w))"
  by (simp add: acts_def)

lemma tail:
  assumes "\<And>w. R w (u w)" "acts R m"
  shows "acts R (\<lambda>w. m (u w))"
proof (rule actsI)
  fix w r w'
  assume "m (u w) = Some (r, w')"
  then have "R (u w) w'" by (rule actsD [OF assms(2)])
  with assms(1) show "R w w'" by (rule R_trans)
qed

lemma bind:
  assumes "acts R m" "\<And>x. acts R (f x)"
  shows "acts R (\<lambda>w. Option.bind (m w) (\<lambda>(x, w). f x w))"
proof (rule actsI)
  fix w r w'
  assume "Option.bind (m w) (\<lambda>(x, w). f x w) = Some (r, w')"
  then obtain x v where m: "m w = Some (x, v)" and f: "f x v = Some (r, w')" by (auto simp: abort_simps)
  show "R w w'" using actsD [OF assms(1) m] actsD [OF assms(2) f] by (rule R_trans)
qed

lemma get:
  assumes "\<And>x. acts R (f x)"
  shows "acts R (\<lambda>w. Option.bind (g w) (\<lambda>x. f x w))"
proof (rule actsI)
  fix w r w'
  assume "Option.bind (g w) (\<lambda>x. f x w) = Some (r, w')"
  then obtain x where "f x w = Some (r, w')" by (auto simp: abort_simps)
  then show "R w w'" by (rule actsD [OF assms])
qed

lemma enter:
  assumes "acts R m"
  shows "acts R (\<lambda>w. Option.bind (enter_sub w) m)"
proof (rule actsI)
  fix w r w'
  assume "Option.bind (enter_sub w) m = Some (r, w')"
  then have "m (w\<lparr>fsal_export := SubExport\<rparr>) = Some (r, w')" by (simp add: enter_sub_def split: if_splits)
  with R_export show "R w w'" by (rule R_trans [OF _ actsD [OF assms]])
qed

lemma let_fun:
  assumes "\<And>w. R w (snd (h w))" "\<And>r. acts R (f r)"
  shows "acts R (\<lambda>w. let (r, w) = h w in f r w)"
proof (rule actsI)
  fix w r w'
  assume "(let (r, w) = h w in f r w) = Some (r, w')"
  then have "f (fst (h w)) (snd (h w)) = Some (r, w')" by (simp add: case_prod_beta)
  with assms(1) show "R w w'" by (rule R_trans [OF _ actsD [OF assms(2)]])
qed

lemma case_fun:
  "(\<And>w. R w (snd (h w))) \<Longrightarrow> (\<And>r. acts R (f r)) \<Longrightarrow> acts R (\<lambda>w. case h w of (r, w) \<Rightarrow> f r w)"
  using let_fun unfolding Let_def .

lemma let_upd: "(\<And>w. R w (u w)) \<Longrightarrow> acts R m \<Longrightarrow> acts R (\<lambda>w. let w = u w in m w)"
  unfolding Let_def by (rule tail)

lemma let_val: "(\<And>x. acts R (f x)) \<Longrightarrow> acts R (\<lambda>w. let x = g w in f x w)"
  by (simp add: acts_def)

lemma cond: "acts R m \<Longrightarrow> acts R n \<Longrightarrow> acts R (\<lambda>w. if b w then m w else n w)"
  by (simp add: acts_def)

lemma opt: "acts R m \<Longrightarrow> (\<And>x. acts R (f x)) \<Longrightarrow> acts R (\<lambda>w. case g w of None \<Rightarrow> m w | Some x \<Rightarrow> f x w)"
  by (simp add: acts_def split: option.split)

lemma pair: "(\<And>x y. acts R (f x y)) \<Longrightarrow> acts R (\<lambda>w. (case p of (x, y) \<Rightarrow> f x y) w)"
  by (cases p) simp

lemma pair_val: "(\<And>x y. acts R (f x y)) \<Longrightarrow> acts R (\<lambda>w. case p of (x, y) \<Rightarrow> f x y w)"
  by (cases p) simp

lemma mapped:
  assumes "acts R m"
  shows "acts R (\<lambda>w. map_option (\<lambda>(r, w). (g r, w)) (m w))"
proof (rule actsI)
  fix w r w'
  assume "map_option (\<lambda>(r, w). (g r, w)) (m w) = Some (r, w')"
  then obtain x where "m w = Some (x, w')" by auto
  then show "R w w'" by (rule actsD [OF assms])
qed

lemma mapped_pair:
  assumes "acts R m"
  shows "acts R (\<lambda>w. map_option (\<lambda>((a, b), w). (g a b, w)) (m w))"
proof (rule actsI)
  fix w r w'
  assume "map_option (\<lambda>((a, b), w). (g a b, w)) (m w) = Some (r, w')"
  then obtain x where "m w = Some (x, w')" by auto
  then show "R w w'" by (rule actsD [OF assms])
qed

lemma call: "R w (snd (sub_call g w))"
  by (simp add: sub_call_def R_fs case_prod_beta)

lemma ret_call: "acts R (\<lambda>w. Some (sub_call (g w) w))"
proof (rule actsI)
  fix w r w'
  assume "Some (sub_call (g w) w) = Some (r, w')"
  then have "w' = snd (sub_call (g w) w)" by simp
  then show "R w w'" using call by simp
qed

lemma leave: "R w (leave_sub w)"
  unfolding leave_sub_def by (rule R_export)

lemma call_export: "R w (snd (sub_call g (w\<lparr>fsal_export := x\<rparr>)))"
  by (rule R_trans [OF R_export call])

lemma below: "fs_only w w' \<Longrightarrow> R w w'"
  using R_fs [of w "fs w'"] unfolding fs_only_def by (metis (no_types))

lemmas step_prims = R_refl R_fs R_export call call_export leave
  below [OF fs_only_lookup] below [OF fs_only_create] below [OF fs_only_close]
  below [OF fs_only_attrs] below [OF fs_only_readlink] below [OF fs_only_copy] below [OF fs_only_truncate]
  below [OF fs_only_restore]

lemmas rules = none ret ret_call let_fun case_fun let_upd let_val enter bind cond opt pair pair_val mapped mapped_pair get

end

section \<open>Frame conditions of the operations\<close>

text \<open>The state changes that the allocation of handles is made of.\<close>
locale alloc_steps = step_relation +
  assumes R_count: "R w (w\<lparr>uuid_count := k\<rparr>)"
    and R_insert: "acts R (txnfs_db_insert_handle L key u p)"
    and R_alloc: "R w (w\<lparr>heap := (heap w)(next_hdl w \<mapsto> h), next_hdl := next_hdl w + 1\<rparr>)"
begin

lemmas alloc_prims = step_prims R_count R_alloc

lemma insert_new: "acts R (insert_new_uuid E key p)"
  unfolding insert_new_uuid_def by (rule rules alloc_prims R_insert)+

lemma uuid: "acts R (handle_uuid E key p c)"
  unfolding handle_uuid_def by (rule rules alloc_prims insert_new)+

lemma alloc: "R w (snd (txnfs_alloc_handle S sub u p w))"
  unfolding txnfs_alloc_handle_def by (simp add: R_alloc [simplified])

lemma alloc_check: "acts R (txnfs_alloc_and_check_handle E sub pp tp st c)"
  unfolding txnfs_alloc_and_check_handle_def by (rule rules alloc_prims uuid alloc)+

lemma subs: "acts R (with_subs g ns)"
  unfolding with_subs_def by (rule rules alloc_prims)+

lemma child: "acts R (wrap_child E n name g c)"
  unfolding wrap_child_def by (rule rules alloc_prims alloc_check)+

lemma look_path: "acts R (txnfs_lookup_path E p)"
  unfolding txnfs_lookup_path_def by (rule rules alloc_prims alloc_check)+

lemma open2: "acts R (txnfs_open2 E n a m name)"
  unfolding txnfs_open2_def by (rule rules alloc_prims alloc_check)+

end

text \<open>The root of the export stays.\<close>
definition same_root :: "('db, 'fs, 'h, 'fattr) world \<Rightarrow> ('db, 'fs, 'h, 'fattr) world \<Rightarrow> bool" where
  "same_root w w' \<longleftrightarrow> exp_root w' = exp_root w"

lemma db_insert_same_root: "acts same_root (txnfs_db_insert_handle L key u p)"
  by (rule actsI) (auto simp: txnfs_db_insert_handle_def txnfs_cache_insert_def abort_simps Let_def same_root_def
      split: if_splits prod.splits)

interpretation root: alloc_steps same_root
  by unfold_locales (simp_all add: same_root_def db_insert_same_root)

text \<open>The changes of the lookup of the backup directories.\<close>
locale dir_steps = step_relation +
  assumes R_bkproot: "R w (w\<lparr>bkproot := b\<rparr>)"
    and R_folder: "R w (w\<lparr>txn_bkp_folder := b\<rparr>)"
begin

lemmas dir_prims = step_prims R_bkproot R_folder

lemma backup_queries: "acts R (query_backup_root E n)" "acts R (query_txn_backup E h t)"
  unfolding query_backup_root_def query_txn_backup_def by (rule rules dir_prims)+

lemma backup_dirs: "acts R (backup_root_dir E n)" "acts R (txn_backup_dir E st h t)"
  unfolding backup_root_dir_def txn_backup_dir_def by (rule rules dir_prims backup_queries)+

lemma entries_unlinked: "acts R (unlink_entries S h es)"
proof (induction es)
  case Nil
  show ?case unfolding unlink_entries.simps by (rule rules dir_prims)+
next
  case (Cons e es)
  show ?case
  proof (cases e)
    case (Pair name obj)
    show ?thesis unfolding Pair unlink_entries.simps by (rule rules dir_prims Cons)+
  qed
qed

text \<open>With the root of the export at hand, the removal of a backup makes no other change.\<close>
lemma cleaned_up_rooted:
  assumes "txnfs_cleanup_backup E t h w = Some (u, w')" "exp_root w \<noteq> None"
  shows "R w w'"
proof -
  obtain n where n: "exp_root w = Some n" using assms(2) by auto
  let ?rest = "\<lambda>w. Option.bind (enter_sub w) (\<lambda>w. Option.bind (query_backup_root E n w) (\<lambda>(broot, w).
     case broot of
        None \<Rightarrow> Some ((), leave_sub w)
      | Some bkp_root \<Rightarrow> do {
          let ((status, entries, eof), w) = sub_call (s_readdir (e_sub E) h None) w;
          c_assert (FSAL_IS_SUCCESS status);
          (u, w) \<leftarrow> unlink_entries (e_sub E) h (record_dirent entries) w;
          let (status, w) = sub_call (s_unlink (e_sub E) bkp_root h (txn_dir_name t)) w;
          let (u, w) = sub_call (s_release (e_sub E) h) w;
          Some ((), leave_sub w) }))"
  have "acts R ?rest" by (rule rules dir_prims backup_queries entries_unlinked)+
  moreover have "?rest w = Some (u, w')"
    using assms(1) n by (simp add: txnfs_cleanup_backup_def get_txn_root_def Let_def split: if_splits)
  ultimately show ?thesis by (rule actsD)
qed

end

text \<open>The changes of all the operations that this library relates.\<close>
locale txn_steps = alloc_steps + dir_steps +
  assumes R_delete: "acts R (txnfs_db_delete_uuid L u)"
    and R_root: "exp_root w = None \<Longrightarrow> R w (w\<lparr>exp_root := n\<rparr>)"
    and R_set: "R w (w\<lparr>txn_hdl_set := s\<rparr>)"
    and R_free: "R w (w\<lparr>heap := (heap w)(m := None)\<rparr>)"
begin

lemma txn_root: "acts R (get_txn_root E)"
proof (rule actsI)
  fix w r w'
  assume r: "get_txn_root E w = Some (r, w')"
  show "R w w'"
  proof (cases "exp_root w")
    case None
    then obtain x w1 n where l: "txnfs_lookup_path E (e_fullpath E) w = Some (x, w1)"
      and w': "w' = w1\<lparr>exp_root := n\<rparr>"
      using r by (auto simp: get_txn_root_def abort_simps split: if_splits)
    have "exp_root w1 = None" using actsD [OF root.look_path l] None by (simp add: same_root_def)
    then show ?thesis unfolding w' by (rule R_trans [OF actsD [OF look_path l] R_root])
  next
    case (Some n)
    then show ?thesis using r R_refl by (auto simp: get_txn_root_def split: if_splits)
  qed
qed

lemmas prims = alloc_prims R_bkproot R_folder R_set R_free

lemma create_hdl: "acts R (txnfs_create_handle E desc)"
  unfolding txnfs_create_handle_def by (rule rules prims txn_root alloc_check)+

lemma freed: "acts R (release S n)"
  unfolding release_def by (rule rules prims)+

lemma backup_dir: "acts R (txnfs_create_or_lookup_backup_dir E)"
  unfolding txnfs_create_or_lookup_backup_dir_def by (rule rules prims txn_root backup_dirs)+

lemma backup_file: "acts R (txnfs_backup_file E i h o' l)"
  unfolding txnfs_backup_file_def backup_data_def by (rule rules prims backup_dir)+

lemma nonempty: "acts R (mark_nonempty S h)"
  by (rule actsI) (auto simp: mark_nonempty_def sub_call_beta case_prod_beta split: list.splits intro: R_fs)

lemma unlinked: "acts R (file_unlink E n m name)"
proof -
  have e: "acts R (remove_entry S b d x name)" for S b d x
    unfolding remove_entry_def by (rule rules prims nonempty)+
  show ?thesis
    unfolding file_unlink_def by (rule rules prims backup_dir e R_delete)+
qed

lemma inserted_handle: "R w (insert_handle hdl w)"
  by (simp add: insert_handle_def R_set R_refl split: option.split)

lemma exchanged: "R w (snd (exchange_cfh v n w))"
  by (simp add: exchange_cfh_def inserted_handle R_refl split: option.split)

lemmas undo_prims = prims inserted_handle exchanged

lemma looked_up: "acts R (my_lookup E n name)"
  unfolding my_lookup_def lookup_def by (rule rules undo_prims child)+

lemma looked_up_sub: "acts R (my_lookup_sub S h name)"
  unfolding my_lookup_sub_def by (rule rules undo_prims)+

lemma undo_helpers:
  "acts R (my_unlink S n m name)" "acts R (fh_to_obj_handle E fh)" "acts R (replay_lookup E str cur)"
  "acts R (file_has_uuid E n)" "acts R (getattrs S n)" "acts R (txnfs_close S n)"
  unfolding my_unlink_def fh_to_obj_handle_def wire_to_host_def replay_lookup_def file_has_uuid_def
    getattrs_def txnfs_close_def
  by (rule rules undo_prims subs create_hdl looked_up)+

lemma restored: "acts R (restore_data E n t i b k l)"
  unfolding restore_data_def by (rule rules undo_prims txn_root backup_queries looked_up_sub)+

lemma created_undone: "acts R (undo_created E name n)"
  unfolding undo_created_def by (rule rules undo_prims looked_up undo_helpers)+

lemma removed_undone: "acts R (undo_remove E name n t i)"
  unfolding undo_remove_def by (rule rules undo_prims txn_root backup_queries)+

lemma open_undone: "acts R (undo_open E args cur t i)"
  unfolding undo_open_def by (rule rules undo_prims looked_up undo_helpers restored)+

lemma op_undone: "acts R (undo_op E op t el)"
  unfolding undo_op_def undo_create_def undo_link_def undo_write_def
  by (rule rules undo_prims created_undone removed_undone restored | (cases "od_arg el"; simp))+

lemma ops_undone: "acts R (undo_ops E op t ds)"
proof (induction ds)
  case Nil
  show ?case unfolding undo_ops.simps by (rule rules undo_prims)+
next
  case (Cons d ds)
  show ?case unfolding undo_ops.simps by (rule rules undo_prims op_undone Cons)+
qed

lemma replayed: "acts R (replay_op E root t i arg res rp)"
  unfolding replay_op_def
  by (rule rules undo_prims undo_helpers looked_up open_undone | (cases arg; simp))+

lemma all_replayed: "acts R (replay_ops E root t args i rs rp)"
proof (induction rs arbitrary: i rp)
  case Nil
  show ?case unfolding replay_ops.simps by (rule rules undo_prims)+
next
  case (Cons r rs)
  show ?case unfolding replay_ops.simps by (rule rules undo_prims replayed Cons)+
qed

lemma handle_freed: "acts R (hdlset_free_func S hdl)"
  unfolding hdlset_free_func_def by (cases hdl; simp) (rule rules undo_prims freed)+

lemma handles_freed: "acts R (free_handles S hs)"
proof (induction hs)
  case Nil
  show ?case unfolding free_handles.simps by (rule rules undo_prims)+
next
  case (Cons h hs)
  show ?case unfolding free_handles.simps by (rule rules undo_prims handle_freed Cons)+
qed

lemma rolled_back: "acts R (do_txn_rollback E t res)" "acts R (txnfs_compound_restore E t res)"
  unfolding do_txn_rollback_def txnfs_compound_restore_def dispatch_undoer_def release_all_handles_def
  by (rule rules undo_prims txn_root all_replayed ops_undone handles_freed)+

lemma cleaned_up: "acts R (txnfs_cleanup_backup E t h)"
  unfolding txnfs_cleanup_backup_def by (rule rules undo_prims txn_root backup_queries entries_unlinked)+

end

end
