(* ===== verification/Example_Fs.thy ===== *)
theory Example_Fs
  imports Txn_World
begin

text \<open>
  A small file system in memory.  It is no part of the program: it is the concrete FSAL below on which
  the hypotheses about that FSAL are shown to be satisfiable.
\<close>

type_synonym memh = "nat \<times> object_file_type_t"

record memfs =
  m_ents :: "((nat \<times> bytes) \<times> memh) list"
  m_data :: "nat \<Rightarrow> bytes"
  m_next :: nat

definition mem_attrs :: "memfs \<Rightarrow> memh \<Rightarrow> attrlist" where
  "mem_attrs f h = no_attrs\<lparr>filesize := word_of_nat (length (m_data f (fst h)))\<rparr>"

definition mem_lookup :: "memh \<Rightarrow> bytes \<Rightarrow> (memh obj_result, memfs) sub_op" where
  "mem_lookup d n x f = (case map_of (m_ents f) (fst d, n) of
     None \<Rightarrow> ((ERR_FSAL_NOENT, None, no_attrs), f)
   | Some h \<Rightarrow> ((ERR_FSAL_NO_ERROR, Some h, mem_attrs f h), f))"

definition mem_new :: "memh \<Rightarrow> bytes \<Rightarrow> object_file_type_t \<Rightarrow> (memh obj_result, memfs) sub_op" where
  "mem_new d n ty x f = (case map_of (m_ents f) (fst d, n) of
     Some h \<Rightarrow> ((ERR_FSAL_EXIST, None, no_attrs), f)
   | None \<Rightarrow>
       (let h = (m_next f, ty)
        in ((ERR_FSAL_NO_ERROR, Some h, no_attrs),
            f\<lparr>m_ents := ((fst d, n), h) # m_ents f, m_next := m_next f + 1,
              m_data := (m_data f)(m_next f := [])\<rparr>)))"

definition mem_open :: "memh \<Rightarrow> fsal_create_mode \<Rightarrow> bytes option \<Rightarrow> (memh obj_result, memfs) sub_op" where
  "mem_open d mode name x f = (case name of
     None \<Rightarrow> ((ERR_FSAL_NO_ERROR, None, no_attrs), f)
   | Some n \<Rightarrow>
       (case mem_lookup d n x f of
          ((ERR_FSAL_NOENT, obj, a), g) \<Rightarrow>
            if mode = FSAL_NO_CREATE then ((ERR_FSAL_NOENT, obj, a), g) else mem_new d n REGULAR_FILE x g
        | r \<Rightarrow> r))"

definition mem_rename :: "memh \<Rightarrow> bytes \<Rightarrow> memh \<Rightarrow> bytes \<Rightarrow> (fsal_errors_t, memfs) sub_op" where
  "mem_rename od on nd nn x f = (case map_of (m_ents f) (fst od, on) of
     None \<Rightarrow> (ERR_FSAL_NOENT, f)
   | Some h \<Rightarrow>
       (ERR_FSAL_NO_ERROR,
        f\<lparr>m_ents := ((fst nd, nn), h) #
             filter (\<lambda>e. fst e \<noteq> (fst od, on) \<and> fst e \<noteq> (fst nd, nn)) (m_ents f)\<rparr>))"

definition mem_unlink :: "memh \<Rightarrow> bytes \<Rightarrow> (fsal_errors_t, memfs) sub_op" where
  "mem_unlink d n x f =
     (if map_of (m_ents f) (fst d, n) = None then (ERR_FSAL_NOENT, f)
      else (ERR_FSAL_NO_ERROR, f\<lparr>m_ents := filter (\<lambda>e. fst e \<noteq> (fst d, n)) (m_ents f)\<rparr>))"

definition put_at :: "bytes \<Rightarrow> nat \<Rightarrow> bytes \<Rightarrow> bytes" where
  "put_at old off new =
     take off old @ replicate (off - length old) (CHR 0x00) @ new @ drop (off + length new) old"

definition set_size :: "bytes \<Rightarrow> nat \<Rightarrow> bytes" where
  "set_size old n = take n old @ replicate (n - length old) (CHR 0x00)"

definition mem_copy :: "memh \<Rightarrow> u64 \<Rightarrow> memh \<Rightarrow> u64 \<Rightarrow> u64 \<Rightarrow> (fsal_errors_t, memfs) sub_op" where
  "mem_copy src soff dst doff n x f =
     (ERR_FSAL_NO_ERROR,
      f\<lparr>m_data := (m_data f)(fst dst :=
          put_at (m_data f (fst dst)) (unat doff) (take (unat n) (drop (unat soff) (m_data f (fst src)))))\<rparr>)"

definition mem_readdir ::
  "memh \<Rightarrow> (fsal_errors_t \<times> (bytes \<times> memh \<times> attrlist \<times> u64) list \<times> bool, memfs) sub_op" where
  "mem_readdir d x f =
     ((ERR_FSAL_NO_ERROR,
       map (\<lambda>e. (snd (fst e), snd e, mem_attrs f (snd e), 0)) (filter (\<lambda>e. fst (fst e) = fst d) (m_ents f)),
       True), f)"

definition mem_key :: "memh \<Rightarrow> bytes" where
  "mem_key h = ''i'' @ dec (fst h)"

definition mem_create_handle :: "bytes \<Rightarrow> (memh obj_result, memfs) sub_op" where
  "mem_create_handle key x f =
     (case find (\<lambda>h. mem_key h = key) ((0, DIRECTORY) # map snd (m_ents f)) of
        None \<Rightarrow> ((ERR_FSAL_STALE, None, no_attrs), f)
      | Some h \<Rightarrow> ((ERR_FSAL_NO_ERROR, Some h, mem_attrs f h), f))"

text \<open>The root directory is number 0; arguments that are handed through carry an offset and data.\<close>
definition mem_fsal :: "(memfs, memh, nat \<times> bytes, unit) sub_fsal" where
  "mem_fsal = \<lparr>
     s_type = snd,
     s_fileid = (\<lambda>h. word_of_nat (fst h)),
     s_handle_to_key = (\<lambda>h x f. (mem_key h, f)),
     s_lookup = mem_lookup,
     s_mkdir = (\<lambda>d n a. mem_new d n DIRECTORY),
     s_mknode = (\<lambda>d n ty a. mem_new d n ty),
     s_symlink = (\<lambda>d n l a. mem_new d n SYMBOLIC_LINK),
     s_open2 = (\<lambda>d a. mem_open d),
     s_readlink = (\<lambda>h b x f. ((ERR_FSAL_NO_ERROR, m_data f (fst h)), f)),
     s_link = (\<lambda>h d n x f. (ERR_FSAL_NO_ERROR, f\<lparr>m_ents := ((fst d, n), h) # m_ents f\<rparr>)),
     s_readdir = (\<lambda>d y. mem_readdir d),
     s_rename = (\<lambda>h. mem_rename),
     s_getattrs = (\<lambda>h x f. ((ERR_FSAL_NO_ERROR, mem_attrs f h), f)),
     s_setattr2 = (\<lambda>h a x f. (ERR_FSAL_NO_ERROR,
        f\<lparr>m_data := (m_data f)(fst h := set_size (m_data f (fst h)) (unat (filesize a)))\<rparr>)),
     s_unlink = (\<lambda>d h. mem_unlink d),
     s_close = (\<lambda>h x f. (ERR_FSAL_NO_ERROR, f)),
     s_copy = mem_copy,
     s_clone2 = mem_copy,
     s_release = (\<lambda>h x f. ((), f)),
     s_test_access = (\<lambda>h x f. (ERR_FSAL_NO_ERROR, f)),
     s_pass = (\<lambda>p a hs x f. ((), case p of
        P_write2 \<Rightarrow> f\<lparr>m_data := (m_data f)(fst (hs ! 0) := put_at (m_data f (fst (hs ! 0))) (fst a) (snd a))\<rparr>
      | _ \<Rightarrow> f)),
     s_lookup_path = (\<lambda>p x f. ((ERR_FSAL_NO_ERROR, Some (0, DIRECTORY), no_attrs), f)),
     s_create_handle = mem_create_handle,
     s_start_compound = None,
     s_end_compound = None,
     s_backup_nfs4_op = None\<rparr>"

definition uuid_of :: "nat \<Rightarrow> bytes" where
  "uuid_of k = replicate (UUID_LEN - length (dec k)) (CHR ''u'') @ take UUID_LEN (dec k)"

definition mem_env :: "(bytes \<rightharpoonup> bytes, memfs, memh, nat \<times> bytes, unit, attrlist option) env" where
  "mem_env = \<lparr>
     e_db = map_db, e_sub = mem_fsal, e_uuid = uuid_of, e_fullpath = ''/export'', e_uid = 0, e_gid = 0,
     e_utf8 = (\<lambda>s. if s = [] then None else Some s),
     e_resolve_fh = (\<lambda>fh. Some (Some ''/export'')),
     e_serialize = (\<lambda>ty t. Some (dec (unat t))), e_fattr = (\<lambda>a. a),
     e_fsal_open2 = (\<lambda>d n a. mem_open d FSAL_UNCHECKED (Some n)),
     e_fsal_lookupp = (\<lambda>h x f. ((ERR_FSAL_NO_ERROR, Some (0, DIRECTORY), no_attrs), f))\<rparr>"

definition mem_world :: "(bytes \<rightharpoonup> bytes, memfs, memh, attrlist option) world" where
  "mem_world = \<lparr>
     txn_cache = None, txnid = 0, next_txn_id = 1, db = Map.empty, fsal_export = TxnExport, opidx = 0,
     op_args = None, txn_bkp_folder = None, txn_hdl_set = None, exp_root = None, bkproot = None,
     cqueue = snd (cleanup_queue_init 0 4), worker_up = False, lock_handle = None, locked_paths = [],
     lm_paths = Map.empty, heap = Map.empty, next_hdl = 0, uuid_count = 0,
     fs = \<lparr>m_ents = [], m_data = (\<lambda>i. []), m_next = 1\<rparr>\<rparr>"

end
