(* ===== verification/Txn_Ops.thy ===== *)
theory Txn_Ops
  imports Txn_Frame Example_Fs
begin

text \<open>
  The method tables of the transactional FSAL as a whole (\<open>txnfs_handle_ops_init\<close> of \<open>handle.c\<close> and
  \<open>txnfs_export_ops_init\<close> of \<open>export.c\<close>): a call through a table is a step, and what every step keeps is
  an invariant of the layer.  The last section relates this to the handles that clients hold.
\<close>

section \<open>The method tables\<close>

text \<open>A call through the tables that \<open>txnfs_handle_ops_init\<close> and \<open>txnfs_export_ops_init\<close> fill in.  Methods
  that are handed through are named by their slot; a slot that is not in the table is the abort
  value.\<close>
datatype 'a fsal_call =
    C_release nat
  | C_lookup nat bytes
  | C_readdir nat "u64 option"
  | C_mkdir nat bytes attrlist
  | C_mknode nat bytes object_file_type_t attrlist
  | C_symlink nat bytes bytes attrlist
  | C_readlink nat bool
  | C_getattrs nat
  | C_link nat nat bytes
  | C_rename nat nat bytes nat bytes
  | C_unlink nat nat bytes
  | C_close nat
  | C_handle_to_wire nat nat
  | C_handle_to_key nat
  | C_open2 nat 'a fsal_create_mode "bytes option"
  | C_read2 nat 'a
  | C_write2 nat 'a
  | C_obj pass_op nat 'a
  | C_copy nat nat 'a
  | C_clone nat nat 'a
  | C_clone2 nat nat 'a
  | C_lookup_path bytes
  | C_create_handle bytes
  | C_wire_to_host bytes
  | C_host_to_key bytes
  | C_get_fs_dynamic_info nat 'a
  | C_fs_supports bool 'a
  | C_export pass_op 'a
  | C_alloc_state 'a

definition obj_method ::
  "('fs, 'h, 'a, 'r) sub_fsal \<Rightarrow> pass_op \<Rightarrow> nat \<Rightarrow> 'a \<Rightarrow> ('db, 'fs, 'h, 'fattr, 'r) act"
where
  "obj_method S slot n a w = (case slot of
       P_compute_readdir_cookie \<Rightarrow> compute_readdir_cookie S n a w
     | P_dirent_cmp \<Rightarrow> dirent_cmp S n a w
     | P_setattr2 \<Rightarrow> txnfs_setattr2 S n a w
     | P_is_referral \<Rightarrow> txnfs_is_referral S n a w
     | P_check_verifier \<Rightarrow> txnfs_check_verifier S n a w
     | P_status2 \<Rightarrow> txnfs_status2 S n a w
     | P_reopen2 \<Rightarrow> txnfs_reopen2 S n a w
     | P_seek2 \<Rightarrow> txnfs_seek2 S n a w
     | P_io_advise2 \<Rightarrow> txnfs_io_advise2 S n a w
     | P_commit2 \<Rightarrow> txnfs_commit2 S n a w
     | P_lock_op2 \<Rightarrow> txnfs_lock_op2 S n a w
     | P_close2 \<Rightarrow> txnfs_close2 S n a w
     | P_fallocate \<Rightarrow> txnfs_fallocate S n a w
     | P_list_ext_attrs \<Rightarrow> txnfs_list_ext_attrs S n a w
     | P_getextattr_id_by_name \<Rightarrow> txnfs_getextattr_id_by_name S n a w
     | P_getextattr_value_by_name \<Rightarrow> txnfs_getextattr_value_by_name S n a w
     | P_getextattr_value_by_id \<Rightarrow> txnfs_getextattr_value_by_id S n a w
     | P_setextattr_value \<Rightarrow> txnfs_setextattr_value S n a w
     | P_setextattr_value_by_id \<Rightarrow> txnfs_setextattr_value_by_id S n a w
     | P_remove_extattr_by_id \<Rightarrow> txnfs_remove_extattr_by_id S n a w
     | P_remove_extattr_by_name \<Rightarrow> txnfs_remove_extattr_by_name S n a w
     | _ \<Rightarrow> None)"

definition export_method ::
  "('fs, 'h, 'a, 'r) sub_fsal \<Rightarrow> pass_op \<Rightarrow> 'a \<Rightarrow> ('db, 'fs, 'h, 'fattr, 'r) act"
where
  "export_method S slot a w = (case slot of
       P_fs_maxfilesize \<Rightarrow> fs_maxfilesize S a w
     | P_fs_maxread \<Rightarrow> fs_maxread S a w
     | P_fs_maxwrite \<Rightarrow> fs_maxwrite S a w
     | P_fs_maxlink \<Rightarrow> fs_maxlink S a w
     | P_fs_maxnamelen \<Rightarrow> fs_maxnamelen S a w
     | P_fs_maxpathlen \<Rightarrow> fs_maxpathlen S a w
     | P_fs_acl_support \<Rightarrow> fs_acl_support S a w
     | P_fs_supported_attrs \<Rightarrow> fs_supported_attrs S a w
     | P_fs_umask \<Rightarrow> fs_umask S a w
     | P_get_quota \<Rightarrow> get_quota S a w
     | P_set_quota \<Rightarrow> set_quota S a w
     | P_free_state \<Rightarrow> txnfs_free_state S a w
     | P_is_superuser \<Rightarrow> txnfs_is_superuser S a w
     | P_prepare_unexport \<Rightarrow> txnfs_prepare_unexport S a w
     | _ \<Rightarrow> None)"

text \<open>The state after the call; the callbacks of the layer above for reads, writes and directories are
  arguments.\<close>
definition fsal_step ::
  "('db, 'fs, 'h, 'a, 'r, 'fattr) env \<Rightarrow> ('r \<Rightarrow> ('db, 'fs, 'h, 'fattr, unit) act) \<Rightarrow> 'd readdir_cb \<Rightarrow> 'd
    \<Rightarrow> 'a fsal_call \<Rightarrow> ('db, 'fs, 'h, 'fattr) world \<Rightarrow> ('db, 'fs, 'h, 'fattr) world option"
where
  "fsal_step E done_cb dir_cb d c w = (let S = e_sub E in case c of
       C_release n \<Rightarrow> map_option snd (release S n w)
     | C_lookup n name \<Rightarrow> map_option snd (lookup E n name w)
     | C_readdir n whence \<Rightarrow> map_option snd (read_dirents E dir_cb n whence d w)
     | C_mkdir n name attrs \<Rightarrow> map_option snd (makedir E n name attrs w)
     | C_mknode n name ty attrs \<Rightarrow> map_option snd (makenode E n name ty attrs w)
     | C_symlink n name link attrs \<Rightarrow> map_option snd (makesymlink E n name link attrs w)
     | C_readlink n refresh \<Rightarrow> map_option snd (readsymlink S n refresh w)
     | C_getattrs n \<Rightarrow> map_option snd (getattrs S n w)
     | C_link n dir name \<Rightarrow> map_option snd (linkfile S n dir name w)
     | C_rename n old oname new nname \<Rightarrow> map_option snd (renamefile S n old oname new nname w)
     | C_unlink dir n name \<Rightarrow> map_option snd (file_unlink E dir n name w)
     | C_close n \<Rightarrow> map_option snd (txnfs_close S n w)
     | C_handle_to_wire n len \<Rightarrow> map_option snd (handle_to_wire n len w)
     | C_handle_to_key n \<Rightarrow> map_option snd (handle_to_key n w)
     | C_open2 n a mode name \<Rightarrow> map_option snd (txnfs_open2 E n a mode name w)
     | C_read2 n a \<Rightarrow> map_option snd (txnfs_read2 S done_cb n a w)
     | C_write2 n a \<Rightarrow> map_option snd (txnfs_write2 S done_cb n a w)
     | C_obj slot n a \<Rightarrow> map_option snd (obj_method S slot n a w)
     | C_copy src dst a \<Rightarrow> map_option snd (txnfs_copy S src dst a w)
     | C_clone src dst a \<Rightarrow> map_option snd (txnfs_clone S src dst a w)
     | C_clone2 src dst a \<Rightarrow> map_option snd (txnfs_clone2 S src dst a w)
     | C_lookup_path path \<Rightarrow> map_option snd (txnfs_lookup_path E path w)
     | C_create_handle desc \<Rightarrow> map_option snd (txnfs_create_handle E desc w)
     | C_wire_to_host desc \<Rightarrow> map_option snd (wire_to_host desc w)
     | C_host_to_key desc \<Rightarrow> map_option snd (txnfs_host_to_key desc w)
     | C_get_fs_dynamic_info n a \<Rightarrow> map_option snd (get_dynamic_info S n a w)
     | C_fs_supports is_txn a \<Rightarrow> map_option snd (fs_supports S is_txn a w)
     | C_export slot a \<Rightarrow> map_option snd (export_method S slot a w)
     | C_alloc_state a \<Rightarrow> map_option snd (txnfs_alloc_state S a w))"

fun fsal_run ::
  "('db, 'fs, 'h, 'a, 'r, 'fattr) env \<Rightarrow> ('r \<Rightarrow> ('db, 'fs, 'h, 'fattr, unit) act) \<Rightarrow> 'd readdir_cb \<Rightarrow> 'd
    \<Rightarrow> 'a fsal_call list \<Rightarrow> ('db, 'fs, 'h, 'fattr) world \<Rightarrow> ('db, 'fs, 'h, 'fattr) world option"
where
  "fsal_run E done_cb dir_cb d [] w = Some w"
| "fsal_run E done_cb dir_cb d (c # cs) w = do {
     w \<leftarrow> fsal_step E done_cb dir_cb d c w;
     fsal_run E done_cb dir_cb d cs w }"

section \<open>Invariant\<close>


definition canonical :: "bytes \<Rightarrow> bool" where
  "canonical p \<longleftrightarrow> canonical_path (is_absolute p) (stack_of p) = p"


definition handle_ok :: "('fs, 'h, 'a, 'r) sub_fsal \<Rightarrow> 'h txn_handle \<Rightarrow> bool" where
  "handle_ok S h \<longleftrightarrow> length (th_uuid h) = UUID_LEN \<and> canonical (th_path h) \<and>
     th_type h = s_type S (th_sub h) \<and> th_fileid h = s_fileid S (th_sub h)"

definition cache_ok :: "txnfs_cache option \<Rightarrow> bool" where
  "cache_ok c \<longleftrightarrow> (\<forall>cc. c = Some cc \<longrightarrow>
     length (cache_entries cc) \<le> cache_capacity cc \<and>
     list_all (\<lambda>e. length (ent_uuid e) = UUID_LEN) (cache_entries cc))"

definition hs_ok :: "('fs, 'h, 'a, 'r) sub_fsal \<Rightarrow> ('db, 'fs, 'h, 'fattr) world \<Rightarrow> bool" where
  "hs_ok S w \<longleftrightarrow> cache_ok (txn_cache w) \<and>
     (\<forall>n h. heap w n = Some h \<longrightarrow> n < next_hdl w \<and> handle_ok S h)"


lemma hs_ok_updates [simp]:
  "hs_ok S (w\<lparr>fsal_export := x\<rparr>) = hs_ok S w"
  "hs_ok S (w\<lparr>fs := y\<rparr>) = hs_ok S w"
  "hs_ok S (w\<lparr>uuid_count := k\<rparr>) = hs_ok S w"
  "hs_ok S (w\<lparr>db := d\<rparr>) = hs_ok S w"
  "hs_ok S (w\<lparr>exp_root := r\<rparr>) = hs_ok S w"
  "hs_ok S (w\<lparr>bkproot := b\<rparr>) = hs_ok S w"
  "hs_ok S (w\<lparr>txn_bkp_folder := b\<rparr>) = hs_ok S w"
  by (simp_all add: hs_ok_def)


























lemma fs_onlyD:
  assumes "fs_only w w'"
  shows "hs_ok S w' = hs_ok S w" "fsal_export w' = fsal_export w"
proof -
  have e: "w' = w\<lparr>fs := fs w'\<rparr>" using assms by (simp add: fs_only_def)
  show "hs_ok S w' = hs_ok S w" using arg_cong [OF e, of "hs_ok S"] by simp
  show "fsal_export w' = fsal_export w" using arg_cong [OF e, of fsal_export] by simp
qed

lemmas fsal_lookup_keeps = fs_onlyD [OF fs_only_lookup]
lemmas fsal_create_keeps = fs_onlyD [OF fs_only_create]










lemmas handed_through_defs =
  compute_readdir_cookie_def dirent_cmp_def txnfs_setattr2_def txnfs_is_referral_def
  txnfs_check_verifier_def txnfs_status2_def txnfs_reopen2_def txnfs_seek2_def
  txnfs_io_advise2_def txnfs_commit2_def txnfs_lock_op2_def txnfs_close2_def txnfs_fallocate_def
  txnfs_list_ext_attrs_def txnfs_getextattr_id_by_name_def txnfs_getextattr_value_by_name_def
  txnfs_getextattr_value_by_id_def txnfs_setextattr_value_def txnfs_setextattr_value_by_id_def
  txnfs_remove_extattr_by_id_def txnfs_remove_extattr_by_name_def txnfs_copy_def txnfs_clone_def
  txnfs_clone2_def readsymlink_def linkfile_def renamefile_def getattrs_def txnfs_close_def

lemmas export_query_defs =
  fs_maxfilesize_def fs_maxread_def fs_maxwrite_def fs_maxlink_def fs_maxnamelen_def
  fs_maxpathlen_def fs_acl_support_def fs_supported_attrs_def fs_umask_def get_quota_def
  set_quota_def txnfs_free_state_def txnfs_is_superuser_def txnfs_prepare_unexport_def








section \<open>The FSAL below is entered in its own export only\<close>

text \<open>Two environments that differ in what the FSAL below does when it is called outside of its export.\<close>
definition agree_below ::
  "('db, 'fs, 'h, 'a, 'r, 'fattr) env \<Rightarrow> ('db, 'fs, 'h, 'a, 'r, 'fattr) env \<Rightarrow> bool"
where
  "agree_below E F \<longleftrightarrow> (let S = e_sub E; T = e_sub F in
     e_db F = e_db E \<and> e_uuid F = e_uuid E \<and> e_fullpath F = e_fullpath E \<and> e_uid F = e_uid E \<and>
     e_gid F = e_gid E \<and> s_type T = s_type S \<and> s_fileid T = s_fileid S \<and>
     (\<forall>h. s_handle_to_key T h SubExport = s_handle_to_key S h SubExport) \<and>
     (\<forall>h n. s_lookup T h n SubExport = s_lookup S h n SubExport) \<and>
     (\<forall>h n av. s_mkdir T h n av SubExport = s_mkdir S h n av SubExport) \<and>
     (\<forall>h n ty av. s_mknode T h n ty av SubExport = s_mknode S h n ty av SubExport) \<and>
     (\<forall>h n n2 av. s_symlink T h n n2 av SubExport = s_symlink S h n n2 av SubExport) \<and>
     (\<forall>h a m nm. s_open2 T h a m nm SubExport = s_open2 S h a m nm SubExport) \<and>
     (\<forall>h b. s_readlink T h b SubExport = s_readlink S h b SubExport) \<and>
     (\<forall>h h2 n. s_link T h h2 n SubExport = s_link S h h2 n SubExport) \<and>
     (\<forall>h x. s_readdir T h x SubExport = s_readdir S h x SubExport) \<and>
     (\<forall>h h2 n h3 n2. s_rename T h h2 n h3 n2 SubExport = s_rename S h h2 n h3 n2 SubExport) \<and>
     (\<forall>h. s_getattrs T h SubExport = s_getattrs S h SubExport) \<and>
     (\<forall>h h2 n. s_unlink T h h2 n SubExport = s_unlink S h h2 n SubExport) \<and>
     (\<forall>h. s_close T h SubExport = s_close S h SubExport) \<and>
     (\<forall>h. s_release T h SubExport = s_release S h SubExport) \<and>
     (\<forall>h. s_test_access T h SubExport = s_test_access S h SubExport) \<and>
     (\<forall>p a hs. s_pass T p a hs SubExport = s_pass S p a hs SubExport) \<and>
     (\<forall>n. s_lookup_path T n SubExport = s_lookup_path S n SubExport) \<and>
     (\<forall>n. s_create_handle T n SubExport = s_create_handle S n SubExport) \<and>
     (\<forall>h n av. e_fsal_open2 F h n av SubExport = e_fsal_open2 E h n av SubExport) \<and>
     (\<forall>h. e_fsal_lookupp F h SubExport = e_fsal_lookupp E h SubExport))"

lemma agree_belowD:
  assumes "agree_below E F"
  shows "e_db F = e_db E" "e_uuid F = e_uuid E" "e_fullpath F = e_fullpath E" "e_uid F = e_uid E" "e_gid F = e_gid E"
    "s_type (e_sub F) = s_type (e_sub E)" "s_fileid (e_sub F) = s_fileid (e_sub E)"
    "s_handle_to_key (e_sub F) h SubExport = s_handle_to_key (e_sub E) h SubExport"
    "s_lookup (e_sub F) h n SubExport = s_lookup (e_sub E) h n SubExport"
    "s_mkdir (e_sub F) h n av SubExport = s_mkdir (e_sub E) h n av SubExport"
    "s_mknode (e_sub F) h n ty av SubExport = s_mknode (e_sub E) h n ty av SubExport"
    "s_symlink (e_sub F) h n n2 av SubExport = s_symlink (e_sub E) h n n2 av SubExport"
    "s_open2 (e_sub F) h a m nm SubExport = s_open2 (e_sub E) h a m nm SubExport"
    "s_readlink (e_sub F) h b SubExport = s_readlink (e_sub E) h b SubExport"
    "s_link (e_sub F) h h2 n SubExport = s_link (e_sub E) h h2 n SubExport"
    "s_readdir (e_sub F) h x SubExport = s_readdir (e_sub E) h x SubExport"
    "s_rename (e_sub F) h h2 n h3 n2 SubExport = s_rename (e_sub E) h h2 n h3 n2 SubExport"
    "s_getattrs (e_sub F) h SubExport = s_getattrs (e_sub E) h SubExport"
    "s_unlink (e_sub F) h h2 n SubExport = s_unlink (e_sub E) h h2 n SubExport"
    "s_close (e_sub F) h SubExport = s_close (e_sub E) h SubExport"
    "s_release (e_sub F) h SubExport = s_release (e_sub E) h SubExport"
    "s_test_access (e_sub F) h SubExport = s_test_access (e_sub E) h SubExport"
    "s_pass (e_sub F) p a hs SubExport = s_pass (e_sub E) p a hs SubExport"
    "s_lookup_path (e_sub F) n SubExport = s_lookup_path (e_sub E) n SubExport"
    "s_create_handle (e_sub F) n SubExport = s_create_handle (e_sub E) n SubExport"
    "e_fsal_open2 F h n av SubExport = e_fsal_open2 E h n av SubExport"
    "e_fsal_lookupp F h SubExport = e_fsal_lookupp E h SubExport"
  using assms by (simp_all add: agree_below_def Let_def)

lemma bind_enter_sub:
  "Option.bind (enter_sub w) f =
     (if fsal_export w = TxnExport then f (w\<lparr>fsal_export := SubExport\<rparr>) else None)"
  by (simp add: enter_sub_def)

lemma sub_call_cong: "g SubExport = f SubExport \<Longrightarrow> fsal_export w = SubExport \<Longrightarrow> sub_call g w = sub_call f w"
  by (simp add: sub_call_def)

lemma uuid_agrees:
  assumes "agree_below E F"
  shows "insert_new_uuid F = insert_new_uuid E" "handle_uuid F = handle_uuid E"
    "txnfs_alloc_handle (e_sub F) = txnfs_alloc_handle (e_sub E)"
proof -
  show i: "insert_new_uuid F = insert_new_uuid E"
    by (intro ext) (simp add: insert_new_uuid_def agree_belowD [OF assms])
  show "handle_uuid F = handle_uuid E"
    by (intro ext) (simp add: handle_uuid_def i agree_belowD [OF assms])
  show "txnfs_alloc_handle (e_sub F) = txnfs_alloc_handle (e_sub E)"
    by (intro ext) (simp add: txnfs_alloc_handle_def agree_belowD [OF assms])
qed

lemma alloc_agrees:
  assumes "agree_below E F"
  shows "txnfs_alloc_and_check_handle F = txnfs_alloc_and_check_handle E"
  by (intro ext) (simp add: txnfs_alloc_and_check_handle_def sub_call_beta uuid_agrees [OF assms] agree_belowD [OF assms])

lemma with_subs_agrees:
  assumes "\<And>hs. g hs SubExport = f hs SubExport"
  shows "with_subs g ns = with_subs f ns"
  by (intro ext) (simp add: with_subs_def bind_enter_sub sub_call_beta assms cong: if_cong)

lemma export_pass_agrees:
  assumes "agree_below E F"
  shows "export_pass slot (e_sub F) = export_pass slot (e_sub E)"
  by (intro ext) (simp add: export_pass_def sub_call_beta agree_belowD [OF assms])

lemma wrap_child_agrees:
  assumes "agree_below E F" "\<And>h. g h SubExport = f h SubExport"
  shows "wrap_child F n name g c = wrap_child E n name f c"
  by (intro ext) (simp add: wrap_child_def bind_enter_sub sub_call_beta assms(2) alloc_agrees [OF assms(1)] cong: if_cong)

lemma handle_ops_agree:
  assumes "agree_below E F"
  shows "release (e_sub F) = release (e_sub E)" "txnfs_open2 F = txnfs_open2 E"
    "txnfs_lookup_path F = txnfs_lookup_path E"
    "txnfs_read2 (e_sub F) = txnfs_read2 (e_sub E)" "txnfs_write2 (e_sub F) = txnfs_write2 (e_sub E)"
  by (intro ext, simp add: release_def txnfs_open2_def txnfs_lookup_path_def txnfs_read2_def txnfs_write2_def
      bind_enter_sub sub_call_beta case_prod_beta alloc_agrees [OF assms] agree_belowD [OF assms]
      cong: if_cong option.case_cong)+


lemma get_txn_root_agrees:
  assumes "agree_below E F"
  shows "get_txn_root F = get_txn_root E"
  by (intro ext) (simp add: get_txn_root_def handle_ops_agree [OF assms] agree_belowD [OF assms] cong: option.case_cong)

lemma create_handle_agrees:
  assumes "agree_below E F"
  shows "txnfs_create_handle F = txnfs_create_handle E"
  by (intro ext) (simp add: txnfs_create_handle_def get_txn_root_agrees [OF assms] alloc_agrees [OF assms]
      sub_call_beta agree_belowD [OF assms] cong: if_cong option.case_cong)

lemma read_dirents_agrees:
  assumes "agree_below E F"
  shows "read_dirents F cb n x d = read_dirents E cb n x d"
proof -
  have "readdir_entries F cb pp es e w = readdir_entries E cb pp es e w" for pp es e w
    by (induction es arbitrary: e w)
      (auto simp: txnfs_readdir_cb_def alloc_agrees [OF assms] cong: if_cong)
  then show ?thesis
    by (intro ext) (simp add: read_dirents_def bind_enter_sub sub_call_beta agree_belowD [OF assms] cong: if_cong)
qed

lemma common_helpers_agree:
  fixes w :: "('db, 'fs, 'h, 'fattr) world"
  assumes "agree_below E F" "fsal_export w = SubExport"
  shows "fsal_lookup F p n w = fsal_lookup E p n w"
    "create_by_type F p n ty av l w = create_by_type E p n ty av l w"
  by (simp_all add: fsal_lookup_def create_by_type_def fsal_close_def sub_call_beta Let_def assms(2)
      agree_belowD [OF assms(1)] cong: if_cong option.case_cong)

lemma fsal_create_agrees:
  fixes w :: "('db, 'fs, 'h, 'fattr) world"
  assumes "agree_below E F" "fsal_export w = SubExport"
  shows "fsal_create F p n ty av l w = fsal_create E p n ty av l w"
proof -
  let ?a = "strip_own (e_uid E) (e_gid E) av"
  obtain r w1 where c: "create_by_type E p n ty ?a l w = (r, w1)" by fastforce
  have "fsal_export w1 = SubExport"
    using fs_onlyD(2) [OF fs_only_create_by_type [of w E p n ty ?a l]] c assms(2) by simp
  then have l: "fsal_lookup F p n w1 = fsal_lookup E p n w1" by (rule common_helpers_agree(1) [OF assms(1)])
  show ?thesis
    by (simp add: fsal_create_def agree_belowD [OF assms(1)] common_helpers_agree(2) [OF assms] c l
        cong: if_cong option.case_cong)
qed

lemma backup_queries_agree:
  assumes "agree_below E F" "fsal_export w = SubExport"
  shows "query_backup_root F r w = query_backup_root E r w"
    "query_txn_backup F h t w = query_txn_backup E h t w"
  by (simp_all add: query_backup_root_def query_txn_backup_def common_helpers_agree [OF assms(1)] assms(2)
      cong: option.case_cong)

lemma backup_queries_export:
  "query_backup_root E r w = Some (b, w') \<Longrightarrow> fsal_export w' = fsal_export w"
  "query_txn_backup E h t w = Some (b, w') \<Longrightarrow> fsal_export w' = fsal_export w"
  by (auto simp: query_backup_root_def query_txn_backup_def op_simps case_prod_beta fsal_lookup_keeps
      split: option.splits if_splits)

lemma backup_dirs_export:
  "backup_root_dir E r w = Some (x, w') \<Longrightarrow> fsal_export w' = fsal_export w"
  "txn_backup_dir E st h t w = Some (x, w') \<Longrightarrow> fsal_export w' = fsal_export w"
  by (auto simp: backup_root_dir_def txn_backup_dir_def op_simps case_prod_beta fsal_create_keeps
      split: option.splits if_splits dest: backup_queries_export)

lemma backup_dirs_agree:
  assumes "agree_below E F" "fsal_export w = SubExport"
  shows "backup_root_dir F r w = backup_root_dir E r w"
    "txn_backup_dir F st h t w = txn_backup_dir E st h t w"
proof -
  show "backup_root_dir F r w = backup_root_dir E r w"
  proof (cases "query_backup_root E r w")
    case (Some x)
    then have "fsal_export (snd x) = SubExport" using backup_queries_export(1) [of E r w "fst x" "snd x"] assms(2) by simp
    then show ?thesis using Some
      by (cases x) (simp add: backup_root_dir_def backup_queries_agree [OF assms] fsal_create_agrees [OF assms(1)]
          cong: option.case_cong)
  qed (simp add: backup_root_dir_def backup_queries_agree [OF assms])
  show "txn_backup_dir F st h t w = txn_backup_dir E st h t w"
  proof (cases "query_txn_backup E h t w")
    case (Some x)
    then have "fsal_export (snd x) = SubExport" using backup_queries_export(2) [of E h t w "fst x" "snd x"] assms(2) by simp
    then show ?thesis using Some
      by (cases x) (simp add: txn_backup_dir_def backup_queries_agree [OF assms] fsal_create_agrees [OF assms(1)]
          cong: option.case_cong)
  qed (simp add: txn_backup_dir_def backup_queries_agree [OF assms])
qed

lemma backup_dir_agrees:
  assumes "agree_below E F"
  shows "txnfs_create_or_lookup_backup_dir F = txnfs_create_or_lookup_backup_dir E"
proof
  fix w :: "('a, 'b, 'c, 'f) world"
  have t: "Option.bind (backup_root_dir E r u) (\<lambda>((st, h), v). Option.bind (txn_backup_dir F st h t v) f) =
      Option.bind (backup_root_dir E r u) (\<lambda>((st, h), v). Option.bind (txn_backup_dir E st h t v) f)"
    if "fsal_export u = SubExport" for r t f u
    using that by (intro Option.bind_cong) (auto simp: backup_dirs_agree [OF assms] dest: backup_dirs_export)
  show "txnfs_create_or_lookup_backup_dir F w = txnfs_create_or_lookup_backup_dir E w"
    by (simp add: txnfs_create_or_lookup_backup_dir_def get_txn_root_agrees [OF assms] bind_enter_sub
        backup_dirs_agree(1) [OF assms] t Let_def cong: if_cong)
qed

lemma remove_entry_agrees:
  assumes "agree_below E F" "fsal_export w = SubExport"
  shows "remove_entry (e_sub F) b d x name w = remove_entry (e_sub E) b d x name w"
  by (auto simp: remove_entry_def mark_nonempty_def sub_call_beta assms(2) agree_belowD [OF assms(1)]
      split: prod.splits list.splits)

lemma file_unlink_agrees:
  assumes "agree_below E F"
  shows "file_unlink F = file_unlink E"
  by (intro ext) (simp add: file_unlink_def bind_enter_sub backup_dir_agrees [OF assms] remove_entry_agrees [OF assms]
      agree_belowD [OF assms] cong: if_cong)

lemma handed_through_agree:
  assumes "agree_below E F"
  shows "obj_method (e_sub F) slot n a w = obj_method (e_sub E) slot n a w"
    "export_method (e_sub F) slot a w = export_method (e_sub E) slot a w"
proof -
  have p: "with_subs (s_pass (e_sub F) p a) ns = with_subs (s_pass (e_sub E) p a) ns" for p ns
    by (rule with_subs_agrees) (rule agree_belowD [OF assms])
  show "obj_method (e_sub F) slot n a w = obj_method (e_sub E) slot n a w"
    by (cases slot) (simp_all add: obj_method_def handed_through_defs p)
  show "export_method (e_sub F) slot a w = export_method (e_sub E) slot a w"
    by (cases slot) (simp_all add: export_method_def export_query_defs export_pass_agrees [OF assms])
qed

lemma obj_ops_agree:
  assumes "agree_below E F"
  shows "lookup F n x = lookup E n x" "makedir F n x av = makedir E n x av"
    "makenode F n x ty av = makenode E n x ty av" "makesymlink F n x y av = makesymlink E n x y av"
    "readsymlink (e_sub F) n b = readsymlink (e_sub E) n b" "getattrs (e_sub F) n = getattrs (e_sub E) n"
    "linkfile (e_sub F) n m x = linkfile (e_sub E) n m x"
    "renamefile (e_sub F) n m x m' y = renamefile (e_sub E) n m x m' y"
    "txnfs_close (e_sub F) n = txnfs_close (e_sub E) n" "txnfs_copy (e_sub F) n m a = txnfs_copy (e_sub E) n m a"
    "txnfs_clone (e_sub F) n m a = txnfs_clone (e_sub E) n m a"
    "txnfs_clone2 (e_sub F) n m a = txnfs_clone2 (e_sub E) n m a"
  by (auto simp: lookup_def makedir_def makenode_def makesymlink_def handed_through_defs agree_belowD [OF assms]
      intro!: wrap_child_agrees [OF assms] with_subs_agrees)

lemma fsal_step_agrees:
  assumes "agree_below E F"
  shows "fsal_step F cb dcb d c w = fsal_step E cb dcb d c w"
  by (cases c) (simp_all add: fsal_step_def Let_def obj_ops_agree [OF assms] handed_through_agree [OF assms]
      handle_ops_agree [OF assms] read_dirents_agrees [OF assms] file_unlink_agrees [OF assms]
      create_handle_agrees [OF assms] get_dynamic_info_def fs_supports_def txnfs_alloc_state_def
      export_pass_agrees [OF assms])

lemma fsal_run_agrees:
  assumes "agree_below E F"
  shows "fsal_run F cb dcb d cs = fsal_run E cb dcb d cs"
  by (induction cs) (intro ext, simp add: fsal_step_agrees [OF assms])+

section \<open>Properties\<close>



definition demo_calls :: "(nat \<times> bytes) fsal_call list" where
  "demo_calls = [C_lookup_path ''/export'', C_mkdir 0 ''d'' no_attrs, C_lookup 0 ''d'',
     C_release 2, C_write2 1 (0, ''hi''), C_export P_fs_umask (0, [])]"

lemma demo_run:
  "case fsal_run mem_env (\<lambda>r w. Some ((), w)) (\<lambda>name n attrs d cookie. (DIR_CONTINUE, d)) () demo_calls mem_world
     of None \<Rightarrow> False | Some w \<Rightarrow> map_option th_path (heap w 1) = Some ''/export/d'' \<and> m_ents (fs w) = [((0, ''d''), (1, DIRECTORY))]"
  by code_simp



text \<open>C17. The FSAL below is entered in its own export only: two file systems below that agree when they
  are called with their own export as the current one cannot be told apart through the method tables,
  whatever they do otherwise.\<close>
theorem below_entered_in_own_export:
  assumes "agree_below E F"
  shows "fsal_run F cb dir_cb d cs w = fsal_run E cb dir_cb d cs w"
  by (rule fun_cong [OF fsal_run_agrees [OF assms]])

text \<open>A file system whose lookup fails outside of its export.\<close>
definition strict_env :: "(bytes \<rightharpoonup> bytes, memfs, memh, nat \<times> bytes, unit, attrlist option) env" where
  "strict_env = mem_env\<lparr>e_sub := mem_fsal\<lparr>s_lookup := (\<lambda>d n x f.
     if x = SubExport then mem_lookup d n x f else ((ERR_FSAL_FAULT, None, no_attrs), f))\<rparr>\<rparr>"

theorem below_entered_in_own_export_witness:
  "agree_below mem_env strict_env \<and>
   fst (s_lookup (e_sub strict_env) (0, DIRECTORY) ''d'' TxnExport (fs mem_world)) \<noteq>
     fst (s_lookup (e_sub mem_env) (0, DIRECTORY) ''d'' TxnExport (fs mem_world)) \<and>
   (\<exists>w'. fsal_run strict_env (\<lambda>r w. Some ((), w)) (\<lambda>name n attrs d cookie. (DIR_CONTINUE, d)) () demo_calls mem_world
      = Some w' \<and> map_option th_path (heap w' 1) = Some ''/export/d'')"
proof -
  have a: "agree_below mem_env strict_env"
    by (simp add: agree_below_def Let_def strict_env_def mem_env_def mem_fsal_def)
  have "fst (s_lookup (e_sub strict_env) (0, DIRECTORY) ''d'' TxnExport (fs mem_world)) \<noteq>
     fst (s_lookup (e_sub mem_env) (0, DIRECTORY) ''d'' TxnExport (fs mem_world))"
    by (simp add: strict_env_def mem_env_def mem_fsal_def mem_lookup_def mem_world_def)
  moreover have "\<exists>w'. fsal_run strict_env (\<lambda>r w. Some ((), w)) (\<lambda>name n attrs d cookie. (DIR_CONTINUE, d)) () demo_calls mem_world
      = Some w' \<and> map_option th_path (heap w' 1) = Some ''/export/d''"
    unfolding below_entered_in_own_export [OF a] using demo_run by (auto split: option.splits)
  ultimately show ?thesis using a by blast
qed

end
