(* ===== verification/Txn_Recovery.thy ===== *)
theory Txn_Recovery
  imports Txn_Ops
begin

text \<open>
  What the end of a compound does to the database, to the locks and to the handles: the frame
  conditions of \<open>Txn_Frame\<close> on the rollback, and the properties of \<open>txnfs_end_compound\<close>
  (\<open>FSAL_TXN/export.c\<close>) and \<open>do_txn_rollback\<close> (\<open>FSAL_TXN/undo.c\<close>).
\<close>

section \<open>The database during a rollback\<close>

text \<open>A step of a compound whose cache is open: it leaves the database, the root of the export and the
  transaction alone.\<close>
definition quiet :: "('db, 'fs, 'h, 'fattr) world \<Rightarrow> ('db, 'fs, 'h, 'fattr) world \<Rightarrow> bool" where
  "quiet w w' \<longleftrightarrow>
     (txn_cache w \<noteq> None \<longrightarrow> txn_cache w' \<noteq> None \<and> db w' = db w) \<and>
     (exp_root w \<noteq> None \<longrightarrow> exp_root w' = exp_root w) \<and>
     op_args w' = op_args w \<and> txnid w' = txnid w \<and> lm_paths w' = lm_paths w \<and>
     lock_handle w' = lock_handle w \<and> cqueue w' = cqueue w \<and> worker_up w' = worker_up w"

lemma cache_insert_quiet: "acts quiet (txnfs_cache_insert t h u p)"
  by (rule actsI) (auto simp: txnfs_cache_insert_def abort_simps Let_def quiet_def split: if_splits)

lemma db_insert_quiet: "acts quiet (txnfs_db_insert_handle L h u p)"
  by (rule actsI) (auto simp: txnfs_db_insert_handle_def quiet_def split: if_splits prod.splits
      dest: actsD [OF cache_insert_quiet])

lemma db_delete_quiet: "acts quiet (txnfs_db_delete_uuid L u)"
  by (rule actsI) (auto simp: txnfs_db_delete_uuid_def txnfs_cache_delete_uuid_def Let_def quiet_def
      split: if_splits prod.splits sum.splits option.splits dest: actsD [OF cache_insert_quiet])

interpretation qt: txn_steps quiet
  by unfold_locales (simp_all add: quiet_def db_insert_quiet db_delete_quiet)

text \<open>The removal of backups with the root of the export known.\<close>
definition same_db :: "('db, 'fs, 'h, 'fattr) world \<Rightarrow> ('db, 'fs, 'h, 'fattr) world \<Rightarrow> bool" where
  "same_db w w' \<longleftrightarrow> db w' = db w \<and> txn_cache w' = txn_cache w \<and> lm_paths w' = lm_paths w \<and>
     exp_root w' = exp_root w"

interpretation sd: dir_steps same_db
  by unfold_locales (simp_all add: same_db_def)

lemma same_db_queue: "same_db (w\<lparr>cqueue := q\<rparr>) w' \<longleftrightarrow> same_db w w'"
  by (simp add: same_db_def)

lemma submit_cleanup_same_db:
  assumes "submit_cleanup_task E sp t b w = Some (r, w')" "exp_root w \<noteq> None"
  shows "same_db w w'"
proof -
  have c: "same_db v w'" if "txnfs_cleanup_backup E t h v = Some (u, w')" "exp_root v \<noteq> None" for h u v
    using sd.cleaned_up_rooted [OF that] .
  show ?thesis using assms(1)
    by (auto simp: submit_cleanup_task_def Let_def split: if_splits option.splits prod.splits
        intro: sd.R_refl c [OF _ assms(2)] dest!: c simp: assms(2) same_db_queue) (simp add: same_db_def)
qed

lemma end_release_frame:
  assumes "end_release E w = Some (ret, w1)"
  shows "db w1 = db w \<and> txn_cache w1 = txn_cache w \<and> op_args w1 = op_args w \<and> txnid w1 = txnid w \<and>
    exp_root w1 = exp_root w \<and> (\<exists>lh. lock_handle w = Some lh \<and> lm_paths w1 = unlock lh (lm_paths w))"
  using assms by (auto simp: end_release_def sub_call_beta abort_simps Let_def split: option.splits)

section \<open>The end of a compound\<close>

lemma entries_batch_ok: "entries_batch es = Some bs \<Longrightarrow> list_all entry_ok es"
  by (induction es arbitrary: bs) (auto simp: entry_batch_def entry_ok_def abort_simps split: if_splits)

lemma committed_index:
  assumes "leveldb_ok L view" "txn_cache w = Some c" "txnfs_cache_commit L w = Some (r, w')"
  shows "\<exists>d. w' = w\<lparr>db := d\<rparr> \<and>
    (if r = 0 then index_of (view d) = fold index_entry (cache_entries c) (index_of (view (db w)))
     else view d = view (db w))"
proof -
  have "list_all entry_ok (cache_entries c)"
    using assms(2,3) by (auto simp: txnfs_cache_commit_def abort_simps dest: entries_batch_ok split: if_splits)
  from cache_commit_spec [OF assms(1,2) this] assms(3) show ?thesis by auto
qed

lemma settle_tail:
  assumes "(do { w \<leftarrow> txnfs_cache_cleanup w; (err, w) \<leftarrow> submit_cleanup_task E sp (txnid w) (txn_bkp_folder w) w;
             Some ((), w\<lparr>txn_bkp_folder := None\<rparr>) }) = Some (u, w')"
    and "exp_root w \<noteq> None"
  shows "db w' = db w \<and> txn_cache w' = None \<and> lm_paths w' = lm_paths w"
proof -
  obtain w1 e w2 where s: "txnfs_cache_cleanup w = Some w1"
      "submit_cleanup_task E sp (txnid w1) (txn_bkp_folder w1) w1 = Some (e, w2)"
      "w' = w2\<lparr>txn_bkp_folder := None\<rparr>"
    using assms(1) by (auto simp: abort_simps)
  have w1: "w1 = w\<lparr>txn_cache := None\<rparr>" using s(1) by (simp add: txnfs_cache_cleanup_def abort_simps split: if_splits)
  with submit_cleanup_same_db [OF s(2)] s(3) assms(2) show ?thesis by (simp add: same_db_def)
qed

lemma failed_settle:
  assumes "end_settle E sp res w = Some (u, w')" "comp_status res \<noteq> NFS4_OK"
    and "op_args w \<noteq> None" "txn_cache w \<noteq> None" "exp_root w \<noteq> None"
  shows "db w' = db w \<and> txn_cache w' = None \<and> lm_paths w' = lm_paths w"
proof -
  obtain w1 where s: "(if txnid w > 0 then map_option snd (txnfs_compound_restore E (txnid w) res w) else Some w) = Some w1"
      "(do { w \<leftarrow> txnfs_cache_cleanup w1; (err, w) \<leftarrow> submit_cleanup_task E sp (txnid w) (txn_bkp_folder w) w;
             Some ((), w\<lparr>txn_bkp_folder := None\<rparr>) }) = Some (u, w')"
    using assms(1-3) by (auto simp: end_settle_def abort_simps)
  have "quiet w w1" using s(1) actsD [OF qt.rolled_back(2)]
    by (auto split: if_splits simp: qt.R_refl) 
  then have "db w1 = db w" "exp_root w1 = exp_root w" "lm_paths w1 = lm_paths w"
    using assms(4,5) by (auto simp: quiet_def)
  with settle_tail [OF s(2)] assms(5) show ?thesis by simp
qed

lemma committed_settle:
  assumes "end_settle E sp res w = Some (u, w')" "comp_status res = NFS4_OK"
    and "op_args w \<noteq> None" "exp_root w \<noteq> None"
  shows "\<exists>r w1. txnfs_cache_commit (e_db E) w = Some (r, w1) \<and>
    db w' = db w1 \<and> txn_cache w' = None \<and> lm_paths w' = lm_paths w"
proof -
  obtain r w1 where s: "txnfs_cache_commit (e_db E) w = Some (r, w1)"
      "(do { w \<leftarrow> txnfs_cache_cleanup w1; (err, w) \<leftarrow> submit_cleanup_task E sp (txnid w) (txn_bkp_folder w) w;
             Some ((), w\<lparr>txn_bkp_folder := None\<rparr>) }) = Some (u, w')"
    using assms(1-3) by (auto simp: end_settle_def abort_simps)
  have "exp_root w1 = exp_root w" "lm_paths w1 = lm_paths w"
    using s(1) by (auto simp: txnfs_cache_commit_def abort_simps Let_def split: if_splits prod.splits)
  with settle_tail [OF s(2)] s(1) assms(4) show ?thesis by auto
qed

text \<open>C2. The end of a compound is all or nothing on the database: a compound that failed leaves it as it
  was, whatever its operations had put in the cache.  After one that succeeded either every cached change
  is applied, in order, or none is: which of the two is the result of the commit, which is zero on a
  database that takes its writes, and which the answer of \<open>txnfs_end_compound\<close> does not depend on.  In
  every case the cache is gone and the locks of the compound are released.\<close>
theorem end_compound_all_or_nothing:
  assumes "leveldb_ok (e_db E) view" "txnfs_end_compound E sp res w = Some (ret, w')"
    and "op_args w \<noteq> None" "txn_cache w = Some c" "exp_root w \<noteq> None"
  shows "(comp_status res \<noteq> NFS4_OK \<longrightarrow> db w' = db w) \<and>
    (comp_status res = NFS4_OK \<longrightarrow>
       (\<exists>w1 r w2. end_release E w = Some (ret, w1) \<and> txnfs_cache_commit (e_db E) w1 = Some (r, w2) \<and>
          (never_fails (e_db E) \<longrightarrow> r = 0) \<and>
          (if r = 0
           then index_of (view (db w')) = fold index_entry (cache_entries c) (index_of (view (db w)))
           else view (db w') = view (db w)))) \<and>
    txn_cache w' = None \<and> (\<exists>lh. lock_handle w = Some lh \<and> lm_paths w' = unlock lh (lm_paths w))"
proof -
  obtain w1 u where s: "end_release E w = Some (ret, w1)" "end_settle E sp res w1 = Some (u, w')"
    using assms(2) by (auto simp: txnfs_end_compound_def abort_simps)
  note f = end_release_frame [OF s(1)]
  show ?thesis
  proof (cases "comp_status res = NFS4_OK")
    case False
    with failed_settle [OF s(2)] f assms(3-5) show ?thesis by auto
  next
    case True
    obtain r w2 where c: "txnfs_cache_commit (e_db E) w1 = Some (r, w2)" "db w' = db w2"
        "txn_cache w' = None" "lm_paths w' = lm_paths w1"
      using committed_settle [OF s(2) True] f assms(3,5) by auto
    have "r = 0" if "never_fails (e_db E)" using commit_never_fails [OF that c(1)] .
    moreover have "if r = 0 then index_of (view (db w')) = fold index_entry (cache_entries c) (index_of (view (db w)))
        else view (db w') = view (db w)"
      using committed_index [OF assms(1) _ c(1), of c] c(2) f assms(4) by (auto split: if_splits)
    ultimately show ?thesis using s(1) c(1,3,4) f True by auto
  qed
qed

section \<open>When the locks go\<close>

lemma acquired_then_unlocked:
  assumes "lm_ok m" "lock_acquire files [m] = Some (Some (Some lh, Some m'))"
  shows "unlock lh m' = m"
proof -
  obtain cs where cs: "clean_paths [] files = Some cs" "try_lock_clean_paths m cs = Some (Some lh, m')"
    using assms(2) by (auto simp: lock_acquire_def split: option.splits prod.splits)
  have "distinct (map fst cs)"
    using clean_paths_set [OF cs(1)] by (simp add: strict_sorted_iff)
  from try_lock_unlock [OF assms(1) this] cs(2) show ?thesis by auto
qed

section \<open>A compound that creates a directory\<close>

definition demo_open :: "(bytes \<rightharpoonup> bytes, memfs, memh, attrlist option) world option" where
  "demo_open = do {
     w \<leftarrow> txnfs_cache_init 2 (mem_world\<lparr>txnid := 1\<rparr>);
     (root, w) \<leftarrow> get_txn_root mem_env w;
     (res, w) \<leftarrow> makedir mem_env root ''d'' no_attrs w;
     Some (w\<lparr>op_args := Some [ARG_PUTROOTFH, ARG_CREATE ''d''], lock_handle := Some []\<rparr>) }"

definition demo_failed :: compound4res where
  "demo_failed = \<lparr>comp_status = 2, resarray = [\<lparr>resop = NFS4_OP_PUTROOTFH, res_status = NFS4_OK, res_u = RES_NONE\<rparr>,
     \<lparr>resop = NFS4_OP_CREATE, res_status = NFS4_OK, res_u = RES_NONE\<rparr>]\<rparr>"

definition demo_ok :: compound4res where
  "demo_ok = \<lparr>comp_status = NFS4_OK, resarray = []\<rparr>"

text \<open>The same server on a database that refuses every batch.\<close>
definition full_env :: "(bytes \<rightharpoonup> bytes, memfs, memh, nat \<times> bytes, unit, attrlist option) env" where
  "full_env = mem_env\<lparr>e_db := map_db\<lparr>leveldb_write := (\<lambda>d b. (Some ''full'', d))\<rparr>\<rparr>"

lemma demo_runs:
  "case demo_open of None \<Rightarrow> False | Some w \<Rightarrow>
     op_args w \<noteq> None \<and> map_option (map ent_type \<circ> cache_entries) (txn_cache w) = Some [txnfs_cache_entry_create, txnfs_cache_entry_create] \<and>
     exp_root w \<noteq> None \<and> m_ents (fs w) = [((0, ''d''), (1, DIRECTORY))] \<and>
     (case txnfs_end_compound mem_env 0 demo_failed w of None \<Rightarrow> False | Some (ret, w') \<Rightarrow> m_ents (fs w') = []) \<and>
     txnfs_end_compound mem_env 0 demo_ok w \<noteq> None \<and>
     (case txnfs_end_compound full_env 0 demo_ok w of None \<Rightarrow> False | Some (ret, w') \<Rightarrow>
        ret = ERR_FSAL_NO_ERROR \<and> (case end_release full_env w of None \<Rightarrow> False | Some (u, w1) \<Rightarrow>
        map_option fst (txnfs_cache_commit (e_db full_env) w1) = Some (- 1)))"
  by code_simp

theorem end_compound_all_or_nothing_witness:
  "\<exists>w c. demo_open = Some w \<and> txn_cache w = Some c \<and> map ent_type (cache_entries c) = [txnfs_cache_entry_create, txnfs_cache_entry_create] \<and>
     (\<exists>ret w'. txnfs_end_compound mem_env 0 demo_failed w = Some (ret, w') \<and> db w' = db w \<and> txn_cache w' = None \<and>
        m_ents (fs w) = [((0, ''d''), (1, DIRECTORY))] \<and> m_ents (fs w') = []) \<and>
     (\<exists>ret w'. txnfs_end_compound mem_env 0 demo_ok w = Some (ret, w') \<and>
        index_of (db w') = fold index_entry (cache_entries c) (index_of (db w))) \<and>
     (\<exists>w'. txnfs_end_compound full_env 0 demo_ok w = Some (ERR_FSAL_NO_ERROR, w') \<and> db w' = db w)"
proof -
  obtain w c ret1 w1 ret2 w2 w3 v u where r: "demo_open = Some w" "op_args w \<noteq> None" "txn_cache w = Some c"
      "map ent_type (cache_entries c) = [txnfs_cache_entry_create, txnfs_cache_entry_create]" "exp_root w \<noteq> None"
      "m_ents (fs w) = [((0, ''d''), (1, DIRECTORY))]"
      "txnfs_end_compound mem_env 0 demo_failed w = Some (ret1, w1)" "m_ents (fs w1) = []"
      "txnfs_end_compound mem_env 0 demo_ok w = Some (ret2, w2)"
      "txnfs_end_compound full_env 0 demo_ok w = Some (ERR_FSAL_NO_ERROR, w3)"
      "end_release full_env w = Some (u, v)" "map_option fst (txnfs_cache_commit (e_db full_env) v) = Some (- 1)"
    using demo_runs by (auto split: option.splits)
  have l: "leveldb_ok (e_db mem_env) (\<lambda>d. d)" "leveldb_ok (e_db full_env) (\<lambda>d. d)" "never_fails (e_db mem_env)"
    by (simp_all add: mem_env_def full_env_def map_db_ok map_db_never_fails) (simp add: leveldb_ok_def map_db_def)
  note failed = end_compound_all_or_nothing [OF l(1) r(7,2,3,5)]
  note settled = end_compound_all_or_nothing [OF l(1) r(9,2,3,5)]
  note refused = end_compound_all_or_nothing [OF l(2) r(10,2,3,5)]
  have "db w1 = db w" "txn_cache w1 = None" using failed by (simp_all add: demo_failed_def)
  moreover have "index_of (db w2) = fold index_entry (cache_entries c) (index_of (db w))"
    using settled l(3) by (auto simp: demo_ok_def)
  moreover have "db w3 = db w" using refused r(11,12) by (auto simp: demo_ok_def split: if_splits)
  ultimately show ?thesis using r by (intro exI [of _ w] exI [of _ c]) simp
qed

lemma start_compound_locks:
  assumes "txnfs_start_compound E [m] args w = Some (Some r, w1)" "lock_handle w1 = Some lh"
  shows "\<exists>lrs. lock_acquire lrs [m] = Some (Some (Some lh, Some (lm_paths w1)))"
proof -
  have t: "table \<noteq> None" if "lock_acquire lrs [m] = Some (Some (Some lh, table))" for lrs lh table
    using that by (auto simp: lock_acquire_def split: option.splits)
  obtain w0 lrs locked where o: "lock_acquire lrs [m] = Some locked"
      "(case locked of None \<Rightarrow> Some (None, w0)
        | Some (lh, table) \<Rightarrow> do {
          c_assert (lrs \<noteq> [] \<longrightarrow> lh \<noteq> None);
          let w = w0\<lparr>lock_handle := lh, lm_paths := (case table of Some m \<Rightarrow> m | None \<Rightarrow> lm_paths w0),
                    op_args := Some args\<rparr>;
          (case s_start_compound (e_sub E) of
             None \<Rightarrow> Some (Some ERR_FSAL_NO_ERROR, w)
           | Some g \<Rightarrow>
               (case sub_call g (w\<lparr>fsal_export := SubExport\<rparr>) of
                  (res, w) \<Rightarrow> Some (Some res, w\<lparr>fsal_export := TxnExport\<rparr>))) }) = Some (Some r, w1)"
    using assms(1) unfolding txnfs_start_compound_def Let_def case_prod_beta
    by (simp only: bind_eq_Some_conv) blast
  obtain lh' table where p: "locked = Some (lh', table)" using o(2) by (cases locked) auto
  have "lock_handle w1 = lh'" "lm_paths w1 = (case table of Some m \<Rightarrow> m | None \<Rightarrow> lm_paths w0)"
    using o(2) unfolding p by (auto simp: abort_simps Let_def sub_call_beta split: option.splits if_splits)
  with t [of lrs lh table] o(1) p assms(2) show ?thesis by (auto split: option.splits)
qed

text \<open>C34. The locks of a compound are given back before its outcome is settled: after the first half of
  \<open>txnfs_end_compound\<close> the lock table is the one the compound found when it took its locks, although
  the cache has been neither committed nor discarded and the database is still the one before.\<close>
theorem locks_released_before_settlement:
  assumes "lm_ok m" "txnfs_start_compound E [m] args w = Some (Some r, w1)"
    and "lock_handle w2 = lock_handle w1" "lm_paths w2 = lm_paths w1"
    and "txnfs_end_compound E sp res w2 = Some (ret, w4)"
  shows "\<exists>w3. end_release E w2 = Some (ret, w3) \<and> lm_paths w3 = m \<and> db w3 = db w2 \<and>
    txn_cache w3 = txn_cache w2 \<and> end_settle E sp res w3 = Some ((), w4)"
proof -
  obtain w3 where s: "end_release E w2 = Some (ret, w3)" "end_settle E sp res w3 = Some ((), w4)"
    using assms(5) by (auto simp: txnfs_end_compound_def abort_simps)
  note f = end_release_frame [OF s(1)]
  obtain lh where lh: "lock_handle w1 = Some lh" "lm_paths w3 = unlock lh (lm_paths w1)"
    using f assms(3,4) by auto
  obtain lrs where l: "lock_acquire lrs [m] = Some (Some (Some lh, Some (lm_paths w1)))"
    using start_compound_locks [OF assms(2) lh(1)] by blast
  from acquired_then_unlocked [OF assms(1) l] lh(2) s f show ?thesis by auto
qed


lemma demo_start:
  "\<exists>m w1 r. lock_acquire [(''/export'', True)] [Map.empty] = Some (Some (Some [''/export''], Some m)) \<and>
     txnfs_start_compound mem_env [Map.empty] [ARG_PUTROOTFH, ARG_CREATE ''d''] mem_world = Some (Some r, w1) \<and>
     op_args w1 \<noteq> None \<and> (\<exists>c. txn_cache w1 = Some c \<and> cache_entries c = []) \<and> lock_handle w1 = Some [''/export''] \<and> lm_paths w1 = m \<and>
     m ''/export'' = Some \<lparr>write_lock = True, refcount = 1\<rparr> \<and> txnid w1 = 1 \<and> txn_bkp_folder w1 = None"
proof -
  have f: "find_relevant_handles (e_resolve_fh mem_env) (e_utf8 mem_env) (e_fullpath mem_env)
      [ARG_PUTROOTFH, ARG_CREATE ''d''] = Some [(''/export'', True)]" by code_simp
  have "case lock_acquire [(''/export'', True)] [Map.empty] of
      Some (Some (Some l, Some m)) \<Rightarrow> l = [''/export''] \<and> m ''/export'' = Some \<lparr>write_lock = True, refcount = 1\<rparr>
    | _ \<Rightarrow> False" by code_simp
  then obtain m where m: "lock_acquire [(''/export'', True)] [Map.empty] = Some (Some (Some [''/export''], Some m))"
      "m ''/export'' = Some \<lparr>write_lock = True, refcount = 1\<rparr>"
    by (auto split: option.splits)
  have c: "create_txn_log (e_db mem_env) (e_serialize mem_env) [ARG_PUTROOTFH, ARG_CREATE ''d''] mem_world =
      (1, mem_world\<lparr>next_txn_id := 2, db := [log_key 1 \<mapsto> dec 1]\<rparr>)"
    by (simp add: create_txn_log_def Let_def mem_env_def mem_world_def map_db_def)
  have s: "s_start_compound (e_sub mem_env) = None" by (simp add: mem_env_def mem_fsal_def)
  have w: "txn_cache mem_world = None" "txn_bkp_folder mem_world = None" by (simp_all add: mem_world_def)
  show ?thesis using m(2) by (simp add: txnfs_start_compound_def c f m(1) s txnfs_cache_init_def w)
qed

theorem locks_released_before_settlement_witness:
  "\<exists>w1 r ret w3 w4. txnfs_start_compound mem_env [Map.empty] [ARG_PUTROOTFH, ARG_CREATE ''d''] mem_world = Some (Some r, w1) \<and>
     lm_paths w1 ''/export'' = Some \<lparr>write_lock = True, refcount = 1\<rparr> \<and> txn_cache w1 \<noteq> None \<and>
     end_release mem_env w1 = Some (ret, w3) \<and> lm_paths w3 = Map.empty \<and> db w3 = db w1 \<and>
     txn_cache w3 = txn_cache w1 \<and> end_settle mem_env 0 demo_ok w3 = Some ((), w4)"
proof -
  obtain w1 r c where s: "txnfs_start_compound mem_env [Map.empty] [ARG_PUTROOTFH, ARG_CREATE ''d''] mem_world = Some (Some r, w1)"
      "op_args w1 \<noteq> None" "txn_cache w1 = Some c" "cache_entries c = []" "lock_handle w1 = Some [''/export'']"
      "lm_paths w1 ''/export'' = Some \<lparr>write_lock = True, refcount = 1\<rparr>" "txnid w1 = 1" "txn_bkp_folder w1 = None"
    using demo_start by auto
  have "s_end_compound (e_sub mem_env) = None" "e_db mem_env = map_db" by (simp_all add: mem_env_def mem_fsal_def)
  then have "\<exists>ret w4. txnfs_end_compound mem_env 0 demo_ok w1 = Some (ret, w4)"
    using s(2-8) by (simp add: txnfs_end_compound_def end_release_def end_settle_def demo_ok_def
        txnfs_cache_commit_def map_db_def txnfs_cache_cleanup_def submit_cleanup_task_def Let_def log_batch_def)
  then obtain ret w4 where e: "txnfs_end_compound mem_env 0 demo_ok w1 = Some (ret, w4)" by blast
  have "lm_ok Map.empty" by (simp add: lm_ok_def)
  from locks_released_before_settlement [OF this s(1) refl refl e] s e show ?thesis by auto
qed

end
