(* ===== verification/Txn_Restore.thy ===== *)
theory Txn_Restore
  imports Txn_Frame Example_Fs
begin

text \<open>
  Whether the backup taken before a WRITE gives the contents back: \<open>backup_data\<close> of \<open>txnfs_backup_file\<close>
  (\<open>FSAL_TXN/backup.c\<close>) against \<open>restore_file\<close> (\<open>FSAL_TXN/undo.c\<close>), on an FSAL below whose files are byte
  strings.
\<close>

section \<open>Byte strings\<close>

lemma length_put_at: "length (put_at old off new) = max (length old) (off + length new)"
  by (simp add: put_at_def)

lemma nth_put_at:
  assumes "i < length (put_at old off new)"
  shows "put_at old off new ! i =
    (if off \<le> i \<and> i < off + length new then new ! (i - off) else if i < length old then old ! i else CHR 0x00)"
  using assms by (auto simp: put_at_def nth_append min_def)

lemma length_set_size [simp]: "length (set_size old n) = n"
  by (simp add: set_size_def)

lemma nth_set_size:
  assumes "i < n"
  shows "set_size old n ! i = (if i < length old then old ! i else CHR 0x00)"
  using assms by (auto simp: set_size_def nth_append)

text \<open>What is in a file after \<open>restore_file\<close>, when its backup holds \<open>z\<close> bytes from \<open>s\<close> on.\<close>
definition restored :: "bytes \<Rightarrow> nat \<Rightarrow> nat \<Rightarrow> nat \<Rightarrow> nat \<Rightarrow> bytes \<Rightarrow> bytes" where
  "restored old off len s z new =
     (let new = (if z < len then set_size new (off + z) else new)
      in if z = 0 then new else put_at new s (take z (drop s old)))"

lemma restored_nth:
  assumes "s + z \<le> length old" "i < length (restored old off len s z new)"
  shows "restored old off len s z new ! i =
    (if s \<le> i \<and> i < s + z then old ! i
     else if i < length new \<and> (z < len \<longrightarrow> i < off + z) then new ! i else CHR 0x00)"
  using assms
  by (auto simp: restored_def Let_def nth_put_at nth_set_size length_put_at split: if_splits)

lemma length_restored:
  assumes "s + z \<le> length old"
  shows "length (restored old off len s z new) =
    (let n = (if z < len then off + z else length new) in if z = 0 then n else max n (s + z))"
  using assms by (simp add: restored_def Let_def length_put_at)

lemma restored_back:
  assumes "off \<le> length old" "0 < length data" "s \<le> off" "s + z \<le> length old"
    and "z = 0 \<longrightarrow> off = length old"
    and "off + length data \<le> s + z \<or> s + z = length old"
    and "s = off \<or> off + length data \<le> length old \<or> z = 0"
  shows "restored old off (length data) s z (put_at old off data) = old"
proof (rule nth_equalityI)
  show l: "length (restored old off (length data) s z (put_at old off data)) = length old"
    using assms by (auto simp: length_restored Let_def length_put_at)
  fix i assume i: "i < length (restored old off (length data) s z (put_at old off data))"
  show "restored old off (length data) s z (put_at old off data) ! i = old ! i"
    using assms i l by (auto simp: restored_nth nth_put_at length_put_at)
qed

lemma restored_eq:
  assumes "off \<le> length old" "0 < length data" "s \<le> off" "s + z \<le> length old"
    and "z = 0 \<longrightarrow> off = length old"
    and "off + length data \<le> s + z \<or> s + z = length old"
  shows "restored old off (length data) s z (put_at old off data) = old \<longleftrightarrow>
    s = off \<or> off + length data \<le> length old \<or> z = 0"
proof
  assume "restored old off (length data) s z (put_at old off data) = old"
  then have "length (restored old off (length data) s z (put_at old off data)) = length old" by simp
  then show "s = off \<or> off + length data \<le> length old \<or> z = 0"
    using assms by (auto simp: length_restored Let_def length_put_at split: if_splits)
qed (rule restored_back [OF assms])

section \<open>The range of a backup\<close>

lemma to_c_int_small:
  assumes "unat x = n" "n < 2 ^ 31"
  shows "to_c_int x = int n"
proof -
  have "unat (ucast x :: u32) = n"
    using assms by (simp add: unsigned_ucast_eq take_bit_nat_eq_self)
  then have u: "uint (ucast x :: u32) = int n" by (metis uint_nat)
  show ?thesis
    unfolding to_c_int_def sint_uint u using assms(2) by (intro signed_take_bit_int_eq_self) simp_all
qed

lemma round_down_nat: "round_down (int n) 4096 = int (4096 * (n div 4096))"
  by (simp add: round_down_def zdiv_int)

lemma word_of_int_nat: "n < 2 ^ 64 \<Longrightarrow> unat (word_of_int (int n) :: u64) = n"
  by (simp add: unsigned_of_nat take_bit_nat_eq_self)

text \<open>Below the limits of \<open>int\<close> the range starts at the block of the offset and ends behind the last byte
  that is written, or at the end of the file.\<close>
lemma backup_range_small:
  assumes "unat offset = off" "unat fsize = n" "unat len = l" "off < n" "n < 2 ^ 30" "l < 2 ^ 30"
  shows "\<exists>s z. backup_range fsize offset len = Some (s, z) \<and> unat s = 4096 * (off div 4096) \<and>
    unat s + unat z \<le> n \<and> (off + l \<le> unat s + unat z \<or> unat s + unat z = n)"
proof -
  define s where "s = 4096 * (off div 4096)"
  define d where "d = l + (off - s)"
  define u where "u = 4096 * (d div 4096) + 4096"
  have s: "s \<le> off" and u: "d < u" by (simp_all add: s_def u_def)
  have m: "off - s < 4096" by (simp add: s_def minus_mult_div_eq_mod)
  have "u \<le> d + 4096" by (simp add: u_def)
  with m assms(4-6) s have b: "s < 2 ^ 30" "d < 2 ^ 31 - 4096" "u < 2 ^ 31" by (simp_all add: d_def)
  have sw: "word_of_int (round_down (to_c_int offset) 4096) = (word_of_nat s :: u64)"
    unfolding to_c_int_small [OF assms(1) order.strict_trans [OF assms(4) order.strict_trans [OF assms(5)]], simplified]
      round_down_nat s_def by simp
  have us: "unat (word_of_nat s :: u64) = s" using b by (simp add: unsigned_of_nat take_bit_nat_eq_self)
  have sl: "word_of_nat s \<le> offset" using us s assms(1) by (simp add: word_le_nat_alt)
  have dl: "unat (offset - word_of_nat s) = off - s" using unat_sub [OF sl] us assms(1) by simp
  have dd: "unat (len + (offset - word_of_nat s)) = d"
    using b assms(3) by (simp add: unat_word_ariths dl d_def)
  have up: "round_up (to_c_int (len + (offset - word_of_nat s))) 4096 = Some (int u)"
    unfolding to_c_int_small [OF dd order.strict_trans [OF b(2)], simplified] round_up_def round_down_nat
    using b(3) by (simp add: u_def Let_def)
  have uu: "unat (word_of_nat u :: u64) = u" using b by (simp add: unsigned_of_nat take_bit_nat_eq_self)
  have su: "unat (word_of_nat s + word_of_nat u :: u64) = s + u" using b by (simp add: unat_word_ariths us uu)
  have r: "backup_range fsize offset len =
    Some (word_of_nat s, if word_of_nat s + word_of_nat u \<le> fsize then word_of_nat u else fsize - word_of_nat s)"
    by (simp add: backup_range_def Let_def sw up)
  have fl: "word_of_nat s \<le> fsize" using us s assms by (simp add: word_le_nat_alt)
  have "word_of_nat s + word_of_nat u \<le> fsize \<longleftrightarrow> s + u \<le> n" using su assms(2) by (simp add: word_le_nat_alt)
  then show ?thesis
    using r us uu unat_sub [OF fl] s u assms(2,4) by (auto simp: d_def s_def [symmetric])
qed





section \<open>Backup, write and restore\<close>

text \<open>The operations of the FSAL below on byte strings: a clone, which the file system supports
  (\<open>clones\<close>) or refuses without an effect, a copy up to the end of the source, a change of the size, and a
  close.  Files with different numbers are different files.\<close>
definition file_store_ok :: "('fs, 'h, 'a, 'r) sub_fsal \<Rightarrow> ('fs \<Rightarrow> 'h \<Rightarrow> bytes) \<Rightarrow> bool \<Rightarrow> bool" where
  "file_store_ok S content clones \<longleftrightarrow>
     (\<forall>src so dst d n f. unat so + unat n \<le> length (content f src) \<longrightarrow>
        (case s_clone2 S src so dst d n SubExport f of (st, f') \<Rightarrow>
           if clones
           then st = ERR_FSAL_NO_ERROR \<and>
             content f' dst = put_at (content f dst) (unat d) (take (unat n) (drop (unat so) (content f src)))
           else st \<noteq> ERR_FSAL_NO_ERROR \<and> content f' = content f)) \<and>
     (\<forall>src so dst d n f. unat so < length (content f src) \<and> 0 < unat n \<longrightarrow>
        (case s_copy S src so dst d n SubExport f of (st, f') \<Rightarrow>
           st = ERR_FSAL_NO_ERROR \<and>
           content f' dst = put_at (content f dst) (unat d) (take (unat n) (drop (unat so) (content f src))))) \<and>
     (\<forall>h sz f. content (snd (s_setattr2 S h (no_attrs\<lparr>valid_mask := ATTR_SIZE, filesize := sz\<rparr>) SubExport f)) h =
        set_size (content f h) (unat sz)) \<and>
     (\<forall>h h' a f. s_fileid S h \<noteq> s_fileid S h' \<longrightarrow> content (snd (s_setattr2 S h a SubExport f)) h' = content f h') \<and>
     (\<forall>h f. content (snd (s_close S h SubExport f)) = content f)"

lemma store_clone:
  assumes "file_store_ok S content clones" "unat so + unat n \<le> length (content f src)"
    "s_clone2 S src so dst d n SubExport f = (st, f')"
  shows "clones \<Longrightarrow> st = ERR_FSAL_NO_ERROR \<and>
      content f' dst = put_at (content f dst) (unat d) (take (unat n) (drop (unat so) (content f src)))"
    and "\<not> clones \<Longrightarrow> st \<noteq> ERR_FSAL_NO_ERROR \<and> content f' = content f"
  using assms(1) [unfolded file_store_ok_def, THEN conjunct1, rule_format, OF assms(2), of dst d] assms(3)
  by simp_all

lemma store_copy:
  assumes "file_store_ok S content clones" "unat so < length (content f src)" "0 < unat n"
    "s_copy S src so dst d n SubExport f = (st, f')"
  shows "st = ERR_FSAL_NO_ERROR \<and>
    content f' dst = put_at (content f dst) (unat d) (take (unat n) (drop (unat so) (content f src)))"
  using assms(1) [unfolded file_store_ok_def, THEN conjunct2, THEN conjunct1, rule_format, OF conjI [OF assms(2,3)], of dst d]
    assms(4) by simp

lemma unat_length: "length xs < 2 ^ 30 \<Longrightarrow> unat (word_of_nat (length xs) :: u64) = length xs"
  by (simp add: unsigned_of_nat take_bit_nat_eq_self)

lemma put_at_empty: "put_at [] 0 xs = xs"
  by (simp add: put_at_def)

text \<open>Where the backup starts: at the block for a clone, at the offset of the write for a copy.\<close>
definition backup_start :: "bool \<Rightarrow> nat \<Rightarrow> nat" where
  "backup_start clones off = (if clones then 4096 * (off div 4096) else off)"

text \<open>What \<open>backup_data\<close> puts into an empty backup.\<close>
lemma backup_data_content:
  assumes "file_store_ok S content clones" "fsal_export w = SubExport" "s_type S h = REGULAR_FILE"
    and "unat offset = off" "unat len = l" "0 < l" "l < 2 ^ 30" "length old < 2 ^ 30" "off < length old"
    and "content (fs w) h = old" "content (fs w) b = []"
  shows "\<exists>st' w1 z. backup_data S h b (word_of_nat (length old)) offset len st w = Some (st', w1) \<and>
    content (fs w1) b = take z (drop (backup_start clones off) old) \<and> 0 < z \<and>
    backup_start clones off + z \<le> length old \<and>
    (off + l \<le> backup_start clones off + z \<or> backup_start clones off + z = length old)"
proof -
  note n = unat_length [OF assms(8)]
  obtain s z where r: "backup_range (word_of_nat (length old)) offset len = Some (s, z)"
      "unat s = 4096 * (off div 4096)" "unat s + unat z \<le> length old"
      "off + l \<le> unat s + unat z \<or> unat s + unat z = length old"
    using backup_range_small [OF assms(4) n assms(5,9,8,7)] by blast
  have s: "unat s \<le> off" "0 < unat z" using r(2,4) assms(6,9) by auto
  have o: "offset < word_of_nat (length old)" using assms(4,9) n by (simp add: word_less_nat_alt)
  obtain st1 f1 where c: "s_clone2 S h s b 0 z SubExport (fs w) = (st1, f1)" by fastforce
  have fits: "unat s + unat z \<le> length (content (fs w) h)" using r(3) assms(10) by simp
  show ?thesis
  proof (cases clones)
    case True
    have k: "st1 = ERR_FSAL_NO_ERROR" "content f1 b = take (unat z) (drop (unat s) old)"
      using store_clone(1) [OF assms(1) fits c True] assms(10,11) by (simp_all add: put_at_empty)
    have "backup_data S h b (word_of_nat (length old)) offset len st w = Some (st1, w\<lparr>fs := f1\<rparr>)"
      using o r(1) c k(1) assms(2,3) by (simp add: backup_data_def sub_call_beta Let_def)
    then show ?thesis using k(2) r(2-4) s True
      by (intro exI [of _ st1] exI [of _ "w\<lparr>fs := f1\<rparr>"] exI [of _ "unat z"]) (simp add: backup_start_def)
  next
    case False
    have k: "st1 \<noteq> ERR_FSAL_NO_ERROR" "content f1 = content (fs w)"
      using store_clone(2) [OF assms(1) fits c False] by simp_all
    obtain st2 f2 where c2: "s_copy S h offset b 0 z SubExport f1 = (st2, f2)" by fastforce
    have k2: "st2 = ERR_FSAL_NO_ERROR" "content f2 b = take (unat z) (drop off old)"
      using store_copy [OF assms(1) _ s(2) c2] assms(4,9-11) k(2) by (simp_all add: put_at_empty)
    have "backup_data S h b (word_of_nat (length old)) offset len st w = Some (st2, w\<lparr>fs := f2\<rparr>)"
      using o r(1) c k(1) c2 k2(1) s(2) assms(2,3)
      by (auto simp: backup_data_def fsal_copy_def sub_call_beta Let_def)
    moreover have "content f2 b = take (min (unat z) (length old - off)) (drop off old)"
      using k2(2) by (simp add: min_def)
    ultimately show ?thesis using r(3,4) s assms(9) False
      by (intro exI [of _ st2] exI [of _ "w\<lparr>fs := f2\<rparr>"] exI [of _ "min (unat z) (length old - off)"])
        (auto simp: backup_start_def min_def)
  qed
qed


lemma truncated_content:
  assumes "file_store_ok S content clones" "fsal_export w = SubExport"
  shows "content (fs (truncate_file S h sz w)) h = set_size (content (fs w) h) (unat sz)"
    and "s_fileid S h \<noteq> s_fileid S b \<Longrightarrow> content (fs (truncate_file S h sz w)) b = content (fs w) b"
    and "fsal_export (truncate_file S h sz w) = SubExport"
  using assms by (simp_all add: truncate_file_def fsal_close_def sub_call_beta file_store_ok_def Let_def)

text \<open>The data goes back to where the backup was taken from, by a clone or by a copy.\<close>
lemma restore_step:
  assumes "file_store_ok S content clones" "fsal_export v = SubExport"
    and "content (fs v) b = take z (drop s old)" "s + z \<le> length old" "unat bsize = z" "0 < z"
    and "unat offset = off" "off < 2 ^ 30" "s = backup_start clones off" "\<not> (t \<and> bsize < len)"
  shows "content (fs (snd (restore_file S b bsize h t offset len v))) h =
    put_at (content (fs v) h) s (take z (drop s old))"
proof -
  let ?out = "word_of_int (round_down (to_c_int offset) 4096) :: u64"
  have nb: "bsize \<noteq> 0" using assms(5,6) by auto
  have "to_c_int offset = int off" using to_c_int_small [OF assms(7)] assms(8) by simp
  then have out: "unat ?out = 4096 * (off div 4096)"
    using assms(8) by (simp add: round_down_nat unsigned_of_nat take_bit_nat_eq_self del: of_nat_mult)
  obtain st1 f1 where c: "s_clone2 S b 0 h ?out bsize SubExport (fs v) = (st1, f1)" by fastforce
  have fits: "unat (0 :: u64) + unat bsize \<le> length (content (fs v) b)" using assms(3-5) by simp
  show ?thesis
  proof (cases clones)
    case True
    then show ?thesis
      using store_clone(1) [OF assms(1) fits c True] c nb out assms(2,3,5,9,10)
      by (auto simp: restore_file_def Let_def sub_call_beta backup_start_def)
  next
    case False
    have k: "st1 \<noteq> ERR_FSAL_NO_ERROR" "content f1 = content (fs v)"
      using store_clone(2) [OF assms(1) fits c False] by simp_all
    obtain st2 f2 where c2: "s_copy S b 0 h offset bsize SubExport f1 = (st2, f2)" by fastforce
    have "unat (0 :: u64) < length (content f1 b)" "0 < unat bsize" using k(2) assms(3-6) by simp_all
    note k2 = store_copy [OF assms(1) this c2]
    show ?thesis
      using k k2 c c2 nb False assms(2,3,5,7,9,10)
      by (auto simp: restore_file_def Let_def sub_call_beta backup_start_def)
  qed
qed

lemma restore_file_content:
  assumes "file_store_ok S content clones" "fsal_export w = SubExport" "s_fileid S h \<noteq> s_fileid S b"
    and "content (fs w) b = take z (drop s old)" "s + z \<le> length old" "unat bsize = z"
    and "unat offset = off" "unat len = l" "off < 2 ^ 30" "z < 2 ^ 30" "0 < z \<longrightarrow> s = backup_start clones off"
  shows "content (fs (snd (restore_file S b bsize h True offset len w))) h =
    restored old off l s z (content (fs w) h)"
proof -
  let ?w = "if len > bsize then truncate_file S h (offset + bsize) w else w"
  have t: "len > bsize \<longleftrightarrow> z < l" using assms(6,8) by (simp add: word_less_nat_alt)
  have ob: "unat (offset + bsize) = off + z" using assms(6,7,9,10) by (simp add: unat_word_ariths)
  have w: "content (fs ?w) h = (if z < l then set_size (content (fs w) h) (off + z) else content (fs w) h)"
    "content (fs ?w) b = take z (drop s old)" "fsal_export ?w = SubExport"
    using truncated_content [OF assms(1,2)] assms(2-4) by (simp_all add: t ob)
  have r: "restore_file S b bsize h True offset len w = restore_file S b bsize h False offset len ?w"
    by (simp add: restore_file_def Let_def)
  show ?thesis
  proof (cases "z = 0")
    case True
    then have "bsize = 0" using assms(6) by (simp add: unat_eq_0)
    then have "snd (restore_file S b bsize h False offset len ?w) = ?w" by (simp add: restore_file_def Let_def)
    then show ?thesis using w(1) True by (simp add: r restored_def del: if_split)
  next
    case False
    then show ?thesis
      using restore_step [OF assms(1) w(3,2) assms(5,6) _ assms(7,9), of False] assms(11) w(1)
      by (simp add: r restored_def Let_def)
  qed
qed

text \<open>The backup of a write behind the end of the file is empty, and the file keeps the gap.\<close>
lemma behind_end_not_restored:
  assumes "length old < off"
  shows "restored old off l (length old) 0 new = old \<longleftrightarrow> l = 0 \<and> new = old"
proof -
  have "set_size new off \<noteq> old" using assms by (metis length_set_size nat_neq_iff)
  then show ?thesis by (auto simp: restored_def)
qed

text \<open>The restored contents for the start and the size of a backup.\<close>
lemma restored_iff:
  assumes "0 < length data" "s + z \<le> length old" "0 < z \<longrightarrow> s = backup_start clones off"
    and "z = 0 \<longrightarrow> s = length old" "z = 0 \<longleftrightarrow> length old \<le> off"
    and "off + length data \<le> s + z \<or> s + z = length old"
  shows "restored old off (length data) s z (put_at old off data) = old \<longleftrightarrow>
    off \<le> length old \<and> (\<not> clones \<or> 4096 dvd off \<or> off + length data \<le> length old \<or> off = length old)"
proof (cases "length old < off")
  case True
  then have "s = length old" "z = 0" using assms(4,5) by auto
  then show ?thesis using behind_end_not_restored [OF True] True assms(1) by simp
next
  case False
  have s: "s \<le> off" using assms(3-5) False by (cases "z = 0") (auto simp: backup_start_def)
  have "z = 0 \<longrightarrow> off = length old" using assms(5) False by simp
  then have "restored old off (length data) s z (put_at old off data) = old \<longleftrightarrow>
      s = off \<or> off + length data \<le> length old \<or> z = 0"
    using restored_eq [OF _ assms(1) s assms(2) _ assms(6)] False by simp
  moreover have "s = off \<longleftrightarrow> \<not> clones \<or> 4096 dvd off" if "z \<noteq> 0"
    using assms(3) that by (auto simp: backup_start_def) (metis dvd_triv_left)
  ultimately show ?thesis using False assms(5) by (cases "z = 0") auto
qed

lemma restored_from_backup:
  assumes "file_store_ok S content clones" "fsal_export w = SubExport" "s_type S h = REGULAR_FILE"
    and "unat offset = off" "off < 2 ^ 30" "length old < 2 ^ 30" "unat len = l" "0 < l" "l < 2 ^ 30"
    and "content (fs w) h = old" "content (fs w) b = []"
  shows "\<exists>st' w1 s z. backup_data S h b (word_of_nat (length old)) offset len st w = Some (st', w1) \<and>
    content (fs w1) b = take z (drop s old) \<and> s + z \<le> length old \<and> (0 < z \<longrightarrow> s = backup_start clones off) \<and>
    (z = 0 \<longrightarrow> s = length old) \<and> (z = 0 \<longleftrightarrow> length old \<le> off) \<and> (off + l \<le> s + z \<or> s + z = length old)"
proof (cases "off < length old")
  case True
  then show ?thesis
    using backup_data_content [OF assms(1-4,7-9,6) True assms(10,11)] by (metis less_not_refl not_le)
next
  case False
  then have "\<not> offset < word_of_nat (length old)"
    using unat_length [OF assms(6)] assms(4) by (simp add: word_less_nat_alt)
  then have "backup_data S h b (word_of_nat (length old)) offset len st w = Some (st, w)"
    by (simp add: backup_data_def)
  then show ?thesis using False assms(11)
    by (intro exI [of _ st] exI [of _ w] exI [of _ "length old"] exI [of _ 0]) simp
qed

text \<open>C14. The backup that \<open>txnfs_backup_file\<close> takes before a WRITE, then any run in which the write changes
  the file and the backup stays, then the undo of the write.  Where the file system cannot clone ranges and
  both sides fall back to a copy, the old contents are back whenever the write started inside the file or
  at its end.  Where it can, they are back exactly when the write also starts at a block boundary, stays
  inside the file, or starts at its end: after a write that starts inside a block and extends the file, the
  file stays longer than it was.  A write that starts behind the end of the file is never undone.\<close>
theorem write_rollback_restores:
  fixes w :: "('db, 'fs, 'h, 'fattr) world"
  assumes "file_store_ok S content clones" "fsal_export w = SubExport" "s_type S h = REGULAR_FILE"
    and "s_fileid S h \<noteq> s_fileid S b" "unat offset = off" "off < 2 ^ 30" "length old < 2 ^ 30"
    and "unat len = length data" "0 < length data" "length data < 2 ^ 30"
    and "content (fs w) h = old" "content (fs w) b = []"
  shows "\<exists>st' w1. backup_data S h b (word_of_nat (length old)) offset len st w = Some (st', w1) \<and>
    (\<forall>w2 :: ('db, 'fs, 'h, 'fattr) world. fsal_export w2 = SubExport \<and> content (fs w2) h = put_at old off data \<and>
       content (fs w2) b = content (fs w1) b \<longrightarrow>
       (content (fs (snd (restore_file S b (word_of_nat (length (content (fs w2) b))) h True offset len w2))) h = old \<longleftrightarrow>
          off \<le> length old \<and> (\<not> clones \<or> 4096 dvd off \<or> off + length data \<le> length old \<or> off = length old)))"
proof -
  obtain st' w1 s z where b: "backup_data S h b (word_of_nat (length old)) offset len st w = Some (st', w1)"
      and z: "content (fs w1) b = take z (drop s old)" "s + z \<le> length old" "0 < z \<longrightarrow> s = backup_start clones off"
      "z = 0 \<longrightarrow> s = length old" "z = 0 \<longleftrightarrow> length old \<le> off" "off + length data \<le> s + z \<or> s + z = length old"
    using restored_from_backup [OF assms(1-3,5-12)] by metis
  have eq: "restored old off (length data) s z (put_at old off data) = old \<longleftrightarrow>
      off \<le> length old \<and> (\<not> clones \<or> 4096 dvd off \<or> off + length data \<le> length old \<or> off = length old)"
    by (rule restored_iff [OF assms(9) z(2-6)])
  have k: "content (fs (snd (restore_file S b (word_of_nat (length (content (fs w2) b))) h True offset len w2))) h =
      restored old off (length data) s z (put_at old off data)"
    if w2: "fsal_export w2 = SubExport" "content (fs w2) h = put_at old off data" "content (fs w2) b = content (fs w1) b"
    for w2 :: "('db, 'fs, 'h, 'fattr) world"
  proof -
    have l: "length (content (fs w2) b) = z" using z(1,2) w2(3) by simp
    have "unat (word_of_nat z :: u64) = z" "z < 2 ^ 30" using z(2) assms(7)
      by (simp_all add: unsigned_of_nat take_bit_nat_eq_self)
    then show ?thesis
      using restore_file_content [OF assms(1) w2(1) assms(4) _ z(2) _ assms(5,8,6)] w2(2,3) z(1,3) l by simp
  qed
  have "content (fs (snd (restore_file S b (word_of_nat (length (content (fs w2) b))) h True offset len w2))) h = old \<longleftrightarrow>
      off \<le> length old \<and> (\<not> clones \<or> 4096 dvd off \<or> off + length data \<le> length old \<or> off = length old)"
    if "fsal_export w2 = SubExport" "content (fs w2) h = put_at old off data" "content (fs w2) b = content (fs w1) b"
    for w2 :: "('db, 'fs, 'h, 'fattr) world"
    unfolding eq [symmetric] k [OF that] ..
  with b show ?thesis by blast
qed


text \<open>The file system in memory, with a clone of ranges and without.\<close>
definition store_of :: "bool \<Rightarrow> (memfs, memh, nat \<times> bytes, unit) sub_fsal" where
  "store_of clones = (if clones then mem_fsal
     else mem_fsal\<lparr>s_clone2 := (\<lambda>src so dst d n x f. (ERR_FSAL_NOTSUPP, f))\<rparr>)"

lemma store_of_ok: "file_store_ok (store_of clones) (\<lambda>f h. m_data f (fst h)) clones"
  by (cases clones) (auto simp: store_of_def file_store_ok_def mem_fsal_def mem_copy_def)

text \<open>The contents of a file after the backup, a write and the undo.\<close>
definition demo_file :: "(bytes \<rightharpoonup> bytes, memfs, memh, attrlist option) world" where
  "demo_file = mem_world\<lparr>fsal_export := SubExport,
     fs := (fs mem_world)\<lparr>m_data := (\<lambda>i. if i = 1 then ''abcdef'' else [])\<rparr>\<rparr>"

definition demo_restored :: "bool \<Rightarrow> nat \<Rightarrow> bytes \<Rightarrow> bytes option" where
  "demo_restored clones off data = do {
     let S = store_of clones;
     let h = (1, REGULAR_FILE);
     let b = (2, REGULAR_FILE);
     (st, w) \<leftarrow> backup_data S h b 6 (word_of_nat off) (word_of_nat (length data)) ERR_FSAL_NO_ERROR demo_file;
     let w = demo_file\<lparr>fs := (fs mem_world)\<lparr>m_data := (m_data (fs w))(1 := put_at ''abcdef'' off data)\<rparr>\<rparr>;
     let (st, w) = restore_file S b (word_of_nat (length (m_data (fs w) 2))) h True
       (word_of_nat off) (word_of_nat (length data)) w;
     Some (m_data (fs w) 1)
   }"

theorem write_rollback_restores_witness:
  "demo_restored True 2 ''XY'' = Some ''abcdef'' \<and> demo_restored True 0 ''0123456789'' = Some ''abcdef'' \<and>
   demo_restored True 3 ''0123456789'' \<noteq> Some ''abcdef'' \<and>
   demo_restored False 3 ''0123456789'' = Some ''abcdef'' \<and> demo_restored False 8 ''XY'' \<noteq> Some ''abcdef''"
proof -
  let ?h = "(1, REGULAR_FILE) :: memh" and ?b = "(2, REGULAR_FILE) :: memh"
  have r: "demo_restored c off data = Some ''abcdef'' \<longleftrightarrow>
      off \<le> 6 \<and> (\<not> c \<or> 4096 dvd off \<or> off + length data \<le> 6 \<or> off = 6)"
    if a: "off < 100" "0 < length data" "length data < 100" for c off data
  proof -
    have u: "unat (word_of_nat off :: u64) = off" "unat (word_of_nat (length data) :: u64) = length data"
      using that by (simp_all add: unsigned_of_nat take_bit_nat_eq_self)
    have l: "off < 2 ^ 30" "length ''abcdef'' < 2 ^ 30" "length data < 2 ^ 30" using that by simp_all
    have f: "s_type (store_of c) ?h = REGULAR_FILE" "s_fileid (store_of c) ?h \<noteq> s_fileid (store_of c) ?b"
      by (simp_all add: store_of_def mem_fsal_def)
    have v: "fsal_export demo_file = SubExport" "m_data (fs demo_file) (fst ?h) = ''abcdef''"
      "m_data (fs demo_file) (fst ?b) = []" by (simp_all add: demo_file_def)
    have n: "length ''abcdef'' = 6" "word_of_nat 6 = (6 :: u64)" by simp_all
    obtain st w where b: "backup_data (store_of c) ?h ?b 6 (word_of_nat off) (word_of_nat (length data)) ERR_FSAL_NO_ERROR demo_file = Some (st, w)"
      and w: "\<And>w2 :: (bytes \<rightharpoonup> bytes, memfs, memh, attrlist option) world. fsal_export w2 = SubExport \<Longrightarrow> m_data (fs w2) 1 = put_at ''abcdef'' off data \<Longrightarrow>
        m_data (fs w2) 2 = m_data (fs w) 2 \<Longrightarrow>
        (m_data (fs (snd (restore_file (store_of c) ?b (word_of_nat (length (m_data (fs w2) 2))) ?h True
          (word_of_nat off) (word_of_nat (length data)) w2))) 1 = ''abcdef'' \<longleftrightarrow>
        off \<le> 6 \<and> (\<not> c \<or> 4096 dvd off \<or> off + length data \<le> 6 \<or> off = 6))"
      using write_rollback_restores [OF store_of_ok v(1) f u(1) l(1,2) u(2) a(2) l(3) v(2,3), of ERR_FSAL_NO_ERROR]
      unfolding n fst_conv by blast
    show ?thesis
      using w [of "demo_file\<lparr>fs := (fs mem_world)\<lparr>m_data := (m_data (fs w))(1 := put_at ''abcdef'' off data)\<rparr>\<rparr>"]
      by (simp add: demo_restored_def b [simplified] v(1) Let_def case_prod_beta)
  qed
  show ?thesis
    using r [of 2 "''XY''" True] r [of 0 "''0123456789''" True] r [of 3 "''0123456789''" True]
      r [of 3 "''0123456789''" False] r [of 8 "''XY''" False] by simp
qed

end
