(* ===== verification/Txn_Kv.thy ===== *)
theory Txn_Kv
  imports Txn_Db
begin

text \<open>
  The key-value wrapper around LevelDB (\<open>txn/lwrapper.cpp\<close>): batches of puts, gets and deletes, the
  table from ids to file handles with its reverse table, and the records of transactions.

  An array of pairs is a list, its length in \<open>nums\<close>.  A pointer in a pair is \<open>Null\<close>, a buffer with its
  bytes, whose number is the length field beside it, or \<open>Wild\<close>, an address where nothing is.  What
  \<open>malloc\<close> leaves in the value of a new pair is the parameter \<open>fresh\<close>, null or wild.  Reading or
  freeing at a wild address, access to a block that was released, and releasing an address that
  \<open>malloc\<close> did not return are undefined and have the abort value, as has an access behind the end of an
  array.  Lengths are below \<open>2\<^sup>3\<^sup>1\<close>.  Opening and
  closing the database is configuration of LevelDB and is not modelled, except for the markers that
  opening inserts; the iterator over transactions searches strings in buffers without a terminator
  and is not modelled.
\<close>

section \<open>Pairs\<close>

datatype cptr = Wild | Null | Buf bytes

record db_kvpair =
  kv_key :: cptr
  kv_val :: cptr

fun read_ptr :: "cptr \<Rightarrow> bytes option" where
  "read_ptr Wild = None"
| "read_ptr Null = Some []"
| "read_ptr (Buf b) = Some b"

text \<open>\<open>g_memdup\<close> gives a null pointer for no bytes.\<close>
fun memdup :: "cptr \<Rightarrow> cptr option" where
  "memdup Wild = None"
| "memdup Null = Some Null"
| "memdup (Buf b) = Some (if b = [] then Null else Buf b)"

definition TR_PREFIX :: bytes where "TR_PREFIX = ''txn-''"
definition ID_PREFIX :: bytes where "ID_PREFIX = ''id-''"
definition HDL_PREFIX :: bytes where "HDL_PREFIX = ''hdl-''"
definition ANCHOR :: bytes where "ANCHOR = ''ldb-anchor''"

text \<open>\<open>strcpy\<close> writes the terminator of the prefix into the place of the first byte of the key, which
  must exist.\<close>
definition generate_db_key :: "cptr \<Rightarrow> bytes \<Rightarrow> bool \<Rightarrow> db_kvpair \<Rightarrow> db_kvpair option" where
  "generate_db_key fresh prefix alloc_val_mem kvp = do {
     key \<leftarrow> read_ptr (kv_key kvp);
     c_assert (key \<noteq> []);
     val \<leftarrow> (if alloc_val_mem then memdup (kv_val kvp) else Some fresh);
     Some \<lparr>kv_key = Buf (prefix @ key), kv_val = val\<rparr>
   }"

fun generate_db_keys :: "cptr \<Rightarrow> bytes \<Rightarrow> bool \<Rightarrow> db_kvpair list \<Rightarrow> db_kvpair list option" where
  "generate_db_keys fresh prefix alloc_val_mem [] = Some []"
| "generate_db_keys fresh prefix alloc_val_mem (kvp # kvps) = do {
     k \<leftarrow> generate_db_key fresh prefix alloc_val_mem kvp;
     ks \<leftarrow> generate_db_keys fresh prefix alloc_val_mem kvps;
     Some (k # ks)
   }"

text \<open>\<open>SAFE_FREE\<close> of a pointer in a pair.\<close>
fun safe_free :: "cptr \<Rightarrow> cptr option" where
  "safe_free Wild = None"
| "safe_free Null = Some Null"
| "safe_free (Buf b) = Some Null"

text \<open>The block of an array, which is live until the address of its first pair is released.\<close>
record kv_block =
  blk_live :: bool
  blk_pairs :: "db_kvpair list"

definition load_pair :: "kv_block \<Rightarrow> nat \<Rightarrow> db_kvpair option" where
  "load_pair blk i = (if blk_live blk \<and> i < length (blk_pairs blk) then Some (blk_pairs blk ! i) else None)"

definition store_pair :: "kv_block \<Rightarrow> nat \<Rightarrow> db_kvpair \<Rightarrow> kv_block option" where
  "store_pair blk i kvp =
     (if blk_live blk \<and> i < length (blk_pairs blk)
      then Some (blk\<lparr>blk_pairs := (blk_pairs blk)[i := kvp]\<rparr>) else None)"

definition free_pair :: "kv_block \<Rightarrow> nat \<Rightarrow> kv_block option" where
  "free_pair blk i = (if blk_live blk \<and> i = 0 then Some (blk\<lparr>blk_live := False\<rparr>) else None)"

text \<open>The last \<open>n\<close> rounds of the loop, \<open>curr\<close> at pair \<open>i\<close>.\<close>
fun cleanup_loop :: "nat \<Rightarrow> nat \<Rightarrow> kv_block \<Rightarrow> kv_block option" where
  "cleanup_loop 0 i blk = Some blk"
| "cleanup_loop (Suc n) i blk = do {
     curr \<leftarrow> load_pair blk i;
     k \<leftarrow> safe_free (kv_key curr);
     blk \<leftarrow> store_pair blk i (curr\<lparr>kv_key := k\<rparr>);
     curr \<leftarrow> load_pair blk i;
     v \<leftarrow> safe_free (kv_val curr);
     blk \<leftarrow> store_pair blk i (curr\<lparr>kv_val := v\<rparr>);
     blk \<leftarrow> free_pair blk i;
     cleanup_loop n (Suc i) blk
   }"

definition cleanup_allocated_kvps :: "db_kvpair list \<Rightarrow> unit option" where
  "cleanup_allocated_kvps kvps = do {
     blk \<leftarrow> cleanup_loop (length kvps) 0 \<lparr>blk_live = True, blk_pairs = kvps\<rparr>;
     Some () }"

section \<open>Batches\<close>

fun put_batch :: "db_kvpair list \<Rightarrow> batch_op list option" where
  "put_batch [] = Some []"
| "put_batch (kvp # kvps) = do {
     k \<leftarrow> read_ptr (kv_key kvp);
     v \<leftarrow> read_ptr (kv_val kvp);
     b \<leftarrow> put_batch kvps;
     Some (BatchPut k v # b)
   }"

definition put_keys :: "'db leveldb \<Rightarrow> db_kvpair list \<Rightarrow> int \<Rightarrow> 'db \<Rightarrow> (int \<times> 'db) option" where
  "put_keys L kvp nums d =
     (if nums < 0 then Some (- 1, d)
      else if nums = 0 then Some (0, d)
      else if nat nums > length kvp then None
      else do {
        b \<leftarrow> put_batch (take (nat nums) kvp);
        let (err, d) = leveldb_write L d b;
        Some (if err \<noteq> None then - 1 else 0, d) })"

text \<open>The value of a key that is absent, and of a read that failed, is the null pointer.\<close>
definition get_key :: "'db leveldb \<Rightarrow> 'db \<Rightarrow> db_kvpair \<Rightarrow> (bool \<times> db_kvpair) option" where
  "get_key L d kvp = do {
     k \<leftarrow> read_ptr (kv_key kvp);
     Some (case leveldb_get L d k of
         Inl err \<Rightarrow> (True, kvp\<lparr>kv_val := Null\<rparr>)
       | Inr None \<Rightarrow> (False, kvp\<lparr>kv_val := Null\<rparr>)
       | Inr (Some v) \<Rightarrow> (False, kvp\<lparr>kv_val := Buf v\<rparr>))
   }"

fun get_loop :: "'db leveldb \<Rightarrow> 'db \<Rightarrow> db_kvpair list \<Rightarrow> (bool \<times> db_kvpair list) option" where
  "get_loop L d [] = Some (False, [])"
| "get_loop L d (kvp # kvps) = do {
     (e, k) \<leftarrow> get_key L d kvp;
     (es, ks) \<leftarrow> get_loop L d kvps;
     Some (e \<or> es, k # ks)
   }"

definition get_keys :: "'db leveldb \<Rightarrow> db_kvpair list \<Rightarrow> int \<Rightarrow> 'db \<Rightarrow> (int \<times> db_kvpair list) option" where
  "get_keys L kvp nums d =
     (if nums < 0 then Some (- 1, kvp)
      else if nums = 0 then Some (0, kvp)
      else if nat nums > length kvp then None
      else do {
        (key_missing, ks) \<leftarrow> get_loop L d (take (nat nums) kvp);
        Some (if key_missing then - 1 else 0, ks @ drop (nat nums) kvp) })"

fun delete_batch :: "db_kvpair list \<Rightarrow> batch_op list option" where
  "delete_batch [] = Some []"
| "delete_batch (kvp # kvps) = do {
     k \<leftarrow> read_ptr (kv_key kvp);
     b \<leftarrow> delete_batch kvps;
     Some (BatchDelete k # b)
   }"

text \<open>The error of the write is not looked at.\<close>
definition delete_keys :: "'db leveldb \<Rightarrow> db_kvpair list \<Rightarrow> int \<Rightarrow> 'db \<Rightarrow> (int \<times> 'db) option" where
  "delete_keys L kvp nums d =
     (if nat nums > length kvp then None
      else do {
        b \<leftarrow> delete_batch (take (nat nums) kvp);
        let (err, d) = leveldb_write L d b;
        Some (0, d) })"

definition insert_markers :: "'db leveldb \<Rightarrow> 'db \<Rightarrow> int \<times> 'db" where
  "insert_markers L d =
     (let (err, d) = leveldb_put L d TR_PREFIX (ANCHOR @ [CHR 0x00]) in
      if err \<noteq> None then (- 1, d) else
      let (err, d) = leveldb_put L d ID_PREFIX (ANCHOR @ [CHR 0x00]) in
      if err \<noteq> None then (- 1, d) else
      let (err, d) = leveldb_put L d HDL_PREFIX (ANCHOR @ [CHR 0x00]) in
      if err \<noteq> None then (- 1, d) else (0, d))"

section \<open>Ids and handles, transactions\<close>

definition swap_key_values :: "db_kvpair list \<Rightarrow> db_kvpair list" where
  "swap_key_values = map (\<lambda>kvp. \<lparr>kv_key = kv_val kvp, kv_val = kv_key kvp\<rparr>)"

text \<open>The array handed in is swapped and swapped back.\<close>
definition put_id_handle :: "'db leveldb \<Rightarrow> db_kvpair list \<Rightarrow> 'db \<Rightarrow> (int \<times> 'db) option" where
  "put_id_handle L kvp d = do {
     let nums = int (length kvp);
     new_kvp \<leftarrow> generate_db_keys Wild ID_PREFIX True kvp;
     (ret, d) \<leftarrow> put_keys L new_kvp nums d;
     u \<leftarrow> cleanup_allocated_kvps new_kvp;
     if ret \<noteq> 0 then Some (ret, d)
     else do {
       new_kvp \<leftarrow> generate_db_keys Wild HDL_PREFIX True (swap_key_values kvp);
       (ret, d) \<leftarrow> put_keys L new_kvp nums d;
       u \<leftarrow> cleanup_allocated_kvps new_kvp;
       Some (ret, d) }
   }"

text \<open>An absent key sets the length of the value to zero and leaves the pointer alone: the value is then
  the empty one.\<close>
fun copy_values :: "db_kvpair list \<Rightarrow> db_kvpair list \<Rightarrow> db_kvpair list option" where
  "copy_values [] [] = Some []"
| "copy_values (kvp # kvps) (new_kvp # new_kvps) = do {
     v \<leftarrow> read_ptr (kv_val new_kvp);
     rest \<leftarrow> copy_values kvps new_kvps;
     Some (kvp\<lparr>kv_val := (if v = [] then Null else Buf v)\<rparr> # rest)
   }"
| "copy_values _ _ = None"

definition get_id_handle ::
  "'db leveldb \<Rightarrow> cptr \<Rightarrow> db_kvpair list \<Rightarrow> bool \<Rightarrow> 'db \<Rightarrow> (int \<times> db_kvpair list) option" where
  "get_id_handle L fresh kvp lookup_by_handle d = do {
     let prefix = (if lookup_by_handle then HDL_PREFIX else ID_PREFIX);
     new_kvp \<leftarrow> generate_db_keys fresh prefix False kvp;
     (ret, new_kvp) \<leftarrow> get_keys L new_kvp (int (length kvp)) d;
     if ret \<noteq> 0 then Some (ret, kvp)
     else do {
       kvp \<leftarrow> copy_values kvp new_kvp;
       u \<leftarrow> cleanup_allocated_kvps new_kvp;
       Some (ret, kvp) }
   }"

definition delete_id_handle ::
  "'db leveldb \<Rightarrow> cptr \<Rightarrow> db_kvpair list \<Rightarrow> bool \<Rightarrow> 'db \<Rightarrow> (int \<times> 'db) option" where
  "delete_id_handle L fresh kvp delete_by_handle d = do {
     let nums = int (length kvp);
     new_kvp \<leftarrow> generate_db_keys fresh (if delete_by_handle then HDL_PREFIX else ID_PREFIX) False kvp;
     (ret, d) \<leftarrow> delete_keys L new_kvp nums d;
     u \<leftarrow> cleanup_allocated_kvps new_kvp;
     if ret \<noteq> 0 then Some (ret, d)
     else do {
       new_kvp \<leftarrow> generate_db_keys fresh (if delete_by_handle then ID_PREFIX else HDL_PREFIX) True (swap_key_values kvp);
       (ret, d) \<leftarrow> delete_keys L new_kvp nums d;
       u \<leftarrow> cleanup_allocated_kvps new_kvp;
       Some (ret, d) }
   }"

definition commit_transaction :: "'db leveldb \<Rightarrow> db_kvpair list \<Rightarrow> 'db \<Rightarrow> (int \<times> 'db) option" where
  "commit_transaction L kvp d = do {
     new_kvp \<leftarrow> generate_db_keys Wild TR_PREFIX True kvp;
     (ret, d) \<leftarrow> put_keys L new_kvp (int (length kvp)) d;
     u \<leftarrow> cleanup_allocated_kvps new_kvp;
     Some (ret, d)
   }"

definition delete_transaction :: "'db leveldb \<Rightarrow> db_kvpair list \<Rightarrow> 'db \<Rightarrow> (int \<times> 'db) option" where
  "delete_transaction L kvp d = do {
     new_kvp \<leftarrow> generate_db_keys Wild TR_PREFIX True kvp;
     (ret, d) \<leftarrow> delete_keys L new_kvp (int (length kvp)) d;
     u \<leftarrow> cleanup_allocated_kvps new_kvp;
     Some (ret, d)
   }"

section \<open>What the operations do\<close>

abbreviation kv :: "bytes \<Rightarrow> bytes \<Rightarrow> db_kvpair" where
  "kv k v \<equiv> \<lparr>kv_key = Buf k, kv_val = Buf v\<rparr>"

lemma generate_db_keys_length: "generate_db_keys fr p a ks = Some ks' \<Longrightarrow> length ks' = length ks"
  by (induction ks arbitrary: ks') (auto simp: abort_simps)

text \<open>After the first round the block is gone: only arrays of at most one pair are released safely.\<close>
lemma cleanup_one [simp]:
  "cleanup_allocated_kvps [kvp] = (if kv_key kvp = Wild \<or> kv_val kvp = Wild then None else Some ())"
  by (cases "kv_key kvp"; cases "kv_val kvp")
    (simp_all add: cleanup_allocated_kvps_def load_pair_def store_pair_def free_pair_def)

lemma cleanup_round:
  "cleanup_loop (Suc n) i blk = Some r \<Longrightarrow> \<exists>b b'. free_pair b i = Some b' \<and> cleanup_loop n (Suc i) b' = Some r"
  by (auto simp: abort_simps)

lemma cleanup_several:
  assumes "length ks \<ge> 2"
  shows "cleanup_allocated_kvps ks = None"
proof -
  obtain n where n: "length ks = Suc (Suc n)" using assms by (metis add_2_eq_Suc le_Suc_ex)
  have "cleanup_loop (Suc (Suc n)) 0 blk \<noteq> Some r" for blk r
    using cleanup_round [of "Suc n" 0 blk r] by (auto simp: free_pair_def load_pair_def split: if_splits)
  then have "cleanup_loop (length ks) 0 blk = None" for blk unfolding n by (meson not_Some_eq)
  then show ?thesis by (simp only: cleanup_allocated_kvps_def Option.bind.bind_lzero)
qed

lemma put_one:
  assumes "leveldb_ok L view" "never_fails L"
  shows "\<exists>d'. put_keys L [kv k v] 1 d = Some (0, d') \<and> view d' = (view d)(k \<mapsto> v)"
proof -
  obtain d' where w: "leveldb_write L d [BatchPut k v] = (None, d')"
    using assms(2) by (metis never_fails_def prod.collapse)
  then show ?thesis
    using leveldb_writeD [OF assms(1) w] by (simp add: put_keys_def apply_batch_def)
qed

lemma get_one:
  assumes "leveldb_ok L view"
  shows "get_keys L [\<lparr>kv_key = Buf k, kv_val = v0\<rparr>] 1 d =
    Some (0, [\<lparr>kv_key = Buf k, kv_val = (case view d k of None \<Rightarrow> Null | Some v \<Rightarrow> Buf v)\<rparr>])"
  by (simp add: get_keys_def get_key_def leveldb_getD [OF assms] split: option.splits)

lemma prefixes_differ: "ID_PREFIX @ a \<noteq> HDL_PREFIX @ b"
  by (simp add: ID_PREFIX_def HDL_PREFIX_def)

lemma put_id_handle_one:
  assumes "leveldb_ok L view" "never_fails L" "i \<noteq> []" "h \<noteq> []"
  shows "\<exists>d'. put_id_handle L [kv i h] d = Some (0, d') \<and>
    view d' = (view d)(ID_PREFIX @ i \<mapsto> h, HDL_PREFIX @ h \<mapsto> i)"
proof -
  obtain d1 where d1: "put_keys L [kv (ID_PREFIX @ i) h] 1 d = Some (0, d1)" "view d1 = (view d)(ID_PREFIX @ i \<mapsto> h)"
    using put_one [OF assms(1,2)] by blast
  obtain d2 where d2: "put_keys L [kv (HDL_PREFIX @ h) i] 1 d1 = Some (0, d2)" "view d2 = (view d1)(HDL_PREFIX @ h \<mapsto> i)"
    using put_one [OF assms(1,2)] by blast
  show ?thesis
    using d1 d2 assms(3,4)
    by (simp add: put_id_handle_def generate_db_key_def swap_key_values_def)
qed

lemma get_id_handle_one:
  assumes "leveldb_ok L view" "k \<noteq> []"
  shows "get_id_handle L fresh [\<lparr>kv_key = Buf k, kv_val = v0\<rparr>] by_handle d =
    Some (0, [\<lparr>kv_key = Buf k, kv_val =
      (case view d ((if by_handle then HDL_PREFIX else ID_PREFIX) @ k) of
         None \<Rightarrow> Null | Some v \<Rightarrow> if v = [] then Null else Buf v)\<rparr>])"
  using assms(2)
  by (simp add: get_id_handle_def generate_db_key_def get_one [OF assms(1)]
      split: option.splits)

text \<open>C26. A pair put into the table of ids and handles is found by its id and by its handle, and every
  other id and handle gives what it gave before.\<close>
theorem put_get_id_handle:
  assumes "leveldb_ok L view" "never_fails L" "i \<noteq> []" "h \<noteq> []" "i' \<noteq> []" "h' \<noteq> []"
  shows "\<exists>d'. put_id_handle L [kv i h] d = Some (0, d') \<and>
    get_id_handle L fresh [\<lparr>kv_key = Buf i', kv_val = Null\<rparr>] False d' =
      (if i' = i then Some (0, [kv i h]) else get_id_handle L fresh [\<lparr>kv_key = Buf i', kv_val = Null\<rparr>] False d) \<and>
    get_id_handle L fresh [\<lparr>kv_key = Buf h', kv_val = Null\<rparr>] True d' =
      (if h' = h then Some (0, [kv h i]) else get_id_handle L fresh [\<lparr>kv_key = Buf h', kv_val = Null\<rparr>] True d)"
proof -
  obtain d' where d': "put_id_handle L [kv i h] d = Some (0, d')"
      "view d' = (view d)(ID_PREFIX @ i \<mapsto> h, HDL_PREFIX @ h \<mapsto> i)"
    using put_id_handle_one [OF assms(1-4)] by blast
  have n: "ID_PREFIX @ a \<noteq> HDL_PREFIX @ b" "HDL_PREFIX @ b \<noteq> ID_PREFIX @ a" for a b
    using prefixes_differ by metis+
  show ?thesis
    using d' assms(3-6) n by (auto simp: get_id_handle_one [OF assms(1)])
qed

theorem put_get_id_handle_witness:
  "\<exists>d'. put_id_handle map_db [kv ''7'' ''fh''] Map.empty = Some (0, d') \<and>
     get_id_handle map_db Wild [\<lparr>kv_key = Buf ''7'', kv_val = Null\<rparr>] False d' = Some (0, [kv ''7'' ''fh'']) \<and>
     get_id_handle map_db Wild [\<lparr>kv_key = Buf ''fh'', kv_val = Null\<rparr>] True d' = Some (0, [kv ''fh'' ''7''])"
  using put_get_id_handle [OF map_db_ok map_db_never_fails, of "''7''" "''fh''" "''7''" "''fh''" Map.empty] by auto

lemma cleanup_aborts:
  assumes "\<And>new. generate_db_keys fr p a kvp = Some new \<Longrightarrow> cleanup_allocated_kvps new = None"
  shows "(do { new \<leftarrow> generate_db_keys fr p a kvp; (ret, d) \<leftarrow> f new; u \<leftarrow> cleanup_allocated_kvps new; g ret d }) = None"
proof (cases "generate_db_keys fr p a kvp")
  case (Some new)
  then show ?thesis using assms by (cases "f new") auto
qed simp

lemma several_abort:
  assumes "length kvp \<ge> 2"
  shows "put_id_handle L kvp d = None" "commit_transaction L kvp d = None" "delete_transaction L kvp d = None"
    "delete_id_handle L fresh kvp by_handle d = None"
proof -
  have c: "cleanup_allocated_kvps new = None" if "generate_db_keys fr p a kvp = Some new" for fr p a new
    using cleanup_several assms generate_db_keys_length [OF that] by simp
  show "put_id_handle L kvp d = None" unfolding put_id_handle_def Let_def by (rule cleanup_aborts [OF c])
  show "commit_transaction L kvp d = None" unfolding commit_transaction_def by (rule cleanup_aborts [OF c])
  show "delete_transaction L kvp d = None" unfolding delete_transaction_def by (rule cleanup_aborts [OF c])
  show "delete_id_handle L fresh kvp by_handle d = None"
    unfolding delete_id_handle_def Let_def by (rule cleanup_aborts [OF c])
qed

lemma delete_one:
  assumes "leveldb_ok L view" "never_fails L"
  shows "\<exists>d'. delete_keys L [\<lparr>kv_key = Buf k, kv_val = v\<rparr>] 1 d = Some (0, d') \<and> view d' = (view d)(k := None)"
proof -
  obtain d' where w: "leveldb_write L d [BatchDelete k] = (None, d')"
    using assms(2) by (metis never_fails_def prod.collapse)
  then show ?thesis using leveldb_writeD [OF assms(1) w] by (simp add: delete_keys_def apply_batch_def)
qed

lemma delete_id_handle_one:
  assumes "leveldb_ok L view" "never_fails L" "i \<noteq> []" "h \<noteq> []"
  shows "\<exists>d'. delete_id_handle L Null [kv i h] False d = Some (0, d') \<and>
    view d' = (view d)(ID_PREFIX @ i := None, HDL_PREFIX @ h := None)"
proof -
  obtain d1 where d1: "delete_keys L [\<lparr>kv_key = Buf (ID_PREFIX @ i), kv_val = Null\<rparr>] 1 d = Some (0, d1)"
      "view d1 = (view d)(ID_PREFIX @ i := None)"
    using delete_one [OF assms(1,2)] by blast
  obtain d2 where d2: "delete_keys L [\<lparr>kv_key = Buf (HDL_PREFIX @ h), kv_val = Buf i\<rparr>] 1 d1 = Some (0, d2)"
      "view d2 = (view d1)(HDL_PREFIX @ h := None)"
    using delete_one [OF assms(1,2)] by blast
  show ?thesis
    using d1 d2 assms(3,4) by (simp add: delete_id_handle_def generate_db_key_def swap_key_values_def)
qed

text \<open>The functions for \<open>nums\<close> records work on one record only.  With two or more, the loop that releases
  the temporary array has released the whole array after its first round and goes on inside it: no put
  and no delete of several records returns.  The delete of one id releases the value of a pair that was
  only allocated: it removes both entries when \<open>malloc\<close> happened to leave a null pointer there, and is
  undefined when it did not.\<close>
theorem one_record_at_a_time:
  assumes "leveldb_ok L view" "never_fails L" "i \<noteq> []" "h \<noteq> []"
  shows "(2 \<le> length kvp \<longrightarrow> put_id_handle L kvp d = None \<and> commit_transaction L kvp d = None \<and>
       delete_transaction L kvp d = None \<and> delete_id_handle L fresh kvp by_handle d = None) \<and>
    (\<exists>d'. delete_id_handle L Null [kv i h] False d = Some (0, d') \<and>
       view d' = (view d)(ID_PREFIX @ i := None, HDL_PREFIX @ h := None)) \<and>
    delete_id_handle L Wild [kv i h] False d = None"
proof -
  have "delete_id_handle L Wild [kv i h] False d = None"
    unfolding delete_id_handle_def Let_def
    by (rule cleanup_aborts) (use assms(3) in \<open>auto simp: generate_db_key_def\<close>)
  then show ?thesis using delete_id_handle_one [OF assms] by (simp add: several_abort)
qed

theorem one_record_at_a_time_witness:
  "put_id_handle map_db [kv ''7'' ''fh'', kv ''8'' ''fg''] Map.empty = None \<and>
   delete_id_handle map_db Null [kv ''7'' ''fh'', kv ''8'' ''fg''] False Map.empty = None \<and>
   (\<exists>d'. delete_id_handle map_db Null [kv ''7'' ''fh''] False [''id-7'' \<mapsto> ''fh'', ''hdl-fh'' \<mapsto> ''7''] = Some (0, d') \<and>
      d' = Map.empty)"
  using one_record_at_a_time [OF map_db_ok map_db_never_fails, of "''7''" "''fh''"
      "[kv ''7'' ''fh'', kv ''8'' ''fg'']" Map.empty Null False]
    one_record_at_a_time [OF map_db_ok map_db_never_fails, of "''7''" "''fh''" "[]"
      "[''id-7'' \<mapsto> ''fh'', ''hdl-fh'' \<mapsto> ''7'']" Null False]
  by (simp add: ID_PREFIX_def HDL_PREFIX_def)

end
