(* ===== verification/Txn_Id_Manager.thy ===== *)
theory Txn_Id_Manager
  imports Txn_Kv
begin

text \<open>
  The generator of file ids (\<open>txn/id_manager.cpp\<close>): 128-bit numbers handed out in order, with a bound
  in the database below which ids may have been used, so that a restarted server never repeats one.

  \<open>absl::uint128\<close> is \<open>128 word\<close>; the two static variables and the database are the state.  A crash loses
  the variables; \<open>initialize_id_manager\<close> finds them as the program starts with them.  The machine is
  little-endian.  The loop of \<open>uuid_allocate\<close> may wrap around and run on, hence it is a partial function.
\<close>

section \<open>Numbers as buffers\<close>

type_synonym u128 = "128 word"

abbreviation TXN_UUID_LEN :: nat where "TXN_UUID_LEN \<equiv> 16"

fun le_bytes :: "nat \<Rightarrow> nat \<Rightarrow> bytes" where
  "le_bytes 0 n = []"
| "le_bytes (Suc k) n = char_of (n mod 256) # le_bytes k (n div 256)"

fun le_nat :: "bytes \<Rightarrow> nat" where
  "le_nat [] = 0"
| "le_nat (c # cs) = of_char c + 256 * le_nat cs"

definition uint128_to_buf :: "u128 \<Rightarrow> bytes" where
  "uint128_to_buf n = le_bytes TXN_UUID_LEN (unat n)"

text \<open>\<open>memcpy\<close> of sixteen bytes out of a buffer that must have them.\<close>
definition buf_to_uint128 :: "bytes \<Rightarrow> u128 option" where
  "buf_to_uint128 buf =
     (if length buf < TXN_UUID_LEN then None else Some (word_of_nat (le_nat (take TXN_UUID_LEN buf))))"

record uuid =
  uuid_lo :: u64
  uuid_hi :: u64

text \<open>The bit casts between the number and the structure of two halves.\<close>
definition uuid_of_u128 :: "u128 \<Rightarrow> uuid" where
  "uuid_of_u128 n = \<lparr>uuid_lo = ucast n, uuid_hi = ucast (drop_bit 64 n)\<rparr>"

definition u128_of_uuid :: "uuid \<Rightarrow> u128" where
  "u128_of_uuid u = push_bit 64 (ucast (uuid_hi u)) + ucast (uuid_lo u)"

definition get_lower_half :: "bytes \<Rightarrow> u64 option" where
  "get_lower_half buf = map_option (\<lambda>n. ucast n) (buf_to_uint128 buf)"

definition get_upper_half :: "bytes \<Rightarrow> u64 option" where
  "get_upper_half buf = map_option (\<lambda>n. ucast (drop_bit 64 n)) (buf_to_uint128 buf)"

definition id_to_string :: "bytes \<Rightarrow> string option" where
  "id_to_string buf = map_option (\<lambda>n. dec (unat n)) (buf_to_uint128 buf)"

definition root_file_id :: u128 where "root_file_id = push_bit 64 1"
definition null_file_id :: u128 where "null_file_id = 0"
definition current_file_id :: u128 where "current_file_id = 1"
definition saved_file_id :: u128 where "saved_file_id = 2"

definition get_root_id :: bytes where "get_root_id = uint128_to_buf root_file_id"
definition uuid_root :: uuid where "uuid_root = uuid_of_u128 root_file_id"
definition uuid_null :: uuid where "uuid_null = uuid_of_u128 null_file_id"

definition uuid_next :: "uuid \<Rightarrow> uuid" where
  "uuid_next current = uuid_of_u128 (u128_of_uuid current + 1)"

definition uuid_to_buf :: "uuid \<Rightarrow> bytes" where
  "uuid_to_buf u = uint128_to_buf (u128_of_uuid u)"

definition buf_to_uuid :: "bytes \<Rightarrow> uuid option" where
  "buf_to_uuid buf = map_option uuid_of_u128 (buf_to_uint128 buf)"

definition uuid_is_null :: "uuid \<Rightarrow> bool" where
  "uuid_is_null u \<longleftrightarrow> uuid_lo u = 0 \<and> uuid_hi u = 0"

section \<open>The generator\<close>

definition NEXT_FILE_ID_KEY :: bytes where "NEXT_FILE_ID_KEY = ''__NEXT_FILE_ID__''"

definition kUUIDReserveBatchSize :: u128 where "kUUIDReserveBatchSize = 4096"

record 'db id_manager =
  next_file_id :: u128
  max_reserved_id :: u128
  id_db :: 'db

text \<open>The value is as long as the name of its key, which has sixteen characters.  The bound moves whether
  or not the database takes it.\<close>
definition uuid_batch_reserve :: "'db leveldb \<Rightarrow> 'db id_manager \<Rightarrow> (int \<times> 'db id_manager) option" where
  "uuid_batch_reserve L s = do {
     let m = max_reserved_id s + kUUIDReserveBatchSize;
     (ret, d) \<leftarrow> put_keys L [\<lparr>kv_key = Buf NEXT_FILE_ID_KEY,
       kv_val = Buf (take (length NEXT_FILE_ID_KEY) (uint128_to_buf m))\<rparr>] 1 (id_db s);
     Some (ret, s\<lparr>max_reserved_id := m, id_db := d\<rparr>)
   }"

text \<open>The static variables as the program starts with them.\<close>
definition id_boot :: "'db \<Rightarrow> 'db id_manager" where
  "id_boot d = \<lparr>next_file_id = push_bit 64 1 + 1, max_reserved_id = 0, id_db = d\<rparr>"

definition initialize_id_manager :: "'db leveldb \<Rightarrow> 'db id_manager \<Rightarrow> (int \<times> 'db id_manager) option" where
  "initialize_id_manager L s = do {
     (ret, kvs) \<leftarrow> get_keys L [\<lparr>kv_key = Buf NEXT_FILE_ID_KEY, kv_val = Wild\<rparr>] 1 (id_db s);
     if ret \<noteq> 0 then Some (ret, s)
     else do {
       v \<leftarrow> read_ptr (kv_val (hd kvs));
       n \<leftarrow> (if length v > 0 then buf_to_uint128 v else Some (next_file_id s));
       uuid_batch_reserve L (s\<lparr>next_file_id := n, max_reserved_id := n\<rparr>) }
   }"

definition generate_file_id :: "'db leveldb \<Rightarrow> 'db id_manager \<Rightarrow> (bytes option \<times> 'db id_manager) option" where
  "generate_file_id L s = do {
     c_assert (max_reserved_id s \<noteq> 0);
     (ret, s) \<leftarrow> (if next_file_id s = max_reserved_id s then uuid_batch_reserve L s else Some (0, s));
     if ret \<noteq> 0 then Some (None, s)
     else Some (Some (uint128_to_buf (next_file_id s)), s\<lparr>next_file_id := next_file_id s + 1\<rparr>)
   }"

partial_function (option) reserve_above ::
  "'db leveldb \<Rightarrow> u128 \<Rightarrow> 'db id_manager \<Rightarrow> 'db id_manager option"
where
  "reserve_above L new_next s =
     (if new_next \<ge> max_reserved_id s
      then do {
        (ret, s) \<leftarrow> uuid_batch_reserve L s;
        if ret \<noteq> 0 then None else reserve_above L new_next s }
      else Some s)"

declare reserve_above.simps [code]

definition uuid_allocate :: "'db leveldb \<Rightarrow> int \<Rightarrow> 'db id_manager \<Rightarrow> (uuid \<times> 'db id_manager) option" where
  "uuid_allocate L n s = do {
     let new_next = next_file_id s + word_of_int n;
     s \<leftarrow> reserve_above L new_next s;
     Some (uuid_of_u128 (next_file_id s), s\<lparr>next_file_id := new_next\<rparr>)
   }"

section \<open>Round trips\<close>

lemma length_le_bytes [simp]: "length (le_bytes k n) = k"
  by (induction k arbitrary: n) simp_all

lemma le_nat_le_bytes: "le_nat (le_bytes k n) = n mod 256 ^ k"
  by (induction k arbitrary: n) (simp_all add: mod_mult2_eq)

lemma unat_128_less: "unat (n :: u128) < 256 ^ 16"
proof -
  have "unat n < 2 ^ LENGTH(128)" by (rule unsigned_less)
  then show ?thesis by simp
qed

lemma buf_of_uint128 [simp]: "buf_to_uint128 (uint128_to_buf n) = Some n"
  using unat_128_less [of n] by (simp add: buf_to_uint128_def uint128_to_buf_def le_nat_le_bytes)

lemma length_uint128_to_buf [simp]: "length (uint128_to_buf n) = 16"
  by (simp add: uint128_to_buf_def)

lemma unat_u128_of_uuid: "unat (u128_of_uuid u) = 2 ^ 64 * unat (uuid_hi u) + unat (uuid_lo u)"
proof -
  have h: "unat (uuid_hi u) < 2 ^ LENGTH(64)" and l: "unat (uuid_lo u) < 2 ^ LENGTH(64)"
    by (rule unsigned_less)+
  have a: "unat (ucast (uuid_hi u) :: u128) = unat (uuid_hi u)" "unat (ucast (uuid_lo u) :: u128) = unat (uuid_lo u)"
    using h l by (simp_all add: unsigned_ucast_eq take_bit_nat_eq_self)
  have "unat (push_bit 64 (ucast (uuid_hi u)) :: u128) = 2 ^ 64 * unat (uuid_hi u)"
    using h by (simp add: push_bit_eq_mult unat_word_ariths a)
  then show ?thesis
    using h l by (simp add: u128_of_uuid_def unat_word_ariths a)
qed

lemma uuid_of_u128_of_uuid [simp]: "uuid_of_u128 (u128_of_uuid u) = u"
proof -
  have l: "unat (uuid_lo u) < 2 ^ LENGTH(64)" by (rule unsigned_less)
  have h: "unat (uuid_hi u) < 2 ^ LENGTH(64)" by (rule unsigned_less)
  have "unat (ucast (u128_of_uuid u) :: u64) = unat (uuid_lo u)"
    using l by (simp add: unsigned_ucast_eq unat_u128_of_uuid take_bit_eq_mod)
  moreover have "unat (ucast (drop_bit 64 (u128_of_uuid u)) :: u64) = unat (uuid_hi u)"
    using l h by (simp add: unsigned_ucast_eq drop_bit_eq_div unat_div unat_u128_of_uuid take_bit_eq_mod)
  ultimately show ?thesis by (simp add: uuid_of_u128_def word_unat_eq_iff)
qed

lemma uint128_to_buf_nonempty [simp]: "uint128_to_buf n \<noteq> []"
  by (metis length_uint128_to_buf list.size(3) zero_neq_numeral)

lemma uuid_u128 [simp]: "u128_of_uuid (uuid_of_u128 n) = n"
proof -
  have "ucast (ucast n :: u64) = take_bit 64 n"
    by (rule bit_word_eqI) (auto simp: bit_simps)
  moreover have "ucast (ucast (drop_bit 64 n) :: u64) = drop_bit 64 n"
    by (rule bit_word_eqI) (auto simp: bit_simps dest: bit_imp_le_length)
  ultimately show ?thesis by (simp add: u128_of_uuid_def uuid_of_u128_def bits_ident)
qed


section \<open>Running the generator\<close>

datatype id_event = Generate | Allocate nat | Restart

text \<open>The ids that an event hands out.\<close>
fun id_step :: "'db leveldb \<Rightarrow> id_event \<Rightarrow> 'db id_manager \<Rightarrow> (u128 list \<times> 'db id_manager) option" where
  "id_step L Generate s = do {
     (b, s) \<leftarrow> generate_file_id L s;
     (case b of
        None \<Rightarrow> Some ([], s)
      | Some buf \<Rightarrow> do { n \<leftarrow> buf_to_uint128 buf; Some ([n], s) }) }"
| "id_step L (Allocate n) s = do {
     (u, s) \<leftarrow> uuid_allocate L (int n) s;
     Some (map (\<lambda>i. u128_of_uuid u + word_of_nat i) [0..<n], s) }"
| "id_step L Restart s = do { (ret, s) \<leftarrow> initialize_id_manager L (id_boot (id_db s)); Some ([], s) }"

fun id_run :: "'db leveldb \<Rightarrow> id_event list \<Rightarrow> 'db id_manager \<Rightarrow> (u128 list \<times> 'db id_manager) option" where
  "id_run L [] s = Some ([], s)"
| "id_run L (e # es) s = do {
     (xs, s) \<leftarrow> id_step L e s;
     (ys, s) \<leftarrow> id_run L es s;
     Some (xs @ ys, s) }"

text \<open>How far an event can move the bound.\<close>
fun id_cost :: "id_event \<Rightarrow> nat" where
  "id_cost Generate = 4096"
| "id_cost (Allocate n) = n + 4096"
| "id_cost Restart = 4096"

definition id_ok :: "('db \<Rightarrow> bytes \<rightharpoonup> bytes) \<Rightarrow> 'db id_manager \<Rightarrow> bool" where
  "id_ok view s \<longleftrightarrow> view (id_db s) NEXT_FILE_ID_KEY = Some (uint128_to_buf (max_reserved_id s)) \<and>
     unat (next_file_id s) \<le> unat (max_reserved_id s) \<and> 2 ^ 64 < unat (next_file_id s)"

lemma unat_add_small:
  assumes "unat (a :: u128) + n < 2 ^ 128"
  shows "unat (a + word_of_nat n) = unat a + n"
  using assms by (simp add: unat_word_ariths unat_of_nat take_bit_nat_eq_self)

lemma reserve_ok:
  assumes "leveldb_ok L view" "never_fails L" "unat (max_reserved_id s) + 4096 < 2 ^ 128"
  shows "\<exists>s'. uuid_batch_reserve L s = Some (0, s') \<and> next_file_id s' = next_file_id s \<and>
    unat (max_reserved_id s') = unat (max_reserved_id s) + 4096 \<and>
    view (id_db s') NEXT_FILE_ID_KEY = Some (uint128_to_buf (max_reserved_id s'))"
proof -
  let ?m = "max_reserved_id s + kUUIDReserveBatchSize"
  have m: "unat ?m = unat (max_reserved_id s) + 4096"
    using unat_add_small [OF assms(3)] by (simp add: kUUIDReserveBatchSize_def)
  obtain d where "put_keys L [kv NEXT_FILE_ID_KEY (uint128_to_buf ?m)] 1 (id_db s) = Some (0, d)"
      "view d = (view (id_db s))(NEXT_FILE_ID_KEY \<mapsto> uint128_to_buf ?m)"
    using put_one [OF assms(1,2)] by blast
  with m show ?thesis by (simp add: uuid_batch_reserve_def Let_def NEXT_FILE_ID_KEY_def)
qed

text \<open>The loop of the allocation ends, with the bound above what is asked for and not too far above it.\<close>
lemma reserve_above_ends:
  assumes "leveldb_ok L view" "never_fails L" "unat t + 4096 < 2 ^ 128"
    and "unat (max_reserved_id s) \<le> M" "unat t + 4096 \<le> M" "M < 2 ^ 128"
    and "view (id_db s) NEXT_FILE_ID_KEY = Some (uint128_to_buf (max_reserved_id s))"
  shows "\<exists>s'. reserve_above L t s = Some s' \<and> next_file_id s' = next_file_id s \<and>
    unat t < unat (max_reserved_id s') \<and> unat (max_reserved_id s') \<le> M \<and>
    view (id_db s') NEXT_FILE_ID_KEY = Some (uint128_to_buf (max_reserved_id s'))"
  using assms(4,7)
proof (induction "unat t + 1 - unat (max_reserved_id s)" arbitrary: s rule: less_induct)
  case less
  show ?case
  proof (cases "max_reserved_id s \<le> t")
    case False
    then show ?thesis using less.prems by (simp add: reserve_above.simps word_le_nat_alt)
  next
    case True
    then have le: "unat (max_reserved_id s) \<le> unat t" by (simp add: word_le_nat_alt)
    obtain s1 where s1: "uuid_batch_reserve L s = Some (0, s1)" "next_file_id s1 = next_file_id s"
        "unat (max_reserved_id s1) = unat (max_reserved_id s) + 4096"
        "view (id_db s1) NEXT_FILE_ID_KEY = Some (uint128_to_buf (max_reserved_id s1))"
      using reserve_ok [OF assms(1,2), of s] le assms(3) by auto
    have "unat t + 1 - unat (max_reserved_id s1) < unat t + 1 - unat (max_reserved_id s)"
      "unat (max_reserved_id s1) \<le> M" using le s1(3) assms(5) by simp_all
    from less.hyps [OF this s1(4)] obtain s' where "reserve_above L t s1 = Some s'" "next_file_id s' = next_file_id s1"
        "unat t < unat (max_reserved_id s')" "unat (max_reserved_id s') \<le> M"
        "view (id_db s') NEXT_FILE_ID_KEY = Some (uint128_to_buf (max_reserved_id s'))" by blast
    then show ?thesis using True s1(1,2) by (subst reserve_above.simps) simp
  qed
qed

definition id_step_ok :: "('db \<Rightarrow> bytes \<rightharpoonup> bytes) \<Rightarrow> nat \<Rightarrow> 'db id_manager \<Rightarrow> u128 list \<Rightarrow> 'db id_manager \<Rightarrow> bool" where
  "id_step_ok view cost s ids s' \<longleftrightarrow> id_ok view s' \<and> unat (next_file_id s) \<le> unat (next_file_id s') \<and>
     unat (max_reserved_id s') \<le> unat (max_reserved_id s) + cost \<and> distinct ids \<and>
     (\<forall>i \<in> set ids. unat (next_file_id s) \<le> unat i \<and> unat i < unat (next_file_id s'))"

lemma generate_step:
  assumes "leveldb_ok L view" "never_fails L" "id_ok view s" "unat (max_reserved_id s) + 4096 < 2 ^ 128"
  shows "\<exists>ids s'. id_step L Generate s = Some (ids, s') \<and> id_step_ok view 4096 s ids s'"
proof -
  obtain s1 where s1: "(if next_file_id s = max_reserved_id s then uuid_batch_reserve L s else Some (0, s)) = Some (0, s1)"
      "next_file_id s1 = next_file_id s" "unat (next_file_id s) < unat (max_reserved_id s1)"
      "unat (max_reserved_id s1) \<le> unat (max_reserved_id s) + 4096"
      "view (id_db s1) NEXT_FILE_ID_KEY = Some (uint128_to_buf (max_reserved_id s1))"
  proof (cases "next_file_id s = max_reserved_id s")
    case True
    with reserve_ok [OF assms(1,2,4)] show thesis by (auto intro: that)
  next
    case False
    with assms(3) have "unat (next_file_id s) < unat (max_reserved_id s)"
      by (metis id_ok_def le_neq_implies_less word_unat_eq_iff)
    with False assms(3) show thesis by (intro that [of s]) (simp_all add: id_ok_def)
  qed
  have "max_reserved_id s \<noteq> 0" using assms(3) by (auto simp: id_ok_def)
  moreover have "unat (next_file_id s + 1) = unat (next_file_id s) + 1"
    using unat_add_small [of "next_file_id s" 1] s1(3,4) assms(4) by simp
  ultimately show ?thesis
    using s1 assms(3) by (simp add: generate_file_id_def id_step_ok_def id_ok_def)
qed

lemma allocate_step:
  assumes "leveldb_ok L view" "never_fails L" "id_ok view s" "unat (max_reserved_id s) + (n + 4096) < 2 ^ 128"
  shows "\<exists>ids s'. id_step L (Allocate n) s = Some (ids, s') \<and> id_step_ok view (n + 4096) s ids s'"
proof -
  let ?t = "next_file_id s + word_of_nat n"
  have nx: "unat (next_file_id s) \<le> unat (max_reserved_id s)" using assms(3) by (simp add: id_ok_def)
  have t: "unat (next_file_id s + word_of_nat i) = unat (next_file_id s) + i" if "i \<le> n" for i
    using unat_add_small [of "next_file_id s" i] nx assms(4) that by simp
  obtain s1 where s1: "reserve_above L ?t s = Some s1" "next_file_id s1 = next_file_id s"
      "unat ?t < unat (max_reserved_id s1)" "unat (max_reserved_id s1) \<le> unat (max_reserved_id s) + (n + 4096)"
      "view (id_db s1) NEXT_FILE_ID_KEY = Some (uint128_to_buf (max_reserved_id s1))"
    using reserve_above_ends [OF assms(1,2), of ?t s "unat (max_reserved_id s) + (n + 4096)"] t [of n] nx assms(3,4)
    by (auto simp: id_ok_def)
  have "inj_on (\<lambda>i. next_file_id s + word_of_nat i) {0..<n}"
    using t by (intro inj_onI) (metis add_left_cancel atLeastLessThan_iff less_imp_le)
  then show ?thesis
    using s1 t assms(3) by (auto simp: uuid_allocate_def Let_def id_step_ok_def id_ok_def distinct_map)
qed

lemma restart_step:
  assumes "leveldb_ok L view" "never_fails L" "id_ok view s" "unat (max_reserved_id s) + 4096 < 2 ^ 128"
  shows "\<exists>ids s'. id_step L Restart s = Some (ids, s') \<and> id_step_ok view 4096 s ids s'"
proof -
  let ?s = "(id_boot (id_db s))\<lparr>next_file_id := max_reserved_id s, max_reserved_id := max_reserved_id s\<rparr>"
  obtain s1 where "uuid_batch_reserve L ?s = Some (0, s1)" "next_file_id s1 = max_reserved_id s"
      "unat (max_reserved_id s1) = unat (max_reserved_id s) + 4096"
      "view (id_db s1) NEXT_FILE_ID_KEY = Some (uint128_to_buf (max_reserved_id s1))"
    using reserve_ok [OF assms(1,2), of ?s] assms(4) by auto
  then show ?thesis
    using assms(3) by (simp add: initialize_id_manager_def get_one [OF assms(1)] id_boot_def id_step_ok_def id_ok_def)
qed

lemma id_step_total:
  assumes "leveldb_ok L view" "never_fails L" "id_ok view s" "unat (max_reserved_id s) + id_cost e < 2 ^ 128"
  shows "\<exists>ids s'. id_step L e s = Some (ids, s') \<and> id_step_ok view (id_cost e) s ids s'"
  using assms generate_step [OF assms(1-3)] allocate_step [OF assms(1-3)] restart_step [OF assms(1-3)]
  by (cases e) (simp_all del: id_step.simps)

lemma id_run_total:
  assumes "leveldb_ok L view" "never_fails L"
  shows "id_ok view s \<Longrightarrow> unat (max_reserved_id s) + sum_list (map id_cost es) < 2 ^ 128 \<Longrightarrow>
    \<exists>ids s'. id_run L es s = Some (ids, s') \<and> id_step_ok view (sum_list (map id_cost es)) s ids s'"
proof (induction es arbitrary: s)
  case Nil
  then show ?case by (simp add: id_step_ok_def)
next
  case (Cons e es)
  obtain xs s1 where 1: "id_step L e s = Some (xs, s1)" "id_step_ok view (id_cost e) s xs s1"
    using id_step_total [OF assms Cons.prems(1), of e] Cons.prems(2) by auto
  then obtain ys s2 where 2: "id_run L es s1 = Some (ys, s2)" "id_step_ok view (sum_list (map id_cost es)) s1 ys s2"
    using Cons.IH [of s1] Cons.prems(2) by (auto simp: id_step_ok_def)
  have "id_step_ok view (sum_list (map id_cost (e # es))) s (xs @ ys) s2"
    using 1(2) 2(2) unfolding id_step_ok_def by fastforce
  with 1(1) 2(1) show ?case by simp
qed

lemma first_start:
  assumes "leveldb_ok L view" "never_fails L" "view d NEXT_FILE_ID_KEY = None"
  shows "\<exists>s'. id_step L Restart (id_boot d) = Some ([], s') \<and> id_ok view s' \<and>
    unat (max_reserved_id s') = 2 ^ 64 + 4097"
proof -
  let ?s = "(id_boot d)\<lparr>next_file_id := push_bit 64 1 + 1, max_reserved_id := push_bit 64 1 + 1\<rparr>"
  obtain s1 where "uuid_batch_reserve L ?s = Some (0, s1)" "next_file_id s1 = push_bit 64 1 + 1"
      "unat (max_reserved_id s1) = 2 ^ 64 + 4097"
      "view (id_db s1) NEXT_FILE_ID_KEY = Some (uint128_to_buf (max_reserved_id s1))"
    using reserve_ok [OF assms(1,2), of ?s] by auto
  then show ?thesis
    using assms(3) by (simp add: initialize_id_manager_def get_one [OF assms(1)] id_boot_def id_ok_def)
qed

text \<open>C10. No file id is handed out twice: from an empty database, under any sequence of single ids, batches
  and restarts that lose the memory, every call returns, all ids handed out are different, and none is
  the root id or one of the reserved ids, as long as fewer than about \<open>2\<^sup>1\<^sup>2\<^sup>8\<close> ids are used.\<close>
theorem ids_never_repeat:
  assumes "leveldb_ok L view" "never_fails L" "view d NEXT_FILE_ID_KEY = None"
    and "sum_list (map id_cost es) < 2 ^ 128 - 2 ^ 64 - 4097"
  shows "\<exists>ids s'. id_run L (Restart # es) (id_boot d) = Some (ids, s') \<and> distinct ids \<and>
    (\<forall>i \<in> set ids. unat root_file_id < unat i)"
proof -
  obtain s where s: "id_step L Restart (id_boot d) = Some ([], s)" "id_ok view s"
      "unat (max_reserved_id s) = 2 ^ 64 + 4097"
    using first_start [OF assms(1-3)] by blast
  obtain ids s' where r: "id_run L es s = Some (ids, s')" "id_step_ok view (sum_list (map id_cost es)) s ids s'"
    using id_run_total [OF assms(1,2) s(2), of es] s(3) assms(4) by auto
  have "unat root_file_id = 2 ^ 64" by (simp add: root_file_id_def)
  with r s(1,2) show ?thesis by (auto simp: id_step_ok_def id_ok_def simp del: id_step.simps)
qed

theorem ids_never_repeat_witness:
  "\<exists>ids s'. id_run map_db [Restart, Generate, Allocate 5000, Restart, Generate] (id_boot Map.empty) = Some (ids, s') \<and>
     distinct ids \<and> (\<forall>i \<in> set ids. unat root_file_id < unat i)"
  using ids_never_repeat [OF map_db_ok map_db_never_fails, of Map.empty "[Generate, Allocate 5000, Restart, Generate]"]
  by (simp del: id_run.simps)

text \<open>C39. A reservation that the database refuses is forgotten: the caller is told of the failure once, and
  the next call hands out an id that the stored bound does not cover, so a restart repeats it.\<close>
theorem refused_reservation_forgotten:
  assumes "leveldb_ok L view" "id_ok view s" "generate_file_id L s = Some (None, s1)"
  shows "view (id_db s1) NEXT_FILE_ID_KEY = Some (uint128_to_buf (next_file_id s)) \<and>
    (max_reserved_id s1 \<noteq> 0 \<longrightarrow>
       (\<exists>s2. generate_file_id L s1 = Some (Some (uint128_to_buf (next_file_id s)), s2) \<and> id_db s2 = id_db s1))"
proof -
  have e: "next_file_id s = max_reserved_id s" "max_reserved_id s \<noteq> 0"
    using assms(3) by (auto simp: generate_file_id_def abort_simps split: if_splits)
  obtain ret where r: "uuid_batch_reserve L s = Some (ret, s1)" "ret \<noteq> 0"
    using assms(3) e by (auto simp: generate_file_id_def abort_simps split: if_splits)
  have s1: "next_file_id s1 = next_file_id s" "max_reserved_id s1 = max_reserved_id s + 4096"
      "view (id_db s1) = view (id_db s)"
    using r leveldb_writeD [OF assms(1)]
    by (auto simp: uuid_batch_reserve_def kUUIDReserveBatchSize_def put_keys_def abort_simps Let_def
        split: prod.splits if_splits)
  show ?thesis using s1 e assms(2) by (auto simp: generate_file_id_def id_ok_def)
qed

text \<open>A database that refuses every write.\<close>
definition read_only_db :: "(bytes \<rightharpoonup> bytes) leveldb" where
  "read_only_db = map_db\<lparr>leveldb_write := (\<lambda>d b. (Some ''read only'', d))\<rparr>"

theorem refused_reservation_forgotten_witness:
  "let n = push_bit 64 1 + 4097;
       s = \<lparr>next_file_id = n, max_reserved_id = n, id_db = [NEXT_FILE_ID_KEY \<mapsto> uint128_to_buf n]\<rparr>
   in \<exists>s1 s2. generate_file_id read_only_db s = Some (None, s1) \<and>
     generate_file_id read_only_db s1 = Some (Some (uint128_to_buf n), s2)"
proof -
  let ?n = "push_bit 64 1 + 4097 :: u128"
  let ?s = "\<lparr>next_file_id = ?n, max_reserved_id = ?n, id_db = [NEXT_FILE_ID_KEY \<mapsto> uint128_to_buf ?n]\<rparr>"
  have ok: "leveldb_ok read_only_db (\<lambda>d. d)" by (simp add: leveldb_ok_def read_only_db_def map_db_def)
  have i: "id_ok (\<lambda>d. d) ?s" by (simp add: id_ok_def)
  have g: "\<exists>s1. generate_file_id read_only_db ?s = Some (None, s1) \<and> max_reserved_id s1 \<noteq> 0"
    by (simp add: generate_file_id_def uuid_batch_reserve_def put_keys_def read_only_db_def kUUIDReserveBatchSize_def)
  then obtain s1 where s1: "generate_file_id read_only_db ?s = Some (None, s1)" "max_reserved_id s1 \<noteq> 0" by blast
  from refused_reservation_forgotten [OF ok i s1(1)] s1 show ?thesis by (auto simp: Let_def)
qed

text \<open>C29. The numbers survive their encodings: as a buffer of sixteen bytes and as a structure of two
  halves, whose halves are the ones the accessors return.\<close>
theorem uuid_roundtrip:
  "buf_to_uuid (uuid_to_buf u) = Some u \<and> uuid_of_u128 (u128_of_uuid u) = u \<and>
   get_lower_half (uuid_to_buf u) = Some (uuid_lo u) \<and> get_upper_half (uuid_to_buf u) = Some (uuid_hi u) \<and>
   length (uuid_to_buf u) = 16 \<and> (uuid_is_null u \<longleftrightarrow> u = uuid_null)"
proof -
  have "ucast (u128_of_uuid u) = uuid_lo u" "ucast (drop_bit 64 (u128_of_uuid u)) = uuid_hi u"
    using uuid_of_u128_of_uuid [of u] by (simp_all add: uuid_of_u128_def uuid.defs) (metis uuid.select_convs)+
  then show ?thesis
    by (simp add: buf_to_uuid_def uuid_to_buf_def get_lower_half_def get_upper_half_def uuid_is_null_def uuid_null_def
        null_file_id_def uuid_of_u128_def) (auto intro: uuid.equality)
qed

end
