(* ===== verification/Txn_Logger.thy ===== *)
theory Txn_Logger
  imports Txn_Id_Manager
begin

text \<open>
  The undo log of a transaction and its conversion to and from the protocol buffer messages of
  \<open>txn/txn.proto\<close> (\<open>txn/txn_logger.cpp\<close>, \<open>include/txn_logger.h\<close>).

  A message is a record of its fields; an optional sub-message is an option, a repeated field a list.
  An array of the log is a list with its count in a separate field, as the loops use the counts.  Paths
  and names are the bytes in their arrays.  Reading a C string stops at the first zero byte: a uuid
  handed over as a C string is read on into the type that follows it in the structure.  Reading behind
  the terminator of a string, writing behind the end of an array and a null string have the abort value.
  The functions that build a message from a compound are not called and are not modelled.
\<close>

section \<open>The log\<close>

datatype fs_object_type = ft_None | ft_File | ft_Directory | ft_Symlink | ft_Hardlink
datatype compound_type =
  txn_VNone | txn_VCreate | txn_VMkdir | txn_VWrite | txn_VRename | txn_VUnlink | txn_VSymlink

record object_id =
  oid_id :: bytes
  oid_type :: fs_object_type

record created_object =
  co_base :: object_id
  co_path :: bytes
  co_allocated :: object_id

record unlink_id =
  ul_parent :: object_id
  ul_name :: bytes

record symlink_id =
  sl_src_path :: bytes
  sl_parent :: object_id
  sl_name :: bytes

text \<open>In freshly allocated memory the fields that are options are \<open>None\<close>.\<close>
record file_id =
  fid_data :: bytes
  fid_type :: fs_object_type
  fid_flags :: "int option"

record rename_id =
  rn_src_path :: bytes
  rn_dst_path :: bytes
  rn_src_fileid :: file_id
  rn_dst_fileid :: "file_id option"
  rn_is_directory :: "bool option"

record txn_log =
  tl_txn_id :: u64
  created_file_ids :: "created_object list"
  created_unlink_ids :: "unlink_id list"
  created_symlink_ids :: "symlink_id list"
  created_rename_ids :: "rename_id list"
  num_files :: nat
  num_unlinks :: nat
  num_symlinks :: nat
  num_renames :: nat
  tl_compound_type :: compound_type
  backup_dir_path :: "bytes option"

section \<open>The messages\<close>

datatype pb_file_type = FT_NONE | FT_FILE | FT_DIRECTORY | FT_SYMLINK | FT_HARDLINK

record pb_object_id =
  pbo_uuid :: bytes
  pbo_type :: pb_file_type

record pb_created_object =
  pbc_base :: pb_object_id
  pbc_path :: bytes
  pbc_allocated_id :: pb_object_id

record pb_unlink =
  pbu_parent_id :: pb_object_id
  pbu_name :: bytes

record pb_symlink =
  pbs_src_path :: bytes
  pbs_parent_id :: pb_object_id
  pbs_name :: bytes

record pb_file_id =
  pbf_id :: bytes
  pbf_type :: pb_file_type

record pb_rename =
  pbr_src_path :: bytes
  pbr_dst_path :: bytes
  pbr_src_fileid :: pb_file_id
  pbr_dst_fileid :: "pb_file_id option"
  pbr_is_directory :: "bool option"

record pb_transaction_log =
  pb_id :: u64
  pb_type :: txn_type
  pb_creates :: "pb_created_object list option"
  pb_mkdirs :: "pb_created_object list option"
  pb_writes :: "(bytes \<times> pb_created_object list) option"
  pb_renames :: "(pb_rename list \<times> bytes) option"
  pb_unlinks :: "(bytes \<times> pb_unlink list) option"
  pb_symlinks :: "pb_symlink list option"

definition pb_empty :: pb_transaction_log where
  "pb_empty = \<lparr>pb_id = 0, pb_type = NONE, pb_creates = None, pb_mkdirs = None, pb_writes = None,
     pb_renames = None, pb_unlinks = None, pb_symlinks = None\<rparr>"

section \<open>Conversions of values\<close>

fun get_file_type_txn :: "fs_object_type \<Rightarrow> pb_file_type" where
  "get_file_type_txn ft_None = FT_NONE"
| "get_file_type_txn ft_File = FT_FILE"
| "get_file_type_txn ft_Directory = FT_DIRECTORY"
| "get_file_type_txn ft_Symlink = FT_SYMLINK"
| "get_file_type_txn ft_Hardlink = FT_HARDLINK"

fun get_file_type :: "pb_file_type \<Rightarrow> fs_object_type" where
  "get_file_type FT_NONE = ft_None"
| "get_file_type FT_FILE = ft_File"
| "get_file_type FT_DIRECTORY = ft_Directory"
| "get_file_type FT_SYMLINK = ft_Symlink"
| "get_file_type FT_HARDLINK = ft_Hardlink"

text \<open>The value of the enumeration, which follows the uuid in memory.\<close>
fun type_num :: "fs_object_type \<Rightarrow> nat" where
  "type_num ft_None = 0"
| "type_num ft_File = 1"
| "type_num ft_Directory = 2"
| "type_num ft_Symlink = 3"
| "type_num ft_Hardlink = 4"

definition c_string :: "bytes \<Rightarrow> bytes" where
  "c_string b = takeWhile (\<lambda>c. c \<noteq> CHR 0x00) b"

definition set_object_id :: "object_id \<Rightarrow> pb_object_id" where
  "set_object_id o1 = \<lparr>pbo_uuid = c_string (oid_id o1 @ le_bytes 4 (type_num (oid_type o1))),
     pbo_type = get_file_type_txn (oid_type o1)\<rparr>"

text \<open>\<open>memcpy\<close> of sixteen bytes out of the string and its terminator.\<close>
definition get_object_id :: "pb_object_id \<Rightarrow> object_id option" where
  "get_object_id p =
     (if length (pbo_uuid p) + 1 < TXN_UUID_LEN then None
      else Some \<lparr>oid_id = take TXN_UUID_LEN (pbo_uuid p @ [CHR 0x00]), oid_type = get_file_type (pbo_type p)\<rparr>)"

text \<open>\<open>strcpy\<close> into an array of \<open>cap\<close> bytes.\<close>
definition copy_string :: "nat \<Rightarrow> bytes \<Rightarrow> bytes option" where
  "copy_string cap b = (if length (c_string b) < cap then Some (c_string b) else None)"

abbreviation LOG_PATH_MAX :: nat where "LOG_PATH_MAX \<equiv> 4096"
abbreviation LOG_NAME_MAX :: nat where "LOG_NAME_MAX \<equiv> 255"

definition set_created :: "created_object \<Rightarrow> pb_created_object" where
  "set_created x = \<lparr>pbc_base = set_object_id (co_base x), pbc_path = c_string (co_path x),
     pbc_allocated_id = set_object_id (co_allocated x)\<rparr>"

definition get_created :: "pb_created_object \<Rightarrow> created_object option" where
  "get_created p = do {
     b \<leftarrow> get_object_id (pbc_base p);
     a \<leftarrow> get_object_id (pbc_allocated_id p);
     s \<leftarrow> copy_string LOG_PATH_MAX (pbc_path p);
     Some \<lparr>co_base = b, co_path = s, co_allocated = a\<rparr>
   }"

text \<open>The first \<open>n\<close> elements of an array.\<close>
definition array_take :: "nat \<Rightarrow> 'a list \<Rightarrow> 'a list option" where
  "array_take n xs = (if n \<le> length xs then Some (take n xs) else None)"

fun map_all :: "('a \<Rightarrow> 'b option) \<Rightarrow> 'a list \<Rightarrow> 'b list option" where
  "map_all f [] = Some []"
| "map_all f (x # xs) = do { y \<leftarrow> f x; ys \<leftarrow> map_all f xs; Some (y # ys) }"

section \<open>Serialisation\<close>

text \<open>The elements a repeated field of an optional sub-message already has.\<close>
definition repeated :: "'a list option \<Rightarrow> 'a list" where
  "repeated m = (case m of None \<Rightarrow> [] | Some xs \<Rightarrow> xs)"

text \<open>The sub-message is created by the first round of the loop.\<close>
definition serialize_create_txn :: "txn_log \<Rightarrow> pb_transaction_log \<Rightarrow> pb_transaction_log option" where
  "serialize_create_txn t p = do {
     xs \<leftarrow> array_take (num_files t) (created_file_ids t);
     Some (p\<lparr>pb_type := VCREATE,
       pb_creates := (if xs = [] then pb_creates p else Some (repeated (pb_creates p) @ map set_created xs))\<rparr>)
   }"

definition serialize_mkdir_txn :: "txn_log \<Rightarrow> pb_transaction_log \<Rightarrow> pb_transaction_log option" where
  "serialize_mkdir_txn t p = do {
     xs \<leftarrow> array_take (num_files t) (created_file_ids t);
     Some (p\<lparr>pb_type := VMKDIR,
       pb_mkdirs := (if xs = [] then pb_mkdirs p else Some (repeated (pb_mkdirs p) @ map set_created xs))\<rparr>)
   }"

definition serialize_write_txn :: "txn_log \<Rightarrow> pb_transaction_log \<Rightarrow> pb_transaction_log option" where
  "serialize_write_txn t p = do {
     xs \<leftarrow> array_take (num_files t) (created_file_ids t);
     if xs = [] then Some (p\<lparr>pb_type := VWRITE\<rparr>)
     else do {
       b \<leftarrow> backup_dir_path t;
       Some (p\<lparr>pb_type := VWRITE, pb_writes := Some (c_string b, repeated (map_option snd (pb_writes p)) @ map set_created xs)\<rparr>) }
   }"

definition serialize_unlink_txn :: "txn_log \<Rightarrow> pb_transaction_log \<Rightarrow> pb_transaction_log option" where
  "serialize_unlink_txn t p = do {
     b \<leftarrow> backup_dir_path t;
     xs \<leftarrow> array_take (num_unlinks t) (created_unlink_ids t);
     Some (p\<lparr>pb_type := VUNLINK, pb_unlinks := Some (c_string b, repeated (map_option snd (pb_unlinks p)) @
       map (\<lambda>x. \<lparr>pbu_parent_id = set_object_id (ul_parent x), pbu_name = c_string (ul_name x)\<rparr>) xs)\<rparr>)
   }"

text \<open>The loop counts the unlinks.\<close>
definition serialize_symlink_txn :: "txn_log \<Rightarrow> pb_transaction_log \<Rightarrow> pb_transaction_log option" where
  "serialize_symlink_txn t p = do {
     xs \<leftarrow> array_take (num_unlinks t) (created_symlink_ids t);
     Some (p\<lparr>pb_type := VSYMLINK, pb_symlinks := Some (repeated (pb_symlinks p) @ map (\<lambda>x. \<lparr>pbs_src_path = c_string (sl_src_path x),
       pbs_parent_id = set_object_id (sl_parent x), pbs_name = c_string (sl_name x)\<rparr>) xs)\<rparr>)
   }"

definition set_file_id :: "file_id \<Rightarrow> pb_file_id" where
  "set_file_id f = \<lparr>pbf_id = c_string (fid_data f), pbf_type = get_file_type_txn (fid_type f)\<rparr>"

definition set_rename :: "rename_id \<Rightarrow> pb_rename option" where
  "set_rename x = do {
     d \<leftarrow> rn_is_directory x;
     f \<leftarrow> rn_dst_fileid x;
     Some \<lparr>pbr_src_path = c_string (rn_src_path x), pbr_dst_path = c_string (rn_dst_path x),
       pbr_src_fileid = set_file_id (rn_src_fileid x), pbr_dst_fileid = Some (set_file_id f),
       pbr_is_directory = Some d\<rparr>
   }"

text \<open>The backup directory is not written; it is the empty string when it is read back.\<close>
definition serialize_rename_txn :: "txn_log \<Rightarrow> pb_transaction_log \<Rightarrow> pb_transaction_log option" where
  "serialize_rename_txn t p = do {
     xs \<leftarrow> array_take (num_renames t) (created_rename_ids t);
     ys \<leftarrow> map_all set_rename xs;
     Some (p\<lparr>pb_type := VRENAME, pb_renames := Some (repeated (map_option fst (pb_renames p)) @ ys,
       repeated (map_option snd (pb_renames p)))\<rparr>)
   }"

definition txn_log_to_pb :: "txn_log \<Rightarrow> pb_transaction_log \<Rightarrow> (int \<times> pb_transaction_log) option" where
  "txn_log_to_pb t p = (let p = p\<lparr>pb_id := tl_txn_id t\<rparr> in
     map_option (\<lambda>p. (0, p)) (case tl_compound_type t of
       txn_VNone \<Rightarrow> Some (p\<lparr>pb_type := NONE\<rparr>)
     | txn_VCreate \<Rightarrow> serialize_create_txn t p
     | txn_VMkdir \<Rightarrow> serialize_mkdir_txn t p
     | txn_VWrite \<Rightarrow> serialize_write_txn t p
     | txn_VRename \<Rightarrow> serialize_rename_txn t p
     | txn_VUnlink \<Rightarrow> serialize_unlink_txn t p
     | txn_VSymlink \<Rightarrow> serialize_symlink_txn t p))"

section \<open>Deserialisation\<close>

definition deserialize_create_txn :: "pb_transaction_log \<Rightarrow> txn_log \<Rightarrow> txn_log option" where
  "deserialize_create_txn p t =
     (let t = t\<lparr>tl_compound_type := txn_VCreate\<rparr> in
      case pb_creates p of
        None \<Rightarrow> Some t
      | Some os \<Rightarrow> do {
          xs \<leftarrow> map_all get_created os;
          Some (t\<lparr>num_files := length os, created_file_ids := xs\<rparr>) })"

definition deserialize_mkdir_txn :: "pb_transaction_log \<Rightarrow> txn_log \<Rightarrow> txn_log option" where
  "deserialize_mkdir_txn p t =
     (let t = t\<lparr>tl_compound_type := txn_VMkdir\<rparr> in
      case pb_mkdirs p of
        None \<Rightarrow> Some t
      | Some os \<Rightarrow> do {
          xs \<leftarrow> map_all get_created os;
          Some (t\<lparr>num_files := length os, created_file_ids := xs\<rparr>) })"

definition deserialize_write_txn :: "pb_transaction_log \<Rightarrow> txn_log \<Rightarrow> txn_log option" where
  "deserialize_write_txn p t =
     (let t = t\<lparr>tl_compound_type := txn_VWrite\<rparr> in
      case pb_writes p of
        None \<Rightarrow> Some t
      | Some (b, os) \<Rightarrow> do {
          xs \<leftarrow> map_all get_created os;
          Some (t\<lparr>backup_dir_path := Some (c_string b), num_files := length os, created_file_ids := xs\<rparr>) })"

definition get_unlink :: "pb_unlink \<Rightarrow> unlink_id option" where
  "get_unlink x = do {
     i \<leftarrow> get_object_id (pbu_parent_id x);
     n \<leftarrow> copy_string LOG_NAME_MAX (pbu_name x);
     Some \<lparr>ul_parent = i, ul_name = n\<rparr>
   }"

definition deserialize_unlink_txn :: "pb_transaction_log \<Rightarrow> txn_log \<Rightarrow> txn_log option" where
  "deserialize_unlink_txn p t =
     (let t = t\<lparr>tl_compound_type := txn_VUnlink\<rparr> in
      case pb_unlinks p of
        None \<Rightarrow> Some t
      | Some (b, os) \<Rightarrow> do {
          xs \<leftarrow> map_all get_unlink os;
          Some (t\<lparr>backup_dir_path := Some (c_string b), num_unlinks := length os, created_unlink_ids := xs\<rparr>) })"

definition get_symlink :: "pb_symlink \<Rightarrow> symlink_id option" where
  "get_symlink x = do {
     s \<leftarrow> copy_string LOG_PATH_MAX (pbs_src_path x);
     i \<leftarrow> get_object_id (pbs_parent_id x);
     n \<leftarrow> copy_string LOG_NAME_MAX (pbs_name x);
     Some \<lparr>sl_src_path = s, sl_parent = i, sl_name = n\<rparr>
   }"

definition deserialize_symlink_txn :: "pb_transaction_log \<Rightarrow> txn_log \<Rightarrow> txn_log option" where
  "deserialize_symlink_txn p t =
     (let t = t\<lparr>tl_compound_type := txn_VSymlink\<rparr> in
      case pb_symlinks p of
        None \<Rightarrow> Some t
      | Some os \<Rightarrow> do {
          xs \<leftarrow> map_all get_symlink os;
          Some (t\<lparr>num_symlinks := length os, created_symlink_ids := xs\<rparr>) })"

definition get_file_id :: "pb_file_id \<Rightarrow> file_id" where
  "get_file_id f = \<lparr>fid_data = c_string (pbf_id f), fid_type = get_file_type (pbf_type f), fid_flags = None\<rparr>"

definition get_rename :: "pb_rename \<Rightarrow> rename_id" where
  "get_rename x = \<lparr>rn_src_path = c_string (pbr_src_path x), rn_dst_path = c_string (pbr_dst_path x),
     rn_src_fileid = get_file_id (pbr_src_fileid x), rn_dst_fileid = map_option get_file_id (pbr_dst_fileid x),
     rn_is_directory = pbr_is_directory x\<rparr>"

definition deserialize_rename_txn :: "pb_transaction_log \<Rightarrow> txn_log \<Rightarrow> txn_log option" where
  "deserialize_rename_txn p t =
     (let t = t\<lparr>tl_compound_type := txn_VRename\<rparr> in
      case pb_renames p of
        None \<Rightarrow> Some t
      | Some (os, b) \<Rightarrow> Some (t\<lparr>num_renames := length os, created_rename_ids := map get_rename os,
          backup_dir_path := Some (c_string b)\<rparr>))"

definition txn_log_from_pb :: "pb_transaction_log \<Rightarrow> txn_log \<Rightarrow> (int \<times> txn_log) option" where
  "txn_log_from_pb p t = (let t = t\<lparr>tl_txn_id := pb_id p\<rparr> in
     case pb_type p of
       NONE \<Rightarrow> Some (0, t\<lparr>tl_compound_type := txn_VNone\<rparr>)
     | VCREATE \<Rightarrow> map_option (\<lambda>t. (0, t)) (deserialize_create_txn p t)
     | VMKDIR \<Rightarrow> map_option (\<lambda>t. (0, t)) (deserialize_mkdir_txn p t)
     | VWRITE \<Rightarrow> map_option (\<lambda>t. (0, t)) (deserialize_write_txn p t)
     | VRENAME \<Rightarrow> map_option (\<lambda>t. (0, t)) (deserialize_rename_txn p t)
     | VUNLINK \<Rightarrow> map_option (\<lambda>t. (0, t)) (deserialize_unlink_txn p t)
     | VSYMLINK \<Rightarrow> map_option (\<lambda>t. (0, t)) (deserialize_symlink_txn p t)
     | VOPEN \<Rightarrow> Some (- 1, t))"

section \<open>Reading back what was written\<close>

abbreviation nul_free :: "bytes \<Rightarrow> bool" where "nul_free b \<equiv> CHR 0x00 \<notin> set b"

lemma c_string_nul_free [simp]: "nul_free b \<Longrightarrow> c_string b = b"
  unfolding c_string_def by (subst takeWhile_eq_all_conv) auto

lemma nul_free_c_string [simp]: "nul_free (c_string b)"
  unfolding c_string_def by (auto dest: set_takeWhileD)

lemma c_string_append: "c_string (a @ b) = (if nul_free a then a @ c_string b else c_string a)"
  unfolding c_string_def by (auto simp: takeWhile_append)

lemma length_c_string: "length (c_string b) \<le> length b"
  by (simp add: c_string_def length_takeWhile_le)

lemma get_file_type_inverse [simp]: "get_file_type (get_file_type_txn ty) = ty"
  by (cases ty) simp_all

text \<open>A uuid is read back unless one of its first fifteen bytes is zero.\<close>
lemma object_id_roundtrip:
  assumes "length (oid_id x) = 16"
  shows "get_object_id (set_object_id x) = (if nul_free (take 15 (oid_id x)) then Some x else None)"
proof -
  obtain a c where a: "oid_id x = a @ [c]" "length a = 15"
    using assms by (cases "oid_id x" rule: rev_cases) auto
  then have "take 15 (oid_id x) = a" by simp
  note a = a this
  show ?thesis
  proof (cases "nul_free a")
    case True
    have "take (Suc 0) (c_string (c # r)) @ take (Suc 0 - length (c_string (c # r))) [CHR 0x00] = [c]" for r
      by (simp add: c_string_def)
    with True a show ?thesis
      by (simp add: get_object_id_def set_object_id_def c_string_append object_id.equality)
  next
    case False
    have "length (c_string a) < 15"
    proof (rule ccontr)
      assume "\<not> length (c_string a) < 15"
      then have "length (c_string a) = length a" using a(2) length_c_string [of a] by simp
      then have "c_string a = a" unfolding c_string_def by (metis takeWhile_dropWhile_id append_Nil2 append_eq_append_conv)
      with False nul_free_c_string [of a] show False by simp
    qed
    with False a show ?thesis by (simp add: get_object_id_def set_object_id_def c_string_append)
  qed
qed

definition oid_ok :: "object_id \<Rightarrow> bool" where
  "oid_ok x \<longleftrightarrow> length (oid_id x) = 16 \<and> nul_free (take 15 (oid_id x))"

definition created_ok :: "created_object \<Rightarrow> bool" where
  "created_ok x \<longleftrightarrow> oid_ok (co_base x) \<and> oid_ok (co_allocated x) \<and> nul_free (co_path x) \<and> length (co_path x) < LOG_PATH_MAX"

definition unlink_ok :: "unlink_id \<Rightarrow> bool" where
  "unlink_ok x \<longleftrightarrow> oid_ok (ul_parent x) \<and> nul_free (ul_name x) \<and> length (ul_name x) < LOG_NAME_MAX"

lemma oid_back: "oid_ok x \<Longrightarrow> get_object_id (set_object_id x) = Some x"
  by (simp add: object_id_roundtrip oid_ok_def)

lemma created_back: "created_ok x \<Longrightarrow> get_created (set_created x) = Some x"
  by (simp add: created_ok_def get_created_def set_created_def oid_back copy_string_def)

lemma map_all_back:
  "list_all P xs \<Longrightarrow> (\<And>x. P x \<Longrightarrow> g (f x) = Some x) \<Longrightarrow> map_all g (map f xs) = Some xs"
  by (induction xs) auto

lemma unlink_back:
  "unlink_ok x \<Longrightarrow> get_unlink \<lparr>pbu_parent_id = set_object_id (ul_parent x), pbu_name = c_string (ul_name x)\<rparr> = Some x"
  by (simp add: unlink_ok_def get_unlink_def oid_back copy_string_def)

lemma array_take_all [simp]: "array_take (length xs) xs = Some xs"
  by (simp add: array_take_def)

definition zero_log :: txn_log where
  "zero_log = \<lparr>tl_txn_id = 0, created_file_ids = [], created_unlink_ids = [], created_symlink_ids = [],
     created_rename_ids = [], num_files = 0, num_unlinks = 0, num_symlinks = 0, num_renames = 0,
     tl_compound_type = txn_VNone, backup_dir_path = None\<rparr>"

text \<open>A log of one kind, with nothing in the arrays of the others.\<close>
inductive log_ok :: "txn_log \<Rightarrow> bool" where
  log_none: "log_ok (zero_log\<lparr>tl_txn_id := i\<rparr>)"
| log_files: "ty = txn_VCreate \<or> ty = txn_VMkdir \<Longrightarrow> list_all created_ok xs \<Longrightarrow>
    log_ok (zero_log\<lparr>tl_txn_id := i, tl_compound_type := ty, created_file_ids := xs, num_files := length xs\<rparr>)"
| log_write: "xs \<noteq> [] \<Longrightarrow> list_all created_ok xs \<Longrightarrow> nul_free b \<Longrightarrow>
    log_ok (zero_log\<lparr>tl_txn_id := i, tl_compound_type := txn_VWrite, created_file_ids := xs, num_files := length xs,
      backup_dir_path := Some b\<rparr>)"
| log_unlink: "list_all unlink_ok us \<Longrightarrow> nul_free b \<Longrightarrow>
    log_ok (zero_log\<lparr>tl_txn_id := i, tl_compound_type := txn_VUnlink, created_unlink_ids := us, num_unlinks := length us,
      backup_dir_path := Some b\<rparr>)"

lemmas to_pb_defs = txn_log_to_pb_def serialize_create_txn_def serialize_mkdir_txn_def serialize_write_txn_def
  serialize_unlink_txn_def serialize_symlink_txn_def serialize_rename_txn_def pb_empty_def repeated_def Let_def

lemmas from_pb_defs = txn_log_from_pb_def deserialize_create_txn_def deserialize_mkdir_txn_def
  deserialize_write_txn_def deserialize_unlink_txn_def deserialize_symlink_txn_def deserialize_rename_txn_def

text \<open>C25. A log of created files or directories, of writes or of unlinks is read back from its message as it
  was, when no uuid has a zero byte among its first fifteen and the names fit their arrays.\<close>
theorem txn_log_roundtrip:
  assumes "log_ok t"
  shows "\<exists>p. txn_log_to_pb t pb_empty = Some (0, p) \<and> txn_log_from_pb p zero_log = Some (0, t)"
proof -
  have c: "map_all get_created (map set_created xs) = Some xs" if "list_all created_ok xs" for xs
    by (rule map_all_back [OF that]) (rule created_back)
  have u: "map_all get_unlink (map (\<lambda>x. \<lparr>pbu_parent_id = set_object_id (ul_parent x), pbu_name = c_string (ul_name x)\<rparr>) xs) = Some xs"
    if "list_all unlink_ok xs" for xs by (rule map_all_back [OF that]) (rule unlink_back)
  from assms show ?thesis
  proof cases
    case (log_none i)
    then show ?thesis by (simp add: to_pb_defs from_pb_defs zero_log_def)
  next
    case (log_files ty xs i)
    then show ?thesis using c [of xs] by (auto simp: to_pb_defs from_pb_defs zero_log_def)
  next
    case (log_write xs b i)
    then show ?thesis using c [of xs] by (simp add: to_pb_defs from_pb_defs zero_log_def)
  next
    case (log_unlink us b i)
    then show ?thesis using u [of us] by (simp add: to_pb_defs from_pb_defs zero_log_def)
  qed
qed

definition demo_oid :: "char \<Rightarrow> object_id" where
  "demo_oid c = \<lparr>oid_id = replicate 16 c, oid_type = ft_Directory\<rparr>"

theorem txn_log_roundtrip_witness:
  "let t = zero_log\<lparr>tl_txn_id := 7, tl_compound_type := txn_VUnlink,
         created_unlink_ids := [\<lparr>ul_parent = demo_oid CHR ''x'', ul_name = ''f''\<rparr>], num_unlinks := 1,
         backup_dir_path := Some ''/bkp''\<rparr>
   in \<exists>p. txn_log_to_pb t pb_empty = Some (0, p) \<and> txn_log_from_pb p zero_log = Some (0, t)"
proof -
  let ?us = "[\<lparr>ul_parent = demo_oid CHR ''x'', ul_name = ''f''\<rparr>]"
  have "list_all unlink_ok ?us" by (simp add: unlink_ok_def oid_ok_def demo_oid_def)
  then have "log_ok (zero_log\<lparr>tl_txn_id := 7, tl_compound_type := txn_VUnlink, created_unlink_ids := ?us,
      num_unlinks := length ?us, backup_dir_path := Some ''/bkp''\<rparr>)" by (rule log_unlink) simp
  from txn_log_roundtrip [OF this] show ?thesis by (simp add: Let_def)
qed

text \<open>A log of symbolic links is written with the count of the unlinks: with none of those, the message
  has no link and the log that is read back is empty.\<close>
theorem symlink_log_lost:
  assumes "tl_compound_type t = txn_VSymlink" "num_unlinks t = 0"
  shows "\<exists>p t'. txn_log_to_pb t pb_empty = Some (0, p) \<and> txn_log_from_pb p zero_log = Some (0, t') \<and>
    num_symlinks t' = 0 \<and> created_symlink_ids t' = []"
  using assms by (simp add: to_pb_defs from_pb_defs array_take_def zero_log_def)

theorem symlink_log_lost_witness:
  "let t = zero_log\<lparr>tl_compound_type := txn_VSymlink, num_symlinks := 1,
         created_symlink_ids := [\<lparr>sl_src_path = ''/a'', sl_parent = demo_oid CHR ''x'', sl_name = ''l''\<rparr>]\<rparr>
   in num_symlinks t = 1 \<and> (\<exists>p t'. txn_log_to_pb t pb_empty = Some (0, p) \<and>
     txn_log_from_pb p zero_log = Some (0, t') \<and> num_symlinks t' = 0)"
  using symlink_log_lost [of "zero_log\<lparr>tl_compound_type := txn_VSymlink, num_symlinks := 1,
    created_symlink_ids := [\<lparr>sl_src_path = ''/a'', sl_parent = demo_oid CHR ''x'', sl_name = ''l''\<rparr>]\<rparr>"]
  by (auto simp: Let_def zero_log_def)

end
