(* ===== verification/Sal_Clientid.thy ===== *)
theory Sal_Clientid
  imports Nfs4_Types
begin

text \<open>
  Client ids, client owner records and sessions (\<open>SAL/nfs4_clientid.c\<close>, \<open>SAL/nfs41_session_id.c\<close>,
  \<open>SAL/nfs4_lease.c\<close>, the reaper of \<open>MainNFSD/nfs_reaper_thread.c\<close> and \<open>nfs_release_v4_clients\<close> of
  \<open>SAL/nfs4_recovery.c\<close>).

  The objects are reference counted and point at each other, so they live in a store: an address
  is a number, each kind of object has a partial map from addresses to contents, and a released
  object is gone from its map.  A pointer to a released object is a read of \<open>None\<close>, which ends
  the computation: that is how a use after free shows.  The hash tables are partial maps from keys
  to addresses.  A hash table operation fails only for the reason that its key is present or
  absent.  The union \<open>cid_cb\<close> is a datatype; an access to the member that is not the one in use is
  also \<open>None\<close>.

  The owners of a client with their locks, opens, layouts and delegations, and the records of the
  recovery database, are a state \<open>'o\<close> that is reached through the functions of \<open>client_env\<close>.  A
  reference count is an integer: \<open>2\<^sup>3\<^sup>1\<close> references to one object are not considered.  The locks are
  not modelled: every function is one atomic step.
\<close>

unbundle bit_operations_syntax

section \<open>Data\<close>

datatype nfs_clientid_confirm_state_t =
    UNCONFIRMED_CLIENT_ID | CONFIRMED_CLIENT_ID | EXPIRED_CLIENT_ID | STALE_CLIENT_ID

datatype clientid_status_t =
    CLIENT_ID_SUCCESS | CLIENT_ID_INSERT_MALLOC_ERROR | CLIENT_ID_INVALID_ARGUMENT
  | CLIENT_ID_EXPIRED | CLIENT_ID_STALE

text \<open>\<open>nfs_client_cred_t\<close>: \<open>AUTH_UNIX\<close> with user and group, \<open>RPCSEC_GSS\<close> with the address of the
  context, any other flavor with the bytes that are compared.\<close>
datatype nfs_client_cred_t = AUTH_UNIX u32 u32 | RPCSEC_GSS nat | OTHER_FLAVOR int bytes

text \<open>The two members of \<open>cid_cb\<close>: the callback information of NFSv4.0 (\<open>cb_chan_clnt\<close> tells whether the
  channel has a client handle) and the list of sessions of NFSv4.1.\<close>
record cb_v40_t =
  cb_chan_clnt :: bool
  cb_callback_ident :: u32
  cb_client_r_addr :: bytes
  cb_program :: u32
  cb_chan_down :: bool

record cb_v41_t =
  cid_reclaim_complete :: bool
  cb_session_list :: "nat list"

datatype cid_cb_t = v40 cb_v40_t | v41 cb_v41_t

lemma returns_case_cid_cb [returns_cases]:
  "(\<And>cb. x = v40 cb \<Longrightarrow> returns (f cb) P) \<Longrightarrow> (\<And>cb. x = v41 cb \<Longrightarrow> returns (g cb) P) \<Longrightarrow>
    returns (case x of v40 cb \<Rightarrow> f cb | v41 cb \<Rightarrow> g cb) P"
  by (cases x) simp_all

record nfs_client_id_t =
  cid_clientid :: u64
  cid_verifier :: bytes
  cid_incoming_verifier :: bytes
  cid_last_renew :: int
  cid_confirmed :: nfs_clientid_confirm_state_t
  cid_allow_reclaim :: bool
  cid_credential :: nfs_client_cred_t
  cid_recov_tag :: "bytes option"
  cid_client_record :: "nat option"
  cid_cb :: cid_cb_t
  first_path_down_resp_time :: int
  cid_create_session_sequence :: u32
  cid_create_session_slot :: "nfsstat4 \<times> nfs_resop4_u"
  cid_refcount :: int
  cid_lease_reservations :: int
  cid_minorversion :: nat
  curr_deleg_grants :: u32
  cid_gsh_client :: "nat option"

record nfs_client_record_t =
  cr_refcount :: int
  cr_confirmed_rec :: "nat option"
  cr_unconfirmed_rec :: "nat option"
  cr_server_addr :: u32
  cr_pnfs_flags :: u32
  cr_client_val :: bytes

record nfs41_session_slot_t =
  slot_sequence :: u32
  slot_cached_result :: compound4res
  slot_res_cached :: bool

text \<open>\<open>num_conn\<close> is the length of \<open>connections\<close>.  The callback slots and the back channel are left
  out but for the flag \<open>session_bc_up\<close>.\<close>
record nfs41_session =
  session_id :: bytes
  fore_channel_attrs :: channel_attrs4
  back_channel_attrs :: channel_attrs4
  connections :: "bytes list"
  clientid_record :: nat
  session_clientid :: u64
  session_cb_program :: u32
  session_bc_up :: bool
  session_refcount :: int
  nb_slots :: u32
  fc_slots :: "nfs41_session_slot_t list"

text \<open>The three stores, the four tables, the counters and the clock; \<open>next_addr\<close> is the address
  of the next object.\<close>
record 'o client_world =
  clients :: "nat \<Rightarrow> nfs_client_id_t option"
  records :: "nat \<Rightarrow> nfs_client_record_t option"
  sessions :: "nat \<Rightarrow> nfs41_session option"
  ht_confirmed_client_id :: "u64 \<Rightarrow> nat option"
  ht_unconfirmed_client_id :: "u64 \<Rightarrow> nat option"
  ht_client_record :: "u64 \<times> u32 \<times> bytes \<Rightarrow> nat option"
  ht_session_id :: "bytes \<Rightarrow> nat option"
  clientid_counter :: u32
  clientid_verifier :: u64
  global_sequence :: u64
  reclaim_completes :: int
  now :: int
  next_addr :: nat
  owners :: 'o

text \<open>The configuration, CityHash, the name of the host (\<open>None\<close> when it cannot be read), GSS name comparison, the callback channels, and the code on owners and on
  the recovery database: the release of everything a client holds (\<open>None\<close> when it does not return), the list
  of its open owners, whether an owner has state, and the three calls of the recovery database.\<close>
record 'o client_env =
  lease_lifetime :: int
  param_nb_slots :: u32
  allow_delegations :: bool
  pnfs_mds :: bool
  pnfs_ds :: bool
  ServerEpoch :: u64
  CityHash64WithSeed :: "bytes \<Rightarrow> u64 \<Rightarrow> u64"
  hostname :: "bytes option"
  gss_same_name :: "nat \<Rightarrow> nat \<Rightarrow> bool"
  cb_chan_up :: "nat \<Rightarrow> bool"
  test_cb_chan :: "nat \<Rightarrow> bool"
  create_chan_v41 :: "nat \<Rightarrow> bool"
  release_owners :: "nat \<Rightarrow> 'o \<Rightarrow> 'o option"
  openowners :: "nat \<Rightarrow> 'o \<Rightarrow> nat list"
  owner_has_state :: "nat \<Rightarrow> 'o \<Rightarrow> bool"
  cid_owner_has_state :: "nat \<Rightarrow> 'o \<Rightarrow> bool"
  add_clid :: "nfs_client_id_t \<Rightarrow> 'o \<Rightarrow> bytes option \<times> 'o"
  rm_clid :: "nfs_client_id_t \<Rightarrow> 'o \<Rightarrow> 'o"
  chk_clid :: "nfs_client_id_t \<Rightarrow> 'o \<Rightarrow> bool"

section \<open>Error codes, credentials, leases\<close>

fun clientid_error_to_nfsstat :: "clientid_status_t \<Rightarrow> nfsstat4" where
  "clientid_error_to_nfsstat CLIENT_ID_SUCCESS = NFS4_OK"
| "clientid_error_to_nfsstat CLIENT_ID_INSERT_MALLOC_ERROR = NFS4ERR_RESOURCE"
| "clientid_error_to_nfsstat CLIENT_ID_INVALID_ARGUMENT = NFS4ERR_SERVERFAULT"
| "clientid_error_to_nfsstat CLIENT_ID_EXPIRED = NFS4ERR_EXPIRED"
| "clientid_error_to_nfsstat CLIENT_ID_STALE = NFS4ERR_STALE_CLIENTID"

definition clientid_error_to_nfsstat_no_expire :: "clientid_status_t \<Rightarrow> nfsstat4" where
  "clientid_error_to_nfsstat_no_expire err =
     (let rc = clientid_error_to_nfsstat err in if rc = NFS4ERR_EXPIRED then NFS4ERR_STALE_CLIENTID else rc)"

fun nfs_compare_clientcred :: "'o client_env \<Rightarrow> nfs_client_cred_t \<Rightarrow> nfs_client_cred_t \<Rightarrow> bool" where
  "nfs_compare_clientcred E (AUTH_UNIX u g) (AUTH_UNIX u' g') = (u = u' \<and> g = g')"
| "nfs_compare_clientcred E (RPCSEC_GSS a) (RPCSEC_GSS b) = gss_same_name E a b"
| "nfs_compare_clientcred E (OTHER_FLAVOR f a) (OTHER_FLAVOR f' b) = (f = f' \<and> memcmp a b (length a) = 0)"
| "nfs_compare_clientcred E _ _ = False"

text \<open>The rest of the lease in seconds, zero when it has run out.\<close>
definition lease_seconds :: "'o client_env \<Rightarrow> int \<Rightarrow> nfs_client_id_t \<Rightarrow> int" where
  "lease_seconds E t c =
     (if cid_confirmed c = EXPIRED_CLIENT_ID then 0
      else if cid_lease_reservations c \<noteq> 0 then lease_lifetime E
      else if cid_last_renew c + lease_lifetime E > t then cid_last_renew c + lease_lifetime E - t
      else 0)"

definition valid_lease :: "'o client_env \<Rightarrow> int \<Rightarrow> nfs_client_id_t \<Rightarrow> bool" where
  "valid_lease E t c \<longleftrightarrow> lease_seconds E t c \<noteq> 0"

definition mod_client ::
  "nat \<Rightarrow> (nfs_client_id_t \<Rightarrow> nfs_client_id_t) \<Rightarrow> 'o client_world \<Rightarrow> 'o client_world option"
where
  "mod_client a f w = map_option (\<lambda>c. w\<lparr>clients := (clients w)(a \<mapsto> f c)\<rparr>) (clients w a)"

definition mod_record ::
  "nat \<Rightarrow> (nfs_client_record_t \<Rightarrow> nfs_client_record_t) \<Rightarrow> 'o client_world \<Rightarrow> 'o client_world option"
where
  "mod_record a f w = map_option (\<lambda>r. w\<lparr>records := (records w)(a \<mapsto> f r)\<rparr>) (records w a)"

definition mod_session ::
  "nat \<Rightarrow> (nfs41_session \<Rightarrow> nfs41_session) \<Rightarrow> 'o client_world \<Rightarrow> 'o client_world option"
where
  "mod_session a f w = map_option (\<lambda>s. w\<lparr>sessions := (sessions w)(a \<mapsto> f s)\<rparr>) (sessions w a)"

definition reserve_lease :: "'o client_env \<Rightarrow> nat \<Rightarrow> 'o client_world \<Rightarrow> (bool \<times> 'o client_world) option" where
  "reserve_lease E a w = do {
     c \<leftarrow> clients w a;
     let valid = valid_lease E (now w) c;
     w \<leftarrow> (if valid then mod_client a (cid_lease_reservations_update (\<lambda>n. n + 1)) w else Some w);
     Some (valid, w) }"

definition update_lease :: "nat \<Rightarrow> 'o client_world \<Rightarrow> 'o client_world option" where
  "update_lease a w = mod_client a (\<lambda>c.
     let c = c\<lparr>cid_lease_reservations := cid_lease_reservations c - 1\<rparr>
     in if cid_lease_reservations c = 0 then c\<lparr>cid_last_renew := now w\<rparr> else c) w"

section \<open>References\<close>

definition inc_client_id_ref :: "nat \<Rightarrow> 'o client_world \<Rightarrow> 'o client_world option" where
  "inc_client_id_ref a = mod_client a (cid_refcount_update (\<lambda>n. n + 1))"

definition inc_client_record_ref :: "nat \<Rightarrow> 'o client_world \<Rightarrow> 'o client_world option" where
  "inc_client_record_ref a = mod_record a (cr_refcount_update (\<lambda>n. n + 1))"

definition inc_session_ref :: "nat \<Rightarrow> 'o client_world \<Rightarrow> 'o client_world option" where
  "inc_session_ref a = mod_session a (session_refcount_update (\<lambda>n. n + 1))"

text \<open>The key of a client record: two keys are the same for the table when their hash values are
  equal and \<open>compare_client_record\<close> finds no difference.  The hash covers the address of the server, the
  comparison does not.\<close>
definition client_record_value_hash :: "'o client_env \<Rightarrow> nfs_client_record_t \<Rightarrow> u64" where
  "client_record_value_hash E r =
     CityHash64WithSeed E (cr_client_val r) (push_bit 32 (ucast (cr_pnfs_flags r)) OR ucast (cr_server_addr r))"

definition client_record_key :: "'o client_env \<Rightarrow> nfs_client_record_t \<Rightarrow> u64 \<times> u32 \<times> bytes" where
  "client_record_key E r = (client_record_value_hash E r, cr_pnfs_flags r, cr_client_val r)"

definition dec_client_record_ref :: "'o client_env \<Rightarrow> nat \<Rightarrow> 'o client_world \<Rightarrow> 'o client_world option" where
  "dec_client_record_ref E a w = do {
     w \<leftarrow> mod_record a (cr_refcount_update (\<lambda>n. n - 1)) w;
     r \<leftarrow> records w a;
     if cr_refcount r > 0 then Some w
     else do {
       c_assert (cr_refcount r = 0);
       let key = client_record_key E r;
       let w = (if ht_client_record w key = Some a
                then w\<lparr>ht_client_record := (ht_client_record w)(key := None)\<rparr> else w);
       Some (w\<lparr>records := (records w)(a := None)\<rparr>) } }"

text \<open>The release of a reference to a session may release its client id, whose release deletes the
  sessions that are still linked to it, so the functions call each other.\<close>
datatype unref =
    Dec_session nat
  | Session_Del bytes
  | Dec_client nat
  | Free_client nat
  | Delete_sessions "nat list"

definition session_list :: "nfs_client_id_t \<Rightarrow> nat list option" where
  "session_list c = (case cid_cb c of v40 _ \<Rightarrow> None | v41 cb \<Rightarrow> Some (cb_session_list cb))"

definition mod_session_list :: "(nat list \<Rightarrow> nat list) \<Rightarrow> nfs_client_id_t \<Rightarrow> nfs_client_id_t" where
  "mod_session_list f c = (case cid_cb c of v40 _ \<Rightarrow> c | v41 cb \<Rightarrow> c\<lparr>cid_cb := v41 (cb_session_list_update f cb)\<rparr>)"

text \<open>A change of the list of sessions of a client.\<close>
definition relink :: "nat \<Rightarrow> (nat list \<Rightarrow> nat list) \<Rightarrow> 'o client_world \<Rightarrow> 'o client_world option" where
  "relink a f w = do { c \<leftarrow> clients w a; l \<leftarrow> session_list c; mod_client a (mod_session_list f) w }"

partial_function (option) release_ref :: "'o client_env \<Rightarrow> unref \<Rightarrow> 'o client_world \<Rightarrow> 'o client_world option" where
  "release_ref E u w = (case u of
     Dec_session a \<Rightarrow> do {
       w \<leftarrow> mod_session a (session_refcount_update (\<lambda>n. n - 1)) w;
       s \<leftarrow> sessions w a;
       if session_refcount s \<noteq> 0 then Some w
       else do {
         w \<leftarrow> relink (clientid_record s) (remove1 a) w;
         w \<leftarrow> release_ref E (Dec_client (clientid_record s)) w;
         Some (w\<lparr>sessions := (sessions w)(a := None)\<rparr>) } }
   | Session_Del i \<Rightarrow> (case ht_session_id w i of
         None \<Rightarrow> Some w
       | Some a \<Rightarrow> release_ref E (Dec_session a) (w\<lparr>ht_session_id := (ht_session_id w)(i := None)\<rparr>))
   | Dec_client a \<Rightarrow> do {
       w \<leftarrow> mod_client a (cid_refcount_update (\<lambda>n. n - 1)) w;
       c \<leftarrow> clients w a;
       if cid_refcount c > 0 then Some w
       else do { c_assert (cid_confirmed c = EXPIRED_CLIENT_ID); release_ref E (Free_client a) w } }
   | Free_client a \<Rightarrow> do {
       c \<leftarrow> clients w a;
       c_assert (cid_refcount c = 0);
       w \<leftarrow> (case cid_client_record c of None \<Rightarrow> Some w | Some r \<Rightarrow> dec_client_record_ref E r w);
       w \<leftarrow> (if cid_minorversion c > 0
             then do { l \<leftarrow> session_list c; release_ref E (Delete_sessions l) w } else Some w);
       Some (w\<lparr>clients := (clients w)(a := None)\<rparr>) }
   | Delete_sessions l \<Rightarrow> (case l of
         [] \<Rightarrow> Some w
       | a # l' \<Rightarrow> do {
           s \<leftarrow> sessions w a;
           w \<leftarrow> release_ref E (Session_Del (session_id s)) w;
           release_ref E (Delete_sessions l') w }))"

declare release_ref.simps [code]

text \<open>Induction over a release that returns.\<close>
lemma release_ref_induct [consumes 1, case_names dec dec_last absent delete dec_client last_client free none more]:
  assumes "release_ref E u w = Some w'"
    and dec: "\<And>a w w1 s. mod_session a (session_refcount_update (\<lambda>n. n - 1)) w = Some w1 \<Longrightarrow> sessions w1 a = Some s \<Longrightarrow>
      session_refcount s \<noteq> 0 \<Longrightarrow> P (Dec_session a) w w1"
    and dec_last: "\<And>a w w1 s w2 w3. mod_session a (session_refcount_update (\<lambda>n. n - 1)) w = Some w1 \<Longrightarrow>
      sessions w1 a = Some s \<Longrightarrow> session_refcount s = 0 \<Longrightarrow> relink (clientid_record s) (remove1 a) w1 = Some w2 \<Longrightarrow>
      release_ref E (Dec_client (clientid_record s)) w2 = Some w3 \<Longrightarrow> P (Dec_client (clientid_record s)) w2 w3 \<Longrightarrow>
      P (Dec_session a) w (w3\<lparr>sessions := (sessions w3)(a := None)\<rparr>)"
    and absent: "\<And>i w. ht_session_id w i = None \<Longrightarrow> P (Session_Del i) w w"
    and delete: "\<And>i w a w1. ht_session_id w i = Some a \<Longrightarrow>
      release_ref E (Dec_session a) (w\<lparr>ht_session_id := (ht_session_id w)(i := None)\<rparr>) = Some w1 \<Longrightarrow>
      P (Dec_session a) (w\<lparr>ht_session_id := (ht_session_id w)(i := None)\<rparr>) w1 \<Longrightarrow> P (Session_Del i) w w1"
    and dec_client: "\<And>a w w1 c. mod_client a (cid_refcount_update (\<lambda>n. n - 1)) w = Some w1 \<Longrightarrow> clients w1 a = Some c \<Longrightarrow>
      cid_refcount c > 0 \<Longrightarrow> P (Dec_client a) w w1"
    and last_client: "\<And>a w w1 c w2. mod_client a (cid_refcount_update (\<lambda>n. n - 1)) w = Some w1 \<Longrightarrow>
      clients w1 a = Some c \<Longrightarrow> cid_refcount c \<le> 0 \<Longrightarrow> cid_confirmed c = EXPIRED_CLIENT_ID \<Longrightarrow>
      release_ref E (Free_client a) w1 = Some w2 \<Longrightarrow> P (Free_client a) w1 w2 \<Longrightarrow> P (Dec_client a) w w2"
    and free: "\<And>a w c w1 l w2. clients w a = Some c \<Longrightarrow> cid_refcount c = 0 \<Longrightarrow>
      (case cid_client_record c of None \<Rightarrow> Some w | Some r \<Rightarrow> dec_client_record_ref E r w) = Some w1 \<Longrightarrow>
      (cid_minorversion c > 0 \<longrightarrow> session_list c = Some l \<and> release_ref E (Delete_sessions l) w1 = Some w2 \<and>
        P (Delete_sessions l) w1 w2) \<Longrightarrow> (cid_minorversion c = 0 \<longrightarrow> w2 = w1) \<Longrightarrow>
      P (Free_client a) w (w2\<lparr>clients := (clients w2)(a := None)\<rparr>)"
    and none: "\<And>w. P (Delete_sessions []) w w"
    and more: "\<And>a l w s w1 w2. sessions w a = Some s \<Longrightarrow> release_ref E (Session_Del (session_id s)) w = Some w1 \<Longrightarrow>
      P (Session_Del (session_id s)) w w1 \<Longrightarrow> release_ref E (Delete_sessions l) w1 = Some w2 \<Longrightarrow>
      P (Delete_sessions l) w1 w2 \<Longrightarrow> P (Delete_sessions (a # l)) w w2"
  shows "P u w w'"
proof -
  have "E' = E \<longrightarrow> release_ref E' u w = Some w' \<and> P u w w'" if "release_ref E' u w = Some w'" for E'
  proof (rule release_ref.raw_induct [where P = "\<lambda>E' u w w'. E' = E \<longrightarrow> release_ref E' u w = Some w' \<and> P u w w'", OF _ that],
      goal_cases)
    case (1 rel E' u w w')
    note IH = 1(1) and body = 1(2)
    have IH': "rel E u w = Some y \<Longrightarrow> release_ref E u w = Some y \<and> P u w y" for u w y
      using IH by blast
    show ?case
    proof
      assume "E' = E"
      note body = body [unfolded this]
      show "release_ref E' u w = Some w' \<and> P u w w'" unfolding \<open>E' = E\<close>
      proof (cases u)
        case (Dec_session a)
        obtain w1 s where m: "mod_session a (session_refcount_update (\<lambda>n. n - 1)) w = Some w1" "sessions w1 a = Some s"
          using body Dec_session by (auto simp: abort_simps)
        show "release_ref E u w = Some w' \<and> P u w w'"
        proof (cases "session_refcount s = 0")
          case True
          with body Dec_session m obtain w2 w3 where "relink (clientid_record s) (remove1 a) w1 = Some w2"
            "rel E (Dec_client (clientid_record s)) w2 = Some w3" "w' = w3\<lparr>sessions := (sessions w3)(a := None)\<rparr>"
            by (auto simp: abort_simps)
          with IH' dec_last [OF m True] m True Dec_session show ?thesis
            by (simp add: release_ref.simps [of E "Dec_session a"])
        qed (use body Dec_session m dec [OF m] in \<open>auto simp: release_ref.simps [of E "Dec_session a"]\<close>)
      next
        case (Session_Del i)
        with body IH' absent delete show "release_ref E u w = Some w' \<and> P u w w'"
          by (auto simp: release_ref.simps [of E "Session_Del i"] split: option.splits)
      next
        case (Dec_client a)
        obtain w1 c where m: "mod_client a (cid_refcount_update (\<lambda>n. n - 1)) w = Some w1" "clients w1 a = Some c"
          using body Dec_client by (auto simp: abort_simps)
        show "release_ref E u w = Some w' \<and> P u w w'"
        proof (cases "cid_refcount c > 0")
          case False
          with body Dec_client m have f: "cid_confirmed c = EXPIRED_CLIENT_ID" "rel E (Free_client a) w1 = Some w'"
            by (auto split: if_splits)
          with IH' [OF f(2)] last_client [OF m, of w'] m False Dec_client show ?thesis
            by (simp add: release_ref.simps [of E "Dec_client a"])
        qed (use body Dec_client m dec_client [OF m] in \<open>auto simp: release_ref.simps [of E "Dec_client a"]\<close>)
      next
        case (Free_client a)
        obtain c w1 where m: "clients w a = Some c" "cid_refcount c = 0"
          "(case cid_client_record c of None \<Rightarrow> Some w | Some r \<Rightarrow> dec_client_record_ref E r w) = Some w1"
          using body Free_client by (auto simp: abort_simps split: if_splits)
        show "release_ref E u w = Some w' \<and> P u w w'"
        proof (cases "cid_minorversion c > 0")
          case True
          with body Free_client m obtain l w2 where l: "session_list c = Some l" "rel E (Delete_sessions l) w1 = Some w2"
            "w' = w2\<lparr>clients := (clients w2)(a := None)\<rparr>"
            by (auto simp: abort_simps)
          with IH' [OF l(2)] free [OF m, of l w2] m True Free_client show ?thesis
            by (simp add: release_ref.simps [of E "Free_client a"])
        next
          case False
          with body Free_client m have "w' = w1\<lparr>clients := (clients w1)(a := None)\<rparr>" by simp
          with free [OF m, of _ w1] m False Free_client show ?thesis
            by (simp add: release_ref.simps [of E "Free_client a"])
        qed
      next
        case (Delete_sessions l)
        show "release_ref E u w = Some w' \<and> P u w w'"
        proof (cases l)
          case Nil
          then show ?thesis using body none Delete_sessions by (simp add: release_ref.simps [of E "Delete_sessions []"])
        next
          case (Cons a l')
          with body Delete_sessions obtain s w1 where m: "sessions w a = Some s"
            "rel E (Session_Del (session_id s)) w = Some w1" "rel E (Delete_sessions l') w1 = Some w'"
            by (auto simp: abort_simps)
          with IH' [OF m(2)] IH' [OF m(3)] more [OF m(1), of w1 l' w'] Cons Delete_sessions show ?thesis
            by (simp add: release_ref.simps [of E "Delete_sessions (a # l')"])
        qed
      qed
    qed
  qed
  with assms(1) show ?thesis by blast
qed

definition dec_session_ref :: "'o client_env \<Rightarrow> nat \<Rightarrow> 'o client_world \<Rightarrow> 'o client_world option" where
  "dec_session_ref E a w = release_ref E (Dec_session a) w"

definition dec_client_id_ref :: "'o client_env \<Rightarrow> nat \<Rightarrow> 'o client_world \<Rightarrow> 'o client_world option" where
  "dec_client_id_ref E a w = release_ref E (Dec_client a) w"

definition free_client_id :: "'o client_env \<Rightarrow> nat \<Rightarrow> 'o client_world \<Rightarrow> 'o client_world option" where
  "free_client_id E a w = release_ref E (Free_client a) w"

definition nfs41_Session_Del ::
  "'o client_env \<Rightarrow> bytes \<Rightarrow> 'o client_world \<Rightarrow> (bool \<times> 'o client_world) option"
where
  "nfs41_Session_Del E i w = map_option (Pair (ht_session_id w i \<noteq> None)) (release_ref E (Session_Del i) w)"

section \<open>The table of sessions\<close>

definition NFS41_MAX_CONNECTIONS :: nat where "NFS41_MAX_CONNECTIONS = 16"

text \<open>The bytes of a 64-bit number in memory.\<close>
definition mem64 :: "u64 \<Rightarrow> bytes" where
  "mem64 x = map (\<lambda>i. char_of (unat (drop_bit (8 * i) x))) [0..<8]"

text \<open>\<open>nfs41_Build_sessionid\<close>: the client id followed by the incremented counter.\<close>
definition nfs41_Build_sessionid :: "u64 \<Rightarrow> 'o client_world \<Rightarrow> bytes \<times> 'o client_world" where
  "nfs41_Build_sessionid clientid w =
     (let seq = global_sequence w + 1 in (mem64 clientid @ mem64 seq, w\<lparr>global_sequence := seq\<rparr>))"

definition nfs41_Session_Set :: "nat \<Rightarrow> 'o client_world \<Rightarrow> (bool \<times> 'o client_world) option" where
  "nfs41_Session_Set a w = do {
     s \<leftarrow> sessions w a;
     Some (if ht_session_id w (session_id s) \<noteq> None then (False, w)
           else (True, w\<lparr>ht_session_id := (ht_session_id w)(session_id s \<mapsto> a)\<rparr>)) }"

definition nfs41_Session_Get_Pointer :: "bytes \<Rightarrow> 'o client_world \<Rightarrow> (nat option \<times> 'o client_world) option" where
  "nfs41_Session_Get_Pointer i w =
     (case ht_session_id w i of
        None \<Rightarrow> Some (None, w)
      | Some a \<Rightarrow> map_option (Pair (Some a)) (inc_session_ref a w))"

text \<open>Whether the address of the request is bound to the session; with \<open>can_associate\<close> it is bound when
  there is room.\<close>
definition check_session_conn :: "nat \<Rightarrow> bytes \<Rightarrow> bool \<Rightarrow> 'o client_world \<Rightarrow> (bool \<times> 'o client_world) option" where
  "check_session_conn a addr can_associate w = do {
     s \<leftarrow> sessions w a;
     if addr \<in> set (connections s) then Some (True, w)
     else if \<not> can_associate \<or> length (connections s) = NFS41_MAX_CONNECTIONS then Some (False, w)
     else map_option (Pair True) (mod_session a (connections_update (\<lambda>cs. cs @ [addr])) w) }"

section \<open>Client ids\<close>

definition new_clientid :: "'o client_env \<Rightarrow> 'o client_world \<Rightarrow> u64 \<times> 'o client_world" where
  "new_clientid E w =
     (let newid = clientid_counter w + 1; epoch_low = ServerEpoch E AND 0xFFFFFFFF
      in (ucast newid + push_bit 32 epoch_low, w\<lparr>clientid_counter := newid\<rparr>))"

definition new_clientid_verifier :: "'o client_world \<Rightarrow> bytes \<times> 'o client_world" where
  "new_clientid_verifier w =
     (let v = clientid_verifier w + 1 in (mem64 v, w\<lparr>clientid_verifier := v\<rparr>))"

definition get_client_record ::
  "'o client_env \<Rightarrow> bytes \<Rightarrow> u32 \<Rightarrow> u32 \<Rightarrow> 'o client_world \<Rightarrow> (nat \<times> 'o client_world) option"
where
  "get_client_record E value pnfs_flags server_addr w = do {
     c_assert (value \<noteq> []);
     let r = \<lparr>cr_refcount = 1, cr_confirmed_rec = None, cr_unconfirmed_rec = None,
              cr_server_addr = server_addr, cr_pnfs_flags = pnfs_flags, cr_client_val = value\<rparr>;
     let key = client_record_key E r;
     let fresh = (next_addr w, w\<lparr>records := (records w)(next_addr w \<mapsto> r),
                                ht_client_record := (ht_client_record w)(key \<mapsto> next_addr w),
                                next_addr := next_addr w + 1\<rparr>);
     case ht_client_record w key of
       None \<Rightarrow> Some fresh
     | Some a \<Rightarrow> do {
         old \<leftarrow> records w a;
         if cr_refcount old + 1 = 1 then Some fresh
         else map_option (Pair a) (inc_client_record_ref a w) } }"

text \<open>\<open>create_client_id\<close>.  The record comes from the pool filled with zeros; the member of the union is
  the one of the minor version.\<close>
definition create_client_id ::
  "'o client_env \<Rightarrow> u64 \<Rightarrow> nat \<Rightarrow> nfs_client_cred_t \<Rightarrow> nat \<Rightarrow> nat option \<Rightarrow> 'o client_world
    \<Rightarrow> (nat \<times> 'o client_world) option"
where
  "create_client_id E clientid record_addr credential minorversion client w = do {
     let (clientid, w) = (if clientid = 0 then new_clientid E w else (clientid, w));
     let c = \<lparr>cid_clientid = clientid, cid_verifier = replicate 8 (CHR 0x00),
              cid_incoming_verifier = replicate 8 (CHR 0x00), cid_last_renew = now w,
              cid_confirmed = UNCONFIRMED_CLIENT_ID, cid_allow_reclaim = False, cid_credential = credential,
              cid_recov_tag = None, cid_client_record = Some record_addr,
              cid_cb = (if minorversion = 0
                        then v40 \<lparr>cb_chan_clnt = False, cb_callback_ident = 0, cb_client_r_addr = [],
                                  cb_program = 0, cb_chan_down = True\<rparr>
                        else v41 \<lparr>cid_reclaim_complete = False, cb_session_list = []\<rparr>),
              first_path_down_resp_time = 0, cid_create_session_sequence = 0,
              cid_create_session_slot = (NFS4_OK, RES_NONE), cid_refcount = 0, cid_lease_reservations = 0,
              cid_minorversion = minorversion, curr_deleg_grants = 0, cid_gsh_client = client\<rparr>;
     w \<leftarrow> inc_client_record_ref record_addr w;
     let a = next_addr w;
     Some (a, w\<lparr>clients := (clients w)(a \<mapsto> c), next_addr := a + 1\<rparr>) }"

definition nfs_client_id_insert ::
  "'o client_env \<Rightarrow> nat \<Rightarrow> 'o client_world \<Rightarrow> (clientid_status_t \<times> 'o client_world) option"
where
  "nfs_client_id_insert E a w = do {
     c \<leftarrow> clients w a;
     if ht_unconfirmed_client_id w (cid_clientid c) \<noteq> None
     then map_option (Pair CLIENT_ID_INSERT_MALLOC_ERROR) (free_client_id E a w)
     else do {
       let w = w\<lparr>ht_unconfirmed_client_id := (ht_unconfirmed_client_id w)(cid_clientid c \<mapsto> a)\<rparr>;
       w \<leftarrow> inc_client_id_ref a w;
       r \<leftarrow> cid_client_record c;
       w \<leftarrow> mod_record r (\<lambda>r. r\<lparr>cr_unconfirmed_rec := Some a\<rparr>) w;
       Some (CLIENT_ID_SUCCESS, w) } }"

text \<open>The removals report whether the id was in the table.\<close>
definition remove_confirmed_client_id ::
  "'o client_env \<Rightarrow> nat \<Rightarrow> 'o client_world \<Rightarrow> (bool \<times> 'o client_world) option"
where
  "remove_confirmed_client_id E a w = do {
     c \<leftarrow> clients w a;
     if ht_confirmed_client_id w (cid_clientid c) = None then Some (False, w)
     else do {
       let w = w\<lparr>ht_confirmed_client_id := (ht_confirmed_client_id w)(cid_clientid c := None)\<rparr>;
       w \<leftarrow> (case cid_client_record c of None \<Rightarrow> Some w
             | Some r \<Rightarrow> mod_record r (\<lambda>r. r\<lparr>cr_confirmed_rec := None\<rparr>) w);
       w \<leftarrow> mod_client a (\<lambda>c. c\<lparr>cid_confirmed := EXPIRED_CLIENT_ID\<rparr>) w;
       map_option (Pair True) (dec_client_id_ref E a w) } }"

definition remove_unconfirmed_client_id ::
  "'o client_env \<Rightarrow> nat \<Rightarrow> 'o client_world \<Rightarrow> (bool \<times> 'o client_world) option"
where
  "remove_unconfirmed_client_id E a w = do {
     c \<leftarrow> clients w a;
     if ht_unconfirmed_client_id w (cid_clientid c) = None then Some (False, w)
     else do {
       let w = w\<lparr>ht_unconfirmed_client_id := (ht_unconfirmed_client_id w)(cid_clientid c := None)\<rparr>;
       w \<leftarrow> (case cid_client_record c of None \<Rightarrow> Some w
             | Some r \<Rightarrow> mod_record r (\<lambda>r. r\<lparr>cr_unconfirmed_rec := None\<rparr>) w);
       w \<leftarrow> mod_client a (\<lambda>c. c\<lparr>cid_confirmed := EXPIRED_CLIENT_ID\<rparr>) w;
       map_option (Pair True) (dec_client_id_ref E a w) } }"

definition nfs_client_id_confirm ::
  "'o client_env \<Rightarrow> nat \<Rightarrow> 'o client_world \<Rightarrow> (clientid_status_t \<times> 'o client_world) option"
where
  "nfs_client_id_confirm E a w = do {
     c \<leftarrow> clients w a;
     r \<leftarrow> cid_client_record c;
     w \<leftarrow> mod_record r (\<lambda>r. r\<lparr>cr_unconfirmed_rec := None\<rparr>) w;
     case ht_unconfirmed_client_id w (cid_clientid c) of
       None \<Rightarrow> Some (CLIENT_ID_INVALID_ARGUMENT, w)
     | Some old \<Rightarrow> do {
         let w = w\<lparr>ht_unconfirmed_client_id := (ht_unconfirmed_client_id w)(cid_clientid c := None)\<rparr>;
         w \<leftarrow> mod_client a (\<lambda>c. c\<lparr>cid_confirmed := CONFIRMED_CLIENT_ID\<rparr>) w;
         if ht_confirmed_client_id w (cid_clientid c) \<noteq> None
         then do {
           w \<leftarrow> mod_client a (\<lambda>c. c\<lparr>cid_confirmed := EXPIRED_CLIENT_ID\<rparr>) w;
           map_option (Pair CLIENT_ID_INSERT_MALLOC_ERROR) (dec_client_id_ref E a w) }
         else do {
           let w = w\<lparr>ht_confirmed_client_id := (ht_confirmed_client_id w)(cid_clientid c \<mapsto> old)\<rparr>;
           w \<leftarrow> mod_record r (\<lambda>r. r\<lparr>cr_confirmed_rec := Some a\<rparr>) w;
           c \<leftarrow> clients w a;
           let (tag, os) = add_clid E c (owners w);
           w \<leftarrow> mod_client a (\<lambda>c. c\<lparr>cid_recov_tag := tag\<rparr>) w;
           Some (CLIENT_ID_SUCCESS, w\<lparr>owners := os\<rparr>) } } }"

definition client_id_has_state :: "'o client_env \<Rightarrow> nat \<Rightarrow> 'o client_world \<Rightarrow> bool" where
  "client_id_has_state E a w \<longleftrightarrow> openowners E a (owners w) \<noteq> [] \<and> cid_owner_has_state E a (owners w)"

definition clientid_has_state :: "'o client_env \<Rightarrow> nat \<Rightarrow> 'o client_world \<Rightarrow> bool" where
  "clientid_has_state E a w \<longleftrightarrow>
     list_ex (\<lambda>ow. owner_has_state E ow (owners w)) (openowners E a (owners w)) \<or> cid_owner_has_state E a (owners w)"

text \<open>The lookup refuses an id of another server epoch, and an id that was made stale.\<close>
definition nfs_client_id_get ::
  "'o client_env \<Rightarrow> (u64 \<Rightarrow> nat option) \<Rightarrow> u64 \<Rightarrow> 'o client_world
    \<Rightarrow> ((clientid_status_t \<times> nat option) \<times> 'o client_world) option"
where
  "nfs_client_id_get E ht clientid w =
     (if drop_bit 32 clientid \<noteq> ServerEpoch E AND 0xFFFFFFFF then Some ((CLIENT_ID_STALE, None), w)
      else case ht clientid of
        None \<Rightarrow> Some ((CLIENT_ID_EXPIRED, None), w)
      | Some a \<Rightarrow> do {
          w \<leftarrow> inc_client_id_ref a w;
          c \<leftarrow> clients w a;
          if cid_confirmed c = STALE_CLIENT_ID
          then map_option (Pair (CLIENT_ID_STALE, None)) (dec_client_id_ref E a w)
          else Some ((CLIENT_ID_SUCCESS, Some a), w) })"

definition nfs_client_id_get_unconfirmed ::
  "'o client_env \<Rightarrow> u64 \<Rightarrow> 'o client_world \<Rightarrow> ((clientid_status_t \<times> nat option) \<times> 'o client_world) option"
where
  "nfs_client_id_get_unconfirmed E clientid w = nfs_client_id_get E (ht_unconfirmed_client_id w) clientid w"

definition nfs_client_id_get_confirmed ::
  "'o client_env \<Rightarrow> u64 \<Rightarrow> 'o client_world \<Rightarrow> ((clientid_status_t \<times> nat option) \<times> 'o client_world) option"
where
  "nfs_client_id_get_confirmed E clientid w = nfs_client_id_get E (ht_confirmed_client_id w) clientid w"

section \<open>Expiry\<close>

text \<open>Detach the id from its owner record.\<close>
definition detach_record :: "'o client_env \<Rightarrow> nat \<Rightarrow> nfs_client_id_t \<Rightarrow> 'o client_world \<Rightarrow> 'o client_world option" where
  "detach_record E a c w = do {
     w \<leftarrow> mod_client a (\<lambda>c. c\<lparr>cid_client_record := None\<rparr>) w;
     case cid_client_record c of
       None \<Rightarrow> Some w
     | Some r \<Rightarrow> do {
         w \<leftarrow> mod_record r (\<lambda>r. r\<lparr>
                cr_confirmed_rec := (if cr_confirmed_rec r = Some a then None else cr_confirmed_rec r),
                cr_unconfirmed_rec := (if cr_unconfirmed_rec r = Some a then None else cr_unconfirmed_rec r)\<rparr>) w;
         dec_client_record_ref E r w } }"

text \<open>Mark the id stale and leave it in its table, or mark it expired and take it out; a table without
  the id is fatal.  The second attempt, on the table of unconfirmed ids, is made for a stale id only, and
  the id is marked expired before.\<close>
definition unhash_client_id ::
  "bool \<Rightarrow> nat \<Rightarrow> nfs_client_id_t \<Rightarrow> 'o client_world \<Rightarrow> 'o client_world option"
where
  "unhash_client_id make_stale a c w =
     (let in_confirmed = cid_confirmed c \<in> {CONFIRMED_CLIENT_ID, STALE_CLIENT_ID}; i = cid_clientid c in
      if make_stale then mod_client a (\<lambda>c. c\<lparr>cid_confirmed := STALE_CLIENT_ID\<rparr>) w
      else do {
        w \<leftarrow> mod_client a (\<lambda>c. c\<lparr>cid_confirmed := EXPIRED_CLIENT_ID\<rparr>) w;
        c \<leftarrow> clients w a;
        if in_confirmed \<and> ht_confirmed_client_id w i \<noteq> None
        then Some (w\<lparr>ht_confirmed_client_id := (ht_confirmed_client_id w)(i := None)\<rparr>)
        else if ht_unconfirmed_client_id w i \<noteq> None \<and>
            (\<not> in_confirmed \<or> cid_confirmed c = STALE_CLIENT_ID)
        then Some (w\<lparr>ht_unconfirmed_client_id := (ht_unconfirmed_client_id w)(i := None)\<rparr>)
        else None })"

text \<open>The end of the callback channel of NFSv4.0, and of the sessions of NFSv4.1.\<close>
definition destroy_v40_chan :: "nat \<Rightarrow> nfs_client_id_t \<Rightarrow> 'o client_world \<Rightarrow> 'o client_world option" where
  "destroy_v40_chan a c w =
     (case cid_cb c of
        v40 cb \<Rightarrow> mod_client a (\<lambda>c. c\<lparr>cid_cb := v40 (cb\<lparr>cb_chan_clnt := False\<rparr>)\<rparr>) w
      | v41 _ \<Rightarrow> None)"

definition expire_sessions :: "'o client_env \<Rightarrow> nfs_client_id_t \<Rightarrow> 'o client_world \<Rightarrow> 'o client_world option" where
  "expire_sessions E c w =
     (case cid_cb c of
        v40 _ \<Rightarrow> None
      | v41 cb \<Rightarrow> do {
          w \<leftarrow> release_ref E (Delete_sessions (cb_session_list cb)) w;
          Some (if cid_allow_reclaim c \<and> cid_reclaim_complete cb
                then w\<lparr>reclaim_completes := reclaim_completes w - 1\<rparr> else w) })"

definition nfs_client_id_expire ::
  "'o client_env \<Rightarrow> nat \<Rightarrow> bool \<Rightarrow> 'o client_world \<Rightarrow> (bool \<times> 'o client_world) option"
where
  "nfs_client_id_expire E a make_stale w = do {
     c \<leftarrow> clients w a;
     if cid_confirmed c = EXPIRED_CLIENT_ID then Some (False, w)
     else do {
       w \<leftarrow> detach_record E a c w;
       w \<leftarrow> unhash_client_id make_stale a c w;
       os \<leftarrow> release_owners E a (owners w);
       let w = w\<lparr>owners := os\<rparr>;
       w \<leftarrow> (if cid_minorversion c = 0 then destroy_v40_chan a c w else expire_sessions E c w);
       c \<leftarrow> clients w a;
       w \<leftarrow> (if cid_recov_tag c \<noteq> None \<and> \<not> make_stale
             then mod_client a (\<lambda>c. c\<lparr>cid_recov_tag := None\<rparr>) (w\<lparr>owners := rm_clid E c (owners w)\<rparr>)
             else Some w);
       w \<leftarrow> (if \<not> make_stale then dec_client_id_ref E a w else Some w);
       Some (True, w) } }"

text \<open>The reaper, for one entry of a table: a client whose lease has run out is expired.\<close>
definition reap_client_id :: "'o client_env \<Rightarrow> nat \<Rightarrow> 'o client_world \<Rightarrow> 'o client_world option" where
  "reap_client_id E a w = do {
     c \<leftarrow> clients w a;
     if valid_lease E (now w) c then Some w
     else do {
       w \<leftarrow> inc_client_id_ref a w;
       w \<leftarrow> (case cid_client_record c of None \<Rightarrow> Some w | Some r \<Rightarrow> inc_client_record_ref r w);
       (_, w) \<leftarrow> nfs_client_id_expire E a False w;
       w \<leftarrow> (case cid_client_record c of None \<Rightarrow> Some w | Some r \<Rightarrow> dec_client_record_ref E r w);
       dec_client_id_ref E a w } }"

text \<open>The release of the clients of an address, for one confirmed entry that matches it.\<close>
definition release_v4_client :: "'o client_env \<Rightarrow> nat \<Rightarrow> 'o client_world \<Rightarrow> 'o client_world option" where
  "release_v4_client E a w = do {
     c \<leftarrow> clients w a;
     if cid_confirmed c \<noteq> CONFIRMED_CLIENT_ID then Some w
     else do {
       w \<leftarrow> inc_client_id_ref a w;
       w \<leftarrow> (case cid_client_record c of None \<Rightarrow> Some w | Some r \<Rightarrow> inc_client_record_ref r w);
       (_, w) \<leftarrow> nfs_client_id_expire E a True w;
       w \<leftarrow> (case cid_client_record c of None \<Rightarrow> Some w | Some r \<Rightarrow> dec_client_record_ref E r w);
       dec_client_id_ref E a w } }"

end
