(* ===== verification/Nfs4_Compound.thy ===== *)
theory Nfs4_Compound
  imports Nfs4_Types
begin

text \<open>
  The processing of a COMPOUND request (\<open>nfs4_Compound\<close> of \<open>Protocols/NFS/nfs4_Compound.c\<close>, with
  \<open>check_resp_room\<close> of \<open>nfs_proto_tools.c\<close> and \<open>nfs4_Is_Fh_Empty\<close> of \<open>nfs_file_handle.h\<close>): the checks on the
  request, the loop over the operations, the calls that open, accompany and close a transaction, and the
  caching of the reply in the slot of the session.

  The handlers of the operations and the methods of the exports are arguments, as are the sizes of their
  results: what is shown holds for all of them.  \<open>'x\<close> is the state that only they use.  The array of
  results is the list of the results so far.  Logging, tracing, statistics, the lease and the release of
  memory are left out.
\<close>

section \<open>Flags\<close>

abbreviation MAX_OPS :: nat where "MAX_OPS \<equiv> 256"

unbundle bit_operations_syntax

definition EXPORT_OPTION_READ_ACCESS :: u32 where "EXPORT_OPTION_READ_ACCESS = 0x20"
definition EXPORT_OPTION_WRITE_ACCESS :: u32 where "EXPORT_OPTION_WRITE_ACCESS = 0x40"
definition EXPORT_OPTION_MD_READ_ACCESS :: u32 where "EXPORT_OPTION_MD_READ_ACCESS = 0x80"
definition EXPORT_OPTION_MD_WRITE_ACCESS :: u32 where "EXPORT_OPTION_MD_WRITE_ACCESS = 0x100"
definition EXPORT_OPTION_MODIFY_ACCESS :: u32 where
  "EXPORT_OPTION_MODIFY_ACCESS = EXPORT_OPTION_WRITE_ACCESS OR EXPORT_OPTION_MD_WRITE_ACCESS"
definition EXPORT_OPTION_ACCESS_MASK :: u32 where
  "EXPORT_OPTION_ACCESS_MASK = EXPORT_OPTION_READ_ACCESS OR EXPORT_OPTION_WRITE_ACCESS OR
     EXPORT_OPTION_MD_WRITE_ACCESS OR EXPORT_OPTION_MD_READ_ACCESS"

text \<open>The column \<open>exp_perm_flags\<close> of the table of operations.\<close>
definition exp_perm_flags :: "nfs_opnum4 \<Rightarrow> u32" where
  "exp_perm_flags op =
     (if op \<in> {3, 4, 8, 9, 12, 13, 14, 15, 16, 17, 18, 19, 21, 26, 27, 33, 37, 48, 50, 52, 56}
      then EXPORT_OPTION_MD_READ_ACCESS
      else if op \<in> {5, 6, 11, 28, 29, 34} then EXPORT_OPTION_MD_WRITE_ACCESS
      else if op = 25 then EXPORT_OPTION_READ_ACCESS
      else if op = 38 then EXPORT_OPTION_WRITE_ACCESS
      else 0)"

definition LastOpcode :: "nat \<Rightarrow> nfs_opnum4" where
  "LastOpcode minor = [NFS4_OP_RELEASE_LOCKOWNER, NFS4_OP_COPY, NFS4_OP_REMOVEXATTR] ! minor"

section \<open>State\<close>

text \<open>The fields of \<open>compound_data_t\<close> and of \<open>op_ctx\<close> that the function reads or writes; an empty
  \<open>currentFH\<close> has length zero, \<open>cd_session\<close> holds the fore channel attributes of the session,
  \<open>cached_result\<close> is what the slot pointed to holds.\<close>
record 'x compound_data =
  currentFH :: bytes
  minorversion :: nat
  cd_session :: "channel_attrs4 option"
  resp_size :: u32
  op_resp_size :: u32
  use_slot_cached_result :: bool
  sa_cachethis :: bool
  cached_result :: "compound4res option"
  res_cached :: bool
  fsal_export_id :: "nat option"
  export_options :: u32
  other :: 'x

text \<open>The methods of an export, and for each export of its stack whether it supports transactions.  The
  values that the methods return are ignored.\<close>
record ('x, 'fattr) export_methods =
  m_start_compound :: "('fattr nfs_argop4 list \<Rightarrow> 'x compound_data \<Rightarrow> 'x compound_data option) option"
  m_end_compound :: "(compound4res \<Rightarrow> 'x compound_data \<Rightarrow> 'x compound_data option) option"
  m_backup_nfs4_op :: "(nat \<Rightarrow> 'fattr nfs_argop4 \<Rightarrow> 'x compound_data \<Rightarrow> 'x compound_data option) option"
  supports_transaction :: "bool list"

record ('x, 'fattr) server =
  op_funct :: "nfs_opnum4 \<Rightarrow> 'fattr nfs_argop4 \<Rightarrow> 'x compound_data
     \<Rightarrow> ((nfsstat4 \<times> nfs_resop4) \<times> 'x compound_data) option"
  op_size :: "nfs_opnum4 \<Rightarrow> u32"
  export_table :: "nat \<Rightarrow> ('x, 'fattr) export_methods"
  union_sessionid :: "'fattr nfs_argop4 \<Rightarrow> bytes"
  compound_base_size :: u32
  minor_versions :: u32
  reset_ctx :: "'x \<Rightarrow> 'x"

section \<open>Checks\<close>

definition nfs4_Is_Fh_Empty :: "bytes \<Rightarrow> nfsstat4" where
  "nfs4_Is_Fh_Empty fh = (if fh = [] then NFS4ERR_NOFILEHANDLE else NFS4_OK)"

definition check_resp_room :: "'x compound_data \<Rightarrow> u32 \<Rightarrow> nfsstat4" where
  "check_resp_room d op_size' =
     (let test_response_size = resp_size d + 4 + op_size' + 4 + 4
      in if minorversion d = 0 then NFS4_OK
         else case cd_session d of
           None \<Rightarrow> NFS4_OK
         | Some s \<Rightarrow>
             if test_response_size > ca_maxresponsesize s then NFS4ERR_REP_TOO_BIG
             else if \<not> sa_cachethis d then NFS4_OK
             else if test_response_size > ca_maxresponsesize_cached s then NFS4ERR_REP_TOO_BIG_TO_CACHE
             else NFS4_OK)"

text \<open>The checks on the first operation of a request of minor version 1 or 2.\<close>
definition check_first_op :: "nat \<Rightarrow> 'fattr nfs_argop4 list \<Rightarrow> nfsstat4" where
  "check_first_op minor args =
     (if minor = 0 then NFS4_OK
      else let op = argop (hd args) in
        if op \<notin> {NFS4_OP_ILLEGAL, NFS4_OP_SEQUENCE, NFS4_OP_EXCHANGE_ID, NFS4_OP_CREATE_SESSION,
                 NFS4_OP_DESTROY_SESSION, NFS4_OP_BIND_CONN_TO_SESSION, NFS4_OP_DESTROY_CLIENTID}
        then NFS4ERR_OP_NOT_IN_SESSION
        else if length args > 1 \<and>
            op \<in> {NFS4_OP_EXCHANGE_ID, NFS4_OP_CREATE_SESSION, NFS4_OP_DESTROY_CLIENTID,
                  NFS4_OP_DESTROY_SESSION, NFS4_OP_BIND_CONN_TO_SESSION}
        then NFS4ERR_NOT_ONLY_OP
        else NFS4_OK)"

definition dispatch_opcode :: "nat \<Rightarrow> nfs_opnum4 \<Rightarrow> nfs_opnum4" where
  "dispatch_opcode minor op = (if op > LastOpcode minor then 0 else op)"

text \<open>The checks at the head of the loop, in their order.\<close>
definition check_position ::
  "('x, 'fattr) server \<Rightarrow> 'fattr nfs_argop4 list \<Rightarrow> nat \<Rightarrow> 'x compound_data \<Rightarrow> nfsstat4"
where
  "check_position V args i d =
     (let op = argop (args ! i) in
      if i > 0 \<and> op = NFS4_OP_BIND_CONN_TO_SESSION then NFS4ERR_NOT_ONLY_OP
      else if i > 0 \<and> op = NFS4_OP_SEQUENCE then NFS4ERR_SEQUENCE_POS
      else if i > 0 \<and> op = NFS4_OP_DESTROY_SESSION \<and>
          memcmp (union_sessionid V (args ! 0)) (union_sessionid V (args ! i)) 16 = 0 \<and> i \<noteq> length args - 1
      then NFS4ERR_NOT_ONLY_OP
      else if minorversion d > 0 \<and> (case cd_session d of None \<Rightarrow> False | Some s \<Rightarrow> unat (ca_maxoperations s) = i)
      then NFS4ERR_TOO_MANY_OPS
      else NFS4_OK)"

definition check_export_perms :: "nfs_opnum4 \<Rightarrow> 'x compound_data \<Rightarrow> nfsstat4" where
  "check_export_perms opcode d =
     (let perm_flags = exp_perm_flags opcode AND EXPORT_OPTION_ACCESS_MASK in
      if perm_flags = 0 then NFS4_OK
      else if nfs4_Is_Fh_Empty (currentFH d) \<noteq> NFS4_OK then nfs4_Is_Fh_Empty (currentFH d)
      else if export_options d AND perm_flags \<noteq> perm_flags
      then (if perm_flags AND EXPORT_OPTION_MODIFY_ACCESS \<noteq> 0 then NFS4ERR_ROFS else NFS4ERR_ACCESS)
      else NFS4_OK)"

section \<open>The loop\<close>

text \<open>The state of the loop: the results so far, and whether the transaction is opened.\<close>
record loop_state =
  ls_results :: "nfs_resop4 list"
  txn_ready :: bool
  start_called :: bool

datatype loop_exit = LoopEnd | LoopFailed | LoopReplayed

definition current_methods :: "('x, 'fattr) server \<Rightarrow> 'x compound_data \<Rightarrow> ('x, 'fattr) export_methods option" where
  "current_methods V d = map_option (export_table V) (fsal_export_id d)"

text \<open>The call of a method of the current export; a null export or method ends the process.\<close>
definition txn_backup ::
  "('x, 'fattr) server \<Rightarrow> nat \<Rightarrow> 'fattr nfs_argop4 \<Rightarrow> 'x compound_data \<Rightarrow> 'x compound_data option"
where
  "txn_backup V i arg d = do { m \<leftarrow> current_methods V d; f \<leftarrow> m_backup_nfs4_op m; f i arg d }"

definition txn_start ::
  "('x, 'fattr) server \<Rightarrow> 'fattr nfs_argop4 list \<Rightarrow> 'x compound_data \<Rightarrow> 'x compound_data option"
where
  "txn_start V args d = do { m \<leftarrow> current_methods V d; f \<leftarrow> m_start_compound m; f args d }"

definition txn_end ::
  "('x, 'fattr) server \<Rightarrow> compound4res \<Rightarrow> 'x compound_data \<Rightarrow> 'x compound_data option"
where
  "txn_end V res d = do { m \<leftarrow> current_methods V d; f \<leftarrow> m_end_compound m; f res d }"

definition check_txn_ready :: "('x, 'fattr) server \<Rightarrow> bool \<Rightarrow> 'x compound_data \<Rightarrow> bool" where
  "check_txn_ready V ready d =
     (ready \<or> (case current_methods V d of
        None \<Rightarrow> False
      | Some m \<Rightarrow> m_start_compound m \<noteq> None \<and> m_end_compound m \<noteq> None \<and> m_backup_nfs4_op m \<noteq> None \<and>
          list_ex (\<lambda>b. b) (supports_transaction m)))"

text \<open>One operation that passed the checks: backup, handler, size of the reply.\<close>
definition run_op ::
  "('x, 'fattr) server \<Rightarrow> nat \<Rightarrow> 'fattr nfs_argop4 \<Rightarrow> bool \<Rightarrow> 'x compound_data
    \<Rightarrow> ((nfsstat4 \<times> nfs_resop4) \<times> 'x compound_data) option"
where
  "run_op V i arg ready d = do {
     let opcode = dispatch_opcode (minorversion d) (argop arg);
     d \<leftarrow> (if ready then txn_backup V i arg d else Some d);
     ((status, res), d) \<leftarrow> op_funct V opcode arg d;
     let d = (if status \<noteq> NFS4_OK \<and> (op_size V opcode \<noteq> 0 \<or> op_resp_size d = 0)
              then d\<lparr>op_resp_size := 4\<rparr> else d);
     Some ((status, res\<lparr>res_status := status\<rparr>), d\<lparr>resp_size := resp_size d + 4 + op_resp_size d\<rparr>)
   }"

definition op_check ::
  "('x, 'fattr) server \<Rightarrow> 'fattr nfs_argop4 list \<Rightarrow> nat \<Rightarrow> 'x compound_data \<Rightarrow> nfsstat4 \<times> 'x compound_data"
where
  "op_check V args i d =
     (let opcode = dispatch_opcode (minorversion d) (argop (args ! i));
          d = d\<lparr>op_resp_size := 4\<rparr>;
          st = check_position V args i d;
          st = (if st = NFS4_OK then check_export_perms opcode d else st)
      in if st \<noteq> NFS4_OK then (st, d)
         else let d = d\<lparr>op_resp_size := op_size V opcode\<rparr> in (check_resp_room d (op_resp_size d), d))"

function compound_loop ::
  "('x, 'fattr) server \<Rightarrow> 'fattr nfs_argop4 list \<Rightarrow> nat \<Rightarrow> loop_state \<Rightarrow> 'x compound_data
    \<Rightarrow> ((nfsstat4 \<times> loop_exit \<times> loop_state) \<times> 'x compound_data) option"
where
  "compound_loop V args i ls d =
     (if i \<ge> length args then Some ((NFS4_OK, LoopEnd, ls), d)
      else let (st, d) = op_check V args i d in
        if st \<noteq> NFS4_OK
        then Some ((st, LoopFailed, ls\<lparr>ls_results := ls_results ls @ [\<lparr>resop = argop (args ! i), res_status = st, res_u = RES_NONE\<rparr>]\<rparr>),
                   d\<lparr>resp_size := resp_size d + 4 + 4\<rparr>)
        else do {
          ((st, res), d) \<leftarrow> run_op V i (args ! i) (txn_ready ls) d;
          let ls = ls\<lparr>ls_results := ls_results ls @ [res]\<rparr>;
          if st \<noteq> NFS4_OK then Some ((st, LoopFailed, ls), d)
          else if use_slot_cached_result d then do {
            c \<leftarrow> cached_result d;
            Some ((comp_status c, LoopReplayed, ls\<lparr>ls_results := resarray c\<rparr>), d) }
          else do {
            let ready = check_txn_ready V (txn_ready ls) d;
            d \<leftarrow> (if \<not> start_called ls \<and> ready then txn_start V args d else Some d);
            compound_loop V args (Suc i) (ls\<lparr>txn_ready := ready, start_called := start_called ls \<or> ready\<rparr>) d } })"
  by pat_completeness auto
termination by (relation "measure (\<lambda>(V, args, i, ls, d). length args - i)") auto

declare compound_loop.simps [simp del]

section \<open>The reply\<close>

text \<open>The reply that is put into the slot when the whole one is not to be cached: the result of SEQUENCE
  and, when there was more, the next one, which must not look like a success.\<close>
definition uncached_reply :: "compound4res \<Rightarrow> compound4res" where
  "uncached_reply res =
     (let r0 = resarray res ! 0 in
      if length (resarray res) = 1 then \<lparr>comp_status = res_status r0, resarray = [r0]\<rparr>
      else let r1 = resarray res ! 1;
               r1 = (if res_status r1 = NFS4_OK \<or> res_status r1 = NFS4ERR_DENIED
                     then r1\<lparr>res_status := NFS4ERR_RETRY_UNCACHED_REP\<rparr> else r1)
           in \<lparr>comp_status = res_status r1, resarray = [r0, r1]\<rparr>)"

definition cache_reply :: "'fattr nfs_argop4 list \<Rightarrow> compound4res \<Rightarrow> 'x compound_data \<Rightarrow> 'x compound_data option" where
  "cache_reply args res d =
     (if sa_cachethis d then
        (if cached_result d = None then None else Some (d\<lparr>cached_result := Some res, res_cached := True\<rparr>))
      else if minorversion d > 0 \<and> \<not> use_slot_cached_result d \<and> argop (hd args) = NFS4_OP_SEQUENCE \<and>
          cached_result d \<noteq> None
      then Some (d\<lparr>cached_result := Some (uncached_reply res), res_cached := True\<rparr>)
      else Some d)"

datatype nfs_req_result = NFS_REQ_OK | NFS_REQ_DROP

text \<open>The request: its minor version, whether its tag is acceptable and its credentials are well formed, its
  operations, and the state at its start.\<close>
definition nfs4_Compound ::
  "('x, 'fattr) server \<Rightarrow> nat \<Rightarrow> bool \<Rightarrow> bool \<Rightarrow> 'fattr nfs_argop4 list \<Rightarrow> 'x compound_data
    \<Rightarrow> ((nfs_req_result \<times> compound4res option) \<times> 'x compound_data) option"
where
  "nfs4_Compound V minor tag_ok cred_ok args d =
     (if minor > 2 then Some ((NFS_REQ_OK, Some \<lparr>comp_status = NFS4ERR_MINOR_VERS_MISMATCH, resarray = []\<rparr>), d)
      else if minor_versions V AND push_bit minor 1 = 0
      then Some ((NFS_REQ_OK, Some \<lparr>comp_status = NFS4ERR_MINOR_VERS_MISMATCH, resarray = []\<rparr>), d)
      else if \<not> tag_ok then Some ((NFS_REQ_OK, Some \<lparr>comp_status = NFS4ERR_INVAL, resarray = []\<rparr>), d)
      else if args = [] then Some ((NFS_REQ_OK, Some \<lparr>comp_status = NFS4_OK, resarray = []\<rparr>), d)
      else if length args > MAX_OPS
      then Some ((NFS_REQ_OK, Some \<lparr>comp_status = NFS4ERR_RESOURCE, resarray = []\<rparr>), d)
      else if \<not> cred_ok then Some ((NFS_REQ_DROP, None), d)
      else if check_first_op minor args \<noteq> NFS4_OK
      then Some ((NFS_REQ_OK, Some \<lparr>comp_status = check_first_op minor args, resarray = []\<rparr>), d)
      else do {
        let d = d\<lparr>currentFH := [], minorversion := minor, cd_session := None, resp_size := compound_base_size V,
                  op_resp_size := 0, use_slot_cached_result := False, sa_cachethis := False, cached_result := None\<rparr>;
        ((status, ex, ls), d) \<leftarrow>
          compound_loop V args 0 \<lparr>ls_results = [], txn_ready = False, start_called = False\<rparr> d;
        let res = \<lparr>comp_status = status, resarray = ls_results ls\<rparr>;
        d \<leftarrow> (if txn_ready ls then txn_end V res d else Some d);
        d \<leftarrow> cache_reply args res d;
        Some ((NFS_REQ_OK, Some res), d\<lparr>fsal_export_id := None, other := reset_ctx V (other d)\<rparr>) })"

section \<open>One round of the loop\<close>

lemma compound_loop_elim:
  assumes "compound_loop V args i ls d = Some ((st, ex, ls'), d')"
  obtains (finished) "length args \<le> i" "st = NFS4_OK" "ex = LoopEnd" "ls' = ls" "d' = d"
  | (refused) d1 where "i < length args" "op_check V args i d = (st, d1)" "st \<noteq> NFS4_OK" "ex = LoopFailed"
      "ls' = ls\<lparr>ls_results := ls_results ls @ [\<lparr>resop = argop (args ! i), res_status = st, res_u = RES_NONE\<rparr>]\<rparr>"
      "d' = d1\<lparr>resp_size := resp_size d1 + 4 + 4\<rparr>"
  | (failed) d1 res where "i < length args" "op_check V args i d = (NFS4_OK, d1)"
      "run_op V i (args ! i) (txn_ready ls) d1 = Some ((st, res), d')" "st \<noteq> NFS4_OK" "ex = LoopFailed"
      "ls' = ls\<lparr>ls_results := ls_results ls @ [res]\<rparr>"
  | (replayed) d1 res c where "i < length args" "op_check V args i d = (NFS4_OK, d1)"
      "run_op V i (args ! i) (txn_ready ls) d1 = Some ((NFS4_OK, res), d')" "cached_result d' = Some c"
      "st = comp_status c" "ex = LoopReplayed" "ls' = ls\<lparr>ls_results := resarray c\<rparr>" "use_slot_cached_result d'"
  | (continued) d1 res d2 d3 ready where "i < length args" "op_check V args i d = (NFS4_OK, d1)"
      "run_op V i (args ! i) (txn_ready ls) d1 = Some ((NFS4_OK, res), d2)"
      "ready = check_txn_ready V (txn_ready ls) d2"
      "(if \<not> start_called ls \<and> ready then txn_start V args d2 else Some d2) = Some d3"
      "compound_loop V args (Suc i) (ls\<lparr>ls_results := ls_results ls @ [res], txn_ready := ready,
         start_called := start_called ls \<or> ready\<rparr>) d3 = Some ((st, ex, ls'), d')" "\<not> use_slot_cached_result d2"
proof (cases "i < length args")
  case False
  then show thesis using assms finished by (subst (asm) compound_loop.simps) auto
next
  case i: True
  obtain c d1 where c: "op_check V args i d = (c, d1)" by fastforce
  show thesis
  proof (cases "c = NFS4_OK")
    case False
    then show thesis using assms i c refused by (subst (asm) compound_loop.simps) auto
  next
    case True
    obtain st1 res d2 where r: "run_op V i (args ! i) (txn_ready ls) d1 = Some ((st1, res), d2)"
      using assms i c True by (subst (asm) compound_loop.simps) (auto simp: abort_simps)
    have e: "(if st1 \<noteq> NFS4_OK then Some ((st1, LoopFailed, ls\<lparr>ls_results := ls_results ls @ [res]\<rparr>), d2)
       else if use_slot_cached_result d2 then do {
            c \<leftarrow> cached_result d2;
            Some ((comp_status c, LoopReplayed, ls\<lparr>ls_results := resarray c\<rparr>), d2) }
       else do {
            d \<leftarrow> (if \<not> start_called ls \<and> check_txn_ready V (txn_ready ls) d2 then txn_start V args d2 else Some d2);
            compound_loop V args (Suc i) (ls\<lparr>ls_results := ls_results ls @ [res],
              txn_ready := check_txn_ready V (txn_ready ls) d2,
              start_called := start_called ls \<or> check_txn_ready V (txn_ready ls) d2\<rparr>) d }) = Some ((st, ex, ls'), d')"
      using assms i c True r by (subst (asm) compound_loop.simps) (simp add: Let_def cong: if_cong)
    show thesis
    proof (cases "st1 = NFS4_OK")
      case False
      then show thesis using e r i c True failed by auto
    next
      case s: True
      show thesis
      proof (cases "use_slot_cached_result d2")
        case True
        then show thesis using e r i c s \<open>c = NFS4_OK\<close> replayed by (auto simp: abort_simps)
      next
        case False
        then obtain d3 where
          "(if \<not> start_called ls \<and> check_txn_ready V (txn_ready ls) d2 then txn_start V args d2 else Some d2) = Some d3"
          "compound_loop V args (Suc i) (ls\<lparr>ls_results := ls_results ls @ [res],
              txn_ready := check_txn_ready V (txn_ready ls) d2,
              start_called := start_called ls \<or> check_txn_ready V (txn_ready ls) d2\<rparr>) d3 = Some ((st, ex, ls'), d')"
          using e s by (simp only: bind_eq_Some_conv if_False simp_thms) blast
        then show thesis using continued i c r s \<open>c = NFS4_OK\<close> False by blast
      qed
    qed
  qed
qed

section \<open>The results of a compound\<close>

text \<open>The results of a compound that was processed: one for each operation, all successful, or those of a prefix, all
  successful but the last one, whose status is that of the compound.\<close>
definition results_ok :: "nat \<Rightarrow> nfsstat4 \<Rightarrow> nfs_resop4 list \<Rightarrow> bool" where
  "results_ok n st rs \<longleftrightarrow>
     (if st = NFS4_OK then length rs = n \<and> (\<forall>r \<in> set rs. res_status r = NFS4_OK)
      else rs \<noteq> [] \<and> length rs \<le> n \<and> res_status (last rs) = st \<and> (\<forall>r \<in> set (butlast rs). res_status r = NFS4_OK))"

text \<open>The reply is the one that the session keeps in its slot.\<close>
definition from_slot :: "compound4res \<Rightarrow> 'x compound_data \<Rightarrow> bool" where
  "from_slot res d \<longleftrightarrow> use_slot_cached_result d \<and> cached_result d = Some res"

text \<open>The end of a transaction does not turn a reply from the slot into another.\<close>
definition end_keeps_slot :: "('x, 'fattr) server \<Rightarrow> bool" where
  "end_keeps_slot V \<longleftrightarrow> (\<forall>e f res d d'. m_end_compound (export_table V e) = Some f \<and> f res d = Some d' \<longrightarrow>
     use_slot_cached_result d' = use_slot_cached_result d \<and> cached_result d' = cached_result d)"

lemma txn_end_slot:
  "end_keeps_slot V \<Longrightarrow> txn_end V res d = Some d' \<Longrightarrow>
    use_slot_cached_result d' = use_slot_cached_result d \<and> cached_result d' = cached_result d"
  by (auto simp: end_keeps_slot_def txn_end_def current_methods_def abort_simps)

lemma run_op_status: "run_op V i arg ready d = Some ((st, res), d') \<Longrightarrow> res_status res = st"
  by (auto simp: run_op_def abort_simps Let_def)

lemma compound_loop_results:
  assumes "compound_loop V args i ls d = Some ((st, ex, ls'), d')"
    and "length (ls_results ls) = i" "i \<le> length args" "\<forall>r \<in> set (ls_results ls). res_status r = NFS4_OK"
  shows "results_ok (length args) st (ls_results ls') \<or>
    from_slot \<lparr>comp_status = st, resarray = ls_results ls'\<rparr> d'"
  using assms
proof (induction "length args - i" arbitrary: i ls d rule: less_induct)
  case less
  from less.prems(1) show ?case
  proof (cases rule: compound_loop_elim)
    case (continued d1 res d2 d3 ready)
    have "res_status res = NFS4_OK" using run_op_status [OF continued(3)] .
    then show ?thesis using less.hyps [OF _ continued(6)] continued(1) less.prems by auto
  next
    case (replayed d1 res c)
    then show ?thesis by (cases c) (simp add: from_slot_def)
  qed (use less.prems run_op_status in \<open>auto simp: results_ok_def\<close>)
qed

lemma compound_elim:
  assumes "nfs4_Compound V minor tag_ok cred_ok args d = Some ((rc, Some res), d')"
  obtains (rejected) "resarray res = []" "comp_status res \<in> {NFS4_OK, NFS4ERR_MINOR_VERS_MISMATCH, NFS4ERR_INVAL,
        NFS4ERR_RESOURCE, check_first_op minor args}" "d' = d" "comp_status res = NFS4_OK \<longrightarrow> args = []"
  | (run) d0 st ex ls d1 d2 d3 where
      "other d0 = other d" "fsal_export_id d0 = fsal_export_id d"
      "compound_loop V args 0 \<lparr>ls_results = [], txn_ready = False, start_called = False\<rparr> d0 = Some ((st, ex, ls), d1)"
      "res = \<lparr>comp_status = st, resarray = ls_results ls\<rparr>"
      "(if txn_ready ls then txn_end V res d1 else Some d1) = Some d2"
      "cache_reply args res d2 = Some d3" "d' = d3\<lparr>fsal_export_id := None, other := reset_ctx V (other d3)\<rparr>"
      "minor \<le> 2" "tag_ok" "cred_ok" "args \<noteq> []" "length args \<le> MAX_OPS" "check_first_op minor args = NFS4_OK"
      "minorversion d0 = minor" "cd_session d0 = None" "\<not> use_slot_cached_result d0" "\<not> sa_cachethis d0"
      "cached_result d0 = None" "res_cached d0 = res_cached d"
proof (cases "minor > 2 \<or> minor_versions V AND push_bit minor 1 = 0 \<or> \<not> tag_ok \<or> args = [] \<or> length args > MAX_OPS \<or>
    \<not> cred_ok \<or> check_first_op minor args \<noteq> NFS4_OK")
  case True
  then show thesis using assms rejected
    by (auto simp: nfs4_Compound_def split: if_splits)
next
  case False
  let ?d = "d\<lparr>currentFH := [], minorversion := minor, cd_session := None, resp_size := compound_base_size V,
                  op_resp_size := 0, use_slot_cached_result := False, sa_cachethis := False, cached_result := None\<rparr>"
  obtain st ex ls d1 d2 d3 where r:
      "compound_loop V args 0 \<lparr>ls_results = [], txn_ready = False, start_called = False\<rparr> ?d = Some ((st, ex, ls), d1)"
      "res = \<lparr>comp_status = st, resarray = ls_results ls\<rparr>"
      "(if txn_ready ls then txn_end V res d1 else Some d1) = Some d2"
      "cache_reply args res d2 = Some d3" "d' = d3\<lparr>fsal_export_id := None, other := reset_ctx V (other d3)\<rparr>"
    using assms False by (auto simp: nfs4_Compound_def abort_simps Let_def)
  show thesis by (rule run [OF _ _ r]) (use False in auto)
qed

lemma cache_reply_keeps:
  "cache_reply args res d = Some d' \<Longrightarrow> other d' = other d \<and> use_slot_cached_result d' = use_slot_cached_result d \<and>
    (from_slot res d \<longrightarrow> from_slot res d')"
  by (auto simp: cache_reply_def from_slot_def split: if_splits)

text \<open>C19. A compound that is processed stops at the first operation that fails: the reply holds the results of
  a prefix of the operations, all successful but the last one when the compound failed, whose status is
  that of the compound; a compound that succeeded has a successful result for each of its operations.  The only other
  replies are those of a request that is refused as a whole, which has no result and changes nothing, and the one that the
  session keeps in its slot.\<close>
theorem compound_stops_at_first_error:
  assumes "end_keeps_slot V" "nfs4_Compound V minor tag_ok cred_ok args d = Some ((rc, Some res), d')"
  shows "(resarray res = [] \<and> d' = d) \<or> results_ok (length args) (comp_status res) (resarray res) \<or> from_slot res d'"
  using assms(2)
proof (cases rule: compound_elim)
  case (run d0 st ex ls d1 d2 d3)
  have "from_slot res d1 \<Longrightarrow> from_slot res d2"
    using run(5) txn_end_slot [OF assms(1), of res d1 d2] by (auto simp: from_slot_def split: if_splits)
  moreover have "from_slot res d3 \<Longrightarrow> from_slot res d'" by (simp add: run(7) from_slot_def)
  ultimately show ?thesis using compound_loop_results [OF run(3)] cache_reply_keeps [OF run(6)] run(4) by auto
qed auto

section \<open>The calls that bracket a transaction\<close>

text \<open>What a request calls: the handler of an operation, with whether the export that it left supports transactions, and the
  methods of the exports.\<close>
datatype txn_event = OpRun nfs_opnum4 bool | TxnStart nat | TxnBackup nat nat | TxnEnd nat nfsstat4

text \<open>A trace of the calls that the handlers and the methods of the exports keep in their state and that nothing else
  touches; the minor version of a request does not change.\<close>
definition traced :: "('x, 'fattr) server \<Rightarrow> ('x \<Rightarrow> txn_event list) \<Rightarrow> bool" where
  "traced V tr \<longleftrightarrow>
     (\<forall>op arg d r d'. op_funct V op arg d = Some (r, d') \<longrightarrow>
        tr (other d') = tr (other d) @ [OpRun op (check_txn_ready V False d')] \<and> minorversion d' = minorversion d) \<and>
     (\<forall>x. tr (reset_ctx V x) = tr x) \<and>
     (\<forall>e f args d d'. m_start_compound (export_table V e) = Some f \<and> f args d = Some d' \<longrightarrow>
        tr (other d') = tr (other d) @ [TxnStart e] \<and> minorversion d' = minorversion d) \<and>
     (\<forall>e f i arg d d'. m_backup_nfs4_op (export_table V e) = Some f \<and> f i arg d = Some d' \<longrightarrow>
        tr (other d') = tr (other d) @ [TxnBackup e i] \<and> minorversion d' = minorversion d) \<and>
     (\<forall>e f res d d'. m_end_compound (export_table V e) = Some f \<and> f res d = Some d' \<longrightarrow>
        tr (other d') = tr (other d) @ [TxnEnd e (comp_status res)])"

text \<open>The order of the calls, as an automaton: the next operation, and where the transaction is.  Before it, handlers run;
  the first one that leaves an export with transactions makes its start due; then every handler runs right after the backup of
  its own operation; nothing follows the end.\<close>
datatype txn_phase = Idle | Due | Open | Saved | Ended nfsstat4

fun monitor_step :: "nfs_opnum4 list \<Rightarrow> txn_event \<Rightarrow> nat \<times> txn_phase \<Rightarrow> (nat \<times> txn_phase) option" where
  "monitor_step ops (OpRun op b) (i, Idle) =
     (if i < length ops \<and> op = ops ! i then Some (Suc i, if b then Due else Idle) else None)"
| "monitor_step ops (TxnStart e) (i, Due) = Some (i, Open)"
| "monitor_step ops (TxnBackup e j) (i, Open) = (if j = i then Some (i, Saved) else None)"
| "monitor_step ops (OpRun op b) (i, Saved) = (if i < length ops \<and> op = ops ! i then Some (Suc i, Open) else None)"
| "monitor_step ops (TxnEnd e st) (i, Open) = Some (i, Ended st)"
| "monitor_step ops _ _ = None"

fun monitor :: "nfs_opnum4 list \<Rightarrow> txn_event list \<Rightarrow> nat \<times> txn_phase \<Rightarrow> (nat \<times> txn_phase) option" where
  "monitor ops [] s = Some s"
| "monitor ops (ev # evs) s = do { s \<leftarrow> monitor_step ops ev s; monitor ops evs s }"

lemma monitor_append: "monitor ops (xs @ ys) s = do { s \<leftarrow> monitor ops xs s; monitor ops ys s }"
  by (induction xs arbitrary: s) (auto intro: Option.bind_cong)

lemma tracedD:
  assumes "traced V tr"
  shows "op_funct V op arg d = Some (r, d') \<Longrightarrow>
      tr (other d') = tr (other d) @ [OpRun op (check_txn_ready V False d')] \<and> minorversion d' = minorversion d"
    and "tr (reset_ctx V x) = tr x"
    and "txn_start V args d = Some d' \<Longrightarrow> \<exists>e. tr (other d') = tr (other d) @ [TxnStart e] \<and> minorversion d' = minorversion d"
    and "txn_backup V i arg d = Some d' \<Longrightarrow> \<exists>e. tr (other d') = tr (other d) @ [TxnBackup e i] \<and> minorversion d' = minorversion d"
    and "txn_end V res d = Some d' \<Longrightarrow> \<exists>e. tr (other d') = tr (other d) @ [TxnEnd e (comp_status res)]"
  using assms unfolding traced_def txn_start_def txn_backup_def txn_end_def current_methods_def
  by (cases r; auto simp: abort_simps)+

abbreviation phase_of :: "bool \<Rightarrow> txn_phase" where
  "phase_of ready \<equiv> (if ready then Open else Idle)"

abbreviation opcodes :: "nat \<Rightarrow> 'fattr nfs_argop4 list \<Rightarrow> nfs_opnum4 list" where
  "opcodes minor args \<equiv> map (\<lambda>arg. dispatch_opcode minor (argop arg)) args"

text \<open>One operation: its backup when the transaction is open, and its handler.\<close>
lemma run_op_monitor:
  assumes "traced V tr" "run_op V i (args ! i) ready d = Some (r, d')" "i < length args" "minorversion d = minor"
  shows "\<exists>evs. tr (other d') = tr (other d) @ evs \<and> minorversion d' = minor \<and>
    monitor (opcodes minor args) evs (i, phase_of ready) =
      Some (Suc i, if ready then Open else if check_txn_ready V False d' then Due else Idle)"
proof -
  let ?op = "dispatch_opcode (minorversion d) (argop (args ! i))"
  obtain d1 x d2 where d1: "(if ready then txn_backup V i (args ! i) d else Some d) = Some d1"
    and d2: "op_funct V ?op (args ! i) d1 = Some (x, d2)" and d': "other d' = other d2" "minorversion d' = minorversion d2"
      "fsal_export_id d' = fsal_export_id d2"
    using assms(2) by (auto simp: run_op_def abort_simps Let_def split: if_splits)
  have "check_txn_ready V False d' = check_txn_ready V False d2" using d'(3) by (simp add: check_txn_ready_def current_methods_def)
  then show ?thesis using d1 tracedD(1) [OF assms(1) d2] tracedD(4) [OF assms(1), of i "args ! i" d d1] d'(1,2) assms(3,4)
    by (cases ready) auto
qed

lemma op_check_trace: "op_check V args i d = (st, d1) \<Longrightarrow> other d1 = other d \<and> minorversion d1 = minorversion d"
  by (auto simp: op_check_def Let_def split: if_splits)

text \<open>How far the loop came: all operations, the one that failed or was refused, or a reply from the slot.\<close>
definition loop_end :: "nat \<Rightarrow> nat \<Rightarrow> nfsstat4 \<Rightarrow> loop_exit \<Rightarrow> nfs_resop4 list \<Rightarrow> 'x compound_data \<Rightarrow> bool" where
  "loop_end len n st ex rs d \<longleftrightarrow> (case ex of
     LoopEnd \<Rightarrow> st = NFS4_OK \<and> n = len \<and> length rs = n
   | LoopFailed \<Rightarrow> st \<noteq> NFS4_OK \<and> length rs \<in> {n, Suc n}
   | LoopReplayed \<Rightarrow> use_slot_cached_result d)"

lemma compound_loop_monitor:
  assumes "traced V tr"
  shows "compound_loop V args i ls d = Some ((st, ex, ls'), d') \<Longrightarrow> start_called ls = txn_ready ls \<Longrightarrow> minorversion d = minor \<Longrightarrow>
    length (ls_results ls) = i \<Longrightarrow> i \<le> length args \<Longrightarrow>
    \<exists>evs n ph. tr (other d') = tr (other d) @ evs \<and>
      monitor (opcodes minor args) evs (i, phase_of (txn_ready ls)) = Some (n, ph) \<and>
      (ph = phase_of (txn_ready ls') \<or> ph = Due \<and> ex \<noteq> LoopEnd \<and> \<not> txn_ready ls') \<and>
      loop_end (length args) n st ex (ls_results ls') d'"
proof (induction "length args - i" arbitrary: i ls d rule: less_induct)
  case less
  from less.prems(1) show ?case
  proof (cases rule: compound_loop_elim)
    case finished
    then show ?thesis using less.prems by (intro exI [of _ "[]"] exI [of _ i]) (simp add: loop_end_def)
  next
    case (refused d1)
    then show ?thesis using op_check_trace [OF refused(2)] less.prems
      by (intro exI [of _ "[]"] exI [of _ i]) (simp add: loop_end_def)
  next
    case (failed d1 res)
    obtain evs where "tr (other d') = tr (other d1) @ evs" "monitor (opcodes minor args) evs (i, phase_of (txn_ready ls)) =
        Some (Suc i, if txn_ready ls then Open else if check_txn_ready V False d' then Due else Idle)"
      using run_op_monitor [OF assms failed(3,1)] op_check_trace [OF failed(2)] less.prems(3) by auto
    then show ?thesis using op_check_trace [OF failed(2)] failed less.prems
      by (intro exI [of _ evs] exI [of _ "Suc i"]) (auto simp: loop_end_def)
  next
    case (replayed d1 res c)
    obtain evs where "tr (other d') = tr (other d1) @ evs" "monitor (opcodes minor args) evs (i, phase_of (txn_ready ls)) =
        Some (Suc i, if txn_ready ls then Open else if check_txn_ready V False d' then Due else Idle)"
      using run_op_monitor [OF assms replayed(3,1)] op_check_trace [OF replayed(2)] less.prems(3) by auto
    then show ?thesis using op_check_trace [OF replayed(2)] replayed less.prems
      by (intro exI [of _ evs] exI [of _ "Suc i"]) (auto simp: loop_end_def)
  next
    case (continued d1 res d2 d3 ready)
    let ?ls = "ls\<lparr>ls_results := ls_results ls @ [res], txn_ready := ready, start_called := start_called ls \<or> ready\<rparr>"
    have m: "length args - Suc i < length args - i" using continued(1) by simp
    have rdy: "ready = (txn_ready ls \<or> check_txn_ready V False d2)" using continued(4) by (auto simp: check_txn_ready_def)
    obtain evs1 where evs1: "tr (other d2) = tr (other d) @ evs1" "minorversion d2 = minor"
      "monitor (opcodes minor args) evs1 (i, phase_of (txn_ready ls)) =
        Some (Suc i, if txn_ready ls then Open else if check_txn_ready V False d2 then Due else Idle)"
      using run_op_monitor [OF assms continued(3,1)] op_check_trace [OF continued(2)] less.prems(3) by auto
    obtain evs2 where evs2: "tr (other d3) = tr (other d2) @ evs2" "minorversion d3 = minor"
      "monitor (opcodes minor args) evs2 (Suc i, if txn_ready ls then Open else if check_txn_ready V False d2 then Due else Idle) =
        Some (Suc i, phase_of ready)"
    proof (cases "\<not> start_called ls \<and> ready")
      case True
      then obtain e where "tr (other d3) = tr (other d2) @ [TxnStart e]" "minorversion d3 = minorversion d2"
        using tracedD(3) [OF assms, of args d2 d3] continued(5) by auto
      then show thesis using True rdy less.prems(2) evs1(2) by (intro that [of "[TxnStart e]"]) auto
    next
      case False
      then have "d3 = d2" using continued(5) by (auto split: if_splits)
      then show thesis using False rdy less.prems(2) evs1(2) by (intro that [of "[]"]) auto
    qed
    obtain evs n ph where evs: "tr (other d') = tr (other d3) @ evs"
      "monitor (opcodes minor args) evs (Suc i, phase_of ready) = Some (n, ph)"
      "ph = phase_of (txn_ready ls') \<or> ph = Due \<and> ex \<noteq> LoopEnd \<and> \<not> txn_ready ls'"
      "loop_end (length args) n st ex (ls_results ls') d'"
      using less.hyps [OF m continued(6)] continued(1) evs2(2) less.prems(2-5) rdy by auto
    then show ?thesis using evs1 evs2
      by (intro exI [of _ "evs1 @ evs2 @ evs"] exI [of _ n] exI [of _ ph]) (simp add: monitor_append)
  qed
qed

text \<open>C1. A transaction is bracketed.  The calls of a request are accepted by the automaton of the transaction, which has
  every operation from the first to the last one that was run: no method of an export is called before an operation
  leaves an export with transactions; the first one that does, unless it fails or the reply comes from the slot, is followed by the
  start of the transaction; the handler of every later operation runs right after the backup of just that operation; and the
  transaction that was started is ended once, with the status of the reply.  Unless the reply comes from the slot, the
  operations that ran are those with a result, up to one that was refused before its handler, and all when the request succeeds.\<close>
theorem transaction_bracketed:
  assumes "traced V tr" "end_keeps_slot V" "nfs4_Compound V minor tag_ok cred_ok args d = Some ((rc, Some res), d')"
  shows "\<exists>evs n ph. tr (other d') = tr (other d) @ evs \<and> monitor (opcodes minor args) evs (0, Idle) = Some (n, ph) \<and>
    (ph = Ended (comp_status res) \<or> ph = Idle \<or> ph = Due \<and> (comp_status res \<noteq> NFS4_OK \<or> use_slot_cached_result d')) \<and>
    (resarray res \<noteq> [] \<and> \<not> use_slot_cached_result d' \<longrightarrow>
       length (resarray res) \<in> {n, Suc n} \<and> (comp_status res = NFS4_OK \<longrightarrow> n = length args))"
  using assms(3)
proof (cases rule: compound_elim)
  case rejected
  then show ?thesis by (intro exI [of _ "[]"]) simp
next
  case (run d0 st ex ls d1 d2 d3)
  obtain evs n ph where evs: "tr (other d1) = tr (other d) @ evs" "monitor (opcodes minor args) evs (0, Idle) = Some (n, ph)"
    "ph = phase_of (txn_ready ls) \<or> ph = Due \<and> ex \<noteq> LoopEnd \<and> \<not> txn_ready ls" "loop_end (length args) n st ex (ls_results ls) d1"
    using compound_loop_monitor [OF assms(1) run(3)] run(1,14) by auto
  have d': "tr (other d') = tr (other d2)" "use_slot_cached_result d' = use_slot_cached_result d2"
    using tracedD(2) [OF assms(1)] cache_reply_keeps [OF run(6)] run(7) by simp_all
  show ?thesis
  proof (cases "txn_ready ls")
    case True
    then have "txn_end V res d1 = Some d2" using run(5) by simp
    from tracedD(5) [OF assms(1) this] txn_end_slot [OF assms(2) this]
    obtain e where e: "tr (other d2) = tr (other d1) @ [TxnEnd e (comp_status res)]"
      "use_slot_cached_result d2 = use_slot_cached_result d1" by blast
    have "monitor (opcodes minor args) (evs @ [TxnEnd e (comp_status res)]) (0, Idle) = Some (n, Ended (comp_status res))"
      using evs(2,3) True by (simp add: monitor_append)
    then show ?thesis using e evs(1,4) d' run(4)
      by (intro exI [of _ "evs @ [TxnEnd e (comp_status res)]"] exI [of _ n] exI [of _ "Ended (comp_status res)"])
        (auto simp: loop_end_def split: loop_exit.splits)
  next
    case False
    then have "d2 = d1" using run(5) by simp
    then show ?thesis using False evs d' run(4)
      by (intro exI [of _ evs] exI [of _ n] exI [of _ ph]) (auto simp: loop_end_def split: loop_exit.splits)
  qed
qed

section \<open>A compound on two exports\<close>

text \<open>PUTROOTFH makes export 7 current, PUTFH export 8; REMOVE fails, every other operation succeeds.  All calls are
  recorded.\<close>
definition demo_export :: "nat \<Rightarrow> (txn_event list, unit) export_methods" where
  "demo_export e = \<lparr>
     m_start_compound = Some (\<lambda>args d. Some (d\<lparr>other := other d @ [TxnStart e]\<rparr>)),
     m_end_compound = Some (\<lambda>res d. Some (d\<lparr>other := other d @ [TxnEnd e (comp_status res)]\<rparr>)),
     m_backup_nfs4_op = Some (\<lambda>i arg d. Some (d\<lparr>other := other d @ [TxnBackup e i]\<rparr>)),
     supports_transaction = [False, True]\<rparr>"

definition demo_server :: "(txn_event list, unit) server" where
  "demo_server = \<lparr>
     op_funct = (\<lambda>op arg d. Some (
       (if op = NFS4_OP_REMOVE then 2 else NFS4_OK, \<lparr>resop = argop arg, res_status = 0, res_u = RES_NONE\<rparr>),
       let d = (if op = NFS4_OP_PUTROOTFH then d\<lparr>currentFH := ''r'', fsal_export_id := Some 7, export_options := 0x1E0\<rparr>
                else if op = NFS4_OP_PUTFH then d\<lparr>fsal_export_id := Some 8\<rparr> else d)
       in d\<lparr>other := other d @ [OpRun op (fsal_export_id d \<noteq> None)]\<rparr>)),
     op_size = (\<lambda>op. 8), export_table = demo_export, union_sessionid = (\<lambda>a. []),
     compound_base_size = 0, minor_versions = 7, reset_ctx = (\<lambda>x. x)\<rparr>"

definition demo_data :: "txn_event list compound_data" where
  "demo_data = \<lparr>currentFH = [], minorversion = 0, cd_session = None, resp_size = 0, op_resp_size = 0,
     use_slot_cached_result = False, sa_cachethis = False, cached_result = None, res_cached = False,
     fsal_export_id = None, export_options = 0, other = []\<rparr>"

lemma demo_traced: "traced demo_server (\<lambda>x. x)"
proof -
  have "check_txn_ready demo_server False d \<longleftrightarrow> fsal_export_id d \<noteq> None" for d
    by (cases "fsal_export_id d") (simp_all add: check_txn_ready_def current_methods_def demo_server_def demo_export_def)
  then show ?thesis by (auto simp: traced_def demo_server_def demo_export_def Let_def)
qed

text \<open>REMOVE fails and GETATTR is not run any more.\<close>
lemma demo_compound:
  "map_option (\<lambda>(r, d). (r, other d, use_slot_cached_result d)) (nfs4_Compound demo_server 0 True True
     [ARG_PUTROOTFH, ARG_CREATE ''d'', ARG_PUTFH \<lparr>fsopaque = []\<rparr>, ARG_REMOVE ''d'', ARG_GETATTR] demo_data) =
   Some ((NFS_REQ_OK, Some \<lparr>comp_status = 2, resarray =
       map (\<lambda>op. \<lparr>resop = op, res_status = if op = NFS4_OP_REMOVE then 2 else 0, res_u = RES_NONE\<rparr>)
         [NFS4_OP_PUTROOTFH, NFS4_OP_CREATE, NFS4_OP_PUTFH, NFS4_OP_REMOVE]\<rparr>),
     [OpRun NFS4_OP_PUTROOTFH True, TxnStart 7, TxnBackup 7 1, OpRun NFS4_OP_CREATE True, TxnBackup 7 2, OpRun NFS4_OP_PUTFH True,
      TxnBackup 8 3, OpRun NFS4_OP_REMOVE True, TxnEnd 8 2], False)"
  by code_simp

lemma demo_keeps_slot: "end_keeps_slot demo_server"
  by (auto simp: end_keeps_slot_def demo_server_def demo_export_def)

theorem compound_stops_at_first_error_witness:
  "\<exists>res d'. nfs4_Compound demo_server 0 True True
     [ARG_PUTROOTFH, ARG_CREATE ''d'', ARG_PUTFH \<lparr>fsopaque = []\<rparr>, ARG_REMOVE ''d'', ARG_GETATTR] demo_data = Some ((NFS_REQ_OK, Some res), d') \<and>
     comp_status res = 2 \<and> length (resarray res) = 4 \<and> results_ok 5 2 (resarray res)"
proof -
  obtain res d' where r: "nfs4_Compound demo_server 0 True True
     [ARG_PUTROOTFH, ARG_CREATE ''d'', ARG_PUTFH \<lparr>fsopaque = []\<rparr>, ARG_REMOVE ''d'', ARG_GETATTR] demo_data = Some ((NFS_REQ_OK, Some res), d')"
     "comp_status res = 2" "length (resarray res) = 4" "\<not> use_slot_cached_result d'"
    using demo_compound by auto
  from compound_stops_at_first_error [OF demo_keeps_slot r(1)] r show ?thesis by (auto simp: eval_nat_numeral from_slot_def)
qed

theorem transaction_bracketed_witness:
  "\<exists>res d' n. nfs4_Compound demo_server 0 True True
     [ARG_PUTROOTFH, ARG_CREATE ''d'', ARG_PUTFH \<lparr>fsopaque = []\<rparr>, ARG_REMOVE ''d'', ARG_GETATTR] demo_data = Some ((NFS_REQ_OK, Some res), d') \<and>
     monitor [NFS4_OP_PUTROOTFH, NFS4_OP_CREATE, NFS4_OP_PUTFH, NFS4_OP_REMOVE, NFS4_OP_GETATTR] (other d') (0, Idle) = Some (n, Ended 2) \<and>
     n \<in> {3, 4}"
proof -
  let ?args = "[ARG_PUTROOTFH, ARG_CREATE ''d'', ARG_PUTFH \<lparr>fsopaque = []\<rparr>, ARG_REMOVE ''d'', ARG_GETATTR] :: unit nfs_argop4 list"
  obtain res d' where r: "nfs4_Compound demo_server 0 True True ?args demo_data = Some ((NFS_REQ_OK, Some res), d')"
     "other d' = [OpRun NFS4_OP_PUTROOTFH True, TxnStart 7, TxnBackup 7 1, OpRun NFS4_OP_CREATE True, TxnBackup 7 2,
       OpRun NFS4_OP_PUTFH True, TxnBackup 8 3, OpRun NFS4_OP_REMOVE True, TxnEnd 8 2]"
     "comp_status res = 2" "length (resarray res) = 4" "\<not> use_slot_cached_result d'"
    using demo_compound by auto
  have ops: "opcodes 0 ?args = [NFS4_OP_PUTROOTFH, NFS4_OP_CREATE, NFS4_OP_PUTFH, NFS4_OP_REMOVE, NFS4_OP_GETATTR]"
    by (simp add: dispatch_opcode_def LastOpcode_def)
  have o: "other demo_data = []" by (simp add: demo_data_def)
  from transaction_bracketed [OF demo_traced demo_keeps_slot r(1)] r show ?thesis unfolding ops o by (fastforce simp: r(2))
qed

end
