(* ===== verification/Nfs4_Client_Ops.thy ===== *)
theory Nfs4_Client_Ops
  imports Sal_Clientid Nfs4_Compound
begin

text \<open>
  The operations on client ids and sessions (\<open>Protocols/NFS/nfs4_op_setclientid.c\<close>,
  \<open>nfs4_op_setclientid_confirm.c\<close>, \<open>nfs4_op_renew.c\<close>, \<open>nfs4_op_exchange_id.c\<close>,
  \<open>nfs4_op_create_session.c\<close>, \<open>nfs4_op_destroy_session.c\<close>, \<open>nfs4_op_destroy_clientid.c\<close>,
  \<open>nfs4_op_bind_conn.c\<close>, \<open>nfs4_op_sequence.c\<close>), and a compound as it is served with them: the slot that
  SEQUENCE found receives the reply, the lease is renewed and the session is released at the end.

  A handler that touches nothing but clients and sessions is a function of the world; \<open>on_world\<close> makes it
  a handler of the compound.
\<close>

section \<open>The state of a request\<close>

text \<open>The world, and the fields of \<open>compound_data_t\<close> and \<open>op_ctx\<close> that the operations use:
  \<open>data_session\<close>, \<open>data_slot\<close>, \<open>preserved_clientid\<close>, the slot that \<open>cached_result\<close> points to, the
  credential, the client, the addresses of the connection.  \<open>rest\<close> is what other operations use.\<close>
record ('o, 'y) client_ctx =
  world :: "'o client_world"
  data_session :: "nat option"
  data_slot :: u32
  preserved_clientid :: "nat option"
  cached_slot :: "(nat \<times> nat) option"
  op_clientid :: "u64 option"
  data_credential :: nfs_client_cred_t
  op_client :: "nat option"
  xprt_addr :: bytes
  raddr :: u32
  rest :: 'y

type_synonym ('o, 'y) client_data = "('o, 'y) client_ctx compound_data"

abbreviation the_world :: "('o, 'y) client_data \<Rightarrow> 'o client_world" where
  "the_world d \<equiv> world (other d)"

abbreviation set_world :: "'o client_world \<Rightarrow> ('o, 'y) client_data \<Rightarrow> ('o, 'y) client_data" where
  "set_world w d \<equiv> d\<lparr>other := (other d)\<lparr>world := w\<rparr>\<rparr>"

definition on_world ::
  "nfs_opnum4 \<Rightarrow> ('o client_world \<Rightarrow> ((nfsstat4 \<times> nfs_resop4_u) \<times> 'o client_world) option) \<Rightarrow> ('o, 'y) client_data
    \<Rightarrow> ((nfsstat4 \<times> nfs_resop4) \<times> ('o, 'y) client_data) option"
where
  "on_world op f d = do {
     ((st, u), w) \<leftarrow> f (the_world d);
     Some ((st, \<lparr>resop = op, res_status = st, res_u = u\<rparr>), set_world w d) }"

section \<open>SETCLIENTID, SETCLIENTID_CONFIRM, RENEW\<close>

text \<open>The same principal from the same client.\<close>
definition same_client :: "'o client_env \<Rightarrow> nfs_client_id_t \<Rightarrow> nfs_client_cred_t \<Rightarrow> nat option \<Rightarrow> bool" where
  "same_client E c cred client \<longleftrightarrow>
     nfs_compare_clientcred E (cid_credential c) cred \<and> client \<noteq> None \<and> cid_gsh_client c \<noteq> None \<and>
     client = cid_gsh_client c"

definition new_id_and_verifier :: "'o client_env \<Rightarrow> 'o client_world \<Rightarrow> u64 \<times> bytes \<times> 'o client_world" where
  "new_id_and_verifier E w =
     (let (i, w) = new_clientid E w; (v, w) = new_clientid_verifier w in (i, v, w))"

text \<open>The id and the verifier to answer with: \<open>None\<close> refuses the request.\<close>
definition setclientid_choose ::
  "'o client_env \<Rightarrow> setclientid4args \<Rightarrow> nfs_client_cred_t \<Rightarrow> nat option \<Rightarrow> nat \<Rightarrow> 'o client_world
    \<Rightarrow> ((u64 \<times> bytes) option \<times> 'o client_world) option"
where
  "setclientid_choose E arg cred client r w = do {
     rec \<leftarrow> records w r;
     case cr_confirmed_rec rec of
       None \<Rightarrow> (let (i, v, w) = new_id_and_verifier E w in Some (Some (i, v), w))
     | Some conf \<Rightarrow> do {
         w \<leftarrow> inc_client_id_ref conf w;
         c \<leftarrow> clients w conf;
         let credmatch = same_client E c cred client;
         if \<not> credmatch \<and> clientid_has_state E conf w
         then (case cid_cb c of v41 _ \<Rightarrow> None
               | v40 _ \<Rightarrow> map_option (Pair None) (dec_client_id_ref E conf w))
         else do {
           let ((i, v), w) =
             (if credmatch \<and> memcmp (scid_verifier arg) (cid_incoming_verifier c) 8 = 0
              then let (v, w) = new_clientid_verifier w in ((cid_clientid c, v), w)
              else let (i, v, w) = new_id_and_verifier E w in ((i, v), w));
           map_option (Pair (Some (i, v))) (dec_client_id_ref E conf w) } } }"

definition SOCK_NAME_MAX :: nat where "SOCK_NAME_MAX = 128"

text \<open>The new unconfirmed record.  An address that is too long has the record released twice.\<close>
definition setclientid_create ::
  "'o client_env \<Rightarrow> setclientid4args \<Rightarrow> nfs_client_cred_t \<Rightarrow> nat option \<Rightarrow> nat \<Rightarrow> u64 \<Rightarrow> bytes \<Rightarrow> 'o client_world
    \<Rightarrow> ((nfsstat4 \<times> nfs_resop4_u) \<times> 'o client_world) option"
where
  "setclientid_create E arg cred client r clientid verifier w = do {
     (unconf, w) \<leftarrow> create_client_id E clientid r cred 0 client w;
     if length (scid_r_addr arg) \<ge> SOCK_NAME_MAX + 1
     then do {
       w \<leftarrow> free_client_id E unconf w;
       w \<leftarrow> free_client_id E unconf w;
       Some ((NFS4ERR_INVAL, RES_NONE), w) }
     else do {
       w \<leftarrow> mod_client unconf (\<lambda>c. c\<lparr>cid_incoming_verifier := scid_verifier arg, cid_verifier := verifier,
              cid_cb := (case cid_cb c of
                  v40 cb \<Rightarrow> v40 (cb\<lparr>cb_client_r_addr := scid_r_addr arg, cb_program := scid_cb_program arg,
                                 cb_callback_ident := scid_callback_ident arg\<rparr>)
                | v41 cb \<Rightarrow> v41 cb)\<rparr>) w;
       (rc, w) \<leftarrow> nfs_client_id_insert E unconf w;
       Some (if rc \<noteq> CLIENT_ID_SUCCESS then (clientid_error_to_nfsstat_no_expire rc, RES_NONE)
             else (NFS4_OK, RES_SETCLIENTID clientid verifier), w) } }"

text \<open>Any unconfirmed record of the owner goes.\<close>
definition drop_unconfirmed :: "'o client_env \<Rightarrow> nat \<Rightarrow> 'o client_world \<Rightarrow> 'o client_world option" where
  "drop_unconfirmed E r w = do {
     rec \<leftarrow> records w r;
     case cr_unconfirmed_rec rec of
       None \<Rightarrow> Some w
     | Some unconf \<Rightarrow> map_option snd (remove_unconfirmed_client_id E unconf w) }"

definition nfs4_op_setclientid ::
  "'o client_env \<Rightarrow> setclientid4args \<Rightarrow> nat \<Rightarrow> nfs_client_cred_t \<Rightarrow> nat option \<Rightarrow> 'o client_world
    \<Rightarrow> ((nfsstat4 \<times> nfs_resop4_u) \<times> 'o client_world) option"
where
  "nfs4_op_setclientid E arg minor cred client w =
     (if minor > 0 then Some ((NFS4ERR_NOTSUPP, RES_NONE), w)
      else do {
        (r, w) \<leftarrow> get_client_record E (scid_id arg) 0 0 w;
        (choice, w) \<leftarrow> setclientid_choose E arg cred client r w;
        (res, w) \<leftarrow> (case choice of
            None \<Rightarrow> Some ((NFS4ERR_CLID_INUSE, RES_NONE), w)
          | Some (clientid, verifier) \<Rightarrow> do {
              w \<leftarrow> drop_unconfirmed E r w;
              setclientid_create E arg cred client r clientid verifier w });
        w \<leftarrow> dec_client_record_ref E r w;
        Some (res, w) })"

definition set_cb_chan_down :: "nat \<Rightarrow> bool \<Rightarrow> 'o client_world \<Rightarrow> 'o client_world option" where
  "set_cb_chan_down a down w = do {
     c \<leftarrow> clients w a;
     case cid_cb c of
       v40 cb \<Rightarrow> mod_client a (\<lambda>c. c\<lparr>cid_cb := v40 (cb\<lparr>cb_chan_down := down\<rparr>)\<rparr>) w
     | v41 _ \<Rightarrow> None }"

text \<open>The confirmed record of the owner, with a reference, unless it is for another id: then it is expired.\<close>
definition take_confirmed ::
  "'o client_env \<Rightarrow> nat \<Rightarrow> u64 \<Rightarrow> 'o client_world \<Rightarrow> (nat option \<times> 'o client_world) option"
where
  "take_confirmed E r clientid w = do {
     rec \<leftarrow> records w r;
     case cr_confirmed_rec rec of
       None \<Rightarrow> Some (None, w)
     | Some conf \<Rightarrow> do {
         w \<leftarrow> inc_client_id_ref conf w;
         c \<leftarrow> clients w conf;
         if cid_clientid c \<noteq> clientid
         then do {
           (_, w) \<leftarrow> nfs_client_id_expire E conf False w;
           map_option (Pair None) (dec_client_id_ref E conf w) }
         else Some (Some conf, w) } }"

text \<open>The callback information of the new record replaces that of the confirmed one.\<close>
definition update_callback :: "nfs_client_id_t \<Rightarrow> nat \<Rightarrow> 'o client_world \<Rightarrow> 'o client_world option" where
  "update_callback u conf w = do {
     c \<leftarrow> clients w conf;
     case (cid_cb u, cid_cb c) of
       (v40 ucb, v40 cb) \<Rightarrow> mod_client conf (\<lambda>c. c\<lparr>cid_verifier := cid_verifier u,
          cid_cb := v40 (cb\<lparr>cb_client_r_addr := cb_client_r_addr ucb, cb_program := cb_program ucb,
                           cb_callback_ident := cb_callback_ident ucb, cb_chan_clnt := False\<rparr>)\<rparr>) w
     | _ \<Rightarrow> None }"

definition confirm_unconfirmed ::
  "'o client_env \<Rightarrow> nat \<Rightarrow> nat \<Rightarrow> u64 \<Rightarrow> 'o client_world \<Rightarrow> (nfsstat4 \<times> 'o client_world) option"
where
  "confirm_unconfirmed E r unconf clientid w = do {
     (conf, w) \<leftarrow> take_confirmed E r clientid w;
     case conf of
       Some conf \<Rightarrow> do {
         u \<leftarrow> clients w unconf;
         w \<leftarrow> update_callback u conf w;
         (_, w) \<leftarrow> remove_unconfirmed_client_id E unconf w;
         w \<leftarrow> dec_client_id_ref E unconf w;
         w \<leftarrow> set_cb_chan_down conf (allow_delegations E \<and> \<not> test_cb_chan E conf) w;
         map_option (Pair NFS4_OK) (dec_client_id_ref E conf w) }
     | None \<Rightarrow> do {
         (rc, w) \<leftarrow> nfs_client_id_confirm E unconf w;
         if rc \<noteq> CLIENT_ID_SUCCESS
         then map_option (Pair (clientid_error_to_nfsstat_no_expire rc)) (dec_client_id_ref E unconf w)
         else do {
           w \<leftarrow> mod_client unconf (\<lambda>c. c\<lparr>cid_allow_reclaim := chk_clid E c (owners w)\<rparr>) w;
           w \<leftarrow> set_cb_chan_down unconf (allow_delegations E \<and> \<not> test_cb_chan E unconf) w;
           map_option (Pair NFS4_OK) (dec_client_id_ref E unconf w) } } }"

definition nfs4_op_setclientid_confirm ::
  "'o client_env \<Rightarrow> u64 \<Rightarrow> bytes \<Rightarrow> nat \<Rightarrow> nfs_client_cred_t \<Rightarrow> nat option \<Rightarrow> 'o client_world
    \<Rightarrow> ((nfsstat4 \<times> nfs_resop4_u) \<times> 'o client_world) option"
where
  "nfs4_op_setclientid_confirm E clientid verifier minor cred client w =
     (if minor > 0 then Some ((NFS4ERR_NOTSUPP, RES_NONE), w)
      else do {
        ((rc, unconf), w) \<leftarrow> nfs_client_id_get_unconfirmed E clientid w;
        ((rc, conf), w) \<leftarrow> (if rc = CLIENT_ID_SUCCESS then Some ((rc, None), w)
                            else nfs_client_id_get_confirmed E clientid w);
        if rc \<noteq> CLIENT_ID_SUCCESS then Some ((clientid_error_to_nfsstat_no_expire rc, RES_NONE), w)
        else do {
          found \<leftarrow> (case unconf of Some a \<Rightarrow> Some a | None \<Rightarrow> conf);
          c \<leftarrow> clients w found;
          r \<leftarrow> cid_client_record c;
          w \<leftarrow> inc_client_record_ref r w;
          (st, w) \<leftarrow>
            (if \<not> same_client E c cred client
             then map_option (Pair NFS4ERR_CLID_INUSE) (dec_client_id_ref E found w)
             else if unconf = None
             then map_option (Pair (if memcmp (cid_verifier c) verifier 8 = 0 then NFS4_OK else NFS4ERR_CLID_INUSE))
                    (dec_client_id_ref E found w)
             else if cid_confirmed c = CONFIRMED_CLIENT_ID \<and> memcmp (cid_verifier c) verifier 8 = 0
             then map_option (Pair NFS4_OK) (dec_client_id_ref E found w)
             else if cid_confirmed c \<noteq> UNCONFIRMED_CLIENT_ID
             then map_option (Pair NFS4ERR_STALE_CLIENTID) (dec_client_id_ref E found w)
             else confirm_unconfirmed E r found clientid w);
          w \<leftarrow> dec_client_record_ref E r w;
          Some ((st, RES_NONE), w) } })"

definition nfs4_op_renew ::
  "'o client_env \<Rightarrow> u64 \<Rightarrow> nat \<Rightarrow> 'o client_world \<Rightarrow> ((nfsstat4 \<times> nfs_resop4_u) \<times> 'o client_world) option"
where
  "nfs4_op_renew E clientid minor w =
     (if minor > 0 then Some ((NFS4ERR_NOTSUPP, RES_NONE), w)
      else do {
        ((rc, conf), w) \<leftarrow> nfs_client_id_get_confirmed E clientid w;
        case conf of
          None \<Rightarrow> Some ((clientid_error_to_nfsstat rc, RES_NONE), w)
        | Some a \<Rightarrow> do {
            (ok, w) \<leftarrow> reserve_lease E a w;
            (st, w) \<leftarrow>
              (if \<not> ok then Some (NFS4ERR_EXPIRED, w)
               else do {
                 w \<leftarrow> update_lease a w;
                 c \<leftarrow> clients w a;
                 down \<leftarrow> (if allow_delegations E
                          then (case cid_cb c of v40 cb \<Rightarrow> Some (cb_chan_down cb) | v41 _ \<Rightarrow> None) else Some False);
                 if down \<and> curr_deleg_grants c \<noteq> 0
                 then map_option (Pair NFS4ERR_CB_PATH_DOWN) (mod_client a (\<lambda>c. c\<lparr>first_path_down_resp_time :=
                        (if first_path_down_resp_time c = 0 then now w else first_path_down_resp_time c)\<rparr>) w)
                 else map_option (Pair NFS4_OK) (mod_client a (\<lambda>c. c\<lparr>first_path_down_resp_time := 0\<rparr>) w) });
            w \<leftarrow> dec_client_id_ref E a w;
            Some ((st, RES_NONE), w) } })"

section \<open>EXCHANGE_ID\<close>

definition EXCHGID4_FLAG_SUPP_MOVED_REFER :: u32 where "EXCHGID4_FLAG_SUPP_MOVED_REFER = 0x00000001"
definition EXCHGID4_FLAG_SUPP_MOVED_MIGR :: u32 where "EXCHGID4_FLAG_SUPP_MOVED_MIGR = 0x00000002"
definition EXCHGID4_FLAG_BIND_PRINC_STATEID :: u32 where "EXCHGID4_FLAG_BIND_PRINC_STATEID = 0x00000100"
definition EXCHGID4_FLAG_USE_NON_PNFS :: u32 where "EXCHGID4_FLAG_USE_NON_PNFS = 0x00010000"
definition EXCHGID4_FLAG_USE_PNFS_MDS :: u32 where "EXCHGID4_FLAG_USE_PNFS_MDS = 0x00020000"
definition EXCHGID4_FLAG_USE_PNFS_DS :: u32 where "EXCHGID4_FLAG_USE_PNFS_DS = 0x00040000"
definition EXCHGID4_FLAG_MASK_PNFS :: u32 where "EXCHGID4_FLAG_MASK_PNFS = 0x00070000"
definition EXCHGID4_FLAG_UPD_CONFIRMED_REC_A :: u32 where "EXCHGID4_FLAG_UPD_CONFIRMED_REC_A = 0x40000000"
definition EXCHGID4_FLAG_CONFIRMED_R :: u32 where "EXCHGID4_FLAG_CONFIRMED_R = 0x80000000"

text \<open>The length of an opaque rounded up to a unit of XDR.\<close>
definition RNDUP :: "nat \<Rightarrow> nat" where
  "RNDUP n = (n + 3) div 4 * 4"

text \<open>The size of the reply, with the two strings of the server's name (twelve more bytes of suffix in
  the scope).\<close>
definition exchange_id_resp_size :: "nat \<Rightarrow> u32" where
  "exchange_id_resp_size owner_len = 116 + of_nat (RNDUP owner_len + RNDUP (owner_len + 12))"

definition pnfs_roles :: "'o client_env \<Rightarrow> u32 \<Rightarrow> u32" where
  "pnfs_roles E flags =
     (let asked = flags AND EXCHGID4_FLAG_MASK_PNFS;
          mds = (if pnfs_mds E \<and> (asked = 0 \<or> flags AND EXCHGID4_FLAG_USE_PNFS_MDS \<noteq> 0)
                 then EXCHGID4_FLAG_USE_PNFS_MDS else 0);
          ds = (if pnfs_ds E \<and> (asked = 0 \<or> flags AND EXCHGID4_FLAG_USE_PNFS_DS \<noteq> 0)
                then EXCHGID4_FLAG_USE_PNFS_DS else 0);
          roles = asked OR mds OR ds
      in if roles = 0 then EXCHGID4_FLAG_USE_NON_PNFS else roles)"

text \<open>What the confirmed record of the owner decides: a status to return, the confirmed record to
  answer with, or that a new record is to be made.  The confirmed record of a client that restarted is left
  with the reference that was taken.\<close>
definition exchange_id_confirmed ::
  "'o client_env \<Rightarrow> exchange_id4args \<Rightarrow> nfs_client_cred_t \<Rightarrow> nat option \<Rightarrow> nat \<Rightarrow> 'o client_world
    \<Rightarrow> ((nfsstat4 + nat option) \<times> 'o client_world) option"
where
  "exchange_id_confirmed E arg cred client r w = do {
     rec \<leftarrow> records w r;
     let update = eia_flags arg AND EXCHGID4_FLAG_UPD_CONFIRMED_REC_A \<noteq> 0;
     case cr_confirmed_rec rec of
       None \<Rightarrow> Some (if update then Inl NFS4ERR_NOENT else Inr None, w)
     | Some conf \<Rightarrow> do {
         w \<leftarrow> inc_client_id_ref conf w;
         c \<leftarrow> clients w conf;
         let same_verifier = memcmp (co_verifier arg) (cid_incoming_verifier c) 8 = 0;
         if \<not> update then
           (if \<not> nfs_compare_clientcred E (cid_credential c) cred then
              (if \<not> valid_lease E (now w) c \<or> \<not> client_id_has_state E conf w
               then do {
                 (_, w) \<leftarrow> nfs_client_id_expire E conf False w;
                 map_option (Pair (Inr None)) (dec_client_id_ref E conf w) }
               else map_option (Pair (Inl NFS4ERR_CLID_INUSE)) (dec_client_id_ref E conf w))
            else if same_verifier then Some (Inr (Some conf), w)
            else Some (Inr None, w))
         else if same_verifier then
           (if \<not> same_client E c cred client
            then map_option (Pair (Inl NFS4ERR_PERM)) (dec_client_id_ref E conf w)
            else Some (Inr (Some conf), w))
         else map_option (Pair (Inl NFS4ERR_NOT_SAME)) (dec_client_id_ref E conf w) } }"

definition exchange_id_create ::
  "'o client_env \<Rightarrow> exchange_id4args \<Rightarrow> nat \<Rightarrow> nfs_client_cred_t \<Rightarrow> nat option \<Rightarrow> nat \<Rightarrow> 'o client_world
    \<Rightarrow> ((clientid_status_t \<times> nat) \<times> 'o client_world) option"
where
  "exchange_id_create E arg minor cred client r w = do {
     w \<leftarrow> drop_unconfirmed E r w;
     (unconf, w) \<leftarrow> create_client_id E 0 r cred minor client w;
     w \<leftarrow> mod_client unconf (\<lambda>c. c\<lparr>cid_create_session_sequence := 1,
            cid_create_session_slot := (NFS4ERR_SEQ_MISORDERED, RES_NONE),
            cid_incoming_verifier := co_verifier arg\<rparr>) w;
     (rc, w) \<leftarrow> nfs_client_id_insert E unconf w;
     Some ((rc, unconf), w) }"

definition exchange_id_records ::
  "'o client_env \<Rightarrow> exchange_id4args \<Rightarrow> nat \<Rightarrow> nfs_client_cred_t \<Rightarrow> nat option \<Rightarrow> u32 \<Rightarrow> 'o client_world
    \<Rightarrow> ((nfsstat4 \<times> nfs_resop4_u) \<times> 'o client_world) option"
where
  "exchange_id_records E arg minor cred client server_addr w = do {
     (r, w) \<leftarrow> get_client_record E (co_ownerid arg) (pnfs_roles E (eia_flags arg)) server_addr w;
     rec \<leftarrow> records w r;
     let flags = cr_pnfs_flags rec OR EXCHGID4_FLAG_SUPP_MOVED_REFER;
     (choice, w) \<leftarrow> exchange_id_confirmed E arg cred client r w;
     (res, w) \<leftarrow> (case choice of
         Inl st \<Rightarrow> Some ((st, RES_NONE), w)
       | Inr (Some conf) \<Rightarrow> do {
           c \<leftarrow> clients w conf;
           w \<leftarrow> dec_client_id_ref E conf w;
           Some ((NFS4_OK, RES_EXCHANGE_ID (cid_clientid c) (cid_create_session_sequence c)
                   (EXCHGID4_FLAG_CONFIRMED_R OR flags)), w) }
       | Inr None \<Rightarrow> do {
           ((rc, unconf), w) \<leftarrow> exchange_id_create E arg minor cred client r w;
           if rc \<noteq> CLIENT_ID_SUCCESS then Some ((clientid_error_to_nfsstat_no_expire rc, RES_NONE), w)
           else do {
             c \<leftarrow> clients w unconf;
             Some ((NFS4_OK, RES_EXCHANGE_ID (cid_clientid c) (cid_create_session_sequence c) flags), w) } });
     w \<leftarrow> dec_client_record_ref E r w;
     Some (res, w) }"

definition nfs4_op_exchange_id ::
  "'o client_env \<Rightarrow> exchange_id4args \<Rightarrow> ('o, 'y) client_data
    \<Rightarrow> ((nfsstat4 \<times> nfs_resop4) \<times> ('o, 'y) client_data) option"
where
  "nfs4_op_exchange_id E arg d =
     (let fail = (\<lambda>st. Some ((st, \<lparr>resop = NFS4_OP_EXCHANGE_ID, res_status = st, res_u = RES_NONE\<rparr>), d)) in
      if minorversion d = 0 then fail NFS4ERR_INVAL
      else if eia_flags arg AND NOT (EXCHGID4_FLAG_SUPP_MOVED_REFER OR EXCHGID4_FLAG_SUPP_MOVED_MIGR OR
          EXCHGID4_FLAG_BIND_PRINC_STATEID OR EXCHGID4_FLAG_USE_NON_PNFS OR EXCHGID4_FLAG_USE_PNFS_MDS OR
          EXCHGID4_FLAG_USE_PNFS_DS OR EXCHGID4_FLAG_UPD_CONFIRMED_REC_A) \<noteq> 0
      then fail NFS4ERR_INVAL
      else case hostname E of
        None \<Rightarrow> fail NFS4ERR_SERVERFAULT
      | Some h \<Rightarrow>
          if check_resp_room d (exchange_id_resp_size (length h)) \<noteq> NFS4_OK
          then fail (check_resp_room d (exchange_id_resp_size (length h)))
          else on_world NFS4_OP_EXCHANGE_ID
                 (exchange_id_records E arg (minorversion d) (data_credential (other d)) (op_client (other d))
                    (raddr (other d))) d)"

section \<open>CREATE_SESSION\<close>

definition NFS41_MIN_REQUEST_SIZE :: u32 where "NFS41_MIN_REQUEST_SIZE = 256"
definition NFS41_MIN_RESPONSE_SIZE :: u32 where "NFS41_MIN_RESPONSE_SIZE = 256"
definition NFS41_MIN_OPERATIONS :: u32 where "NFS41_MIN_OPERATIONS = 2"

abbreviation CREATE_SESSION4_FLAGS :: u32 where "CREATE_SESSION4_FLAGS \<equiv> 7"
abbreviation CREATE_SESSION4_FLAG_CONN_BACK_CHAN :: u32 where "CREATE_SESSION4_FLAG_CONN_BACK_CHAN \<equiv> 2"

definition channel_too_small :: "channel_attrs4 \<Rightarrow> bool" where
  "channel_too_small a \<longleftrightarrow> ca_maxrequestsize a < NFS41_MIN_REQUEST_SIZE \<or>
     ca_maxresponsesize a < NFS41_MIN_RESPONSE_SIZE \<or> ca_maxoperations a < NFS41_MIN_OPERATIONS \<or>
     ca_maxrequests a = 0"

text \<open>The new session: two references, one slot for each request the client may have outstanding but no more
  than configured, linked to the client id.\<close>
definition new_session ::
  "'o client_env \<Rightarrow> create_session4args \<Rightarrow> nat \<Rightarrow> bytes \<Rightarrow> 'o client_world \<Rightarrow> (nat \<times> 'o client_world) option"
where
  "new_session E arg found addr w = do {
     let slots = min (param_nb_slots E) (ca_maxrequests (csa_fore_chan_attrs arg));
     let a = next_addr w;
     let (i, w) = nfs41_Build_sessionid (csa_clientid arg) w;
     let s = \<lparr>session_id = i, fore_channel_attrs = (csa_fore_chan_attrs arg)\<lparr>ca_maxrequests := slots\<rparr>,
              back_channel_attrs = csa_back_chan_attrs arg, connections = [addr], clientid_record = found,
              session_clientid = csa_clientid arg, session_cb_program = 0, session_bc_up = False,
              session_refcount = 2, nb_slots = slots,
              fc_slots = replicate (unat slots) \<lparr>slot_sequence = 0,
                slot_cached_result = \<lparr>comp_status = NFS4_OK, resarray = []\<rparr>, slot_res_cached = False\<rparr>\<rparr>;
     w \<leftarrow> inc_client_id_ref found w;
     w \<leftarrow> relink found (\<lambda>l. a # l) w;
     Some (a, w\<lparr>sessions := (sessions w)(a \<mapsto> s), next_addr := a + 1\<rparr>) }"

text \<open>The back channel, when the client asks for one.\<close>
definition create_back_channel ::
  "'o client_env \<Rightarrow> create_session4args \<Rightarrow> nat \<Rightarrow> 'o client_world \<Rightarrow> (u32 \<times> 'o client_world) option"
where
  "create_back_channel E arg a w =
     (if csa_flags arg AND CREATE_SESSION4_FLAG_CONN_BACK_CHAN = 0 then Some (0, w)
      else let ok = create_chan_v41 E a in
        map_option (Pair (if ok then CREATE_SESSION4_FLAG_CONN_BACK_CHAN else 0))
          (mod_session a (\<lambda>s. s\<lparr>session_cb_program := csa_cb_program arg, session_bc_up := ok\<rparr>) w))"

text \<open>The client id behind the session becomes the confirmed one of its owner.  The result is the record to
  charge the session to, or the status of the failure, and the record whose reference is still held.\<close>
definition create_session_confirm ::
  "'o client_env \<Rightarrow> create_session4args \<Rightarrow> nat option \<Rightarrow> nat option \<Rightarrow> nat \<Rightarrow> nat \<Rightarrow> 'o client_world
    \<Rightarrow> (((nfsstat4 + nat) \<times> nat) \<times> 'o client_world) option"
where
  "create_session_confirm E arg unconf conf r s w = do {
     (conf, w) \<leftarrow> (case conf of Some a \<Rightarrow> Some (Some a, w) | None \<Rightarrow> take_confirmed E r (csa_clientid arg) w);
     case conf of
       Some k \<Rightarrow>
         (case unconf of
            None \<Rightarrow> Some ((Inr k, k), w)
          | Some u \<Rightarrow> do {
              (_, w) \<leftarrow> remove_unconfirmed_client_id E u w;
              w \<leftarrow> dec_client_id_ref E u w;
              Some ((Inr k, k), w) })
     | None \<Rightarrow> do {
         u \<leftarrow> unconf;
         (rc, w) \<leftarrow> nfs_client_id_confirm E u w;
         if rc \<noteq> CLIENT_ID_SUCCESS
         then do {
           se \<leftarrow> sessions w s;
           (_, w) \<leftarrow> nfs41_Session_Del E (session_id se) w;
           Some ((Inl (clientid_error_to_nfsstat_no_expire rc), u), w) }
         else do {
           w \<leftarrow> mod_client u (\<lambda>c. c\<lparr>cid_allow_reclaim := chk_clid E c (owners w)\<rparr>) w;
           Some ((Inr u, u), w) } } }"

definition create_session_reply :: "create_session4args \<Rightarrow> nfs41_session \<Rightarrow> u32 \<Rightarrow> nfs_resop4_u" where
  "create_session_reply arg s flags = RES_CREATE_SESSION \<lparr>csr_sessionid = session_id s,
     csr_sequence = csa_sequence arg, csr_flags = flags, csr_fore_chan_attrs = fore_channel_attrs s,
     csr_back_chan_attrs = back_channel_attrs s\<rparr>"

text \<open>From the checks to the reply that is remembered: the result, the record and the session whose references
  are still held.\<close>
definition create_session_body ::
  "'o client_env \<Rightarrow> create_session4args \<Rightarrow> nfs_client_cred_t \<Rightarrow> bytes \<Rightarrow> nat option \<Rightarrow> nat option \<Rightarrow> nat \<Rightarrow> nat
    \<Rightarrow> 'o client_world \<Rightarrow> (((nfsstat4 \<times> nfs_resop4_u) \<times> nat \<times> nat option) \<times> 'o client_world) option"
where
  "create_session_body E arg cred addr unconf conf found r w = do {
     c \<leftarrow> clients w found;
     let fail = (\<lambda>st. Some (((st, RES_NONE), found, None), w));
     if csa_sequence arg + 1 = cid_create_session_sequence c
     then Some ((cid_create_session_slot c, found, None), w)
     else if csa_sequence arg \<noteq> cid_create_session_sequence c then fail NFS4ERR_SEQ_MISORDERED
     else if \<not> nfs_compare_clientcred E (cid_credential c) cred then fail NFS4ERR_CLID_INUSE
     else if csa_flags arg AND NOT CREATE_SESSION4_FLAGS \<noteq> 0 then fail NFS4ERR_INVAL
     else if channel_too_small (csa_fore_chan_attrs arg) \<or> channel_too_small (csa_back_chan_attrs arg)
     then fail NFS4ERR_TOOSMALL
     else do {
       (s, w) \<leftarrow> new_session E arg found addr w;
       (ok, w) \<leftarrow> nfs41_Session_Set s w;
       if \<not> ok
       then do {
         w \<leftarrow> dec_session_ref E s w;
         Some (((NFS4ERR_SERVERFAULT, RES_NONE), found, Some s), w) }
       else do {
         ((conf, found), w) \<leftarrow> create_session_confirm E arg unconf conf r s w;
         case conf of
           Inl st \<Rightarrow> Some (((st, RES_NONE), found, Some s), w)
         | Inr k \<Rightarrow> do {
             w \<leftarrow> mod_client k (\<lambda>c. c\<lparr>cid_create_session_sequence := cid_create_session_sequence c + 1,
                                    cid_last_renew := now w\<rparr>) w;
             (flags, w) \<leftarrow> create_back_channel E arg s w;
             se \<leftarrow> sessions w s;
             let res = (NFS4_OK, create_session_reply arg se flags);
             w \<leftarrow> mod_client k (\<lambda>c. c\<lparr>cid_create_session_slot := res\<rparr>) w;
             Some ((res, found, Some s), w) } } } }"

definition create_session_world ::
  "'o client_env \<Rightarrow> create_session4args \<Rightarrow> nfs_client_cred_t \<Rightarrow> bytes \<Rightarrow> 'o client_world
    \<Rightarrow> ((nfsstat4 \<times> nfs_resop4_u) \<times> 'o client_world) option"
where
  "create_session_world E arg cred addr w = do {
     ((rc, unconf), w) \<leftarrow> nfs_client_id_get_unconfirmed E (csa_clientid arg) w;
     ((rc, conf), w) \<leftarrow> (if rc = CLIENT_ID_SUCCESS then Some ((rc, None), w)
                         else nfs_client_id_get_confirmed E (csa_clientid arg) w);
     if rc \<noteq> CLIENT_ID_SUCCESS
     then Some ((clientid_error_to_nfsstat_no_expire (if rc = CLIENT_ID_EXPIRED then CLIENT_ID_STALE else rc),
                 RES_NONE), w)
     else do {
       found \<leftarrow> (case unconf of Some a \<Rightarrow> Some a | None \<Rightarrow> conf);
       c \<leftarrow> clients w found;
       r \<leftarrow> cid_client_record c;
       w \<leftarrow> inc_client_record_ref r w;
       ((res, found, s), w) \<leftarrow> create_session_body E arg cred addr unconf conf found r w;
       w \<leftarrow> dec_client_id_ref E found w;
       w \<leftarrow> (case s of None \<Rightarrow> Some w | Some s \<Rightarrow> dec_session_ref E s w);
       w \<leftarrow> dec_client_record_ref E r w;
       Some (res, w) } }"

text \<open>The code clears \<open>use_slot_cached_result\<close> once the client id is found; a handler is only called while it
  is false.\<close>
definition nfs4_op_create_session ::
  "'o client_env \<Rightarrow> create_session4args \<Rightarrow> ('o, 'y) client_data
    \<Rightarrow> ((nfsstat4 \<times> nfs_resop4) \<times> ('o, 'y) client_data) option"
where
  "nfs4_op_create_session E arg d =
     (if minorversion d = 0
      then Some ((NFS4ERR_INVAL, \<lparr>resop = NFS4_OP_CREATE_SESSION, res_status = NFS4ERR_INVAL, res_u = RES_NONE\<rparr>), d)
      else on_world NFS4_OP_CREATE_SESSION
             (create_session_world E arg (data_credential (other d)) (xprt_addr (other d)))
             (d\<lparr>use_slot_cached_result := False\<rparr>))"

section \<open>DESTROY_SESSION, DESTROY_CLIENTID\<close>

definition nfs4_op_destroy_session ::
  "'o client_env \<Rightarrow> bytes \<Rightarrow> nat \<Rightarrow> bytes \<Rightarrow> 'o client_world \<Rightarrow> ((nfsstat4 \<times> nfs_resop4_u) \<times> 'o client_world) option"
where
  "nfs4_op_destroy_session E i minor addr w =
     (if minor = 0 then Some ((NFS4ERR_INVAL, RES_NONE), w)
      else do {
        (session, w) \<leftarrow> nfs41_Session_Get_Pointer i w;
        case session of
          None \<Rightarrow> Some ((NFS4ERR_BADSESSION, RES_NONE), w)
        | Some a \<Rightarrow> do {
            (bound, w) \<leftarrow> check_session_conn a addr False w;
            if \<not> bound
            then map_option (Pair (NFS4ERR_CONN_NOT_BOUND_TO_SESSION, RES_NONE)) (dec_session_ref E a w)
            else do {
              (deleted, w) \<leftarrow> nfs41_Session_Del E i w;
              map_option (Pair (if deleted then NFS4_OK else NFS4ERR_BADSESSION, RES_NONE))
                (dec_session_ref E a w) } } })"

text \<open>The removal of both records of an owner; a confirmed one with sessions is kept, with the other.\<close>
definition destroy_records ::
  "'o client_env \<Rightarrow> nat \<Rightarrow> 'o client_world \<Rightarrow> (nfsstat4 \<times> 'o client_world) option"
where
  "destroy_records E r w = do {
     rec \<leftarrow> records w r;
     busy_w \<leftarrow> (case cr_confirmed_rec rec of
         None \<Rightarrow> Some (False, w)
       | Some conf \<Rightarrow> do {
           c \<leftarrow> clients w conf;
           l \<leftarrow> session_list c;
           if l \<noteq> [] then Some (True, w)
           else do {
             w \<leftarrow> mod_client conf (\<lambda>c. c\<lparr>cid_recov_tag := None\<rparr>) (w\<lparr>owners := rm_clid E c (owners w)\<rparr>);
             (_, w) \<leftarrow> remove_confirmed_client_id E conf w;
             Some (False, w) } });
     let (busy, w) = busy_w;
     if busy then Some (NFS4ERR_CLIENTID_BUSY, w)
     else case cr_unconfirmed_rec rec of
         None \<Rightarrow> Some (NFS4_OK, w)
       | Some unconf \<Rightarrow> do {
           (_, w) \<leftarrow> remove_unconfirmed_client_id E unconf w;
           Some (NFS4_OK, w) } }"

definition nfs4_op_destroy_clientid ::
  "'o client_env \<Rightarrow> u64 \<Rightarrow> 'o client_world \<Rightarrow> ((nfsstat4 \<times> nfs_resop4_u) \<times> 'o client_world) option"
where
  "nfs4_op_destroy_clientid E clientid w = do {
     ((rc, conf), w) \<leftarrow> nfs_client_id_get_confirmed E clientid w;
     (found, w) \<leftarrow>
       (if rc = CLIENT_ID_SUCCESS then Some (conf, w)
        else do {
          ((_, unconf), w) \<leftarrow> nfs_client_id_get_unconfirmed E clientid w;
          ((rc, conf), w) \<leftarrow> nfs_client_id_get_confirmed E clientid w;
          if rc = CLIENT_ID_SUCCESS
          then map_option (Pair conf) (case unconf of None \<Rightarrow> Some w | Some u \<Rightarrow> dec_client_id_ref E u w)
          else Some (unconf, w) });
     case found of
       None \<Rightarrow> Some ((NFS4ERR_STALE_CLIENTID, RES_NONE), w)
     | Some f \<Rightarrow> do {
         c \<leftarrow> clients w f;
         case cid_client_record c of
           None \<Rightarrow> Some ((NFS4ERR_STALE_CLIENTID, RES_NONE), w)
         | Some r \<Rightarrow> do {
             w \<leftarrow> inc_client_record_ref r w;
             (st, w) \<leftarrow> destroy_records E r w;
             w \<leftarrow> dec_client_record_ref E r w;
             w \<leftarrow> dec_client_id_ref E f w;
             Some ((st, RES_NONE), w) } } }"

section \<open>BIND_CONN_TO_SESSION, SEQUENCE\<close>

abbreviation SEQ4_STATUS_CB_PATH_DOWN :: u32 where "SEQ4_STATUS_CB_PATH_DOWN \<equiv> 1"

definition set_slot :: "nat \<Rightarrow> nat \<Rightarrow> nfs41_session_slot_t \<Rightarrow> 'o client_world \<Rightarrow> 'o client_world option" where
  "set_slot a i sl w = mod_session a (fc_slots_update (\<lambda>sls. sls[i := sl])) w"

text \<open>The end of an operation on a session: status, result, and the world.\<close>
definition session_result ::
  "nfs_opnum4 \<Rightarrow> nfsstat4 \<Rightarrow> nfs_resop4_u \<Rightarrow> ('o, 'y) client_data \<Rightarrow> 'o client_world option
    \<Rightarrow> ((nfsstat4 \<times> nfs_resop4) \<times> ('o, 'y) client_data) option"
where
  "session_result op st u d w =
     map_option (\<lambda>w. ((st, \<lparr>resop = op, res_status = st, res_u = u\<rparr>), set_world w d)) w"

text \<open>The session with a reference and its lease reserved; \<open>Inl\<close> is the status of the failure.\<close>
definition enter_session ::
  "'o client_env \<Rightarrow> bytes \<Rightarrow> 'o client_world \<Rightarrow> ((nfsstat4 + nat \<times> nfs41_session) \<times> 'o client_world) option"
where
  "enter_session E i w = do {
     (session, w) \<leftarrow> nfs41_Session_Get_Pointer i w;
     case session of
       None \<Rightarrow> Some (Inl NFS4ERR_BADSESSION, w)
     | Some a \<Rightarrow> do {
         s \<leftarrow> sessions w a;
         (ok, w) \<leftarrow> reserve_lease E (clientid_record s) w;
         if \<not> ok then map_option (Pair (Inl NFS4ERR_EXPIRED)) (dec_session_ref E a w)
         else Some (Inr (a, s), w) } }"

abbreviation NO_SLOT :: u32 where "NO_SLOT \<equiv> - 1"

definition nfs4_op_bind_conn ::
  "'o client_env \<Rightarrow> bytes \<Rightarrow> ('o, 'y) client_data \<Rightarrow> ((nfsstat4 \<times> nfs_resop4) \<times> ('o, 'y) client_data) option"
where
  "nfs4_op_bind_conn E i d =
     (if minorversion d = 0
      then session_result NFS4_OP_BIND_CONN_TO_SESSION NFS4ERR_INVAL RES_NONE d (Some (the_world d))
      else do {
        (entered, w) \<leftarrow> enter_session E i (the_world d);
        case entered of
          Inl st \<Rightarrow> session_result NFS4_OP_BIND_CONN_TO_SESSION st RES_NONE d (Some w)
        | Inr (a, s) \<Rightarrow>
            session_result NFS4_OP_BIND_CONN_TO_SESSION NFS4_OK (RES_BIND_CONN_TO_SESSION i)
              (d\<lparr>use_slot_cached_result := False, cd_session := Some (fore_channel_attrs s),
                 other := (other d)\<lparr>preserved_clientid := Some (clientid_record s), data_session := Some a,
                                   data_slot := NO_SLOT, op_clientid := Some (session_clientid s)\<rparr>\<rparr>)
              (map_option snd (check_session_conn a (xprt_addr (other d)) True w)) })"

definition sequence_reply :: "'o client_env \<Rightarrow> sequence4args \<Rightarrow> nfs41_session \<Rightarrow> u32 \<Rightarrow> nfs_resop4_u" where
  "sequence_reply E arg s seq = RES_SEQUENCE \<lparr>sr_sessionid = sa_sessionid arg, sr_sequenceid = seq,
     sr_slotid = sa_slotid arg, sr_highest_slotid = nb_slots s - 1,
     sr_target_highest_slotid = ca_maxrequests (fore_channel_attrs s) - 1,
     sr_status_flags = (if cb_chan_up E (clientid_record s) then 0 else SEQ4_STATUS_CB_PATH_DOWN)\<rparr>"

text \<open>The request is the next one of its slot: the slot moves on and forgets its reply, also when the reply
  of SEQUENCE itself turns out not to fit.\<close>
definition sequence_new ::
  "'o client_env \<Rightarrow> sequence4args \<Rightarrow> nat \<Rightarrow> nfs41_session \<Rightarrow> nfs41_session_slot_t \<Rightarrow> 'o client_world
    \<Rightarrow> ('o, 'y) client_data \<Rightarrow> ((nfsstat4 \<times> nfs_resop4) \<times> ('o, 'y) client_data) option"
where
  "sequence_new E arg a s slot w d = do {
     let i = unat (sa_slotid arg);
     let slot = slot\<lparr>slot_sequence := slot_sequence slot + 1, slot_res_cached := False\<rparr>;
     w \<leftarrow> set_slot a i slot w;
     let u = sequence_reply E arg s (slot_sequence slot);
     let d = d\<lparr>cd_session := Some (fore_channel_attrs s), sa_cachethis := sa_cachethis_arg arg,
               cached_result := Some (slot_cached_result slot),
               other := (other d)\<lparr>data_session := Some a, data_slot := sa_slotid arg,
                                 cached_slot := Some (a, i), op_clientid := Some (session_clientid s)\<rparr>\<rparr>;
     let st = check_resp_room d (op_resp_size d);
     if st \<noteq> NFS4_OK
     then session_result NFS4_OP_SEQUENCE st u
            (d\<lparr>op_resp_size := 4, cd_session := None, other := (other d)\<lparr>data_session := None\<rparr>\<rparr>)
            (dec_session_ref E a w)
     else session_result NFS4_OP_SEQUENCE NFS4_OK u d
            (map_option snd (check_session_conn a (xprt_addr (other d)) True w)) }"

definition nfs4_op_sequence ::
  "'o client_env \<Rightarrow> sequence4args \<Rightarrow> ('o, 'y) client_data
    \<Rightarrow> ((nfsstat4 \<times> nfs_resop4) \<times> ('o, 'y) client_data) option"
where
  "nfs4_op_sequence E arg d =
     (if minorversion d = 0 then session_result NFS4_OP_SEQUENCE NFS4ERR_INVAL RES_NONE d (Some (the_world d))
      else do {
        (entered, w) \<leftarrow> enter_session E (sa_sessionid arg) (the_world d);
        case entered of
          Inl st \<Rightarrow> session_result NFS4_OP_SEQUENCE st RES_NONE d (Some w)
        | Inr (a, s) \<Rightarrow> do {
            let d = d\<lparr>other := (other d)\<lparr>preserved_clientid := Some (clientid_record s)\<rparr>\<rparr>;
            if sa_slotid arg \<ge> ca_maxrequests (fore_channel_attrs s)
            then session_result NFS4_OP_SEQUENCE NFS4ERR_BADSLOT RES_NONE d (dec_session_ref E a w)
            else do {
              let d = d\<lparr>use_slot_cached_result := False\<rparr>;
              let i = unat (sa_slotid arg);
              slot \<leftarrow> (if i < length (fc_slots s) then Some (fc_slots s ! i) else None);
              if slot_sequence slot + 1 \<noteq> sa_sequenceid arg
              then (if slot_sequence slot \<noteq> sa_sequenceid arg
                    then session_result NFS4_OP_SEQUENCE NFS4ERR_SEQ_MISORDERED RES_NONE d (dec_session_ref E a w)
                    else if \<not> slot_res_cached slot
                    then session_result NFS4_OP_SEQUENCE NFS4ERR_RETRY_UNCACHED_REP RES_NONE d
                           (dec_session_ref E a w)
                    else session_result NFS4_OP_SEQUENCE NFS4_OK RES_NONE
                           (d\<lparr>use_slot_cached_result := True, cached_result := Some (slot_cached_result slot),
                              other := (other d)\<lparr>cached_slot := Some (a, i)\<rparr>\<rparr>)
                           (dec_session_ref E a w))
              else sequence_new E arg a s slot w d } } })"

section \<open>A compound with sessions\<close>

text \<open>The table of operations with the handlers of this theory; those of the others come from \<open>V\<close>, and so
  does the one for the number that stands for all operations the minor version does not have.\<close>
definition client_op_funct ::
  "'o client_env \<Rightarrow> (('o, 'y) client_ctx, 'fattr) server \<Rightarrow> nfs_opnum4 \<Rightarrow> 'fattr nfs_argop4 \<Rightarrow> ('o, 'y) client_data
    \<Rightarrow> ((nfsstat4 \<times> nfs_resop4) \<times> ('o, 'y) client_data) option"
where
  "client_op_funct E V op arg d = (if op \<noteq> argop arg then op_funct V op arg d else case arg of
     ARG_SETCLIENTID a \<Rightarrow> on_world NFS4_OP_SETCLIENTID
       (nfs4_op_setclientid E a (minorversion d) (data_credential (other d)) (op_client (other d))) d
   | ARG_SETCLIENTID_CONFIRM i v \<Rightarrow> on_world NFS4_OP_SETCLIENTID_CONFIRM
       (nfs4_op_setclientid_confirm E i v (minorversion d) (data_credential (other d)) (op_client (other d))) d
   | ARG_RENEW i \<Rightarrow> on_world NFS4_OP_RENEW (nfs4_op_renew E i (minorversion d)) d
   | ARG_EXCHANGE_ID a \<Rightarrow> nfs4_op_exchange_id E a d
   | ARG_CREATE_SESSION a \<Rightarrow> nfs4_op_create_session E a d
   | ARG_DESTROY_SESSION i \<Rightarrow> on_world NFS4_OP_DESTROY_SESSION
       (nfs4_op_destroy_session E i (minorversion d) (xprt_addr (other d))) d
   | ARG_DESTROY_CLIENTID i \<Rightarrow> on_world NFS4_OP_DESTROY_CLIENTID (nfs4_op_destroy_clientid E i) d
   | ARG_BIND_CONN_TO_SESSION i \<Rightarrow> nfs4_op_bind_conn E i d
   | ARG_SEQUENCE a \<Rightarrow> nfs4_op_sequence E a d
   | _ \<Rightarrow> op_funct V op arg d)"

definition session_server ::
  "'o client_env \<Rightarrow> (('o, 'y) client_ctx, 'fattr) server \<Rightarrow> (('o, 'y) client_ctx, 'fattr) server"
where
  "session_server E V = V\<lparr>op_funct := client_op_funct E V\<rparr>"

text \<open>The reply that the compound left for the slot is in the slot.\<close>
definition store_reply :: "('o, 'y) client_data \<Rightarrow> ('o, 'y) client_data option" where
  "store_reply d =
     (if \<not> res_cached d then Some d
      else do {
        (a, i) \<leftarrow> cached_slot (other d);
        s \<leftarrow> sessions (the_world d) a;
        c \<leftarrow> cached_result d;
        map_option (\<lambda>w. set_world w d)
          (set_slot a i ((fc_slots s ! i)\<lparr>slot_cached_result := c, slot_res_cached := True\<rparr>) (the_world d)) })"

text \<open>The lease that was reserved is renewed, the session released.\<close>
definition end_lease :: "('o, 'y) client_data \<Rightarrow> ('o, 'y) client_data option" where
  "end_lease d = (case preserved_clientid (other d) of
     None \<Rightarrow> Some d | Some a \<Rightarrow> map_option (\<lambda>w. set_world w d) (update_lease a (the_world d)))"

definition compound_data_Free :: "'o client_env \<Rightarrow> ('o, 'y) client_data \<Rightarrow> ('o, 'y) client_data option" where
  "compound_data_Free E d = (case data_session (other d) of
     None \<Rightarrow> Some d
   | Some a \<Rightarrow> map_option (\<lambda>w. set_world w (d\<lparr>cd_session := None, other := (other d)\<lparr>data_session := None\<rparr>\<rparr>))
       (dec_session_ref E a (the_world d)))"

text \<open>One request, from the cleared \<open>compound_data_t\<close> to its release.\<close>
definition serve_compound ::
  "'o client_env \<Rightarrow> (('o, 'y) client_ctx, 'fattr) server \<Rightarrow> nat \<Rightarrow> bool \<Rightarrow> bool \<Rightarrow> 'fattr nfs_argop4 list
    \<Rightarrow> ('o, 'y) client_data \<Rightarrow> ((nfs_req_result \<times> compound4res option) \<times> ('o, 'y) client_data) option"
where
  "serve_compound E V minor tag_ok cred_ok args d = do {
     let d = d\<lparr>res_cached := False, other := (other d)\<lparr>data_session := None, data_slot := 0,
               preserved_clientid := None, cached_slot := None, op_clientid := None\<rparr>\<rparr>;
     (res, d) \<leftarrow> nfs4_Compound (session_server E V) minor tag_ok cred_ok args d;
     d \<leftarrow> store_reply d;
     d \<leftarrow> end_lease d;
     d \<leftarrow> compound_data_Free E d;
     Some (res, d) }"

end
