(* ===== verification/Nfs4_Session.thy ===== *)
theory Nfs4_Session
  imports Nfs4_Client_Ops
begin

text \<open>
  The slots of a session: a request that moves its slot leaves its reply there, and a request with the number the
  slot already has is answered from it without running any operation.
\<close>

section \<open>What an operation leaves of the sessions\<close>

definition same_session :: "nfs41_session \<Rightarrow> nfs41_session \<Rightarrow> bool" where
  "same_session s s' \<longleftrightarrow> session_id s' = session_id s \<and> fc_slots s' = fc_slots s \<and>
     fore_channel_attrs s' = fore_channel_attrs s \<and> clientid_record s' = clientid_record s"

lemma same_session_refl [simp]: "same_session s s"
  by (simp add: same_session_def)

lemma same_session_trans: "same_session s t \<Longrightarrow> same_session t u \<Longrightarrow> same_session s u"
  by (simp add: same_session_def)

text \<open>From \<open>w\<close> to \<open>w'\<close> sessions may have been released and new ones made, but those that were there and still are
  have kept their slots.\<close>
definition slots_kept :: "'o client_world \<Rightarrow> 'o client_world \<Rightarrow> bool" where
  "slots_kept w w' \<longleftrightarrow> next_addr w \<le> next_addr w' \<and>
     (\<forall>a s'. a < next_addr w \<and> sessions w' a = Some s' \<longrightarrow>
        (\<exists>s. sessions w a = Some s \<and> same_session s s')) \<and>
     (\<forall>i a. a < next_addr w \<and> ht_session_id w' i = Some a \<longrightarrow> ht_session_id w i = Some a)"

named_theorems slots_rules \<open>computations that keep the slots\<close>

lemma slots_kept_refl [simp]: "slots_kept w w"
  by (simp add: slots_kept_def)

lemma slots_kept_trans:
  assumes "slots_kept u v" "slots_kept v w"
  shows "slots_kept u w"
  unfolding slots_kept_def
proof (intro conjI allI impI)
  show "next_addr u \<le> next_addr w" using assms by (simp add: slots_kept_def)
next
  fix a s'' assume a: "a < next_addr u \<and> sessions w a = Some s''"
  then have "a < next_addr v" using assms(1) by (simp add: slots_kept_def)
  with a assms(2) obtain s' where s': "sessions v a = Some s'" "same_session s' s''"
    unfolding slots_kept_def by blast
  with a assms(1) obtain s where "sessions u a = Some s" "same_session s s'"
    unfolding slots_kept_def by blast
  with s' show "\<exists>s. sessions u a = Some s \<and> same_session s s''" by (blast intro: same_session_trans)
next
  fix i a assume "a < next_addr u \<and> ht_session_id w i = Some a"
  then show "ht_session_id u i = Some a" using assms by (simp add: slots_kept_def)
qed

lemma slots_kept_irrelevant [simp]:
  "slots_kept w (w'\<lparr>clients := c\<rparr>) = slots_kept w w'" "slots_kept w (w'\<lparr>records := r\<rparr>) = slots_kept w w'"
  "slots_kept w (w'\<lparr>ht_confirmed_client_id := h\<rparr>) = slots_kept w w'"
  "slots_kept w (w'\<lparr>ht_unconfirmed_client_id := h\<rparr>) = slots_kept w w'"
  "slots_kept w (w'\<lparr>ht_client_record := k\<rparr>) = slots_kept w w'"
  "slots_kept w (w'\<lparr>clientid_counter := n\<rparr>) = slots_kept w w'"
  "slots_kept w (w'\<lparr>clientid_verifier := v\<rparr>) = slots_kept w w'"
  "slots_kept w (w'\<lparr>global_sequence := v\<rparr>) = slots_kept w w'"
  "slots_kept w (w'\<lparr>reclaim_completes := m\<rparr>) = slots_kept w w'"
  "slots_kept w (w'\<lparr>owners := os\<rparr>) = slots_kept w w'"
  by (simp_all add: slots_kept_def)

lemma slots_del_session [simp]: "slots_kept w w1 \<Longrightarrow> slots_kept w (w1\<lparr>sessions := (sessions w1)(a := None)\<rparr>)"
  by (auto simp: slots_kept_def)

lemma slots_unhash_session [simp]:
  "slots_kept w w1 \<Longrightarrow> slots_kept w (w1\<lparr>ht_session_id := (ht_session_id w1)(i := None)\<rparr>)"
  by (auto simp: slots_kept_def)

lemma slots_next [simp]: "slots_kept w w1 \<Longrightarrow> next_addr w1 \<le> n \<Longrightarrow> slots_kept w (w1\<lparr>next_addr := n\<rparr>)"
  by (auto simp: slots_kept_def)

lemma slots_ids_snd [simp]:
  "slots_kept w (snd (new_clientid E w1)) = slots_kept w w1"
  "slots_kept w (snd (new_clientid_verifier w1)) = slots_kept w w1"
  "slots_kept w (snd (snd (new_id_and_verifier E w1))) = slots_kept w w1"
  by (simp_all add: new_clientid_def new_clientid_verifier_def new_id_and_verifier_def Let_def)

text \<open>Sequences of computations that keep the slots.  The type of the first result tells which rule applies: a world,
  a result with a world, or something that is only read.\<close>
lemma slots_bind [slots_rules]:
  "returns m (slots_kept w) \<Longrightarrow> (\<And>x. m = Some x \<Longrightarrow> slots_kept w x \<Longrightarrow> returns (f x) (slots_kept w)) \<Longrightarrow>
    returns (Option.bind m f) (slots_kept w)"
  "returns m (slots_kept w) \<Longrightarrow> (\<And>x. m = Some x \<Longrightarrow> slots_kept w x \<Longrightarrow> returns (g x) (\<lambda>y. slots_kept w (snd y))) \<Longrightarrow>
    returns (Option.bind m g) (\<lambda>y. slots_kept w (snd y))"
  by (auto simp: returns_def abort_simps)

lemma slots_bind_snd [slots_rules]:
  "returns n (\<lambda>y. slots_kept w (snd y)) \<Longrightarrow>
    (\<And>a x. n = Some (a, x) \<Longrightarrow> slots_kept w x \<Longrightarrow> returns (f (a, x)) (slots_kept w)) \<Longrightarrow>
    returns (Option.bind n f) (slots_kept w)"
  "returns n (\<lambda>y. slots_kept w (snd y)) \<Longrightarrow>
    (\<And>a x. n = Some (a, x) \<Longrightarrow> slots_kept w x \<Longrightarrow> returns (g (a, x)) (\<lambda>y. slots_kept w (snd y))) \<Longrightarrow>
    returns (Option.bind n g) (\<lambda>y. slots_kept w (snd y))"
  by (auto simp: returns_def abort_simps)

lemma slots_map [slots_rules]:
  "returns m (slots_kept w) \<Longrightarrow> returns (map_option (Pair r) m) (\<lambda>y. slots_kept w (snd y))"
  "returns n (\<lambda>y. slots_kept w (snd y)) \<Longrightarrow> returns (map_option snd n) (slots_kept w)"
  by (auto simp: returns_def)

lemma slots_mod_client [slots_rules]: "slots_kept w w1 \<Longrightarrow> returns (mod_client a f w1) (slots_kept w)"
  by (auto simp: mod_client_def returns_def)

lemma slots_mod_record [slots_rules]: "slots_kept w w1 \<Longrightarrow> returns (mod_record a f w1) (slots_kept w)"
  by (auto simp: mod_record_def returns_def)

lemma slots_mod_session [slots_rules]:
  assumes "slots_kept w w1"
    and f: "\<And>s. same_session s (f s)"
  shows "returns (mod_session a f w1) (slots_kept w)"
proof -
  have "slots_kept w1 (w1\<lparr>sessions := (sessions w1)(a \<mapsto> f s)\<rparr>)" if "sessions w1 a = Some s" for s
    using that f by (simp add: slots_kept_def)
  then show ?thesis using assms(1) by (auto simp: mod_session_def returns_def intro: slots_kept_trans)
qed

lemma slots_inc [slots_rules]:
  "slots_kept w w1 \<Longrightarrow> returns (inc_client_id_ref a w1) (slots_kept w)"
  "slots_kept w w1 \<Longrightarrow> returns (inc_client_record_ref a w1) (slots_kept w)"
  "slots_kept w w1 \<Longrightarrow> returns (inc_session_ref a w1) (slots_kept w)"
  by (unfold inc_client_id_ref_def inc_client_record_ref_def inc_session_ref_def) (simp_all add: slots_mod_client slots_mod_record slots_mod_session same_session_def)

lemma slots_relink [slots_rules]: "slots_kept w w1 \<Longrightarrow> returns (relink a f w1) (slots_kept w)"
  by (unfold relink_def) (rule slots_rules returns_cases returns_read | (simp add: same_session_def; fail))+

lemma slots_dec_record [slots_rules]: "slots_kept w w1 \<Longrightarrow> returns (dec_client_record_ref E a w1) (slots_kept w)"
  by (unfold dec_client_record_ref_def Let_def) (rule slots_rules returns_cases returns_read | (simp add: same_session_def; fail))+

lemma slots_release [slots_rules]:
  assumes "slots_kept w w1"
  shows "returns (release_ref E u w1) (slots_kept w)"
  unfolding returns_def
proof (intro allI impI)
  fix w2 assume "release_ref E u w1 = Some w2"
  then show "slots_kept w w2" using assms
  proof (induction rule: release_ref_induct)
    case (dec_last a w1 s w2 w3)
    show ?case
      by (intro slots_del_session dec_last.IH returnsD [OF slots_relink dec_last.hyps(4)]
          returnsD [OF slots_mod_session dec_last.hyps(1)] dec_last.prems) (simp add: same_session_def)
  next
    case (dec a w1 s)
    show ?case by (rule returnsD [OF slots_mod_session dec.hyps(1)]) (use dec.prems in \<open>auto simp: same_session_def\<close>)
  qed (auto dest: returnsD [OF slots_mod_client] returnsD [OF slots_dec_record] split: option.splits)
qed

section \<open>The operations keep the slots\<close>

lemma slots_dec [slots_rules]:
  "slots_kept w w1 \<Longrightarrow> returns (dec_session_ref E a w1) (slots_kept w)"
  "slots_kept w w1 \<Longrightarrow> returns (dec_client_id_ref E a w1) (slots_kept w)"
  "slots_kept w w1 \<Longrightarrow> returns (free_client_id E a w1) (slots_kept w)"
  by (simp_all add: dec_session_ref_def dec_client_id_ref_def free_client_id_def slots_release)

lemma slots_session_table [slots_rules]:
  "slots_kept w w1 \<Longrightarrow> returns (nfs41_Session_Del E i w1) (\<lambda>x. slots_kept w (snd x))"
  "slots_kept w w1 \<Longrightarrow> returns (nfs41_Session_Get_Pointer i w1) (\<lambda>x. slots_kept w (snd x))"
  "slots_kept w w1 \<Longrightarrow> returns (check_session_conn a addr can w1) (\<lambda>x. slots_kept w (snd x))"
  by (unfold nfs41_Session_Del_def nfs41_Session_Get_Pointer_def check_session_conn_def)
    (rule slots_rules returns_cases returns_read | (simp add: same_session_def; fail))+

lemma slots_lease [slots_rules]:
  "slots_kept w w1 \<Longrightarrow> returns (reserve_lease E a w1) (\<lambda>x. slots_kept w (snd x))"
  "slots_kept w w1 \<Longrightarrow> returns (update_lease a w1) (slots_kept w)"
  by (unfold reserve_lease_def update_lease_def Let_def)
    (rule slots_rules returns_cases returns_read | (simp add: same_session_def; fail))+

lemma slots_get_client_record [slots_rules]:
  "slots_kept w w1 \<Longrightarrow> returns (get_client_record E v p s w1) (\<lambda>x. slots_kept w (snd x))"
  by (unfold get_client_record_def Let_def) (rule slots_rules returns_cases returns_read | (simp add: same_session_def; fail))+

lemma slots_create_client_id [slots_rules]:
  "slots_kept w w1 \<Longrightarrow> returns (create_client_id E i r cred minor client w1) (\<lambda>x. slots_kept w (snd x))"
  by (unfold create_client_id_def Let_def case_prod_beta)
    (rule slots_rules returns_cases returns_read | (simp add: same_session_def; fail))+

lemma slots_client_tables [slots_rules]:
  "slots_kept w w1 \<Longrightarrow> returns (nfs_client_id_insert E a w1) (\<lambda>x. slots_kept w (snd x))"
  "slots_kept w w1 \<Longrightarrow> returns (remove_confirmed_client_id E a w1) (\<lambda>x. slots_kept w (snd x))"
  "slots_kept w w1 \<Longrightarrow> returns (remove_unconfirmed_client_id E a w1) (\<lambda>x. slots_kept w (snd x))"
  "slots_kept w w1 \<Longrightarrow> returns (nfs_client_id_confirm E a w1) (\<lambda>x. slots_kept w (snd x))"
  "slots_kept w w1 \<Longrightarrow> returns (nfs_client_id_get E ht i w1) (\<lambda>x. slots_kept w (snd x))"
  by (unfold nfs_client_id_insert_def remove_confirmed_client_id_def remove_unconfirmed_client_id_def
      nfs_client_id_confirm_def nfs_client_id_get_def Let_def)
    (rule slots_rules returns_cases returns_read | (simp add: same_session_def; fail))+

lemma slots_get_both [slots_rules]:
  "slots_kept w w1 \<Longrightarrow> returns (nfs_client_id_get_unconfirmed E i w1) (\<lambda>x. slots_kept w (snd x))"
  "slots_kept w w1 \<Longrightarrow> returns (nfs_client_id_get_confirmed E i w1) (\<lambda>x. slots_kept w (snd x))"
  by (simp_all add: nfs_client_id_get_unconfirmed_def nfs_client_id_get_confirmed_def slots_rules)

lemma slots_expire [slots_rules]:
  "slots_kept w w1 \<Longrightarrow> returns (nfs_client_id_expire E a stale w1) (\<lambda>x. slots_kept w (snd x))"
  by (unfold nfs_client_id_expire_def detach_record_def unhash_client_id_def destroy_v40_chan_def
      expire_sessions_def Let_def)
    (rule slots_rules returns_cases returns_read | (simp add: same_session_def; fail))+

lemma slots_setclientid [slots_rules]:
  "slots_kept w w1 \<Longrightarrow> returns (setclientid_choose E arg cred client r w1) (\<lambda>x. slots_kept w (snd x))"
  "slots_kept w w1 \<Longrightarrow> returns (drop_unconfirmed E r w1) (slots_kept w)"
  "slots_kept w w1 \<Longrightarrow> returns (setclientid_create E arg cred client r i v w1) (\<lambda>x. slots_kept w (snd x))"
  "slots_kept w w1 \<Longrightarrow> returns (nfs4_op_setclientid E arg minor cred client w1) (\<lambda>x. slots_kept w (snd x))"
  by (unfold setclientid_choose_def drop_unconfirmed_def setclientid_create_def nfs4_op_setclientid_def Let_def
      case_prod_beta)
    (rule slots_rules returns_cases returns_read | (simp add: same_session_def; fail))+

lemma slots_setclientid_confirm [slots_rules]:
  "slots_kept w w1 \<Longrightarrow> returns (set_cb_chan_down a b w1) (slots_kept w)"
  "slots_kept w w1 \<Longrightarrow> returns (take_confirmed E r i w1) (\<lambda>x. slots_kept w (snd x))"
  "slots_kept w w1 \<Longrightarrow> returns (update_callback u a w1) (slots_kept w)"
  "slots_kept w w1 \<Longrightarrow> returns (confirm_unconfirmed E r a i w1) (\<lambda>x. slots_kept w (snd x))"
  "slots_kept w w1 \<Longrightarrow> returns (nfs4_op_setclientid_confirm E i v minor cred client w1) (\<lambda>x. slots_kept w (snd x))"
  by (unfold set_cb_chan_down_def take_confirmed_def update_callback_def confirm_unconfirmed_def
      nfs4_op_setclientid_confirm_def Let_def)
    (rule slots_rules returns_cases returns_read | (simp add: same_session_def; fail))+

lemma slots_renew [slots_rules]:
  "slots_kept w w1 \<Longrightarrow> returns (nfs4_op_renew E i minor w1) (\<lambda>x. slots_kept w (snd x))"
  by (unfold nfs4_op_renew_def) (rule slots_rules returns_cases returns_read | (simp add: same_session_def; fail))+

lemma slots_exchange_id [slots_rules]:
  "slots_kept w w1 \<Longrightarrow> returns (exchange_id_confirmed E arg cred client r w1) (\<lambda>x. slots_kept w (snd x))"
  "slots_kept w w1 \<Longrightarrow> returns (exchange_id_create E arg minor cred client r w1) (\<lambda>x. slots_kept w (snd x))"
  "slots_kept w w1 \<Longrightarrow> returns (exchange_id_records E arg minor cred client addr w1) (\<lambda>x. slots_kept w (snd x))"
  by (unfold exchange_id_confirmed_def exchange_id_create_def exchange_id_records_def Let_def) (rule slots_rules returns_cases returns_read | (simp add: same_session_def; fail))+

lemma slots_destroy [slots_rules]:
  "slots_kept w w1 \<Longrightarrow> returns (nfs4_op_destroy_session E i minor addr w1) (\<lambda>x. slots_kept w (snd x))"
  "slots_kept w w1 \<Longrightarrow> returns (destroy_records E r w1) (\<lambda>x. slots_kept w (snd x))"
  "slots_kept w w1 \<Longrightarrow> returns (nfs4_op_destroy_clientid E j w1) (\<lambda>x. slots_kept w (snd x))"
  by (unfold nfs4_op_destroy_session_def destroy_records_def nfs4_op_destroy_clientid_def Let_def) (rule slots_rules returns_cases returns_read | (simp add: same_session_def; fail))+

text \<open>A new session has an address of its own.\<close>
lemma slots_new_session:
  "slots_kept w w1 \<Longrightarrow> returns (new_session E arg f addr w1) (\<lambda>(s, w2). slots_kept w w2 \<and> next_addr w \<le> s)"
  by (auto simp: new_session_def nfs41_Build_sessionid_def abort_simps Let_def relink_def inc_client_id_ref_def
      mod_client_def slots_kept_def returns_def)

lemma slots_Session_Set:
  "slots_kept w w1 \<Longrightarrow> next_addr w \<le> a \<Longrightarrow> returns (nfs41_Session_Set a w1) (\<lambda>x. slots_kept w (snd x))"
  by (auto simp: nfs41_Session_Set_def abort_simps slots_kept_def returns_def split: if_splits)

lemma slots_create_session_steps [slots_rules]:
  "slots_kept w w1 \<Longrightarrow> returns (create_session_confirm E arg u cf r s w1) (\<lambda>x. slots_kept w (snd x))"
  "slots_kept w w1 \<Longrightarrow> returns (create_back_channel E arg s w1) (\<lambda>x. slots_kept w (snd x))"
  by (unfold create_session_confirm_def create_back_channel_def Let_def) (rule slots_rules returns_cases returns_read | (simp add: same_session_def; fail))+

lemma slots_create_session_body [slots_rules]:
  "slots_kept w w1 \<Longrightarrow> returns (create_session_body E arg cred addr u cf f r w1) (\<lambda>x. slots_kept w (snd x))"
  unfolding create_session_body_def Let_def
  by (rule returns_bind [OF slots_new_session] slots_bind_snd(2) [OF slots_Session_Set] slots_rules returns_cases returns_read
      | (simp; fail) | (auto; fail))+

lemma slots_create_session [slots_rules]:
  "slots_kept w w1 \<Longrightarrow> returns (create_session_world E arg cred addr w1) (\<lambda>x. slots_kept w (snd x))"
  by (unfold create_session_world_def Let_def) (rule slots_rules returns_cases returns_read | (simp add: same_session_def; fail))+

section \<open>The rest of a compound after SEQUENCE\<close>

text \<open>What the other operations and the methods of the exports may change: the file handle, sizes, the export,
  and the state that is theirs.\<close>
definition same_clients :: "('o, 'y) client_data \<Rightarrow> ('o, 'y) client_data \<Rightarrow> bool" where
  "same_clients d d' \<longleftrightarrow> other d' = (other d)\<lparr>rest := rest (other d')\<rparr> \<and> minorversion d' = minorversion d \<and>
     cd_session d' = cd_session d \<and> use_slot_cached_result d' = use_slot_cached_result d \<and>
     sa_cachethis d' = sa_cachethis d \<and> cached_result d' = cached_result d \<and> res_cached d' = res_cached d"

definition clients_private :: "(('o, 'y) client_ctx, 'fattr) server \<Rightarrow> bool" where
  "clients_private V \<longleftrightarrow>
     (\<forall>op arg d r d'. op_funct V op arg d = Some (r, d') \<longrightarrow> same_clients d d') \<and>
     (\<forall>x. reset_ctx V x = x\<lparr>rest := rest (reset_ctx V x)\<rparr>) \<and>
     (\<forall>e f args d d'. m_start_compound (export_table V e) = Some f \<and> f args d = Some d' \<longrightarrow> same_clients d d') \<and>
     (\<forall>e f i arg d d'. m_backup_nfs4_op (export_table V e) = Some f \<and> f i arg d = Some d' \<longrightarrow> same_clients d d') \<and>
     (\<forall>e f res d d'. m_end_compound (export_table V e) = Some f \<and> f res d = Some d' \<longrightarrow> same_clients d d')"

lemma clients_privateD:
  assumes "clients_private V"
  shows "op_funct V op arg d = Some (r, d') \<Longrightarrow> same_clients d d'"
    and "reset_ctx V x = x\<lparr>rest := rest (reset_ctx V x)\<rparr>"
    and "m_start_compound (export_table V e) = Some f \<Longrightarrow> f args d = Some d' \<Longrightarrow> same_clients d d'"
    and "m_backup_nfs4_op (export_table V e) = Some g \<Longrightarrow> g i arg d = Some d' \<Longrightarrow> same_clients d d'"
    and "m_end_compound (export_table V e) = Some h \<Longrightarrow> h res d = Some d' \<Longrightarrow> same_clients d d'"
  using assms unfolding clients_private_def by (elim conjE; meson)+

text \<open>From \<open>d\<close> to \<open>d'\<close> the compound still works on the same slot.\<close>
definition on_slot :: "('o, 'y) client_data \<Rightarrow> ('o, 'y) client_data \<Rightarrow> bool" where
  "on_slot d d' \<longleftrightarrow> slots_kept (the_world d) (the_world d') \<and>
     cached_slot (other d') = cached_slot (other d) \<and> data_session (other d') = data_session (other d) \<and>
     preserved_clientid (other d') = preserved_clientid (other d) \<and> minorversion d' = minorversion d \<and>
     use_slot_cached_result d' = use_slot_cached_result d \<and>
     sa_cachethis d' = sa_cachethis d \<and> cached_result d' = cached_result d \<and> res_cached d' = res_cached d"

lemma on_slot_refl [simp]: "on_slot d d"
  by (simp add: on_slot_def)

lemma on_slot_trans: "on_slot d e \<Longrightarrow> on_slot e f \<Longrightarrow> on_slot d f"
  by (auto simp: on_slot_def intro: slots_kept_trans)

lemma same_clients_on_slot: "same_clients d d' \<Longrightarrow> on_slot d d'"
proof -
  assume s: "same_clients d d'"
  then obtain r where "other d' = (other d)\<lparr>rest := r\<rparr>" by (auto simp: same_clients_def)
  then show ?thesis using s by (simp add: same_clients_def on_slot_def)
qed

definition slots_op :: "('o client_world \<Rightarrow> ('r \<times> 'o client_world) option) \<Rightarrow> bool" where
  "slots_op f \<longleftrightarrow> (\<forall>w. returns (f w) (\<lambda>x. slots_kept w (snd x)))"

lemma slots_op_simps [simp]:
  "slots_op (nfs4_op_setclientid E sarg minor cred client)"
  "slots_op (nfs4_op_setclientid_confirm E i v minor cred client)"
  "slots_op (nfs4_op_renew E i minor)"
  "slots_op (exchange_id_records E earg minor cred client sa)"
  "slots_op (create_session_world E carg cred addr)"
  "slots_op (nfs4_op_destroy_session E sid minor addr)"
  "slots_op (nfs4_op_destroy_clientid E i)"
  unfolding slots_op_def by (simp_all add: slots_setclientid slots_setclientid_confirm slots_renew slots_exchange_id
      slots_destroy slots_create_session)

lemma on_world_on_slot: "on_world op f d = Some (r, d') \<Longrightarrow> slots_op f \<Longrightarrow> on_slot d d'"
  by (auto simp: on_world_def on_slot_def returns_def slots_op_def abort_simps)

lemma client_op_on_slot:
  assumes "client_op_funct E V op arg d = Some (r, d')" "clients_private V" "\<not> use_slot_cached_result d"
    and "op \<noteq> NFS4_OP_SEQUENCE" "op \<noteq> NFS4_OP_BIND_CONN_TO_SESSION"
  shows "on_slot d d'"
proof (cases "op = argop arg")
  case False
  then have "op_funct V op arg d = Some (r, d')" using assms(1) by (simp add: client_op_funct_def)
  then show ?thesis by (intro same_clients_on_slot clients_privateD(1) [OF assms(2)])
next
  case True
  have priv: "op_funct V op arg d = Some (r, d') \<Longrightarrow> on_slot d d'"
    by (intro same_clients_on_slot clients_privateD(1) [OF assms(2)])
  have d: "d\<lparr>use_slot_cached_result := False\<rparr> = d" using assms(3) by simp
  show ?thesis using assms(1,4,5) True priv
    by (cases arg) (auto simp: client_op_funct_def nfs4_op_create_session_def nfs4_op_exchange_id_def d Let_def
        split: if_splits option.splits dest: on_world_on_slot)
qed

lemma txn_calls_on_slot:
  assumes "clients_private V"
  shows "txn_backup (session_server E V) i arg d = Some d' \<Longrightarrow> on_slot d d'"
    and "txn_start (session_server E V) args d = Some d' \<Longrightarrow> on_slot d d'"
    and "txn_end (session_server E V) res d = Some d' \<Longrightarrow> on_slot d d'"
  by (auto simp: txn_backup_def txn_start_def txn_end_def current_methods_def session_server_def abort_simps
      intro!: same_clients_on_slot dest: clients_privateD(3-5) [OF assms])

lemma on_slot_sizes [simp]:
  "on_slot e (d\<lparr>op_resp_size := n\<rparr>) = on_slot e d" "on_slot e (d\<lparr>resp_size := n\<rparr>) = on_slot e d"
  by (simp_all add: on_slot_def)

lemma op_check_on_slot:
  "op_check W args i d = (st, d') \<Longrightarrow>
    on_slot d d' \<and> (st = NFS4_OK \<and> 0 < i \<longrightarrow> argop (args ! i) \<notin> {NFS4_OP_SEQUENCE, NFS4_OP_BIND_CONN_TO_SESSION})"
  by (auto simp: op_check_def check_position_def Let_def split: if_splits)

lemma run_op_on_slot:
  assumes "run_op (session_server E V) i arg ready d = Some (r, d')" "clients_private V"
    and "\<not> use_slot_cached_result d" "argop arg \<notin> {NFS4_OP_SEQUENCE, NFS4_OP_BIND_CONN_TO_SESSION}"
  shows "on_slot d d'"
proof -
  let ?op = "dispatch_opcode (minorversion d) (argop arg)"
  obtain d1 st res d2 where d1: "(if ready then txn_backup (session_server E V) i arg d else Some d) = Some d1"
    and d2: "client_op_funct E V ?op arg d1 = Some ((st, res), d2)" and d': "on_slot d d2 \<Longrightarrow> on_slot d d'"
    using assms(1) by (auto simp: run_op_def session_server_def abort_simps Let_def split: if_splits)
  have s1: "on_slot d d1" using d1 txn_calls_on_slot(1) [OF assms(2)] by (auto split: if_splits)
  have "on_slot d1 d2"
  proof (rule client_op_on_slot [OF d2 assms(2)])
    show "\<not> use_slot_cached_result d1" using assms(3) s1 by (simp add: on_slot_def)
  qed (use assms(4) in \<open>auto simp: dispatch_opcode_def\<close>)
  with s1 d' on_slot_trans show ?thesis by blast
qed

lemma loop_on_slot:
  assumes "clients_private V"
  shows "compound_loop (session_server E V) args i ls d = Some ((st, ex, ls'), d') \<Longrightarrow> 0 < i \<Longrightarrow>
    \<not> use_slot_cached_result d \<Longrightarrow> on_slot d d'"
proof (induction "length args - i" arbitrary: i ls d rule: less_induct)
  case less
  have step: "on_slot d d2" if "op_check (session_server E V) args i d = (NFS4_OK, d1)"
    "run_op (session_server E V) i (args ! i) (txn_ready ls) d1 = Some (r, d2)" for d1 d2 r
  proof -
    have "on_slot d d1" "argop (args ! i) \<notin> {NFS4_OP_SEQUENCE, NFS4_OP_BIND_CONN_TO_SESSION}"
      using op_check_on_slot [OF that(1)] less.prems(2) by auto
    moreover have "on_slot d1 d2"
      by (rule run_op_on_slot [OF that(2) assms]) (use calculation less.prems(3) in \<open>simp_all add: on_slot_def\<close>)
    ultimately show ?thesis by (blast intro: on_slot_trans)
  qed
  from less.prems(1) show ?case
  proof (cases rule: compound_loop_elim)
    case (refused d1)
    then show ?thesis using op_check_on_slot [OF refused(2)] by simp
  next
    case (failed d1 res)
    then show ?thesis using step [OF failed(2,3)] by simp
  next
    case (replayed d1 res c)
    then show ?thesis using step [OF replayed(2,3)] by simp
  next
    case (continued d1 res d2 d3 ready)
    have s2: "on_slot d d2" by (rule step [OF continued(2,3)])
    have s3: "on_slot d2 d3" using continued(5) txn_calls_on_slot(2) [OF assms] by (auto split: if_splits)
    have "on_slot d3 d'"
      by (rule less.hyps [OF _ continued(6)]) (use continued(1) less.prems(3) s2 s3 in \<open>auto simp: on_slot_def\<close>)
    with s2 s3 show ?thesis by (blast intro: on_slot_trans)
  qed simp
qed

section \<open>A new request\<close>

text \<open>The session of a request, its slot, and the client whose lease is good.\<close>
definition finds_slot ::
  "'o client_env \<Rightarrow> 'o client_world \<Rightarrow> sequence4args \<Rightarrow> nat \<Rightarrow> nfs41_session \<Rightarrow> nfs41_session_slot_t \<Rightarrow> bool"
where
  "finds_slot E w sq a s sl \<longleftrightarrow>
     ht_session_id w (sa_sessionid sq) = Some a \<and> sessions w a = Some s \<and> a < next_addr w \<and>
     session_refcount s > 0 \<and> (\<exists>c. clients w (clientid_record s) = Some c \<and> valid_lease E (now w) c) \<and>
     sa_slotid sq < ca_maxrequests (fore_channel_attrs s) \<and> unat (sa_slotid sq) < length (fc_slots s) \<and>
     fc_slots s ! unat (sa_slotid sq) = sl"

text \<open>The world while a request holds a reference to its session and has the lease reserved.\<close>
definition entered :: "'o client_world \<Rightarrow> nat \<Rightarrow> nfs41_session \<Rightarrow> nfs_client_id_t \<Rightarrow> 'o client_world" where
  "entered w a s c = w\<lparr>sessions := (sessions w)(a \<mapsto> session_refcount_update (\<lambda>n. n + 1) s),
     clients := (clients w)(clientid_record s \<mapsto> cid_lease_reservations_update (\<lambda>n. n + 1) c)\<rparr>"

lemma enter_session_finds:
  assumes "finds_slot E w sq a s sl"
  obtains c where "clients w (clientid_record s) = Some c" "valid_lease E (now w) c"
    "enter_session E (sa_sessionid sq) w =
       Some (Inr (a, session_refcount_update (\<lambda>n. n + 1) s), entered w a s c)"
  using assms by (auto simp: finds_slot_def enter_session_def nfs41_Session_Get_Pointer_def inc_session_ref_def
      mod_session_def reserve_lease_def mod_client_def entered_def Let_def)

lemma sequence_new_slot:
  assumes "sequence_new E sq a s sl w d = Some (r, d')" "sessions w a = Some s" "a < next_addr w"
  obtains w2 s2 where "slots_kept w2 (the_world d')" "next_addr w2 = next_addr w" "sessions w2 a = Some s2"
    "fc_slots s2 = (fc_slots s)[unat (sa_slotid sq) := sl\<lparr>slot_sequence := slot_sequence sl + 1, slot_res_cached := False\<rparr>]"
    "cached_slot (other d') = Some (a, unat (sa_slotid sq))" "sa_cachethis d' = sa_cachethis_arg sq"
    "cached_result d' \<noteq> None" "use_slot_cached_result d' = use_slot_cached_result d" "res_cached d' = res_cached d"
    "minorversion d' = minorversion d"
proof -
  let ?i = "unat (sa_slotid sq)" and ?sl = "sl\<lparr>slot_sequence := slot_sequence sl + 1, slot_res_cached := False\<rparr>"
  obtain w2 where w2: "set_slot a ?i ?sl w = Some w2"
    using assms(1) by (auto simp: sequence_new_def abort_simps Let_def)
  then have s2: "sessions w2 a = Some (s\<lparr>fc_slots := (fc_slots s)[?i := ?sl]\<rparr>)" "next_addr w2 = next_addr w"
    using assms(2) by (auto simp: set_slot_def mod_session_def)
  note conn = returnsD [OF slots_session_table(3) [OF slots_kept_refl]] and dec = returnsD [OF slots_dec(1) [OF slots_kept_refl]]
  have "slots_kept w2 (the_world d')" using assms(1) w2
    by (auto simp: sequence_new_def session_result_def abort_simps Let_def split: if_splits dest!: conn dec)
  then show thesis
    by (rule that [OF _ s2(2,1)]) (use assms(1) w2 in
      \<open>auto simp: sequence_new_def session_result_def abort_simps Let_def split: if_splits\<close>)
qed

text \<open>SEQUENCE is the first operation: nothing refuses it before its handler runs.\<close>
lemma sequence_checked:
  "minorversion d \<in> {1, 2} \<Longrightarrow> cd_session d = None \<Longrightarrow>
    op_check (session_server E V) (ARG_SEQUENCE sq # ops) 0 d = (NFS4_OK, d\<lparr>op_resp_size := op_size V NFS4_OP_SEQUENCE\<rparr>)"
  by (auto simp: op_check_def check_position_def check_export_perms_def exp_perm_flags_def
      dispatch_opcode_def LastOpcode_def check_resp_room_def session_server_def Let_def)

lemma sequence_runs:
  "minorversion d \<in> {1, 2} \<Longrightarrow> nfs4_op_sequence E sq d = Some ((NFS4_OK, r), d') \<Longrightarrow>
    run_op (session_server E V) i (ARG_SEQUENCE sq) False d =
      Some ((NFS4_OK, r\<lparr>res_status := NFS4_OK\<rparr>), d'\<lparr>resp_size := resp_size d' + 4 + op_resp_size d'\<rparr>)"
  by (auto simp: run_op_def session_server_def client_op_funct_def dispatch_opcode_def LastOpcode_def Let_def)

lemma sequence_first:
  assumes "minorversion d \<in> {1, 2}" "cd_session d = None" "\<not> txn_ready ls"
    and "compound_loop (session_server E V) (ARG_SEQUENCE sq # ops) 0 ls d = Some ((st, ex, ls'), d')"
  obtains (replayed) res1 d2 n c where
      "nfs4_op_sequence E sq (d\<lparr>op_resp_size := op_size V NFS4_OP_SEQUENCE\<rparr>) = Some ((NFS4_OK, res1), d2)"
      "use_slot_cached_result d2" "d' = d2\<lparr>resp_size := n\<rparr>" "cached_result d2 = Some c" "st = comp_status c"
      "ls_results ls' = resarray c" "\<not> txn_ready ls'"
  | (executed) st1 res1 d2 where
      "nfs4_op_sequence E sq (d\<lparr>op_resp_size := op_size V NFS4_OP_SEQUENCE\<rparr>) = Some ((st1, res1), d2)"
      "st1 = NFS4_OK \<longrightarrow> \<not> use_slot_cached_result d2" "clients_private V \<longrightarrow> on_slot d2 d'"
proof -
  let ?d = "d\<lparr>op_resp_size := op_size V NFS4_OP_SEQUENCE\<rparr>" and ?W = "session_server E V"
  have chk: "op_check ?W (ARG_SEQUENCE sq # ops) 0 d = (NFS4_OK, ?d)"
    using assms(1,2) by (rule sequence_checked)
  have run: thesis
    if r: "run_op ?W 0 (ARG_SEQUENCE sq) False ?d = Some ((st3, res3), d3)"
      and k: "\<And>res1 d2 n. nfs4_op_sequence E sq ?d = Some ((st3, res1), d2) \<Longrightarrow> on_slot d2 d3 \<Longrightarrow>
        (st3 = NFS4_OK \<longrightarrow> d3 = d2\<lparr>resp_size := n\<rparr>) \<Longrightarrow> thesis" for st3 res3 d3
    using r assms(1) by (auto simp: run_op_def session_server_def client_op_funct_def dispatch_opcode_def
        LastOpcode_def abort_simps Let_def split: if_splits intro: k)
  from assms(4) show thesis
  proof (cases rule: compound_loop_elim)
    case (failed d1 res)
    then have "run_op ?W 0 (ARG_SEQUENCE sq) False ?d = Some ((st, res), d')" using chk assms(3) by simp
    then show thesis by (rule run) (use failed(4) in \<open>auto intro: executed\<close>)
  next
    case (replayed d1 res c)
    then have "run_op ?W 0 (ARG_SEQUENCE sq) False ?d = Some ((NFS4_OK, res), d')" using chk assms(3) by simp
    then show thesis
    proof (rule run)
      fix res1 d2 n assume s: "nfs4_op_sequence E sq ?d = Some ((NFS4_OK, res1), d2)" "on_slot d2 d'"
        "NFS4_OK = NFS4_OK \<longrightarrow> d' = d2\<lparr>resp_size := n\<rparr>"
      show thesis by (rule that(1) [OF s(1)]) (use s replayed assms(3) in auto)
    qed
  next
    case (continued d1 res d3 d4 ready)
    then have "run_op ?W 0 (ARG_SEQUENCE sq) False ?d = Some ((NFS4_OK, res), d3)" using chk assms(3) by simp
    then show thesis
    proof (rule run)
      fix res1 d2 n assume s: "nfs4_op_sequence E sq ?d = Some ((NFS4_OK, res1), d2)" "on_slot d2 d3"
        "NFS4_OK = NFS4_OK \<longrightarrow> d3 = d2\<lparr>resp_size := n\<rparr>"
      have "on_slot d3 d'" if p: "clients_private V"
      proof -
        have t: "on_slot d3 d4" using continued(5) txn_calls_on_slot(2) [OF p] by (auto split: if_splits)
        moreover have "on_slot d4 d'"
          by (rule loop_on_slot [OF p continued(6)]) (use t continued(7) in \<open>auto simp: on_slot_def\<close>)
        ultimately show ?thesis by (rule on_slot_trans)
      qed
      then have "clients_private V \<longrightarrow> on_slot d2 d'" using s(2) on_slot_trans by blast
      moreover have "\<not> use_slot_cached_result d2" using s(3) continued(7) by simp
      ultimately show thesis by (intro that(2) [OF s(1)]) simp_all
    qed
  qed (use chk in simp_all)
qed

text \<open>The reply of the compound goes to the slot that SEQUENCE chose.\<close>
lemma reply_to_slot:
  assumes "cache_reply args res d3 = Some d4" "store_reply (d4\<lparr>fsal_export_id := None, other := x\<rparr>) = Some d5"
    and "x = (other d4)\<lparr>rest := r\<rparr>" "cached_slot (other d3) = Some (a, i)" "minorversion d3 > 0"
    and "\<not> use_slot_cached_result d3" "argop (hd args) = NFS4_OP_SEQUENCE" "cached_result d3 \<noteq> None"
    and "sessions (the_world d5) a = Some s5"
  obtains s3 where "sessions (the_world d3) a = Some s3"
    "fc_slots s5 = (fc_slots s3)[i := (fc_slots s3 ! i)\<lparr>slot_cached_result :=
       (if sa_cachethis d3 then res else uncached_reply res), slot_res_cached := True\<rparr>]"
  using assms by (auto simp: cache_reply_def store_reply_def set_slot_def mod_session_def abort_simps split: if_splits)

lemma slots_end:
  "slots_kept w (the_world d) \<Longrightarrow> returns (end_lease d) (\<lambda>d'. slots_kept w (the_world d'))"
  "slots_kept w (the_world d) \<Longrightarrow> returns (compound_data_Free E d) (\<lambda>d'. slots_kept w (the_world d'))"
  by (unfold end_lease_def compound_data_Free_def)
    (rule returns_cases returns_map [OF slots_lease(2)] returns_map [OF slots_dec(1)] | simp)+

text \<open>SEQUENCE with the next number of its slot, and with the number the slot has.\<close>
lemma sequence_next:
  assumes "finds_slot E (the_world d) sq a s sl" "slot_sequence sl + 1 = sa_sequenceid sq" "minorversion d \<noteq> 0"
  obtains c where "nfs4_op_sequence E sq d =
    sequence_new E sq a (session_refcount_update (\<lambda>n. n + 1) s) sl (entered (the_world d) a s c)
      (d\<lparr>other := (other d)\<lparr>preserved_clientid := Some (clientid_record s)\<rparr>, use_slot_cached_result := False\<rparr>)"
proof -
  obtain c where "enter_session E (sa_sessionid sq) (the_world d) =
      Some (Inr (a, session_refcount_update (\<lambda>n. n + 1) s), entered (the_world d) a s c)"
    using assms(1) by (rule enter_session_finds)
  moreover have "\<not> ca_maxrequests (fore_channel_attrs s) \<le> sa_slotid sq" "unat (sa_slotid sq) < length (fc_slots s)"
    "fc_slots s ! unat (sa_slotid sq) = sl"
    using assms(1) by (auto simp: finds_slot_def not_le)
  ultimately show thesis using assms(2,3) by (intro that [of c]) (simp add: nfs4_op_sequence_def Let_def)
qed

lemma slots_keptD:
  "slots_kept w w' \<Longrightarrow> sessions w' a = Some s' \<Longrightarrow> a < next_addr w \<Longrightarrow> \<exists>s. sessions w a = Some s \<and> same_session s s'"
  "slots_kept w w' \<Longrightarrow> next_addr w \<le> next_addr w'"
  by (auto simp: slots_kept_def)

lemma slot_after_reply:
  assumes "slots_kept w2 (the_world d2)" "sessions w2 a = Some s2" "a < next_addr w2"
    and "cache_reply args res d2 = Some d3" "d4 = d3\<lparr>fsal_export_id := None, other := reset_ctx V (other d3)\<rparr>"
    and "clients_private V" "store_reply d4 = Some d5" "end_lease d5 = Some d6" "compound_data_Free E d6 = Some d'"
    and "cached_slot (other d2) = Some (a, i)" "minorversion d2 > 0" "\<not> use_slot_cached_result d2"
    and "argop (hd args) = NFS4_OP_SEQUENCE" "cached_result d2 \<noteq> None" "sessions (the_world d') a = Some s'"
  shows "fc_slots s' = (fc_slots s2)[i := (fc_slots s2 ! i)\<lparr>slot_cached_result :=
    (if sa_cachethis d2 then res else uncached_reply res), slot_res_cached := True\<rparr>]"
proof -
  have x: "reset_ctx V (other d3) = (other d3)\<lparr>rest := rest (reset_ctx V (other d3))\<rparr>"
    by (rule clients_privateD(2) [OF assms(6)])
  have "world (reset_ctx V (other d3)) = the_world d3" by (subst x) simp
  then have w4: "the_world d4 = the_world d2" using assms(4,5) by (auto simp: cache_reply_def split: if_splits)
  have "next_addr (the_world d5) = next_addr (the_world d4)"
    using assms(7) by (auto simp: store_reply_def set_slot_def mod_session_def abort_simps split: if_splits)
  then have a5: "a < next_addr (the_world d5)" using slots_keptD(2) [OF assms(1)] assms(3) w4 by simp
  have "slots_kept (the_world d5) (the_world d')"
    using returnsD [OF slots_end(2) assms(9)] returnsD [OF slots_end(1) assms(8)] by simp
  then obtain s5 where s5: "sessions (the_world d5) a = Some s5" "same_session s5 s'"
    using slots_keptD(1) assms(15) a5 by blast
  obtain s3 where s3: "sessions (the_world d2) a = Some s3"
    "fc_slots s5 = (fc_slots s3)[i := (fc_slots s3 ! i)\<lparr>slot_cached_result :=
       (if sa_cachethis d2 then res else uncached_reply res), slot_res_cached := True\<rparr>]"
    by (rule reply_to_slot [OF assms(4) _ x assms(10,11,12,13,14) s5(1)]) (use assms(5,7) in simp)
  have "same_session s2 s3" using slots_keptD(1) [OF assms(1) s3(1) assms(3)] assms(2) by simp
  with s3(2) s5(2) show ?thesis by (simp add: same_session_def)
qed

text \<open>A request that moves its slot leaves its number and its reply there.\<close>
lemma reply_kept_in_slot:
  assumes "clients_private V" "finds_slot E (the_world d) sq a s sl" "slot_sequence sl + 1 = sa_sequenceid sq"
    and "minor > 0" "serve_compound E V minor True True (ARG_SEQUENCE sq # ops) d = Some ((rc, Some res), d')"
    and "resarray res \<noteq> []" "sessions (the_world d') a = Some s'"
  shows "fc_slots s' = (fc_slots s)[unat (sa_slotid sq) := \<lparr>slot_sequence = sa_sequenceid sq,
    slot_cached_result = (if sa_cachethis_arg sq then res else uncached_reply res), slot_res_cached = True\<rparr>]"
proof -
  let ?W = "session_server E V" and ?args = "ARG_SEQUENCE sq # ops" and ?i = "unat (sa_slotid sq)"
  let ?d = "d\<lparr>res_cached := False, other := (other d)\<lparr>data_session := None, data_slot := 0,
               preserved_clientid := None, cached_slot := None, op_clientid := None\<rparr>\<rparr>"
  obtain d4 d5 d6 where d4: "nfs4_Compound ?W minor True True ?args ?d = Some ((rc, Some res), d4)"
    and d5: "store_reply d4 = Some d5" and d6: "end_lease d5 = Some d6" "compound_data_Free E d6 = Some d'"
    using assms(5) by (auto simp: serve_compound_def abort_simps Let_def)
  from d4 show ?thesis
  proof (cases rule: compound_elim)
    case (run d0 st ex ls d1 d2 d3)
    have m: "minorversion d0 \<in> {1, 2}" using assms(4) run(8,14) by auto
    let ?d0 = "d0\<lparr>op_resp_size := op_size V NFS4_OP_SEQUENCE\<rparr>"
    have f: "finds_slot E (the_world ?d0) sq a s sl" using assms(2) run(1) by simp
    have m0: "minorversion ?d0 \<noteq> 0" using m by auto
    obtain c where seq: "nfs4_op_sequence E sq ?d0 =
        sequence_new E sq a (session_refcount_update (\<lambda>n. n + 1) s) sl (entered (the_world ?d0) a s c)
          (?d0\<lparr>other := (other ?d0)\<lparr>preserved_clientid := Some (clientid_record s)\<rparr>, use_slot_cached_result := False\<rparr>)"
      by (rule sequence_next [OF f assms(3) m0])
    have ent: "sessions (entered (the_world ?d0) a s c) a = Some (session_refcount_update (\<lambda>n. n + 1) s)"
      "a < next_addr (entered (the_world ?d0) a s c)" using f by (simp_all add: entered_def finds_slot_def)
    note new = sequence_new_slot [OF _ ent]
    show ?thesis
    proof (rule sequence_first [OF m run(15) _ run(3)])
      fix st1 res1 dq
      assume "nfs4_op_sequence E sq ?d0 = Some ((st1, res1), dq)" "clients_private V \<longrightarrow> on_slot dq d1"
      then have q: "on_slot dq d1" using assms(1) by simp
      note q0 = \<open>nfs4_op_sequence E sq ?d0 = Some ((st1, res1), dq)\<close> [unfolded seq]
      have "on_slot d1 d2" using run(5) txn_calls_on_slot(3) [OF assms(1)] by (auto split: if_splits)
      with q have q2: "on_slot dq d2" by (rule on_slot_trans)
      have dq: "\<not> use_slot_cached_result dq" "minorversion dq > 0"
        by (rule new [OF q0], use m0 in simp)+
      show ?thesis
      proof (rule new [OF q0])
        fix w2 s2
        assume n: "slots_kept w2 (the_world dq)" "next_addr w2 = next_addr (entered (the_world ?d0) a s c)"
          "sessions w2 a = Some s2" "fc_slots s2 = (fc_slots (session_refcount_update (\<lambda>n. n + 1) s))
            [?i := sl\<lparr>slot_sequence := slot_sequence sl + 1, slot_res_cached := False\<rparr>]"
          "cached_slot (other dq) = Some (a, ?i)" "sa_cachethis dq = sa_cachethis_arg sq" "cached_result dq \<noteq> None"
        have w2: "slots_kept w2 (the_world d2)" using n(1) q2 by (auto simp: on_slot_def intro: slots_kept_trans)
        have a2: "a < next_addr w2" using ent(2) n(2) by simp
        have "fc_slots s' = (fc_slots s2)[?i := (fc_slots s2 ! ?i)\<lparr>slot_cached_result :=
            (if sa_cachethis d2 then res else uncached_reply res), slot_res_cached := True\<rparr>]"
          by (rule slot_after_reply [OF w2 n(3) a2 run(6) _ assms(1) d5 d6 _ _ _ _ _ assms(7)])
            (use n q2 dq run(7) in \<open>simp_all add: on_slot_def session_server_def\<close>)
        then have "fc_slots s' = (fc_slots s2)[?i := (fc_slots s2 ! ?i)\<lparr>slot_cached_result :=
            (if sa_cachethis_arg sq then res else uncached_reply res), slot_res_cached := True\<rparr>]"
          using n(6) q2 by (simp add: on_slot_def)
        then show ?thesis using n(4) f assms(3) by (cases sl) (simp add: finds_slot_def)
      qed
    next
      fix res1 dq n c'
      assume q: "nfs4_op_sequence E sq ?d0 = Some ((NFS4_OK, res1), dq)" "use_slot_cached_result dq"
      show ?thesis by (rule new [OF q(1) [unfolded seq]]) (use q(2) in simp)
    qed simp
  qed (use assms(6) in simp)
qed

section \<open>A retry\<close>

text \<open>The client after a request that did nothing but renew its lease.\<close>
definition renewed :: "int \<Rightarrow> nfs_client_id_t \<Rightarrow> nfs_client_id_t" where
  "renewed t c = (if cid_lease_reservations c = 0 then c\<lparr>cid_last_renew := t\<rparr> else c)"

lemma leave_session:
  assumes "sessions w a = Some s" "session_refcount s > 0" "clients w (clientid_record s) = Some c"
  shows "dec_session_ref E a (entered w a s c) =
    Some (w\<lparr>clients := (clients w)(clientid_record s \<mapsto> cid_lease_reservations_update (\<lambda>n. n + 1) c)\<rparr>)"
proof -
  have [simp]: "session_refcount_update (\<lambda>x. x) s = s" by (cases s) simp
  have [simp]: "(sessions w)(a \<mapsto> s) = sessions w" using assms(1) by (simp add: fun_upd_idem)
  show ?thesis using assms(1,2)
    by (simp add: dec_session_ref_def release_ref.simps [of E "Dec_session a"] mod_session_def entered_def comp_def)
qed

lemma lease_renewed:
  assumes "clients w k = Some c"
  shows "update_lease k (w\<lparr>clients := (clients w)(k \<mapsto> cid_lease_reservations_update (\<lambda>n. n + 1) c)\<rparr>) =
    Some (w\<lparr>clients := (clients w)(k \<mapsto> renewed (now w) c)\<rparr>)"
proof -
  have "cid_lease_reservations_update (\<lambda>x. x) c = c" by (cases c) simp
  then show ?thesis by (cases c) (simp add: update_lease_def mod_client_def renewed_def Let_def comp_def)
qed

lemma sequence_retry:
  assumes "finds_slot E (the_world d) sq a s sl" "slot_sequence sl = sa_sequenceid sq" "slot_res_cached sl"
    and "minorversion d \<noteq> 0"
  obtains c where "clients (the_world d) (clientid_record s) = Some c"
    "nfs4_op_sequence E sq d = Some ((NFS4_OK, \<lparr>resop = NFS4_OP_SEQUENCE, res_status = NFS4_OK, res_u = RES_NONE\<rparr>),
       d\<lparr>use_slot_cached_result := True, cached_result := Some (slot_cached_result sl),
         other := (other d)\<lparr>preserved_clientid := Some (clientid_record s), cached_slot := Some (a, unat (sa_slotid sq)),
           world := (the_world d)\<lparr>clients := (clients (the_world d))
             (clientid_record s \<mapsto> cid_lease_reservations_update (\<lambda>n. n + 1) c)\<rparr>\<rparr>\<rparr>)"
proof -
  obtain c where e: "clients (the_world d) (clientid_record s) = Some c"
    "enter_session E (sa_sessionid sq) (the_world d) =
      Some (Inr (a, session_refcount_update (\<lambda>n. n + 1) s), entered (the_world d) a s c)"
    using assms(1) by (rule enter_session_finds)
  have s: "sessions (the_world d) a = Some s" "session_refcount s > 0"
    "\<not> ca_maxrequests (fore_channel_attrs s) \<le> sa_slotid sq" "unat (sa_slotid sq) < length (fc_slots s)"
    "fc_slots s ! unat (sa_slotid sq) = sl"
    using assms(1) by (auto simp: finds_slot_def not_le)
  show thesis using assms(2-4) e s leave_session [OF s(1,2) e(1)]
    by (intro that [OF e(1)]) (simp add: nfs4_op_sequence_def session_result_def Let_def)
qed

text \<open>A request with the number of its slot is answered with the reply that the slot holds: of the operations after
  SEQUENCE none is run, and the lease is renewed.\<close>
lemma retry_answered:
  assumes "clients_private V" "finds_slot E (the_world d) sq a s sl" "slot_sequence sl = sa_sequenceid sq"
    and "slot_res_cached sl" "minor \<in> {1, 2}" "minor_versions V AND push_bit minor 1 \<noteq> 0" "length ops < MAX_OPS"
  shows "\<exists>d' c x. serve_compound E V minor True True (ARG_SEQUENCE sq # ops) d =
      Some ((NFS_REQ_OK, Some (slot_cached_result sl)), d') \<and>
    clients (the_world d) (clientid_record s) = Some c \<and>
    the_world d' = (the_world d)\<lparr>clients := (clients (the_world d))(clientid_record s \<mapsto> renewed (now (the_world d)) c)\<rparr> \<and>
    rest x = rest (other d) \<and> rest (other d') = rest (reset_ctx V x)"
proof -
  define d1 where "d1 = d\<lparr>res_cached := False, other := (other d)\<lparr>data_session := None, data_slot := 0,
      preserved_clientid := None, cached_slot := None, op_clientid := None\<rparr>\<rparr>"
  define d2 where "d2 = d1\<lparr>currentFH := [], minorversion := minor, cd_session := None, resp_size := compound_base_size V,
      op_resp_size := 0, use_slot_cached_result := False, sa_cachethis := False, cached_result := None\<rparr>"
  let ?W = "session_server E V" and ?d = "d2\<lparr>op_resp_size := op_size V NFS4_OP_SEQUENCE\<rparr>"
  have m: "minorversion d2 \<in> {1, 2}" "cd_session d2 = None" "minorversion ?d \<in> {1, 2}" "minorversion ?d \<noteq> 0"
    "\<not> minor > 2" "check_first_op minor (ARG_SEQUENCE sq # ops) = NFS4_OK"
    using assms(5) by (auto simp: d2_def check_first_op_def Let_def)
  have f: "finds_slot E (the_world ?d) sq a s sl" using assms(2) by (simp add: d2_def d1_def)
  obtain c where c: "clients (the_world d) (clientid_record s) = Some c"
    and q: "nfs4_op_sequence E sq ?d = Some ((NFS4_OK, \<lparr>resop = NFS4_OP_SEQUENCE, res_status = NFS4_OK, res_u = RES_NONE\<rparr>),
       ?d\<lparr>use_slot_cached_result := True, cached_result := Some (slot_cached_result sl),
         other := (other ?d)\<lparr>preserved_clientid := Some (clientid_record s), cached_slot := Some (a, unat (sa_slotid sq)),
           world := (the_world ?d)\<lparr>clients := (clients (the_world ?d))
             (clientid_record s \<mapsto> cid_lease_reservations_update (\<lambda>n. n + 1) c)\<rparr>\<rparr>\<rparr>)"
    by (rule sequence_retry [OF f assms(3,4) m(4)]) (simp add: d2_def d1_def)
  let ?d3 = "?d\<lparr>use_slot_cached_result := True, cached_result := Some (slot_cached_result sl),
         other := (other ?d)\<lparr>preserved_clientid := Some (clientid_record s), cached_slot := Some (a, unat (sa_slotid sq)),
           world := (the_world ?d)\<lparr>clients := (clients (the_world ?d))
             (clientid_record s \<mapsto> cid_lease_reservations_update (\<lambda>n. n + 1) c)\<rparr>\<rparr>\<rparr>"
  let ?d4 = "?d3\<lparr>resp_size := resp_size ?d3 + 4 + op_resp_size ?d3\<rparr>"
  have loop: "compound_loop ?W (ARG_SEQUENCE sq # ops) 0 \<lparr>ls_results = [], txn_ready = False, start_called = False\<rparr> d2 =
      Some ((comp_status (slot_cached_result sl), LoopReplayed,
        \<lparr>ls_results = resarray (slot_cached_result sl), txn_ready = False, start_called = False\<rparr>), ?d4)"
    by (subst compound_loop.simps) (simp add: sequence_checked [OF m(1,2)] sequence_runs [OF m(3) q])
  have res: "\<lparr>comp_status = comp_status (slot_cached_result sl), resarray = resarray (slot_cached_result sl)\<rparr> =
      slot_cached_result sl" by (cases "slot_cached_result sl") simp
  have d2: "\<not> sa_cachethis d2" by (simp add: d2_def)
  have compound: "nfs4_Compound ?W minor True True (ARG_SEQUENCE sq # ops) d1 =
      Some ((NFS_REQ_OK, Some (slot_cached_result sl)), ?d4\<lparr>fsal_export_id := None, other := reset_ctx V (other ?d4)\<rparr>)"
    using assms(6,7) m(5,6) loop res d2
    by (simp add: nfs4_Compound_def d2_def [symmetric] cache_reply_def session_server_def Let_def)
  have reset: "reset_ctx V (other ?d4) = (other ?d4)\<lparr>rest := rest (reset_ctx V (other ?d4))\<rparr>"
    by (rule clients_privateD(2) [OF assms(1)])
  define y where "y = rest (reset_ctx V (other ?d4))"
  have compound': "nfs4_Compound ?W minor True True (ARG_SEQUENCE sq # ops) d1 =
      Some ((NFS_REQ_OK, Some (slot_cached_result sl)), ?d4\<lparr>fsal_export_id := None, other := (other ?d4)\<lparr>rest := y\<rparr>\<rparr>)"
    unfolding y_def by (subst reset [symmetric]) (rule compound)
  have w: "the_world d2 = the_world d" "data_session (other d2) = None" "\<not> res_cached d2" "rest (other d2) = rest (other d)"
    by (simp_all add: d2_def d1_def)
  have serve: "serve_compound E V minor True True (ARG_SEQUENCE sq # ops) d = Some ((NFS_REQ_OK, Some (slot_cached_result sl)),
      ?d4\<lparr>fsal_export_id := None, other := (other ?d4)\<lparr>rest := y, world := (the_world d)\<lparr>clients :=
        (clients (the_world d))(clientid_record s \<mapsto> renewed (now (the_world d)) c)\<rparr>\<rparr>\<rparr>)"
    using lease_renewed [OF c] w
    by (simp add: serve_compound_def d1_def [symmetric] compound' store_reply_def end_lease_def compound_data_Free_def)
  show ?thesis
    by (rule exI, rule exI [of _ c], rule exI [of _ "other ?d4"], rule conjI [OF serve]) (use c w y_def in simp)
qed

text \<open>C4. A request is executed at most once.  Once a compound that starts with SEQUENCE has been processed as the next
  request of its slot, the same request sent again is answered with the reply of the first time, or, when the client
  did not ask for the reply to be kept, with the results of the first two operations, the second one marked as not
  kept.  None of its operations is run again: nothing changes but the lease of the client.\<close>
theorem retried_request_runs_once:
  assumes "clients_private V" "finds_slot E (the_world d) sq a s sl" "slot_sequence sl + 1 = sa_sequenceid sq"
    and "serve_compound E V minor True True (ARG_SEQUENCE sq # ops) d = Some ((rc, Some res), d1)" "resarray res \<noteq> []"
    and "sessions (the_world d1) a = Some s1"
    and "finds_slot E (the_world d2) sq a s2 (fc_slots s1 ! unat (sa_slotid sq))" "minor \<in> {1, 2}"
    and "minor_versions V AND push_bit minor 1 \<noteq> 0" "length ops < MAX_OPS"
  shows "\<exists>d3 c x. serve_compound E V minor True True (ARG_SEQUENCE sq # ops) d2 =
      Some ((NFS_REQ_OK, Some (if sa_cachethis_arg sq then res else uncached_reply res)), d3) \<and>
    clients (the_world d2) (clientid_record s2) = Some c \<and>
    the_world d3 = (the_world d2)\<lparr>clients := (clients (the_world d2))(clientid_record s2 \<mapsto> renewed (now (the_world d2)) c)\<rparr> \<and>
    rest x = rest (other d2) \<and> rest (other d3) = rest (reset_ctx V x)"
proof -
  have "fc_slots s1 = (fc_slots s)[unat (sa_slotid sq) := \<lparr>slot_sequence = sa_sequenceid sq,
      slot_cached_result = (if sa_cachethis_arg sq then res else uncached_reply res), slot_res_cached = True\<rparr>]"
    by (rule reply_kept_in_slot [OF assms(1-3) _ assms(4,5,6)]) (use assms(8) in auto)
  moreover have "unat (sa_slotid sq) < length (fc_slots s)" using assms(2) by (simp add: finds_slot_def)
  ultimately have "fc_slots s1 ! unat (sa_slotid sq) = \<lparr>slot_sequence = sa_sequenceid sq,
      slot_cached_result = (if sa_cachethis_arg sq then res else uncached_reply res), slot_res_cached = True\<rparr>"
    by simp
  with retry_answered [OF assms(1,7) _ _ assms(8,9,10)] show ?thesis by simp
qed

section \<open>A session with two slots\<close>

definition demo_env :: "unit client_env" where
  "demo_env = \<lparr>lease_lifetime = 60, param_nb_slots = 64, allow_delegations = False, pnfs_mds = False, pnfs_ds = False,
     ServerEpoch = 7, CityHash64WithSeed = (\<lambda>b s. s), hostname = Some ''h'', gss_same_name = (=),
     cb_chan_up = (\<lambda>_. True), test_cb_chan = (\<lambda>_. True), create_chan_v41 = (\<lambda>_. True),
     release_owners = (\<lambda>_ os. Some os), openowners = (\<lambda>_ _. []), owner_has_state = (\<lambda>_ _. False),
     cid_owner_has_state = (\<lambda>_ _. False), add_clid = (\<lambda>_ os. (None, os)), rm_clid = (\<lambda>_ os. os), chk_clid = (\<lambda>_ _. False)\<rparr>"

definition demo_attrs :: channel_attrs4 where
  "demo_attrs = \<lparr>ca_headerpadsize = 0, ca_maxrequestsize = 4096, ca_maxresponsesize = 4096,
     ca_maxresponsesize_cached = 4096, ca_maxoperations = 16, ca_maxrequests = 2\<rparr>"

definition demo_client :: nfs_client_id_t where
  "demo_client = \<lparr>cid_clientid = 0x700000001, cid_verifier = [], cid_incoming_verifier = [], cid_last_renew = 0,
     cid_confirmed = CONFIRMED_CLIENT_ID, cid_allow_reclaim = False, cid_credential = AUTH_UNIX 0 0, cid_recov_tag = None,
     cid_client_record = None, cid_cb = v41 \<lparr>cid_reclaim_complete = False, cb_session_list = [1]\<rparr>,
     first_path_down_resp_time = 0, cid_create_session_sequence = 2, cid_create_session_slot = (NFS4_OK, RES_NONE),
     cid_refcount = 2, cid_lease_reservations = 0, cid_minorversion = 1, curr_deleg_grants = 0, cid_gsh_client = None\<rparr>"

definition demo_slot :: nfs41_session_slot_t where
  "demo_slot = \<lparr>slot_sequence = 0, slot_cached_result = \<lparr>comp_status = 0, resarray = []\<rparr>, slot_res_cached = False\<rparr>"

definition demo_session :: nfs41_session where
  "demo_session = \<lparr>session_id = ''S'', fore_channel_attrs = demo_attrs, back_channel_attrs = demo_attrs,
     connections = [''c''], clientid_record = 0, session_clientid = 0x700000001, session_cb_program = 0,
     session_bc_up = False, session_refcount = 1, nb_slots = 2, fc_slots = [demo_slot, demo_slot]\<rparr>"

definition demo_world :: "unit client_world" where
  "demo_world = \<lparr>clients = [0 \<mapsto> demo_client], records = Map.empty, sessions = [1 \<mapsto> demo_session],
     ht_confirmed_client_id = [0x700000001 \<mapsto> 0], ht_unconfirmed_client_id = Map.empty, ht_client_record = Map.empty,
     ht_session_id = [''S'' \<mapsto> 1], clientid_counter = 1, clientid_verifier = 0, global_sequence = 1,
     reclaim_completes = 0, now = 10, next_addr = 2, owners = ()\<rparr>"

text \<open>Every operation that is not one on clients or sessions is counted.\<close>
definition counting_server :: "((unit, nat) client_ctx, unit) server" where
  "counting_server = \<lparr>
     op_funct = (\<lambda>op arg d. Some ((NFS4_OK, \<lparr>resop = argop arg, res_status = 0, res_u = RES_NONE\<rparr>),
       d\<lparr>other := (other d)\<lparr>rest := Suc (rest (other d))\<rparr>\<rparr>)),
     op_size = (\<lambda>op. 8),
     export_table = (\<lambda>_. \<lparr>m_start_compound = None, m_end_compound = None, m_backup_nfs4_op = None,
       supports_transaction = []\<rparr>),
     union_sessionid = (\<lambda>a. []), compound_base_size = 0, minor_versions = 7, reset_ctx = (\<lambda>x. x)\<rparr>"

definition demo_request :: "(unit, nat) client_data" where
  "demo_request = \<lparr>currentFH = [], minorversion = 0, cd_session = None, resp_size = 0, op_resp_size = 0,
     use_slot_cached_result = False, sa_cachethis = False, cached_result = None, res_cached = False,
     fsal_export_id = None, export_options = 0,
     other = \<lparr>world = demo_world, data_session = None, data_slot = 0, preserved_clientid = None, cached_slot = None,
       op_clientid = None, data_credential = AUTH_UNIX 0 0, op_client = None, xprt_addr = ''c'', raddr = 0, rest = 0\<rparr>\<rparr>"

definition demo_sequence :: sequence4args where
  "demo_sequence = \<lparr>sa_sessionid = ''S'', sa_sequenceid = 1, sa_slotid = 1, sa_cachethis_arg = True\<rparr>"

lemma demo_served:
  "case serve_compound demo_env counting_server 1 True True [ARG_SEQUENCE demo_sequence, ARG_OTHER NFS4_OP_PUTROOTFH] demo_request of
     Some ((rc, Some res), d) \<Rightarrow> rc = NFS_REQ_OK \<and> resarray res \<noteq> [] \<and> rest (other d) = 1 \<and> ht_session_id (the_world d) ''S'' = Some 1 \<and>
       next_addr (the_world d) = 2 \<and>
       (case sessions (the_world d) 1 of None \<Rightarrow> False
        | Some s \<Rightarrow> clientid_record s = 0 \<and> session_refcount s > 0 \<and> ca_maxrequests (fore_channel_attrs s) = 2 \<and> length (fc_slots s) = 2) \<and>
       (case clients (the_world d) 0 of None \<Rightarrow> False | Some c \<Rightarrow> valid_lease demo_env (now (the_world d)) c)
   | _ \<Rightarrow> False"
  by code_simp

lemma counting_private: "clients_private counting_server"
  unfolding clients_private_def counting_server_def
  by (auto simp: same_clients_def)

theorem retried_request_runs_once_witness:
  "\<exists>res d1 d3.
     serve_compound demo_env counting_server 1 True True [ARG_SEQUENCE demo_sequence, ARG_OTHER NFS4_OP_PUTROOTFH] demo_request =
       Some ((NFS_REQ_OK, Some res), d1) \<and> rest (other d1) = 1 \<and>
     serve_compound demo_env counting_server 1 True True [ARG_SEQUENCE demo_sequence, ARG_OTHER NFS4_OP_PUTROOTFH] d1 =
       Some ((NFS_REQ_OK, Some res), d3) \<and> rest (other d3) = 1"
proof -
  let ?ops = "[ARG_OTHER NFS4_OP_PUTROOTFH]"
  obtain res d1 s1 c where s: "serve_compound demo_env counting_server 1 True True (ARG_SEQUENCE demo_sequence # ?ops) demo_request =
      Some ((NFS_REQ_OK, Some res), d1)" "resarray res \<noteq> []" "sessions (the_world d1) 1 = Some s1" and r: "rest (other d1) = 1" and
    d1: "ht_session_id (the_world d1) ''S'' = Some 1" "next_addr (the_world d1) = 2" "clientid_record s1 = 0"
      "session_refcount s1 > 0" "ca_maxrequests (fore_channel_attrs s1) = 2" "length (fc_slots s1) = 2"
      "clients (the_world d1) 0 = Some c" "valid_lease demo_env (now (the_world d1)) c"
    using demo_served by (auto split: option.splits prod.splits)
  have f0: "finds_slot demo_env (the_world demo_request) demo_sequence 1 demo_session demo_slot"
    by (simp add: finds_slot_def demo_request_def demo_world_def demo_session_def demo_sequence_def demo_attrs_def
        demo_client_def demo_env_def valid_lease_def lease_seconds_def demo_slot_def)
  have f1: "finds_slot demo_env (the_world d1) demo_sequence 1 s1 (fc_slots s1 ! unat (sa_slotid demo_sequence))"
    using d1 s(3) by (simp add: finds_slot_def demo_sequence_def)
  have h: "slot_sequence demo_slot + 1 = sa_sequenceid demo_sequence" "sa_cachethis_arg demo_sequence" "1 \<in> {1, 2::nat}"
    "minor_versions counting_server AND push_bit 1 1 \<noteq> 0" "length ?ops < MAX_OPS" "\<And>x. reset_ctx counting_server x = x"
    by (simp_all add: demo_slot_def demo_sequence_def counting_server_def)
  from retried_request_runs_once [OF counting_private f0 h(1) s f1 h(3,4,5)] s(1) r show ?thesis
    by (simp only: h(2,6) if_True) metis
qed

end
