(* ===== verification/Sal_Client_Refs.thy ===== *)
theory Sal_Client_Refs
  imports Nfs4_Session "HOL-Library.Multiset"
begin

text \<open>
  Reference counts of client ids, owner records and sessions.  The invariant \<open>owned\<close> counts who refers to an
  object: the tables, the other objects, and the references that the computation holds, a multiset.  A
  reference moves from one to another: when the last reference to a session goes, the one it has to its client
  becomes one that is held and released next.  Under the invariant no object is used after its release.

  The count may be larger than the references, a leak; it is never smaller.
\<close>

section \<open>Who refers to what\<close>

datatype held = Ses nat | Cli nat | Rec nat

abbreviation tag_v41 :: "nfs_client_id_t \<Rightarrow> bool" where
  "tag_v41 c \<equiv> (\<exists>cb. cid_cb c = v41 cb)"

definition cb_sessions :: "nfs_client_id_t \<Rightarrow> nat list" where
  "cb_sessions c = (case cid_cb c of v40 _ \<Rightarrow> [] | v41 cb \<Rightarrow> cb_session_list cb)"

text \<open>What the tables and the owner records know of an object.\<close>
definition sid :: "'o client_world \<Rightarrow> nat \<Rightarrow> bytes option" where
  "sid w a = map_option session_id (sessions w a)"

definition ckey :: "'o client_world \<Rightarrow> nat \<Rightarrow> (u64 \<times> nfs_clientid_confirm_state_t \<times> nat option) option" where
  "ckey w a = map_option (\<lambda>c. (cid_clientid c, cid_confirmed c, cid_client_record c)) (clients w a)"

definition rkey :: "'o client_env \<Rightarrow> 'o client_world \<Rightarrow> nat \<Rightarrow> (u64 \<times> u32 \<times> bytes) option" where
  "rkey E w r = map_option (client_record_key E) (records w r)"

definition clients_of :: "'o client_world \<Rightarrow> nat \<Rightarrow> nat set" where
  "clients_of w r = {a. \<exists>i st. ckey w a = Some (i, st, Some r)}"

lemma ckey_irrelevant [simp]:
  "ckey (w\<lparr>records := x0\<rparr>) = ckey w"
  "ckey (w\<lparr>sessions := x1\<rparr>) = ckey w"
  "ckey (w\<lparr>ht_confirmed_client_id := x2\<rparr>) = ckey w"
  "ckey (w\<lparr>ht_unconfirmed_client_id := x3\<rparr>) = ckey w"
  "ckey (w\<lparr>ht_client_record := x4\<rparr>) = ckey w"
  "ckey (w\<lparr>ht_session_id := x5\<rparr>) = ckey w"
  "ckey (w\<lparr>clientid_counter := x6\<rparr>) = ckey w"
  "ckey (w\<lparr>clientid_verifier := x7\<rparr>) = ckey w"
  "ckey (w\<lparr>global_sequence := x8\<rparr>) = ckey w"
  "ckey (w\<lparr>reclaim_completes := x9\<rparr>) = ckey w"
  "ckey (w\<lparr>now := x10\<rparr>) = ckey w"
  "ckey (w\<lparr>next_addr := x11\<rparr>) = ckey w"
  "ckey (w\<lparr>owners := x12\<rparr>) = ckey w"
  by (simp_all add: ckey_def fun_eq_iff)

lemma sid_irrelevant [simp]:
  "sid (w\<lparr>clients := x0\<rparr>) = sid w"
  "sid (w\<lparr>records := x1\<rparr>) = sid w"
  "sid (w\<lparr>ht_confirmed_client_id := x2\<rparr>) = sid w"
  "sid (w\<lparr>ht_unconfirmed_client_id := x3\<rparr>) = sid w"
  "sid (w\<lparr>ht_client_record := x4\<rparr>) = sid w"
  "sid (w\<lparr>ht_session_id := x5\<rparr>) = sid w"
  "sid (w\<lparr>clientid_counter := x6\<rparr>) = sid w"
  "sid (w\<lparr>clientid_verifier := x7\<rparr>) = sid w"
  "sid (w\<lparr>global_sequence := x8\<rparr>) = sid w"
  "sid (w\<lparr>reclaim_completes := x9\<rparr>) = sid w"
  "sid (w\<lparr>now := x10\<rparr>) = sid w"
  "sid (w\<lparr>next_addr := x11\<rparr>) = sid w"
  "sid (w\<lparr>owners := x12\<rparr>) = sid w"
  by (simp_all add: sid_def fun_eq_iff)

lemma rkey_irrelevant [simp]:
  "rkey E (w\<lparr>clients := x0\<rparr>) = rkey E w"
  "rkey E (w\<lparr>sessions := x1\<rparr>) = rkey E w"
  "rkey E (w\<lparr>ht_confirmed_client_id := x2\<rparr>) = rkey E w"
  "rkey E (w\<lparr>ht_unconfirmed_client_id := x3\<rparr>) = rkey E w"
  "rkey E (w\<lparr>ht_client_record := x4\<rparr>) = rkey E w"
  "rkey E (w\<lparr>ht_session_id := x5\<rparr>) = rkey E w"
  "rkey E (w\<lparr>clientid_counter := x6\<rparr>) = rkey E w"
  "rkey E (w\<lparr>clientid_verifier := x7\<rparr>) = rkey E w"
  "rkey E (w\<lparr>global_sequence := x8\<rparr>) = rkey E w"
  "rkey E (w\<lparr>reclaim_completes := x9\<rparr>) = rkey E w"
  "rkey E (w\<lparr>now := x10\<rparr>) = rkey E w"
  "rkey E (w\<lparr>next_addr := x11\<rparr>) = rkey E w"
  "rkey E (w\<lparr>owners := x12\<rparr>) = rkey E w"
  by (simp_all add: rkey_def fun_eq_iff)

definition session_refs :: "held multiset \<Rightarrow> 'o client_world \<Rightarrow> nat \<Rightarrow> nfs41_session \<Rightarrow> int" where
  "session_refs H w a s = of_bool (ht_session_id w (session_id s) = Some a) + int (count H (Ses a))"

definition client_refs :: "held multiset \<Rightarrow> 'o client_world \<Rightarrow> nat \<Rightarrow> nfs_client_id_t \<Rightarrow> int" where
  "client_refs H w a c = of_bool (ht_confirmed_client_id w (cid_clientid c) = Some a) +
     of_bool (ht_unconfirmed_client_id w (cid_clientid c) = Some a) + int (length (cb_sessions c)) + int (count H (Cli a))"

definition record_refs :: "held multiset \<Rightarrow> 'o client_world \<Rightarrow> nat \<Rightarrow> int" where
  "record_refs H w r = int (card (clients_of w r)) + int (count H (Rec r))"

text \<open>A session has as many slots as it tells the client.\<close>
definition slots_typed :: "nfs41_session \<Rightarrow> bool" where
  "slots_typed s \<longleftrightarrow> length (fc_slots s) = unat (nb_slots s) \<and> ca_maxrequests (fore_channel_attrs s) = nb_slots s"

definition session_ok :: "held multiset \<Rightarrow> 'o client_world \<Rightarrow> nat \<Rightarrow> nfs41_session \<Rightarrow> bool" where
  "session_ok H w a s \<longleftrightarrow> a < next_addr w \<and> 0 < session_refcount s \<and> session_refs H w a s \<le> session_refcount s \<and>
     slots_typed s \<and> (\<exists>c. clients w (clientid_record s) = Some c \<and> a \<in> set (cb_sessions c)) \<and>
     (\<exists>n \<le> global_sequence w. session_id s = mem64 (session_clientid s) @ mem64 n)"

text \<open>The table a client id is in follows from its state.\<close>
definition in_table :: "'o client_world \<Rightarrow> nat \<Rightarrow> nfs_client_id_t \<Rightarrow> bool" where
  "in_table w a c \<longleftrightarrow>
     (cid_confirmed c = UNCONFIRMED_CLIENT_ID \<longrightarrow>
        ht_unconfirmed_client_id w (cid_clientid c) = Some a \<and> cid_client_record c \<noteq> None) \<and>
     (cid_confirmed c = CONFIRMED_CLIENT_ID \<longrightarrow>
        ht_confirmed_client_id w (cid_clientid c) = Some a \<and> cid_client_record c \<noteq> None) \<and>
     (cid_confirmed c = STALE_CLIENT_ID \<longrightarrow> ht_confirmed_client_id w (cid_clientid c) = Some a)"

definition client_ok :: "held multiset \<Rightarrow> 'o client_world \<Rightarrow> nat \<Rightarrow> nfs_client_id_t \<Rightarrow> bool" where
  "client_ok H w a c \<longleftrightarrow> a < next_addr w \<and> 0 < cid_refcount c \<and> client_refs H w a c \<le> cid_refcount c \<and>
     0 < cid_minorversion c \<and> tag_v41 c \<and> distinct (cb_sessions c) \<and>
     (\<forall>x \<in> set (cb_sessions c). \<exists>s. sessions w x = Some s \<and> clientid_record s = a) \<and>
     in_table w a c \<and> (\<forall>r. cid_client_record c = Some r \<longrightarrow> records w r \<noteq> None)"

definition points :: "'o client_world \<Rightarrow> nat \<Rightarrow> nat \<Rightarrow> nfs_clientid_confirm_state_t \<Rightarrow> bool" where
  "points w a r st \<longleftrightarrow> (\<exists>i. ckey w a = Some (i, st, Some r))"

definition record_ok :: "held multiset \<Rightarrow> 'o client_world \<Rightarrow> nat \<Rightarrow> nfs_client_record_t \<Rightarrow> bool" where
  "record_ok H w r rc \<longleftrightarrow> r < next_addr w \<and> 0 < cr_refcount rc \<and> record_refs H w r \<le> cr_refcount rc \<and>
     (\<forall>a. cr_confirmed_rec rc = Some a \<longrightarrow> points w a r CONFIRMED_CLIENT_ID) \<and>
     (\<forall>a. cr_unconfirmed_rec rc = Some a \<longrightarrow> points w a r UNCONFIRMED_CLIENT_ID)"

definition tables_ok :: "'o client_env \<Rightarrow> 'o client_world \<Rightarrow> bool" where
  "tables_ok E w \<longleftrightarrow> (\<forall>i a. ht_session_id w i = Some a \<longrightarrow> sid w a = Some i) \<and>
     (\<forall>i a. ht_confirmed_client_id w i = Some a \<longrightarrow>
        (\<exists>r. ckey w a = Some (i, CONFIRMED_CLIENT_ID, r) \<or> ckey w a = Some (i, STALE_CLIENT_ID, r))) \<and>
     (\<forall>i a. ht_unconfirmed_client_id w i = Some a \<longrightarrow> (\<exists>r. ckey w a = Some (i, UNCONFIRMED_CLIENT_ID, r))) \<and>
     (\<forall>k r. ht_client_record w k = Some r \<longrightarrow> rkey E w r = Some k) \<and>
     (\<forall>a b i. sid w a = Some i \<and> sid w b = Some i \<longrightarrow> a = b)"

fun live :: "'o client_world \<Rightarrow> held \<Rightarrow> bool" where
  "live w (Ses a) = (sessions w a \<noteq> None)"
| "live w (Cli a) = (clients w a \<noteq> None)"
| "live w (Rec a) = (records w a \<noteq> None)"

definition owned :: "'o client_env \<Rightarrow> held multiset \<Rightarrow> 'o client_world \<Rightarrow> bool" where
  "owned E H w \<longleftrightarrow> (\<forall>a s. sessions w a = Some s \<longrightarrow> session_ok H w a s) \<and>
     (\<forall>a c. clients w a = Some c \<longrightarrow> client_ok H w a c) \<and> (\<forall>r rc. records w r = Some rc \<longrightarrow> record_ok H w r rc) \<and>
     tables_ok E w \<and> (\<forall>x \<in># H. live w x)"

lemmas owned_defs = owned_def session_ok_def client_ok_def record_ok_def tables_ok_def session_refs_def
  client_refs_def record_refs_def in_table_def points_def

lemma ownedD:
  "owned E H w \<Longrightarrow> sessions w a = Some s \<Longrightarrow> session_ok H w a s"
  "owned E H w \<Longrightarrow> clients w a = Some c \<Longrightarrow> client_ok H w a c"
  "owned E H w \<Longrightarrow> records w a = Some rc \<Longrightarrow> record_ok H w a rc"
  "owned E H w \<Longrightarrow> tables_ok E w"
  by (simp_all add: owned_def)

lemma ownedI:
  assumes "\<And>a s. sessions w a = Some s \<Longrightarrow> session_ok H w a s"
    and "\<And>a c. clients w a = Some c \<Longrightarrow> client_ok H w a c"
    and "\<And>r rc. records w r = Some rc \<Longrightarrow> record_ok H w r rc"
    and "tables_ok E w" and "\<And>x. x \<in># H \<Longrightarrow> live w x"
  shows "owned E H w"
  using assms by (simp add: owned_def)

lemma table_entries:
  assumes "owned E H w"
  shows "ht_session_id w i = Some a \<Longrightarrow> \<exists>s. sessions w a = Some s \<and> session_id s = i"
    and "ht_confirmed_client_id w j = Some a \<Longrightarrow>
      \<exists>c. clients w a = Some c \<and> cid_clientid c = j \<and> cid_confirmed c \<in> {CONFIRMED_CLIENT_ID, STALE_CLIENT_ID}"
    and "ht_unconfirmed_client_id w j = Some a \<Longrightarrow>
      \<exists>c. clients w a = Some c \<and> cid_clientid c = j \<and> cid_confirmed c = UNCONFIRMED_CLIENT_ID"
    and "ht_client_record w k = Some a \<Longrightarrow> \<exists>rc. records w a = Some rc \<and> client_record_key E rc = k"
proof -
  have t: "tables_ok E w" by (rule ownedD(4) [OF assms])
  show "ht_session_id w i = Some a \<Longrightarrow> \<exists>s. sessions w a = Some s \<and> session_id s = i"
    using t unfolding tables_ok_def sid_def map_option_eq_Some by blast
  show "ht_confirmed_client_id w j = Some a \<Longrightarrow>
      \<exists>c. clients w a = Some c \<and> cid_clientid c = j \<and> cid_confirmed c \<in> {CONFIRMED_CLIENT_ID, STALE_CLIENT_ID}"
    using t unfolding tables_ok_def ckey_def map_option_eq_Some by (elim conjE) (drule spec, drule spec, drule mp, assumption, auto)
  show "ht_unconfirmed_client_id w j = Some a \<Longrightarrow>
      \<exists>c. clients w a = Some c \<and> cid_clientid c = j \<and> cid_confirmed c = UNCONFIRMED_CLIENT_ID"
    using t unfolding tables_ok_def ckey_def map_option_eq_Some by (elim conjE) (drule spec, drule spec, drule mp, assumption, auto)
  show "ht_client_record w k = Some a \<Longrightarrow> \<exists>rc. records w a = Some rc \<and> client_record_key E rc = k"
    using t unfolding tables_ok_def rkey_def map_option_eq_Some by blast
qed

text \<open>Tables may lose entries, as long as what the others point to stays.\<close>
lemma tables_sub:
  assumes "tables_ok E w"
    and "\<And>i a. ht_session_id w' i = Some a \<Longrightarrow> ht_session_id w i = Some a \<and> sid w' a = sid w a"
    and "\<And>i a. ht_confirmed_client_id w' i = Some a \<Longrightarrow> ht_confirmed_client_id w i = Some a \<and> ckey w' a = ckey w a"
    and "\<And>i a. ht_unconfirmed_client_id w' i = Some a \<Longrightarrow> ht_unconfirmed_client_id w i = Some a \<and> ckey w' a = ckey w a"
    and "\<And>k a. ht_client_record w' k = Some a \<Longrightarrow> ht_client_record w k = Some a \<and> rkey E w' a = rkey E w a"
    and "\<And>a. sid w' a = sid w a \<or> sid w' a = None"
  shows "tables_ok E w'"
  unfolding tables_ok_def
proof (intro conjI allI impI)
  show "ht_session_id w' i = Some a \<Longrightarrow> sid w' a = Some i" for i a
    using assms(1) assms(2) [of i a] by (simp add: tables_ok_def)
  show "ht_confirmed_client_id w' i = Some a \<Longrightarrow>
      \<exists>r. ckey w' a = Some (i, CONFIRMED_CLIENT_ID, r) \<or> ckey w' a = Some (i, STALE_CLIENT_ID, r)" for i a
    using assms(1) assms(3) [of i a] by (simp add: tables_ok_def)
  show "ht_unconfirmed_client_id w' i = Some a \<Longrightarrow> \<exists>r. ckey w' a = Some (i, UNCONFIRMED_CLIENT_ID, r)" for i a
    using assms(1) assms(4) [of i a] by (simp add: tables_ok_def)
  show "ht_client_record w' k = Some a \<Longrightarrow> rkey E w' a = Some k" for k a
    using assms(1) assms(5) [of k a] by (simp add: tables_ok_def del: split_paired_All)
  show "sid w' a = Some i \<and> sid w' b = Some i \<Longrightarrow> a = b" for a b i
  proof -
    assume i: "sid w' a = Some i \<and> sid w' b = Some i"
    have "\<forall>a b i. sid w a = Some i \<and> sid w b = Some i \<longrightarrow> a = b" using assms(1) unfolding tables_ok_def by (elim conjE)
    moreover have "sid w a = Some i" "sid w b = Some i" using i assms(6) [of a] assms(6) [of b] by auto
    ultimately show "a = b" by blast
  qed
qed

lemma finite_clients_of: "owned E H w \<Longrightarrow> finite (clients_of w r)"
  by (rule finite_subset [of _ "{..<next_addr w}"]) (auto simp: clients_of_def ckey_def owned_def client_ok_def)

text \<open>A client id changes in what the invariant does not look at, or in its count together with the references
  held.\<close>
lemma owned_set_client:
  assumes "owned E H w" "clients w a = Some c"
    and c': "cid_clientid c' = cid_clientid c" "cid_confirmed c' = cid_confirmed c" "cid_client_record c' = cid_client_record c"
      "cid_cb c' = cid_cb c" "cid_minorversion c' = cid_minorversion c" "0 < cid_refcount c'"
    and H: "\<And>x. x \<noteq> Cli a \<Longrightarrow> count H' x = count H x"
      "int (count H' (Cli a)) - int (count H (Cli a)) \<le> cid_refcount c' - cid_refcount c"
  shows "owned E H' (w\<lparr>clients := (clients w)(a \<mapsto> c')\<rparr>)"
proof -
  let ?w = "w\<lparr>clients := (clients w)(a \<mapsto> c')\<rparr>"
  have k: "ckey ?w = ckey w" "sid ?w = sid w" "rkey E ?w = rkey E w"
    using assms(2) c' by (simp_all add: ckey_def sid_def rkey_def fun_eq_iff)
  have s: "cb_sessions c' = cb_sessions c" using c'(4) by (simp add: cb_sessions_def)
  have "session_ok H' ?w b t" if "sessions w b = Some t" for b t
  proof -
    have "session_ok H w b t" using assms(1) that by (simp add: owned_def)
    then show ?thesis using s assms(2) H(1) [of "Ses b"] by (auto simp: session_ok_def session_refs_def)
  qed
  moreover have "client_ok H' ?w b t" if "clients ?w b = Some t" for b t
  proof (cases "b = a")
    case True
    have "client_ok H w a c" using assms(1,2) by (simp add: owned_def)
    then show ?thesis using True that c' s H(2)
      by (simp add: client_ok_def client_refs_def in_table_def)
  next
    case False
    then have "client_ok H w b t" using assms(1) that by (simp add: owned_def)
    then show ?thesis using False H(1) [of "Cli b"] by (simp add: client_ok_def client_refs_def in_table_def)
  qed
  moreover have "record_ok H' ?w r t" if "records w r = Some t" for r t
  proof -
    have "record_ok H w r t" using assms(1) that by (simp add: owned_def)
    then show ?thesis using H(1) [of "Rec r"] by (simp add: record_ok_def record_refs_def clients_of_def points_def k)
  qed
  moreover have "tables_ok E ?w" using assms(1) by (simp add: owned_def tables_ok_def k)
  moreover have "live ?w x" if "x \<in># H'" for x
  proof (cases "x = Cli a")
    case False
    then have "x \<in># H" using H(1) that by (simp flip: count_greater_zero_iff)
    then show ?thesis using assms(1) by (cases x) (auto simp: owned_def)
  qed simp
  ultimately show ?thesis by (simp add: owned_def)
qed


lemma owned_set_session:
  assumes "owned E H w" "sessions w a = Some s"
    and s': "session_id s' = session_id s" "clientid_record s' = clientid_record s" "slots_typed s'"
      "session_clientid s' = session_clientid s" "0 < session_refcount s'"
    and H: "\<And>x. x \<noteq> Ses a \<Longrightarrow> count H' x = count H x"
      "int (count H' (Ses a)) - int (count H (Ses a)) \<le> session_refcount s' - session_refcount s"
  shows "owned E H' (w\<lparr>sessions := (sessions w)(a \<mapsto> s')\<rparr>)"
proof -
  let ?w = "w\<lparr>sessions := (sessions w)(a \<mapsto> s')\<rparr>"
  have k: "ckey ?w = ckey w" "sid ?w = sid w" "rkey E ?w = rkey E w"
    using assms(2,3) by (simp_all add: ckey_def sid_def rkey_def fun_eq_iff)
  have "session_ok H' ?w b t" if "sessions ?w b = Some t" for b t
  proof (cases "b = a")
    case True
    have "session_ok H w a s" using assms(1,2) by (simp add: owned_def)
    then show ?thesis using True that s' H(2) by (auto simp: session_ok_def session_refs_def)
  next
    case False
    then have "session_ok H w b t" using assms(1) that by (simp add: owned_def)
    then show ?thesis using H(1) [of "Ses b"] False by (simp add: session_ok_def session_refs_def)
  qed
  moreover have "client_ok H' ?w b t" if "clients w b = Some t" for b t
  proof -
    have "client_ok H w b t" using assms(1) that by (simp add: owned_def)
    then show ?thesis using H(1) [of "Cli b"] assms(2) s'(2) by (auto simp: client_ok_def client_refs_def in_table_def)
  qed
  moreover have "record_ok H' ?w r t" if "records w r = Some t" for r t
  proof -
    have "record_ok H w r t" using assms(1) that by (simp add: owned_def)
    then show ?thesis using H(1) [of "Rec r"] by (simp add: record_ok_def record_refs_def clients_of_def points_def k)
  qed
  moreover have "tables_ok E ?w" using assms(1) by (simp add: owned_def tables_ok_def k)
  moreover have "live ?w x" if "x \<in># H'" for x
  proof (cases "x = Ses a")
    case False
    then have "x \<in># H" using H(1) that by (simp flip: count_greater_zero_iff)
    then show ?thesis using assms(1) by (cases x) (auto simp: owned_def)
  qed simp
  ultimately show ?thesis by (simp add: owned_def)
qed

lemma owned_set_record:
  assumes "owned E H w" "records w a = Some rc"
    and rc': "client_record_key E rc' = client_record_key E rc" "0 < cr_refcount rc'"
      "\<And>x. cr_confirmed_rec rc' = Some x \<Longrightarrow> cr_confirmed_rec rc = Some x \<or> points w x a CONFIRMED_CLIENT_ID"
      "\<And>x. cr_unconfirmed_rec rc' = Some x \<Longrightarrow> cr_unconfirmed_rec rc = Some x \<or> points w x a UNCONFIRMED_CLIENT_ID"
    and H: "\<And>x. x \<noteq> Rec a \<Longrightarrow> count H' x = count H x"
      "int (count H' (Rec a)) - int (count H (Rec a)) \<le> cr_refcount rc' - cr_refcount rc"
  shows "owned E H' (w\<lparr>records := (records w)(a \<mapsto> rc')\<rparr>)"
proof -
  let ?w = "w\<lparr>records := (records w)(a \<mapsto> rc')\<rparr>"
  have k: "ckey ?w = ckey w" "sid ?w = sid w" "rkey E ?w = rkey E w"
    using assms(2,3) by (simp_all add: ckey_def sid_def rkey_def fun_eq_iff)
  have "session_ok H' ?w b t" if "sessions w b = Some t" for b t
  proof -
    have "session_ok H w b t" using assms(1) that by (simp add: owned_def)
    then show ?thesis using H(1) [of "Ses b"] by (simp add: session_ok_def session_refs_def)
  qed
  moreover have "client_ok H' ?w b t" if "clients w b = Some t" for b t
  proof -
    have "client_ok H w b t" using assms(1) that by (simp add: owned_def)
    then show ?thesis using H(1) [of "Cli b"] by (auto simp: client_ok_def client_refs_def in_table_def)
  qed
  moreover have "record_ok H' ?w r t" if "records ?w r = Some t" for r t
  proof (cases "r = a")
    case True
    have "record_ok H w a rc" using assms(1,2) by (simp add: owned_def)
    moreover from this have "points w x a CONFIRMED_CLIENT_ID" if "cr_confirmed_rec rc' = Some x" for x
      using rc'(3) [OF that] by (auto simp: record_ok_def)
    moreover from calculation(1) have "points w x a UNCONFIRMED_CLIENT_ID" if "cr_unconfirmed_rec rc' = Some x" for x
      using rc'(4) [OF that] by (auto simp: record_ok_def)
    ultimately show ?thesis using True that rc'(1,2) H(2)
      by (auto simp: record_ok_def record_refs_def clients_of_def points_def)
  next
    case False
    then have "record_ok H w r t" using assms(1) that by (simp add: owned_def)
    then show ?thesis using H(1) [of "Rec r"] False by (simp add: record_ok_def record_refs_def clients_of_def points_def k)
  qed
  moreover have "tables_ok E ?w" using assms(1) by (simp add: owned_def tables_ok_def k)
  moreover have "live ?w x" if "x \<in># H'" for x
  proof (cases "x = Rec a")
    case False
    then have "x \<in># H" using H(1) that by (simp flip: count_greater_zero_iff)
    then show ?thesis using assms(1) by (cases x) (auto simp: owned_def)
  qed simp
  ultimately show ?thesis by (simp add: owned_def)
qed

text \<open>Parts of the world that hold no reference.\<close>
lemma owned_irrelevant [simp]:
  "owned E H (w\<lparr>owners := os\<rparr>) = owned E H w" "owned E H (w\<lparr>clientid_counter := n\<rparr>) = owned E H w"
  "owned E H (w\<lparr>clientid_verifier := v\<rparr>) = owned E H w" "owned E H (w\<lparr>reclaim_completes := m\<rparr>) = owned E H w"
  "owned E H (w\<lparr>now := t\<rparr>) = owned E H w"
proof -
  have l: "live (w\<lparr>owners := os\<rparr>) x = live w x" "live (w\<lparr>clientid_counter := n\<rparr>) x = live w x"
    "live (w\<lparr>clientid_verifier := v\<rparr>) x = live w x" "live (w\<lparr>reclaim_completes := m\<rparr>) x = live w x"
    "live (w\<lparr>now := t\<rparr>) x = live w x" for x
    by (cases x; simp)+
  show "owned E H (w\<lparr>owners := os\<rparr>) = owned E H w" "owned E H (w\<lparr>clientid_counter := n\<rparr>) = owned E H w"
    "owned E H (w\<lparr>clientid_verifier := v\<rparr>) = owned E H w" "owned E H (w\<lparr>reclaim_completes := m\<rparr>) = owned E H w"
    "owned E H (w\<lparr>now := t\<rparr>) = owned E H w"
    by (simp_all add: owned_defs clients_of_def ckey_def sid_def rkey_def l)
qed


lemma owned_next_addr: "owned E H w \<Longrightarrow> next_addr w \<le> n \<Longrightarrow> owned E H (w\<lparr>next_addr := n\<rparr>)"
proof -
  assume a: "owned E H w" "next_addr w \<le> n"
  have l: "live (w\<lparr>next_addr := n\<rparr>) x = live w x" for x by (cases x; simp)
  have "session_ok H w b s \<Longrightarrow> session_ok H (w\<lparr>next_addr := n\<rparr>) b s" "client_ok H w b c \<Longrightarrow> client_ok H (w\<lparr>next_addr := n\<rparr>) b c"
    "record_ok H w b r \<Longrightarrow> record_ok H (w\<lparr>next_addr := n\<rparr>) b r" for b s c r
    using a(2) by (simp_all add: owned_defs clients_of_def)
  moreover have "tables_ok E (w\<lparr>next_addr := n\<rparr>)" using ownedD(4) [OF a(1)] by (simp add: tables_ok_def)
  ultimately show ?thesis using a(1) by (simp add: owned_def l)
qed

section \<open>Objects go\<close>

lemma owned_live: "owned E H w \<Longrightarrow> x \<in># H \<Longrightarrow> live w x"
  by (simp add: owned_def)

lemma owned_drop_record:
  assumes "owned E (add_mset (Rec r) H) w" "records w r = Some rc" "cr_refcount rc = 1"
  shows "owned E H (w\<lparr>ht_client_record := (if ht_client_record w (client_record_key E rc) = Some r
      then (ht_client_record w)(client_record_key E rc := None) else ht_client_record w), records := (records w)(r := None)\<rparr>)"
proof -
  let ?h = "if ht_client_record w (client_record_key E rc) = Some r
      then (ht_client_record w)(client_record_key E rc := None) else ht_client_record w"
  let ?w = "w\<lparr>ht_client_record := ?h, records := (records w)(r := None)\<rparr>"
  have "record_refs (add_mset (Rec r) H) w r \<le> 1" using ownedD(3) [OF assms(1,2)] assms(3) by (simp add: record_ok_def)
  then have "card (clients_of w r) = 0" and n: "count H (Rec r) = 0" by (simp_all add: record_refs_def)
  then have o: "clients_of w r = {}" using finite_clients_of [OF assms(1)] by simp
  have h: "ht_client_record w k = Some q \<and> q \<noteq> r" if "?h k = Some q" for k q
    using that table_entries(4) [OF assms(1), of k r] assms(2) by (auto split: if_splits)
  show ?thesis
  proof (rule ownedI)
    fix b t assume "sessions ?w b = Some t"
    then show "session_ok H ?w b t" using ownedD(1) [OF assms(1), of b t] by (simp add: session_ok_def session_refs_def)
  next
    fix b t assume t: "clients ?w b = Some t"
    then have "cid_client_record t \<noteq> Some r" using o by (auto simp: clients_of_def ckey_def)
    then show "client_ok H ?w b t" using t ownedD(2) [OF assms(1), of b t]
      by (simp add: client_ok_def client_refs_def in_table_def)
  next
    fix q t assume "records ?w q = Some t"
    then show "record_ok H ?w q t" using ownedD(3) [OF assms(1), of q t]
      by (simp add: record_ok_def record_refs_def clients_of_def points_def split: if_splits)
  next
    show "tables_ok E ?w"
    proof (rule tables_sub [OF ownedD(4) [OF assms(1)]])
      fix k a assume "ht_client_record ?w k = Some a"
      then have "?h k = Some a" by simp
      from h [OF this] show "ht_client_record w k = Some a \<and> rkey E ?w a = rkey E w a" by (simp add: rkey_def)
    qed simp_all
  next
    fix x assume x: "x \<in># H"
    then have "x \<noteq> Rec r" using n by (auto simp flip: count_greater_zero_iff)
    then show "live ?w x" using x owned_live [OF assms(1), of x] by (cases x) auto
  qed
qed

lemma dec_record_owned:
  assumes "owned E (add_mset (Rec r) H) w"
  obtains w' where "dec_client_record_ref E r w = Some w'" "owned E H w'"
    "w' = w\<lparr>records := records w', ht_client_record := ht_client_record w'\<rparr>"
    "\<And>q. q \<noteq> r \<Longrightarrow> records w' q = records w q"
proof -
  obtain rc where rc: "records w r = Some rc" using owned_live [OF assms] by fastforce
  have pos: "0 < cr_refcount rc" using ownedD(3) [OF assms rc] by (simp add: record_ok_def)
  let ?w = "w\<lparr>records := (records w)(r \<mapsto> cr_refcount_update (\<lambda>n. n - 1) rc)\<rparr>"
  show thesis
  proof (cases "cr_refcount rc = 1")
    case True
    show thesis
      by (rule that [OF _ owned_drop_record [OF assms rc True]])
        (use rc True in \<open>simp_all add: dec_client_record_ref_def mod_record_def client_record_key_def client_record_value_hash_def Let_def\<close>)
  next
    case False
    have "owned E H ?w" by (rule owned_set_record [OF assms rc]) (use pos False in \<open>simp_all add: client_record_key_def client_record_value_hash_def\<close>)
    then show thesis
      by (rule that [rotated]) (use rc False pos in \<open>simp_all add: dec_client_record_ref_def mod_record_def\<close>)
  qed
qed


text \<open>A client id to which one reference is left has expired, is in no table and has no session.\<close>
lemma last_client:
  assumes "owned E (add_mset (Cli a) H) w" "clients w a = Some c" "cid_refcount c = 1"
  shows "cid_confirmed c = EXPIRED_CLIENT_ID" "cb_sessions c = []" "count H (Cli a) = 0"
    "ht_confirmed_client_id w i \<noteq> Some a" "ht_unconfirmed_client_id w i \<noteq> Some a"
proof -
  note ok = ownedD(2) [OF assms(1,2)]
  have r: "client_refs (add_mset (Cli a) H) w a c \<le> 1" using ok assms(3) by (simp add: client_ok_def)
  then have t: "ht_confirmed_client_id w (cid_clientid c) \<noteq> Some a" "ht_unconfirmed_client_id w (cid_clientid c) \<noteq> Some a"
    by (auto simp: client_refs_def of_bool_def split: if_splits)
  from r t have "int (length (cb_sessions c)) + int (count H (Cli a)) \<le> 0" by (simp add: client_refs_def)
  then show "cb_sessions c = []" "count H (Cli a) = 0" by (simp_all flip: length_0_conv)
  show "cid_confirmed c = EXPIRED_CLIENT_ID" using ok t by (cases "cid_confirmed c") (simp_all add: client_ok_def in_table_def)
  show "ht_confirmed_client_id w i \<noteq> Some a" "ht_unconfirmed_client_id w i \<noteq> Some a"
    using t table_entries(2,3) [OF assms(1), of i a] assms(2) by auto
qed

lemma owned_drop_client:
  assumes "owned E (add_mset (Cli a) H) w" "clients w a = Some c" "cid_refcount c = 1"
  shows "owned E (case cid_client_record c of None \<Rightarrow> H | Some r \<Rightarrow> add_mset (Rec r) H)
    (w\<lparr>clients := (clients w)(a := None)\<rparr>)" (is "owned E ?H ?w")
proof -
  note last = last_client [OF assms]
  have k: "ckey ?w b = (if b = a then None else ckey w b)" for b by (simp add: ckey_def)
  have kc: "ckey w a = Some (cid_clientid c, EXPIRED_CLIENT_ID, cid_client_record c)" using assms(2) last(1) by (simp add: ckey_def)
  have cnt: "count ?H (Ses x) = count H (Ses x)" "count ?H (Cli x) = count H (Cli x)" for x
    by (simp_all split: option.splits)
  show ?thesis
  proof (rule ownedI)
    fix b t assume t: "sessions ?w b = Some t"
    have ok: "session_ok (add_mset (Cli a) H) w b t" by (rule ownedD(1) [OF assms(1)]) (use t in simp)
    then have "clientid_record t \<noteq> a" using last(2) assms(2) by (auto simp: session_ok_def)
    then show "session_ok ?H ?w b t" using ok by (simp add: session_ok_def session_refs_def cnt)
  next
    fix b t assume t: "clients ?w b = Some t"
    then have "b \<noteq> a" by auto
    then show "client_ok ?H ?w b t" using t ownedD(2) [OF assms(1), of b t]
      by (simp add: client_ok_def client_refs_def in_table_def cnt)
  next
    fix q t assume t: "records ?w q = Some t"
    have ok: "record_ok (add_mset (Cli a) H) w q t" by (rule ownedD(3) [OF assms(1)]) (use t in simp)
    have cl: "clients_of ?w q = clients_of w q - {a}" by (auto simp: clients_of_def k)
    have "record_refs ?H ?w q \<le> record_refs (add_mset (Cli a) H) w q"
    proof (cases "cid_client_record c = Some q")
      case True
      then have "a \<in> clients_of w q" using kc by (auto simp: clients_of_def)
      then have "card (clients_of w q) = Suc (card (clients_of w q - {a}))"
        by (rule card.remove [OF finite_clients_of [OF assms(1)]])
      then show ?thesis using True by (simp add: record_refs_def cl)
    next
      case False
      then have "a \<notin> clients_of w q" using kc by (auto simp: clients_of_def)
      then show ?thesis using False by (simp add: record_refs_def cl split: option.splits)
    qed
    moreover have "points w b q st \<Longrightarrow> st \<noteq> EXPIRED_CLIENT_ID \<Longrightarrow> points ?w b q st" for b st
      using kc by (auto simp: points_def k)
    ultimately show "record_ok ?H ?w q t" using ok by (auto simp: record_ok_def)
  next
    show "tables_ok E ?w"
      by (rule tables_sub [OF ownedD(4) [OF assms(1)]]) (use last(4,5) in \<open>auto simp: k\<close>)
  next
    fix x assume x: "x \<in># ?H"
    then have "x \<noteq> Cli a" using last(3) by (auto split: option.splits simp flip: count_greater_zero_iff)
    moreover have "live w x"
    proof (cases "x \<in># H")
      case True
      then show ?thesis using owned_live [OF assms(1), of x] by simp
    next
      case False
      then obtain r where "cid_client_record c = Some r" "x = Rec r" using x by (auto split: option.splits)
      then show ?thesis using ownedD(2) [OF assms(1,2)] by (auto simp: client_ok_def)
    qed
    ultimately show "live ?w x" by (cases x) auto
  qed
qed


lemma cb_sessions_mod [simp]: "tag_v41 c \<Longrightarrow> cb_sessions (mod_session_list f c) = f (cb_sessions c)"
  by (auto simp: cb_sessions_def mod_session_list_def)

lemma mod_session_list_simps [simp]:
  "cid_clientid (mod_session_list f c) = cid_clientid c" "cid_confirmed (mod_session_list f c) = cid_confirmed c"
  "cid_client_record (mod_session_list f c) = cid_client_record c" "cid_minorversion (mod_session_list f c) = cid_minorversion c"
  "cid_refcount (mod_session_list f c) = cid_refcount c" "tag_v41 (mod_session_list f c) = tag_v41 c"
  by (simp_all add: mod_session_list_def split: cid_cb_t.splits)

text \<open>The last reference to a session goes: the reference it has to its client is left.\<close>
lemma owned_drop_session:
  assumes "owned E (add_mset (Ses a) H) w" "sessions w a = Some s" "session_refcount s = 1"
    and "clients w (clientid_record s) = Some c"
  shows "owned E (add_mset (Cli (clientid_record s)) H) (w\<lparr>sessions := (sessions w)(a := None),
      clients := (clients w)(clientid_record s \<mapsto> mod_session_list (remove1 a) c)\<rparr>)" (is "owned E ?H ?w")
proof -
  let ?k = "clientid_record s"
  have ok: "session_ok (add_mset (Ses a) H) w a s" by (rule ownedD(1) [OF assms(1,2)])
  then have r: "session_refs (add_mset (Ses a) H) w a s \<le> 1" using assms(3) by (simp add: session_ok_def)
  then have t: "ht_session_id w (session_id s) \<noteq> Some a" and n: "count H (Ses a) = 0"
    by (auto simp: session_refs_def of_bool_def split: if_splits)
  have t: "ht_session_id w i \<noteq> Some a" for i using t table_entries(1) [OF assms(1), of i a] assms(2) by auto
  have cok: "client_ok (add_mset (Ses a) H) w ?k c" by (rule ownedD(2) [OF assms(1,4)])
  have a: "a \<in> set (cb_sessions c)" using ok assms(4) by (auto simp: session_ok_def)
  have v: "tag_v41 c" using cok by (simp add: client_ok_def)
  have k: "ckey ?w = ckey w" "sid (w\<lparr>sessions := (sessions w)(a := None)\<rparr>) b = (if b = a then None else sid w b)" for b
    using assms(4) by (simp_all add: ckey_def sid_def fun_eq_iff)
  show ?thesis
  proof (rule ownedI)
    fix b u assume u: "sessions ?w b = Some u"
    then have b: "b \<noteq> a" by auto
    with u have uok: "session_ok (add_mset (Ses a) H) w b u" by (intro ownedD(1) [OF assms(1)]) simp
    then obtain d where d: "clients w (clientid_record u) = Some d" "b \<in> set (cb_sessions d)" by (auto simp: session_ok_def)
    then have "\<exists>d. clients ?w (clientid_record u) = Some d \<and> b \<in> set (cb_sessions d)"
      using assms(4) v b by (cases "clientid_record u = ?k") (simp_all add: in_set_remove1)
    then show "session_ok ?H ?w b u" using uok b by (simp add: session_ok_def session_refs_def)
  next
    fix b u assume u: "clients ?w b = Some u"
    show "client_ok ?H ?w b u"
    proof (cases "b = ?k")
      case True
      then have u: "u = mod_session_list (remove1 a) c" using u by simp
      have "Suc 0 \<le> length (cb_sessions c)" using a by (cases "cb_sessions c") auto
      then have len: "int (length (remove1 a (cb_sessions c))) = int (length (cb_sessions c)) - 1"
        using a by (simp add: length_remove1 of_nat_diff)
      have d: "distinct (cb_sessions c)" using cok by (simp add: client_ok_def)
      show ?thesis using cok v True u n d
        by (simp add: client_ok_def client_refs_def in_table_def len)
    next
      case False
      then have uok: "client_ok (add_mset (Ses a) H) w b u" using u by (intro ownedD(2) [OF assms(1)]) simp
      then have "a \<notin> set (cb_sessions u)" using False assms(2) by (auto simp: client_ok_def)
      then show ?thesis using uok False by (auto simp: client_ok_def client_refs_def in_table_def)
    qed
  next
    fix q u assume u: "records ?w q = Some u"
    have "record_ok (add_mset (Ses a) H) w q u" by (rule ownedD(3) [OF assms(1)]) (use u in simp)
    then show "record_ok ?H ?w q u" by (simp add: record_ok_def record_refs_def clients_of_def points_def k)
  next
    show "tables_ok E ?w"
      by (rule tables_sub [OF ownedD(4) [OF assms(1)]]) (use t in \<open>auto simp: k\<close>)
  next
    fix x assume x: "x \<in># ?H"
    show "live ?w x"
    proof (cases "x = Cli ?k")
      case False
      then have "x \<in># H" using x by simp
      moreover from this have "x \<noteq> Ses a" using n by (auto simp flip: count_greater_zero_iff)
      ultimately show ?thesis using owned_live [OF assms(1), of x] by (cases x) auto
    qed simp
  qed
qed

text \<open>An entry leaves the table of sessions.\<close>
lemma owned_unhash_session:
  assumes "owned E H w" "ht_session_id w i = Some a"
  shows "owned E (add_mset (Ses a) H) (w\<lparr>ht_session_id := (ht_session_id w)(i := None)\<rparr>)" (is "owned E ?H ?w")
proof -
  obtain s where s: "sessions w a = Some s" "session_id s = i" using table_entries(1) [OF assms] by auto
  show ?thesis
  proof (rule ownedI)
    fix b u assume "sessions ?w b = Some u"
    then have u: "sessions w b = Some u" by simp
    have "b = a \<Longrightarrow> session_id u = i" using s u by simp
    moreover have "session_id u = i \<Longrightarrow> b \<noteq> a \<Longrightarrow> False" using ownedD(4) [OF assms(1)] s u
      by (auto simp: tables_ok_def sid_def)
    ultimately show "session_ok ?H ?w b u" using ownedD(1) [OF assms(1) u] assms(2)
      by (cases "b = a") (auto simp: session_ok_def session_refs_def)
  next
    fix b u assume "clients ?w b = Some u"
    then show "client_ok ?H ?w b u" using ownedD(2) [OF assms(1), of b u] by (simp add: client_ok_def client_refs_def in_table_def)
  next
    fix q u assume "records ?w q = Some u"
    then show "record_ok ?H ?w q u" using ownedD(3) [OF assms(1), of q u]
      by (simp add: record_ok_def record_refs_def clients_of_def points_def)
  next
    show "tables_ok E ?w" by (rule tables_sub [OF ownedD(4) [OF assms(1)]]) (auto split: if_splits)
  next
    fix x assume "x \<in># ?H"
    then show "live ?w x" using owned_live [OF assms(1), of x] s by (cases x) auto
  qed
qed


section \<open>Release\<close>

lemma dec_record_frame:
  "dec_client_record_ref E r (w\<lparr>clients := x\<rparr>) = map_option (\<lambda>w. w\<lparr>clients := x\<rparr>) (dec_client_record_ref E r w)"
  "dec_client_record_ref E r (w\<lparr>sessions := y\<rparr>) = map_option (\<lambda>w. w\<lparr>sessions := y\<rparr>) (dec_client_record_ref E r w)"
  "dec_client_record_ref E r (w\<lparr>ht_confirmed_client_id := h\<rparr>) =
    map_option (\<lambda>w. w\<lparr>ht_confirmed_client_id := h\<rparr>) (dec_client_record_ref E r w)"
  "dec_client_record_ref E r (w\<lparr>ht_unconfirmed_client_id := h\<rparr>) =
    map_option (\<lambda>w. w\<lparr>ht_unconfirmed_client_id := h\<rparr>) (dec_client_record_ref E r w)"
  by (cases "records w r"; simp add: dec_client_record_ref_def mod_record_def Let_def)+

lemma dec_record_keeps:
  assumes "dec_client_record_ref E r w = Some w'"
  shows "clients w' = clients w" "sessions w' = sessions w" "global_sequence w' = global_sequence w" "now w' = now w"
    "ht_confirmed_client_id w' = ht_confirmed_client_id w" "ht_unconfirmed_client_id w' = ht_unconfirmed_client_id w"
  using assms by (cases "records w r"; auto simp: dec_client_record_ref_def mod_record_def Let_def split: if_splits)+

text \<open>The release of a client id that has other references, or no session left.\<close>
definition drop_client :: "'o client_env \<Rightarrow> nat \<Rightarrow> 'o client_world \<Rightarrow> 'o client_world option" where
  "drop_client E a w = do {
     c \<leftarrow> clients w a;
     if cid_refcount c > 1 then Some (w\<lparr>clients := (clients w)(a \<mapsto> cid_refcount_update (\<lambda>n. n - 1) c)\<rparr>)
     else do {
       w \<leftarrow> (case cid_client_record c of None \<Rightarrow> Some w | Some r \<Rightarrow> dec_client_record_ref E r w);
       Some (w\<lparr>clients := (clients w)(a := None)\<rparr>) } }"

lemma drop_client_sessions:
  "drop_client E a (w\<lparr>sessions := y\<rparr>) = map_option (\<lambda>w. w\<lparr>sessions := y\<rparr>) (drop_client E a w)"
  by (auto simp: drop_client_def dec_record_frame split: Option.bind_splits option.splits)

lemma release_drop_client:
  assumes "clients w a = Some c"
    and "1 < cid_refcount c \<or> cid_refcount c = 1 \<and> cid_confirmed c = EXPIRED_CLIENT_ID \<and> tag_v41 c \<and> cb_sessions c = []"
  shows "release_ref E (Dec_client a) w = drop_client E a w"
proof (cases "1 < cid_refcount c")
  case True
  then show ?thesis using assms(1) by (simp add: release_ref.simps [of E "Dec_client a"] mod_client_def drop_client_def)
next
  case False
  then have "session_list c = Some []" using assms(2) by (auto simp: session_list_def cb_sessions_def)
  note l = release_ref.simps [of E "Dec_client a"] release_ref.simps [of E "Free_client a"]
    release_ref.simps [of E "Delete_sessions []"] session_list_def mod_client_def drop_client_def dec_record_frame
  note f = \<open>session_list c = Some []\<close> assms False
  show ?thesis
  proof (cases "cid_client_record c")
    case None
    then show ?thesis using f by (auto simp: l)
  next
    case (Some r)
    then show ?thesis using f
      by (cases "dec_client_record_ref E r w") (auto simp: l dest: dec_record_keeps(1))
  qed
qed

text \<open>What the release of a reference leaves of the rest.\<close>
definition frame :: "nat set \<Rightarrow> nat set \<Rightarrow> 'o client_world \<Rightarrow> 'o client_world \<Rightarrow> bool" where
  "frame S C w w' \<longleftrightarrow> (\<forall>a. a \<notin> S \<longrightarrow> sessions w' a = sessions w a) \<and> (\<forall>a. a \<notin> C \<longrightarrow> clients w' a = clients w a) \<and>
     global_sequence w' = global_sequence w"

lemma frame_mono: "frame S C w w' \<Longrightarrow> S \<subseteq> S' \<Longrightarrow> C \<subseteq> C' \<Longrightarrow> frame S' C' w w'"
  by (auto simp: frame_def)

lemma frame_trans: "frame S C u v \<Longrightarrow> frame S C v w \<Longrightarrow> frame S C u w"
  by (simp add: frame_def)

lemma release_is_drop:
  assumes "owned E (add_mset (Cli a) H) w" "clients w' = clients w"
  shows "release_ref E (Dec_client a) w' = drop_client E a w'"
proof -
  obtain c where c: "clients w a = Some c" using owned_live [OF assms(1), of "Cli a"] by auto
  have ok: "client_ok (add_mset (Cli a) H) w a c" by (rule ownedD(2) [OF assms(1) c])
  show ?thesis
  proof (rule release_drop_client [of _ _ c])
    show "clients w' a = Some c" using c assms(2) by simp
    show "1 < cid_refcount c \<or>
        cid_refcount c = 1 \<and> cid_confirmed c = EXPIRED_CLIENT_ID \<and> tag_v41 c \<and> cb_sessions c = []"
      using ok last_client(1,2) [OF assms(1) c] by (auto simp: client_ok_def)
  qed
qed

lemma dec_client_owned:
  assumes "owned E (add_mset (Cli a) H) w"
  shows "\<exists>w'. release_ref E (Dec_client a) w = Some w' \<and> drop_client E a w = Some w' \<and> owned E H w' \<and> frame {} {a} w w'"
proof -
  obtain c where c: "clients w a = Some c" using owned_live [OF assms, of "Cli a"] by auto
  have ok: "client_ok (add_mset (Cli a) H) w a c" by (rule ownedD(2) [OF assms c])
  note rel = release_is_drop [OF assms refl]
  show ?thesis
  proof (cases "1 < cid_refcount c")
    case True
    have "owned E H (w\<lparr>clients := (clients w)(a \<mapsto> cid_refcount_update (\<lambda>n. n - 1) c)\<rparr>)"
      by (rule owned_set_client [OF assms c]) (use True in simp_all)
    then show ?thesis using rel True c by (simp add: drop_client_def frame_def)
  next
    case False
    then have one: "cid_refcount c = 1" using ok by (simp add: client_ok_def)
    note drop = owned_drop_client [OF assms c one]
    let ?w = "w\<lparr>clients := (clients w)(a := None)\<rparr>"
    show ?thesis
    proof (cases "cid_client_record c")
      case None
      then show ?thesis using drop rel c one by (simp add: drop_client_def frame_def)
    next
      case (Some r)
      then have "owned E (add_mset (Rec r) H) ?w" using drop by simp
      then obtain w' where w': "dec_client_record_ref E r ?w = Some w'" "owned E H w'" by (rule dec_record_owned)
      then obtain z where z: "dec_client_record_ref E r w = Some z" "w' = z\<lparr>clients := (clients w)(a := None)\<rparr>"
        by (auto simp: dec_record_frame)
      then show ?thesis using w' rel c one Some dec_record_keeps [OF z(1)]
        by (simp add: drop_client_def frame_def)
    qed
  qed
qed

lemma dec_session_owned:
  assumes "owned E (add_mset (Ses a) H) w" "sessions w a = Some s"
  shows "\<exists>w'. release_ref E (Dec_session a) w = Some w' \<and> owned E H w' \<and> frame {a} {clientid_record s} w w'"
proof -
  let ?k = "clientid_record s"
  have ok: "session_ok (add_mset (Ses a) H) w a s" by (rule ownedD(1) [OF assms])
  then obtain c where c: "clients w ?k = Some c" by (auto simp: session_ok_def)
  have v: "tag_v41 c" using ownedD(2) [OF assms(1) c] by (simp add: client_ok_def)
  show ?thesis
  proof (cases "session_refcount s = 1")
    case False
    have "owned E H (w\<lparr>sessions := (sessions w)(a \<mapsto> session_refcount_update (\<lambda>n. n - 1) s)\<rparr>)"
      by (rule owned_set_session [OF assms]) (use ok False in \<open>simp_all add: session_ok_def slots_typed_def\<close>)
    then show ?thesis using assms(2) False
      by (simp add: release_ref.simps [of E "Dec_session a"] mod_session_def frame_def)
  next
    case True
    let ?c = "mod_session_list (remove1 a) c" and ?s = "session_refcount_update (\<lambda>n. n - 1) s"
    let ?w2 = "w\<lparr>sessions := (sessions w)(a \<mapsto> ?s), clients := (clients w)(?k \<mapsto> ?c)\<rparr>"
    let ?w = "w\<lparr>sessions := (sessions w)(a := None), clients := (clients w)(?k \<mapsto> ?c)\<rparr>"
    have own: "owned E (add_mset (Cli ?k) H) ?w" by (rule owned_drop_session [OF assms True c])
    from dec_client_owned [OF own] obtain w' where w': "drop_client E ?k ?w = Some w'" "owned E H w'" "frame {} {?k} ?w w'"
      by blast
    have w2: "?w2 = ?w\<lparr>sessions := (sessions w)(a \<mapsto> ?s)\<rparr>" by simp
    have "release_ref E (Dec_client ?k) ?w2 = drop_client E ?k ?w2" by (rule release_is_drop [OF own]) simp
    also have "... = Some (w'\<lparr>sessions := (sessions w)(a \<mapsto> ?s)\<rparr>)" unfolding w2 drop_client_sessions w'(1) by simp
    finally have rel: "release_ref E (Dec_client ?k) ?w2 = Some (w'\<lparr>sessions := (sessions w)(a \<mapsto> ?s)\<rparr>)" .
    have s': "sessions w' = (sessions w)(a := None)" using w'(3) by (auto simp: frame_def)
    have l: "relink ?k (remove1 a) (w\<lparr>sessions := (sessions w)(a \<mapsto> ?s)\<rparr>) = Some ?w2"
      using c v by (auto simp: relink_def session_list_def mod_client_def)
    have "release_ref E (Dec_session a) w = Some (w'\<lparr>sessions := (sessions w)(a := None)\<rparr>)"
      using assms(2) True l rel by (simp add: release_ref.simps [of E "Dec_session a"] mod_session_def)
    also have "w'\<lparr>sessions := (sessions w)(a := None)\<rparr> = w'" using s' by simp
    finally show ?thesis using w'(2,3) by (auto simp: frame_def)
  qed
qed


lemma session_del_owned:
  assumes "owned E H w"
  shows "\<exists>w'. release_ref E (Session_Del i) w = Some w' \<and> owned E H w' \<and>
    frame {a. ht_session_id w i = Some a} {k. \<exists>a s. ht_session_id w i = Some a \<and> sessions w a = Some s \<and> clientid_record s = k} w w'"
proof (cases "ht_session_id w i")
  case None
  then show ?thesis using assms by (simp add: release_ref.simps [of E "Session_Del i"] frame_def)
next
  case (Some a)
  obtain s where s: "sessions w a = Some s" using table_entries(1) [OF assms Some] by auto
  let ?w = "w\<lparr>ht_session_id := (ht_session_id w)(i := None)\<rparr>"
  obtain w' where "release_ref E (Dec_session a) ?w = Some w'" "owned E H w'" "frame {a} {clientid_record s} ?w w'"
    using dec_session_owned [OF owned_unhash_session [OF assms Some]] s by auto
  then show ?thesis using Some s by (simp add: release_ref.simps [of E "Session_Del i"] frame_def)
qed

lemma delete_sessions_owned:
  assumes "owned E H w" "distinct l" "\<And>x. x \<in> set l \<Longrightarrow> \<exists>s. sessions w x = Some s \<and> clientid_record s = k"
  shows "\<exists>w'. release_ref E (Delete_sessions l) w = Some w' \<and> owned E H w' \<and> frame (set l) {k} w w'"
  using assms
proof (induction l arbitrary: w)
  case Nil
  then show ?case by (simp add: release_ref.simps [of E "Delete_sessions []"] frame_def)
next
  case (Cons x l)
  obtain s where s: "sessions w x = Some s" "clientid_record s = k" using Cons.prems(3) [of x] by auto
  have one: "y = x" if "ht_session_id w (session_id s) = Some y" for y
    using that s(1) table_entries(1) [OF Cons.prems(1) that] ownedD(4) [OF Cons.prems(1)]
    unfolding tables_ok_def sid_def by auto
  obtain w1 where w1: "release_ref E (Session_Del (session_id s)) w = Some w1" "owned E H w1"
    and f: "frame {a. ht_session_id w (session_id s) = Some a} {k. \<exists>a t. ht_session_id w (session_id s) = Some a \<and>
      sessions w a = Some t \<and> clientid_record t = k} w w1"
    using session_del_owned [OF Cons.prems(1)] by blast
  have f1: "frame {x} {k} w w1" by (rule frame_mono [OF f]) (use one s in auto)
  have "\<exists>s. sessions w1 y = Some s \<and> clientid_record s = k" if "y \<in> set l" for y
    using f1 that Cons.prems(2) Cons.prems(3) [of y] by (auto simp: frame_def)
  then obtain w2 where "release_ref E (Delete_sessions l) w1 = Some w2" "owned E H w2" "frame (set l) {k} w1 w2"
    using Cons.IH [OF w1(2)] Cons.prems(2) by auto
  then show ?case using w1(1) s(1) f1 by (auto simp: release_ref.simps [of E "Delete_sessions (x # l)"] frame_def)
qed

section \<open>The states of a client id\<close>

definition unpointed :: "'o client_world \<Rightarrow> nat \<Rightarrow> bool" where
  "unpointed w a \<longleftrightarrow> (\<forall>q rc. records w q = Some rc \<longrightarrow> cr_confirmed_rec rc \<noteq> Some a \<and> cr_unconfirmed_rec rc \<noteq> Some a)"

lemma unpointedI:
  assumes "owned E H w" "clients w a = Some c"
    and "\<And>q rc. cid_client_record c = Some q \<Longrightarrow> records w q = Some rc \<Longrightarrow>
      cr_confirmed_rec rc \<noteq> Some a \<and> cr_unconfirmed_rec rc \<noteq> Some a"
  shows "unpointed w a"
  unfolding unpointed_def
proof (intro allI impI)
  fix q rc assume q: "records w q = Some rc"
  have "record_ok H w q rc" by (rule ownedD(3) [OF assms(1) q])
  then have "cr_confirmed_rec rc = Some a \<or> cr_unconfirmed_rec rc = Some a \<Longrightarrow> cid_client_record c = Some q"
    using assms(2) by (auto simp: record_ok_def points_def ckey_def)
  with assms(3) [OF _ q] show "cr_confirmed_rec rc \<noteq> Some a \<and> cr_unconfirmed_rec rc \<noteq> Some a" by blast
qed

text \<open>A client id that no owner record points to moves to another state, with the tables.  What it loses, the place
  in a table or the link to its owner record, becomes a reference that is held.\<close>
lemma owned_restate:
  assumes "owned E H w" "clients w a = Some c" "unpointed w a"
    and c': "cid_clientid c' = cid_clientid c" "cid_cb c' = cid_cb c" "cid_minorversion c' = cid_minorversion c"
      "cid_refcount c' = cid_refcount c"
      "cid_client_record c' = cid_client_record c \<or> cid_client_record c' = None"
    and hc: "\<And>i b. b \<noteq> a \<Longrightarrow> hc i = Some b \<longleftrightarrow> ht_confirmed_client_id w i = Some b"
      "\<And>i. hc i = Some a \<Longrightarrow> i = cid_clientid c \<and> cid_confirmed c' \<in> {CONFIRMED_CLIENT_ID, STALE_CLIENT_ID}"
    and hu: "\<And>i b. b \<noteq> a \<Longrightarrow> hu i = Some b \<longleftrightarrow> ht_unconfirmed_client_id w i = Some b"
      "\<And>i. hu i = Some a \<Longrightarrow> i = cid_clientid c \<and> cid_confirmed c' = UNCONFIRMED_CLIENT_ID"
    and w': "w' = w\<lparr>clients := (clients w)(a \<mapsto> c'), ht_confirmed_client_id := hc, ht_unconfirmed_client_id := hu\<rparr>"
    and tab: "in_table w' a c'"
    and H: "\<And>b. count H' (Ses b) = count H (Ses b)" "\<And>b. b \<noteq> a \<Longrightarrow> count H' (Cli b) = count H (Cli b)"
      "\<And>q. count H' (Rec q) = count H (Rec q) + of_bool (cid_client_record c = Some q \<and> cid_client_record c' = None)"
      "of_bool (hc (cid_clientid c) = Some a) + of_bool (hu (cid_clientid c) = Some a) + count H' (Cli a) \<le>
       of_bool (ht_confirmed_client_id w (cid_clientid c) = Some a) +
       of_bool (ht_unconfirmed_client_id w (cid_clientid c) = Some a) + count H (Cli a)"
  shows "owned E H' w'"
proof -
  have cok: "client_ok H w a c" by (rule ownedD(2) [OF assms(1,2)])
  have s: "cb_sessions c' = cb_sessions c" using c'(2) by (simp add: cb_sessions_def)
  have k: "ckey w' b = (if b = a then Some (cid_clientid c', cid_confirmed c', cid_client_record c') else ckey w b)" for b
    by (simp add: w' ckey_def)
  have kc: "ckey w a = Some (cid_clientid c, cid_confirmed c, cid_client_record c)" using assms(2) by (simp add: ckey_def)
  show ?thesis
  proof (rule ownedI)
    fix b u assume "sessions w' b = Some u"
    then have "session_ok H w b u" by (intro ownedD(1) [OF assms(1)]) (simp add: w')
    then show "session_ok H' w' b u" using assms(2) s H(1) [of b]
      by (cases "clientid_record u = a") (auto simp: session_ok_def session_refs_def w')
  next
    fix b u assume u: "clients w' b = Some u"
    show "client_ok H' w' b u"
    proof (cases "b = a")
      case True
      then have "u = c'" using u by (simp add: w')
      moreover have "client_refs H' w' a c' \<le> client_refs H w a c"
        using H(4) [THEN of_nat_mono, where 'a = int] c'(1) s by (simp add: client_refs_def w')
      ultimately show ?thesis using cok True tab c' s by (auto simp: client_ok_def w')
    next
      case False
      then have "client_ok H w b u" using u by (intro ownedD(2) [OF assms(1)]) (simp add: w')
      then show ?thesis using False H(2) hc(1) [of b] hu(1) [of b]
        by (simp add: client_ok_def client_refs_def in_table_def w')
    qed
  next
    fix q u assume u: "records w' q = Some u"
    then have rok: "record_ok H w q u" by (intro ownedD(3) [OF assms(1)]) (simp add: w')
    have p: "points w' b q st" if "points w b q st" "b \<noteq> a" for b st using that by (simp add: points_def k)
    have "record_refs H' w' q \<le> record_refs H w q"
    proof (cases "cid_client_record c = Some q \<and> cid_client_record c' = None")
      case True
      then have "a \<in> clients_of w q" using kc by (auto simp: clients_of_def)
      then have "card (clients_of w q) = Suc (card (clients_of w q - {a}))"
        by (rule card.remove [OF finite_clients_of [OF assms(1)]])
      moreover have "clients_of w' q = clients_of w q - {a}" using True by (auto simp: clients_of_def k)
      ultimately show ?thesis using True H(3) [of q] by (simp add: record_refs_def)
    next
      case False
      then have "clients_of w' q = clients_of w q" using kc c'(5) by (auto simp: clients_of_def k split: if_splits)
      then show ?thesis using False H(3) [of q] by (simp add: record_refs_def)
    qed
    moreover have n: "cr_confirmed_rec u \<noteq> Some a" "cr_unconfirmed_rec u \<noteq> Some a" "next_addr w' = next_addr w"
      using assms(3) u by (simp_all add: unpointed_def w')
    moreover have "points w' b q st" if "points w b q st" "cr_confirmed_rec u = Some b \<or> cr_unconfirmed_rec u = Some b" for b st
      using p [OF that(1)] that(2) n by auto
    ultimately show "record_ok H' w' q u" using rok by (auto simp: record_ok_def)
  next
    have t: "tables_ok E w" by (rule ownedD(4) [OF assms(1)])
    have f: "ht_confirmed_client_id w' = hc" "ht_unconfirmed_client_id w' = hu" by (simp_all add: w')
    show "tables_ok E w'" unfolding tables_ok_def
    proof (intro conjI allI impI)
      show "ht_session_id w' i = Some b \<Longrightarrow> sid w' b = Some i" for i b using t by (simp add: tables_ok_def w')
      show "ht_client_record w' i = Some b \<Longrightarrow> rkey E w' b = Some i" for i b
        using t by (simp add: tables_ok_def w' del: split_paired_All)
      show "sid w' b = Some i \<and> sid w' d = Some i \<Longrightarrow> b = d" for b d i
        using t unfolding tables_ok_def by (simp add: w')
      show "\<exists>r. ckey w' b = Some (i, CONFIRMED_CLIENT_ID, r) \<or> ckey w' b = Some (i, STALE_CLIENT_ID, r)"
        if "ht_confirmed_client_id w' i = Some b" for i b
        using that t hc(1) [of b i] hc(2) [of i] c'(1) by (cases "b = a") (auto simp: tables_ok_def f k)
      show "\<exists>r. ckey w' b = Some (i, UNCONFIRMED_CLIENT_ID, r)" if "ht_unconfirmed_client_id w' i = Some b" for i b
        using that t hu(1) [of b i] hu(2) [of i] c'(1) by (cases "b = a") (auto simp: tables_ok_def f k)
    qed
  next
    fix x assume x: "x \<in># H'"
    have "live w x"
    proof (cases x)
      case (Ses b)
      then show ?thesis using x H(1) [of b] owned_live [OF assms(1), of x] by (simp flip: count_greater_zero_iff)
    next
      case (Cli b)
      then show ?thesis using x H(2) [of b] owned_live [OF assms(1), of x] assms(2)
        by (cases "b = a") (simp_all flip: count_greater_zero_iff)
    next
      case (Rec q)
      then show ?thesis using x H(3) [of q] owned_live [OF assms(1), of x] cok
        by (cases "cid_client_record c = Some q") (auto simp: client_ok_def simp flip: count_greater_zero_iff)
    qed
    then show "live w' x" by (cases x) (auto simp: w')
  qed
qed

end
