(* ===== verification/Sal_Client_Safety.thy ===== *)
theory Sal_Client_Safety
  imports Sal_Client_Refs
begin

text \<open>
  The functions of the client id manager and the reference counts: under the invariant \<open>owned\<close> each of them
  returns, and the references it takes and gives back are accounted for.
\<close>

section \<open>The functions of the client id manager\<close>

abbreviation set_client :: "nat \<Rightarrow> nfs_client_id_t \<Rightarrow> 'o client_world \<Rightarrow> 'o client_world" where
  "set_client a c w \<equiv> w\<lparr>clients := (clients w)(a \<mapsto> c)\<rparr>"

abbreviation set_record :: "nat \<Rightarrow> nfs_client_record_t \<Rightarrow> 'o client_world \<Rightarrow> 'o client_world" where
  "set_record a r w \<equiv> w\<lparr>records := (records w)(a \<mapsto> r)\<rparr>"

abbreviation set_session :: "nat \<Rightarrow> nfs41_session \<Rightarrow> 'o client_world \<Rightarrow> 'o client_world" where
  "set_session a s w \<equiv> w\<lparr>sessions := (sessions w)(a \<mapsto> s)\<rparr>"

lemma record_key_simps [simp]:
  "client_record_key E (cr_refcount_update f rc) = client_record_key E rc"
  "client_record_key E (cr_confirmed_rec_update g rc) = client_record_key E rc"
  "client_record_key E (cr_unconfirmed_rec_update g rc) = client_record_key E rc"
  by (simp_all add: client_record_key_def client_record_value_hash_def)

lemma inc_client_owned:
  assumes "owned E H w" "clients w a = Some c"
  shows "inc_client_id_ref a w = Some (set_client a (cid_refcount_update (\<lambda>n. n + 1) c) w)"
    and "owned E (add_mset (Cli a) H) (set_client a (cid_refcount_update (\<lambda>n. n + 1) c) w)"
proof -
  show "inc_client_id_ref a w = Some (set_client a (cid_refcount_update (\<lambda>n. n + 1) c) w)"
    using assms(2) by (simp add: inc_client_id_ref_def mod_client_def)
  show "owned E (add_mset (Cli a) H) (set_client a (cid_refcount_update (\<lambda>n. n + 1) c) w)"
    by (rule owned_set_client [OF assms]) (use ownedD(2) [OF assms] in \<open>simp_all add: client_ok_def\<close>)
qed

lemma inc_record_owned:
  assumes "owned E H w" "records w a = Some r"
  shows "inc_client_record_ref a w = Some (set_record a (cr_refcount_update (\<lambda>n. n + 1) r) w)"
    and "owned E (add_mset (Rec a) H) (set_record a (cr_refcount_update (\<lambda>n. n + 1) r) w)"
proof -
  show "inc_client_record_ref a w = Some (set_record a (cr_refcount_update (\<lambda>n. n + 1) r) w)"
    using assms(2) by (simp add: inc_client_record_ref_def mod_record_def)
  show "owned E (add_mset (Rec a) H) (set_record a (cr_refcount_update (\<lambda>n. n + 1) r) w)"
    by (rule owned_set_record [OF assms]) (use ownedD(3) [OF assms] in \<open>simp_all add: record_ok_def\<close>)
qed

lemma inc_session_owned:
  assumes "owned E H w" "sessions w a = Some s"
  shows "inc_session_ref a w = Some (set_session a (session_refcount_update (\<lambda>n. n + 1) s) w)"
    and "owned E (add_mset (Ses a) H) (set_session a (session_refcount_update (\<lambda>n. n + 1) s) w)"
proof -
  show "inc_session_ref a w = Some (set_session a (session_refcount_update (\<lambda>n. n + 1) s) w)"
    using assms(2) by (simp add: inc_session_ref_def mod_session_def)
  show "owned E (add_mset (Ses a) H) (set_session a (session_refcount_update (\<lambda>n. n + 1) s) w)"
    by (rule owned_set_session [OF assms]) (use ownedD(1) [OF assms] in \<open>simp_all add: session_ok_def slots_typed_def\<close>)
qed

text \<open>Changes that do not matter here.\<close>
lemma touch_owned:
  assumes "owned E H w" "clients w a = Some c"
    and "cid_clientid (f c) = cid_clientid c" "cid_confirmed (f c) = cid_confirmed c"
      "cid_client_record (f c) = cid_client_record c" "cid_cb (f c) = cid_cb c"
      "cid_minorversion (f c) = cid_minorversion c" "cid_refcount (f c) = cid_refcount c"
  shows "mod_client a f w = Some (set_client a (f c) w)" and "owned E H (set_client a (f c) w)"
proof -
  show "mod_client a f w = Some (set_client a (f c) w)" using assms(2) by (simp add: mod_client_def)
  show "owned E H (set_client a (f c) w)"
    by (rule owned_set_client [OF assms(1,2)]) (use assms(3-8) ownedD(2) [OF assms(1,2)] in \<open>simp_all add: client_ok_def\<close>)
qed

text \<open>An id leaves its table for good.\<close>
lemma owned_unhash_client:
  assumes "owned E H w" "clients w a = Some c" "unpointed w a"
    and "cid_confirmed c \<in> {CONFIRMED_CLIENT_ID, STALE_CLIENT_ID}" "c' = c\<lparr>cid_confirmed := EXPIRED_CLIENT_ID\<rparr>"
  shows "owned E (add_mset (Cli a) H)
      (w\<lparr>clients := (clients w)(a \<mapsto> c'), ht_confirmed_client_id := (ht_confirmed_client_id w)(cid_clientid c := None)\<rparr>)"
    (is "owned E _ ?w")
proof -
  have t: "ht_confirmed_client_id w (cid_clientid c) = Some a" "ht_unconfirmed_client_id w i \<noteq> Some a"
    "ht_confirmed_client_id w i = Some a \<Longrightarrow> i = cid_clientid c" for i
    using ownedD(2) [OF assms(1,2)] assms(2,4) table_entries(2,3) [OF assms(1), of i a]
    by (auto simp: client_ok_def in_table_def)
  show ?thesis
    by (rule owned_restate [OF assms(1-3), where c' = c' and hc = "(ht_confirmed_client_id w)(cid_clientid c := None)"
        and hu = "ht_unconfirmed_client_id w"])
      (simp_all add: in_table_def assms(5) t(1,2), metis t(3) option.distinct(1))
qed

lemma owned_unhash_unconfirmed:
  assumes "owned E H w" "clients w a = Some c" "unpointed w a"
    and "cid_confirmed c = UNCONFIRMED_CLIENT_ID" "c' = c\<lparr>cid_confirmed := EXPIRED_CLIENT_ID\<rparr>"
  shows "owned E (add_mset (Cli a) H)
      (w\<lparr>clients := (clients w)(a \<mapsto> c'), ht_unconfirmed_client_id := (ht_unconfirmed_client_id w)(cid_clientid c := None)\<rparr>)"
    (is "owned E _ ?w")
proof -
  have t: "ht_unconfirmed_client_id w (cid_clientid c) = Some a" "ht_confirmed_client_id w i \<noteq> Some a"
    "ht_unconfirmed_client_id w i = Some a \<Longrightarrow> i = cid_clientid c" for i
    using ownedD(2) [OF assms(1,2)] assms(2,4) table_entries(2,3) [OF assms(1), of i a]
    by (auto simp: client_ok_def in_table_def)
  show ?thesis
    by (rule owned_restate [OF assms(1-3), where c' = c' and hc = "ht_confirmed_client_id w"
        and hu = "(ht_unconfirmed_client_id w)(cid_clientid c := None)"])
      (simp_all add: in_table_def assms(5) t(1,2), metis t(3) option.distinct(1))
qed


text \<open>The owner record of a client id that is in use.\<close>
lemma record_of_client:
  assumes "owned E H w" "clients w a = Some c" "cid_confirmed c \<in> {CONFIRMED_CLIENT_ID, UNCONFIRMED_CLIENT_ID}"
  obtains q rc where "cid_client_record c = Some q" "records w q = Some rc"
    "cid_confirmed c = CONFIRMED_CLIENT_ID \<Longrightarrow> cr_unconfirmed_rec rc \<noteq> Some a"
    "cid_confirmed c = UNCONFIRMED_CLIENT_ID \<Longrightarrow> cr_confirmed_rec rc \<noteq> Some a"
proof -
  obtain q rc where q: "cid_client_record c = Some q" "records w q = Some rc"
    using ownedD(2) [OF assms(1,2)] assms(3) by (auto simp: client_ok_def in_table_def)
  have "record_ok H w q rc" by (rule ownedD(3) [OF assms(1) q(2)])
  then show thesis using q assms(2) by (intro that) (auto simp: record_ok_def points_def ckey_def)
qed

lemma remove_confirmed_owned:
  assumes "owned E H w" "clients w a = Some c" "cid_confirmed c = CONFIRMED_CLIENT_ID"
  shows "\<exists>w'. remove_confirmed_client_id E a w = Some (True, w') \<and> owned E H w' \<and> frame {} {a} w w'"
proof -
  obtain q rc where q: "cid_client_record c = Some q" "records w q = Some rc" "cr_unconfirmed_rec rc \<noteq> Some a"
    by (rule record_of_client [OF assms(1,2)]) (use assms(3) in auto)
  let ?w1 = "set_record q (rc\<lparr>cr_confirmed_rec := None\<rparr>) w" and ?c = "c\<lparr>cid_confirmed := EXPIRED_CLIENT_ID\<rparr>"
  let ?w2 = "w\<lparr>ht_confirmed_client_id := (ht_confirmed_client_id w)(cid_clientid c := None),
      records := (records w)(q \<mapsto> rc\<lparr>cr_confirmed_rec := None\<rparr>), clients := (clients w)(a \<mapsto> ?c)\<rparr>"
  have w2: "?w2 = ?w1\<lparr>clients := (clients w)(a \<mapsto> ?c), ht_confirmed_client_id := (ht_confirmed_client_id w)(cid_clientid c := None)\<rparr>"
    by simp
  have w1: "owned E H ?w1" by (rule owned_set_record [OF assms(1) q(2)])
    (use ownedD(3) [OF assms(1) q(2)] in \<open>simp_all add: record_ok_def\<close>)
  have "unpointed ?w1 a" by (rule unpointedI [OF w1]) (use assms(2) q in auto)
  from owned_unhash_client [OF w1 _ this, of c ?c] have "owned E (add_mset (Cli a) H) ?w2" unfolding w2 using assms by simp
  from dec_client_owned [OF this] obtain w' where "release_ref E (Dec_client a) ?w2 = Some w'" "owned E H w'" "frame {} {a} ?w2 w'"
    by blast
  moreover have "ht_confirmed_client_id w (cid_clientid c) = Some a"
    using ownedD(2) [OF assms(1,2)] assms(3) by (simp add: client_ok_def in_table_def)
  ultimately show ?thesis using assms(2) q
    by (simp add: remove_confirmed_client_id_def mod_record_def mod_client_def dec_client_id_ref_def frame_def Let_def)
qed

lemma remove_unconfirmed_owned:
  assumes "owned E H w" "clients w a = Some c" "cid_confirmed c = UNCONFIRMED_CLIENT_ID"
  shows "\<exists>w'. remove_unconfirmed_client_id E a w = Some (True, w') \<and> owned E H w' \<and> frame {} {a} w w'"
proof -
  obtain q rc where q: "cid_client_record c = Some q" "records w q = Some rc" "cr_confirmed_rec rc \<noteq> Some a"
    by (rule record_of_client [OF assms(1,2)]) (use assms(3) in auto)
  let ?w1 = "set_record q (rc\<lparr>cr_unconfirmed_rec := None\<rparr>) w" and ?c = "c\<lparr>cid_confirmed := EXPIRED_CLIENT_ID\<rparr>"
  let ?w2 = "w\<lparr>ht_unconfirmed_client_id := (ht_unconfirmed_client_id w)(cid_clientid c := None),
      records := (records w)(q \<mapsto> rc\<lparr>cr_unconfirmed_rec := None\<rparr>), clients := (clients w)(a \<mapsto> ?c)\<rparr>"
  have w2: "?w2 = ?w1\<lparr>clients := (clients w)(a \<mapsto> ?c), ht_unconfirmed_client_id := (ht_unconfirmed_client_id w)(cid_clientid c := None)\<rparr>"
    by simp
  have w1: "owned E H ?w1" by (rule owned_set_record [OF assms(1) q(2)])
    (use ownedD(3) [OF assms(1) q(2)] in \<open>simp_all add: record_ok_def\<close>)
  have "unpointed ?w1 a" by (rule unpointedI [OF w1]) (use assms(2) q in auto)
  from owned_unhash_unconfirmed [OF w1 _ this, of c ?c] have "owned E (add_mset (Cli a) H) ?w2" unfolding w2 using assms by simp
  from dec_client_owned [OF this] obtain w' where "release_ref E (Dec_client a) ?w2 = Some w'" "owned E H w'" "frame {} {a} ?w2 w'"
    by blast
  moreover have "ht_unconfirmed_client_id w (cid_clientid c) = Some a"
    using ownedD(2) [OF assms(1,2)] assms(3) by (simp add: client_ok_def in_table_def)
  ultimately show ?thesis using assms(2) q
    by (simp add: remove_unconfirmed_client_id_def mod_record_def mod_client_def dec_client_id_ref_def frame_def Let_def)
qed

text \<open>The lookup of an id, in either table.\<close>
lemma client_get_owned:
  assumes "owned E H w" "\<And>a. ht i = Some a \<Longrightarrow> \<exists>c. clients w a = Some c \<and> cid_clientid c = i"
  shows "(\<exists>st w'. nfs_client_id_get E ht i w = Some ((st, None), w') \<and> st \<noteq> CLIENT_ID_SUCCESS \<and> owned E H w' \<and>
      global_sequence w' = global_sequence w) \<or>
    (\<exists>a c. nfs_client_id_get E ht i w = Some ((CLIENT_ID_SUCCESS, Some a), set_client a (cid_refcount_update (\<lambda>n. n + 1) c) w) \<and>
      ht i = Some a \<and> clients w a = Some c \<and> cid_confirmed c \<noteq> STALE_CLIENT_ID \<and>
      owned E (add_mset (Cli a) H) (set_client a (cid_refcount_update (\<lambda>n. n + 1) c) w))"
proof (cases "drop_bit 32 i \<noteq> ServerEpoch E AND 0xFFFFFFFF \<or> ht i = None")
  case True
  then show ?thesis using assms(1) by (auto simp: nfs_client_id_get_def)
next
  case False
  then obtain a c where a: "ht i = Some a" "clients w a = Some c" using assms(2) by auto
  let ?w = "set_client a (cid_refcount_update (\<lambda>n. n + 1) c) w"
  note inc = inc_client_owned [OF assms(1) a(2)]
  show ?thesis
  proof (cases "cid_confirmed c = STALE_CLIENT_ID")
    case True
    obtain w' where "release_ref E (Dec_client a) ?w = Some w'" "owned E H w'" "frame {} {a} ?w w'"
      using dec_client_owned [OF inc(2)] by blast
    then have "nfs_client_id_get E ht i w = Some ((CLIENT_ID_STALE, None), w') \<and> owned E H w' \<and> global_sequence w' = global_sequence w"
      using False a(1) inc(1) True by (simp add: nfs_client_id_get_def dec_client_id_ref_def frame_def)
    then show ?thesis by blast
  next
    case False': False
    have "nfs_client_id_get E ht i w = Some ((CLIENT_ID_SUCCESS, Some a), ?w)"
      using False a(1) inc(1) False' by (simp add: nfs_client_id_get_def)
    then show ?thesis using a inc(2) False' by blast
  qed
qed


section \<open>Expiry\<close>

lemma unhash_client:
  assumes "owned E H w" "clients w a = Some c" "cid_confirmed c \<noteq> EXPIRED_CLIENT_ID"
    and "clients z a = Some d" "ht_confirmed_client_id z = ht_confirmed_client_id w"
      "ht_unconfirmed_client_id z = ht_unconfirmed_client_id w"
  shows "unhash_client_id False a c z = Some (z\<lparr>clients := (clients z)(a \<mapsto> d\<lparr>cid_confirmed := EXPIRED_CLIENT_ID\<rparr>),
    ht_confirmed_client_id := (if cid_confirmed c = UNCONFIRMED_CLIENT_ID then ht_confirmed_client_id w
      else (ht_confirmed_client_id w)(cid_clientid c := None)),
    ht_unconfirmed_client_id := (if cid_confirmed c = UNCONFIRMED_CLIENT_ID
      then (ht_unconfirmed_client_id w)(cid_clientid c := None) else ht_unconfirmed_client_id w)\<rparr>)"
proof -
  have "in_table w a c" using ownedD(2) [OF assms(1,2)] by (simp add: client_ok_def)
  then show ?thesis using assms(3-6)
    by (cases "cid_confirmed c") (simp_all add: unhash_client_id_def mod_client_def in_table_def Let_def)
qed

text \<open>The id is in no table and belongs to no owner record any more; its place in the table and the link to the owner
  record are references that are held.\<close>
lemma owned_retire:
  assumes "owned E H v" "unpointed v a" "clients v a = Some c" "cid_confirmed c \<noteq> EXPIRED_CLIENT_ID"
    and H': "H' = (case cid_client_record c of None \<Rightarrow> H | Some q \<Rightarrow> add_mset (Rec q) H)"
    and c': "c' = c\<lparr>cid_client_record := None, cid_confirmed := EXPIRED_CLIENT_ID\<rparr>"
    and hc: "hc = (if cid_confirmed c = UNCONFIRMED_CLIENT_ID then ht_confirmed_client_id v
      else (ht_confirmed_client_id v)(cid_clientid c := None))"
    and hu: "hu = (if cid_confirmed c = UNCONFIRMED_CLIENT_ID
      then (ht_unconfirmed_client_id v)(cid_clientid c := None) else ht_unconfirmed_client_id v)"
  shows "owned E (add_mset (Cli a) H') (v\<lparr>clients := (clients v)(a \<mapsto> c'), ht_confirmed_client_id := hc,
      ht_unconfirmed_client_id := hu\<rparr>)"
proof (rule owned_restate [OF assms(1,3,2), where c' = c' and hc = hc and hu = hu])
  have tab: "in_table v a c" using ownedD(2) [OF assms(1,3)] by (simp add: client_ok_def)
  have t: "hc i \<noteq> Some a" "hu i \<noteq> Some a" for i
    using table_entries(2,3) [OF assms(1), of i a] assms(3) hc hu by (cases "cid_confirmed c"; auto split: if_splits)+
  show "hc i = Some b \<longleftrightarrow> ht_confirmed_client_id v i = Some b" if "b \<noteq> a" for i b
    using that tab assms(4) hc by (cases "cid_confirmed c") (auto simp: in_table_def)
  show "hu i = Some b \<longleftrightarrow> ht_unconfirmed_client_id v i = Some b" if "b \<noteq> a" for i b
    using that tab assms(4) hu by (cases "cid_confirmed c") (auto simp: in_table_def)
  show "of_bool (hc (cid_clientid c) = Some a) + of_bool (hu (cid_clientid c) = Some a) + count (add_mset (Cli a) H') (Cli a) \<le>
     of_bool (ht_confirmed_client_id v (cid_clientid c) = Some a) +
     of_bool (ht_unconfirmed_client_id v (cid_clientid c) = Some a) + count H (Cli a)"
    using tab assms(4) t H' by (cases "cid_confirmed c") (auto simp: in_table_def split: option.splits)
  show "hc i = Some a \<Longrightarrow> i = cid_clientid c \<and> cid_confirmed c' \<in> {CONFIRMED_CLIENT_ID, STALE_CLIENT_ID}"
    "hu i = Some a \<Longrightarrow> i = cid_clientid c \<and> cid_confirmed c' = UNCONFIRMED_CLIENT_ID" for i
    using t by auto
qed (use H' c' in \<open>auto simp: in_table_def split: option.splits\<close>)

lemma detach_unhash_owned:
  assumes "owned E H w" "clients w a = Some c" "cid_confirmed c \<noteq> EXPIRED_CLIENT_ID"
  shows "\<exists>w1 w2. detach_record E a c w = Some w1 \<and> unhash_client_id False a c w1 = Some w2 \<and>
    owned E (add_mset (Cli a) H) w2 \<and> frame {} {a} w w2 \<and>
    clients w2 a = Some (c\<lparr>cid_client_record := None, cid_confirmed := EXPIRED_CLIENT_ID\<rparr>)"
proof -
  let ?c = "c\<lparr>cid_client_record := None, cid_confirmed := EXPIRED_CLIENT_ID\<rparr>" and ?u = "cid_confirmed c = UNCONFIRMED_CLIENT_ID"
  let ?hc = "if ?u then ht_confirmed_client_id w else (ht_confirmed_client_id w)(cid_clientid c := None)"
  let ?hu = "if ?u then (ht_unconfirmed_client_id w)(cid_clientid c := None) else ht_unconfirmed_client_id w"
  show ?thesis
  proof (cases "cid_client_record c")
    case None
    have "unpointed w a" by (rule unpointedI [OF assms(1,2)]) (use None in simp)
    from owned_retire [OF assms(1) this assms(2,3) refl refl refl refl] have "owned E (add_mset (Cli a) H) (w\<lparr>clients := (clients w)(a \<mapsto> ?c),
        ht_confirmed_client_id := ?hc, ht_unconfirmed_client_id := ?hu\<rparr>)" using None by simp
    moreover have "detach_record E a c w = Some (set_client a (c\<lparr>cid_client_record := None\<rparr>) w)"
      using None assms(2) by (simp add: detach_record_def mod_client_def)
    ultimately show ?thesis
      using unhash_client [OF assms, of "set_client a (c\<lparr>cid_client_record := None\<rparr>) w"] by (simp add: frame_def)
  next
    case (Some q)
    then obtain rc where rc: "records w q = Some rc" using ownedD(2) [OF assms(1,2)] by (auto simp: client_ok_def)
    let ?rc = "rc\<lparr>cr_confirmed_rec := (if cr_confirmed_rec rc = Some a then None else cr_confirmed_rec rc),
      cr_unconfirmed_rec := (if cr_unconfirmed_rec rc = Some a then None else cr_unconfirmed_rec rc)\<rparr>"
    let ?v = "set_record q ?rc w" and ?w1 = "w\<lparr>clients := (clients w)(a \<mapsto> c\<lparr>cid_client_record := None\<rparr>), records := (records w)(q \<mapsto> ?rc)\<rparr>"
    have v: "owned E H ?v" by (rule owned_set_record [OF assms(1) rc])
      (use ownedD(3) [OF assms(1) rc] in \<open>auto simp: record_ok_def split: if_splits\<close>)
    have "unpointed ?v a" by (rule unpointedI [OF v, of a c]) (use assms(2) Some in \<open>auto split: if_splits\<close>)
    then have "owned E (add_mset (Rec q) (add_mset (Cli a) H)) (?v\<lparr>clients := (clients ?v)(a \<mapsto> ?c),
        ht_confirmed_client_id := ?hc, ht_unconfirmed_client_id := ?hu\<rparr>)" unfolding add_mset_commute [of "Rec q"]
      by (intro owned_retire [OF v _ _ assms(3)]) (use Some assms(2) in simp_all)
    then obtain w2 where w2: "dec_client_record_ref E q (?v\<lparr>clients := (clients ?v)(a \<mapsto> ?c), ht_confirmed_client_id := ?hc,
        ht_unconfirmed_client_id := ?hu\<rparr>) = Some w2" "owned E (add_mset (Cli a) H) w2" by (rule dec_record_owned)
    have "?w1 = ?v\<lparr>clients := (clients w)(a \<mapsto> c\<lparr>cid_client_record := None\<rparr>)\<rparr>" by simp
    with w2(1) obtain z where z: "dec_client_record_ref E q ?w1 = Some z"
      "w2 = z\<lparr>clients := (clients w)(a \<mapsto> ?c), ht_confirmed_client_id := ?hc, ht_unconfirmed_client_id := ?hu\<rparr>"
      by (auto simp: dec_record_frame)
    note keeps = dec_record_keeps [OF z(1)]
    have "detach_record E a c w = Some z"
      using Some assms(2) rc z(1) by (simp add: detach_record_def mod_client_def mod_record_def)
    moreover have "unhash_client_id False a c z = Some w2"
      using unhash_client [OF assms, of z "c\<lparr>cid_client_record := None\<rparr>"] keeps z(2) by simp
    ultimately show ?thesis using w2(2) keeps z(2) by (simp add: frame_def)
  qed
qed


text \<open>What the environment promises: everything a client holds can be released.\<close>
definition owners_released :: "'o client_env \<Rightarrow> bool" where
  "owners_released E \<longleftrightarrow> (\<forall>a os. release_owners E a os \<noteq> None)"

lemma owners_releasedD: "owners_released E \<Longrightarrow> \<exists>os'. release_owners E a os = Some os'"
  unfolding owners_released_def by blast

lemma expire_sessions_owned:
  assumes "owned E H w" "clients w a = Some d" "cid_cb d = cid_cb c"
  shows "\<exists>w'. expire_sessions E c w = Some w' \<and> owned E H w' \<and> frame (set (cb_sessions c)) {a} w w'"
proof -
  have dok: "client_ok H w a d" by (rule ownedD(2) [OF assms(1,2)])
  then obtain cb where cb: "cid_cb c = v41 cb" using assms(3) by (auto simp: client_ok_def)
  have l: "cb_session_list cb = cb_sessions c" "cb_sessions d = cb_sessions c" using cb assms(3) by (simp_all add: cb_sessions_def)
  have "\<exists>w'. release_ref E (Delete_sessions (cb_sessions c)) w = Some w' \<and> owned E H w' \<and> frame (set (cb_sessions c)) {a} w w'"
    by (rule delete_sessions_owned [OF assms(1)]) (use dok l in \<open>auto simp: client_ok_def\<close>)
  then show ?thesis using cb l by (auto simp: expire_sessions_def frame_def)
qed

lemma expire_owned:
  assumes "owned E (add_mset (Cli a) H) w" "clients w a = Some c" "owners_released E"
  shows "\<exists>b w'. nfs_client_id_expire E a False w = Some (b, w') \<and> owned E (add_mset (Cli a) H) w' \<and>
    frame (set (cb_sessions c)) {a} w w'"
proof (cases "cid_confirmed c = EXPIRED_CLIENT_ID")
  case True
  then show ?thesis using assms(1,2) by (auto simp: nfs_client_id_expire_def frame_def)
next
  case False
  let ?H = "add_mset (Cli a) (add_mset (Cli a) H)"
  obtain w1 w2 where w2: "detach_record E a c w = Some w1" "unhash_client_id False a c w1 = Some w2" "owned E ?H w2"
    "frame {} {a} w w2" "clients w2 a = Some (c\<lparr>cid_client_record := None, cid_confirmed := EXPIRED_CLIENT_ID\<rparr>)"
    using detach_unhash_owned [OF assms(1,2) False] by blast
  obtain os where os: "release_owners E a (owners w2) = Some os" using owners_releasedD [OF assms(3)] by blast
  have m: "0 < cid_minorversion c" using ownedD(2) [OF assms(1,2)] by (simp add: client_ok_def)
  obtain w3 where w3: "expire_sessions E c (w2\<lparr>owners := os\<rparr>) = Some w3" "owned E ?H w3"
    "frame (set (cb_sessions c)) {a} (w2\<lparr>owners := os\<rparr>) w3"
    using expire_sessions_owned [of E ?H "w2\<lparr>owners := os\<rparr>" a _ c] w2(3,5) by auto
  obtain c3 where c3: "clients w3 a = Some c3" using owned_live [OF w3(2), of "Cli a"] by auto
  have "\<exists>w4. (if cid_recov_tag c3 \<noteq> None then mod_client a (\<lambda>c. c\<lparr>cid_recov_tag := None\<rparr>)
      (w3\<lparr>owners := rm_clid E c3 (owners w3)\<rparr>) else Some w3) = Some w4 \<and> owned E ?H w4 \<and> frame {} {a} w3 w4"
    using w3(2) c3 touch_owned [of E ?H "w3\<lparr>owners := rm_clid E c3 (owners w3)\<rparr>" a c3 "\<lambda>c. c\<lparr>cid_recov_tag := None\<rparr>"]
    by (simp add: frame_def)
  then obtain w4 where w4: "(if cid_recov_tag c3 \<noteq> None then mod_client a (\<lambda>c. c\<lparr>cid_recov_tag := None\<rparr>)
      (w3\<lparr>owners := rm_clid E c3 (owners w3)\<rparr>) else Some w3) = Some w4" "owned E ?H w4" "frame {} {a} w3 w4"
    by blast
  obtain w5 where w5: "release_ref E (Dec_client a) w4 = Some w5" "owned E (add_mset (Cli a) H) w5" "frame {} {a} w4 w5"
    using dec_client_owned [OF w4(2)] by blast
  have "nfs_client_id_expire E a False w = Some (True, w5)"
    using assms(2) False w2(1,2) os m w3(1) c3 w4(1) w5(1)
    by (simp add: nfs_client_id_expire_def dec_client_id_ref_def split: if_splits)
  moreover have "frame (set (cb_sessions c)) {a} w w5" using w2(4) w3(3) w4(3) w5(3) by (simp add: frame_def)
  ultimately show ?thesis using w5(2) by blast
qed


section \<open>New client ids\<close>

lemma owned_fresh:
  assumes "owned E H w"
  shows "clients w (next_addr w) = None" "sessions w (next_addr w) = None" "records w (next_addr w) = None"
    "ht_confirmed_client_id w i \<noteq> Some (next_addr w)" "ht_unconfirmed_client_id w i \<noteq> Some (next_addr w)"
    "ht_session_id w j \<noteq> Some (next_addr w)" "x \<in># H \<Longrightarrow> x \<notin> {Ses (next_addr w), Cli (next_addr w), Rec (next_addr w)}"
proof -
  show c: "clients w (next_addr w) = None"
    using ownedD(2) [OF assms, of "next_addr w"] by (cases "clients w (next_addr w)") (simp_all add: client_ok_def)
  show s: "sessions w (next_addr w) = None"
    using ownedD(1) [OF assms, of "next_addr w"] by (cases "sessions w (next_addr w)") (simp_all add: session_ok_def)
  show r: "records w (next_addr w) = None"
    using ownedD(3) [OF assms, of "next_addr w"] by (cases "records w (next_addr w)") (simp_all add: record_ok_def)
  from c s show "ht_confirmed_client_id w i \<noteq> Some (next_addr w)" "ht_unconfirmed_client_id w i \<noteq> Some (next_addr w)"
    "ht_session_id w j \<noteq> Some (next_addr w)"
    using table_entries(2,3) [OF assms, of i "next_addr w"] table_entries(1) [OF assms, of j "next_addr w"] by auto
  show "x \<in># H \<Longrightarrow> x \<notin> {Ses (next_addr w), Cli (next_addr w), Rec (next_addr w)}"
    using owned_live [OF assms, of x] c s r by auto
qed

text \<open>A new client id in the table of unconfirmed ones.\<close>
lemma owned_new_client:
  assumes "owned E H w" "records w r = Some rc" "ht_unconfirmed_client_id w (cid_clientid c) = None"
    and c: "cid_confirmed c = UNCONFIRMED_CLIENT_ID" "cid_client_record c = Some r" "cid_refcount c = 1" "tag_v41 c"
      "cb_sessions c = []" "0 < cid_minorversion c"
    and a: "a = next_addr w"
    and w': "w' = w\<lparr>records := (records w)(r \<mapsto> cr_refcount_update (\<lambda>n. n + 1) rc), clients := (clients w)(a \<mapsto> c),
      next_addr := a + 1, ht_unconfirmed_client_id := (ht_unconfirmed_client_id w)(cid_clientid c \<mapsto> a)\<rparr>"
  shows "owned E H w'"
proof -
  note new = owned_fresh [OF assms(1), folded a]
  have k: "ckey w' b = (if b = a then Some (cid_clientid c, UNCONFIRMED_CLIENT_ID, Some r) else ckey w b)" for b
    using c by (simp add: w' ckey_def)
  have ka: "ckey w a = None" using new(1) by (simp add: ckey_def)
  have n: "count H (Cli a) = 0" using new(7) [of "Cli a"] by (auto simp flip: not_in_iff)
  show ?thesis
  proof (rule ownedI)
    fix b u assume "sessions w' b = Some u"
    then have "session_ok H w b u" by (intro ownedD(1) [OF assms(1)]) (simp add: w')
    then show "session_ok H w' b u" using new(1) a by (auto simp: session_ok_def session_refs_def w')
  next
    fix b u assume u: "clients w' b = Some u"
    show "client_ok H w' b u"
    proof (cases "b = a")
      case True
      then have "u = c" using u by (simp add: w')
      then show ?thesis using True c new(4) [of "cid_clientid c"] n
        by (simp add: client_ok_def client_refs_def in_table_def w')
    next
      case False
      then have "client_ok H w b u" using u by (intro ownedD(2) [OF assms(1)]) (simp add: w')
      then show ?thesis using False assms(3) a by (auto simp: client_ok_def client_refs_def in_table_def w')
    qed
  next
    fix q u assume u: "records w' q = Some u"
    have p: "points w b q st \<Longrightarrow> points w' b q st" for b st using ka by (auto simp: points_def k)
    show "record_ok H w' q u"
    proof (cases "q = r")
      case True
      have "clients_of w' r = insert a (clients_of w r)" by (auto simp: clients_of_def k)
      moreover have "a \<notin> clients_of w r" using ka by (simp add: clients_of_def)
      ultimately have "card (clients_of w' r) = Suc (card (clients_of w r))" using finite_clients_of [OF assms(1)] by simp
      then show ?thesis using True u p ownedD(3) [OF assms(1,2)] a by (auto simp: record_ok_def record_refs_def w')
    next
      case False
      then have rok: "record_ok H w q u" using u by (intro ownedD(3) [OF assms(1)]) (simp add: w')
      have "clients_of w' q = clients_of w q" using False ka by (auto simp: clients_of_def k split: if_splits)
      then show ?thesis using rok p a by (auto simp: record_ok_def record_refs_def w')
    qed
  next
    have t: "tables_ok E w" by (rule ownedD(4) [OF assms(1)])
    have f: "ht_confirmed_client_id w' = ht_confirmed_client_id w" "ht_session_id w' = ht_session_id w"
      "ht_client_record w' = ht_client_record w" "sid w' = sid w" "rkey E w' = rkey E w"
      "ht_unconfirmed_client_id w' = (ht_unconfirmed_client_id w)(cid_clientid c \<mapsto> a)"
      using assms(2) by (simp_all add: w' sid_def rkey_def fun_eq_iff)
    show "tables_ok E w'" unfolding tables_ok_def f
    proof (intro conjI allI impI)
      show "\<exists>r. ckey w' b = Some (i, CONFIRMED_CLIENT_ID, r) \<or> ckey w' b = Some (i, STALE_CLIENT_ID, r)"
        if "ht_confirmed_client_id w i = Some b" for i b
        using that t new(4) [of i] by (cases "b = a") (simp_all add: tables_ok_def k)
      show "\<exists>r. ckey w' b = Some (i, UNCONFIRMED_CLIENT_ID, r)"
        if "((ht_unconfirmed_client_id w)(cid_clientid c \<mapsto> a)) i = Some b" for i b
        using that t new(5) [of i] by (cases "i = cid_clientid c"; cases "b = a") (auto simp: tables_ok_def k)
      show "ht_session_id w i = Some b \<Longrightarrow> sid w b = Some i" "ht_client_record w j = Some b \<Longrightarrow> rkey E w b = Some j" for i j b
        using t unfolding tables_ok_def by blast+
      show "sid w b = Some i \<and> sid w d = Some i \<Longrightarrow> b = d" for b d i using t unfolding tables_ok_def by blast
    qed
  next
    fix x assume "x \<in># H"
    then show "live w' x" using owned_live [OF assms(1), of x] by (cases x) (auto simp: w')
  qed
qed


section \<open>New sessions\<close>

lemma mem64_inj:
  assumes "mem64 x = mem64 y"
  shows "x = y"
proof (rule bit_word_eqI)
  fix n assume "n < LENGTH(64)"
  then have i: "n div 8 < 8" by simp
  let ?d = "\<lambda>z. unat (drop_bit (8 * (n div 8)) (z :: u64))"
  have "(char_of (?d x) :: char) = char_of (?d y)" using assms i by (simp add: mem64_def)
  then have "?d x mod 256 = ?d y mod 256" by (metis of_char_of)
  then have "take_bit 8 (?d x) = take_bit 8 (?d y)" by (simp add: take_bit_eq_mod)
  then have "bit (take_bit 8 (?d x)) (n mod 8) = bit (take_bit 8 (?d y)) (n mod 8)" by simp
  moreover have "bit (take_bit 8 (?d z)) (n mod 8) = bit z n" for z
    by (simp add: bit_simps)
  ultimately show "bit x n = bit y n" by simp
qed

lemma length_mem64 [simp]: "length (mem64 x) = 8"
  by (simp add: mem64_def)

text \<open>A session that has just been given its id: no other has the same as long as the counter has not wrapped
  around.\<close>
lemma fresh_session_id:
  assumes "owned E H w" "global_sequence w < global_sequence w + 1" "i = mem64 x @ mem64 (global_sequence w + 1)"
  shows "sid w b \<noteq> Some i" "ht_session_id w i = None"
proof -
  show n: "sid w b \<noteq> Some i" for b
  proof
    assume "sid w b = Some i"
    then obtain s where "sessions w b = Some s" "session_id s = i" by (auto simp: sid_def)
    then obtain n where n: "n \<le> global_sequence w" "i = mem64 (session_clientid s) @ mem64 n"
      using ownedD(1) [OF assms(1)] by (fastforce simp: session_ok_def)
    then have "mem64 n = mem64 (global_sequence w + 1)" using assms(3) by simp
    then show False using n(1) assms(2) mem64_inj by fastforce
  qed
  show "ht_session_id w i = None"
    using n table_entries(1) [OF assms(1), of i] by (cases "ht_session_id w i") (auto simp: sid_def)
qed

lemma owned_new_session:
  assumes "owned E H w" "clients w k = Some c" "global_sequence w < global_sequence w + 1"
    and s: "session_id s = mem64 (session_clientid s) @ mem64 (global_sequence w + 1)" "clientid_record s = k"
      "session_refcount s = 2" "slots_typed s"
    and a: "a = next_addr w"
    and w': "w' = w\<lparr>global_sequence := global_sequence w + 1,
      clients := (clients w)(k \<mapsto> mod_session_list (\<lambda>l. a # l) (cid_refcount_update (\<lambda>n. n + 1) c)),
      sessions := (sessions w)(a \<mapsto> s), next_addr := a + 1\<rparr>"
  shows "owned E (add_mset (Ses a) (add_mset (Ses a) H)) w'" (is "owned E ?H w'")
proof -
  note new = owned_fresh [OF assms(1), folded a] and id = fresh_session_id [OF assms(1,3) s(1)]
  let ?c = "mod_session_list (\<lambda>l. a # l) (cid_refcount_update (\<lambda>n. n + 1) c)"
  have cok: "client_ok H w k c" by (rule ownedD(2) [OF assms(1,2)])
  have ka: "k \<noteq> a" using assms(2) new(1) by auto
  have l: "cb_sessions ?c = a # cb_sessions c" using cok by (simp add: client_ok_def cb_sessions_def mod_session_list_def split: cid_cb_t.splits)
  have tag: "tag_v41 ?c" using cok by (auto simp: client_ok_def mod_session_list_def)
  have nl: "a \<notin> set (cb_sessions c)" using cok new(2) by (auto simp: client_ok_def)
  have n: "count H (Ses a) = 0" using new(7) [of "Ses a"] by (auto simp flip: not_in_iff)
  have kk: "ckey w' = ckey w" "sid w' b = (if b = a then Some (session_id s) else sid w b)" "rkey E w' = rkey E w" for b
    using assms(2) by (auto simp: w' ckey_def sid_def rkey_def fun_eq_iff mod_session_list_def split: cid_cb_t.splits)
  show ?thesis
  proof (rule ownedI)
    fix b u assume u: "sessions w' b = Some u"
    show "session_ok ?H w' b u"
    proof (cases "b = a")
      case True
      then have "u = s" using u by (simp add: w')
      then show ?thesis using True s l n id(2) by (auto simp: session_ok_def session_refs_def w')
    next
      case False
      then have uok: "session_ok H w b u" using u by (intro ownedD(1) [OF assms(1)]) (simp add: w')
      then obtain i where i: "i \<le> global_sequence w" "session_id u = mem64 (session_clientid u) @ mem64 i"
        by (auto simp: session_ok_def)
      then have "\<exists>i \<le> global_sequence w'. session_id u = mem64 (session_clientid u) @ mem64 i"
        using assms(3) by (intro exI [of _ i]) (simp add: w')
      moreover have "\<exists>d. clients w' (clientid_record u) = Some d \<and> b \<in> set (cb_sessions d)"
        using uok assms(2) l by (cases "clientid_record u = k") (auto simp: session_ok_def w')
      ultimately show ?thesis using uok False a by (simp add: session_ok_def session_refs_def w')
    qed
  next
    fix b u assume u: "clients w' b = Some u"
    show "client_ok ?H w' b u"
    proof (cases "b = k")
      case True
      then have "u = ?c" using u by (simp add: w')
      then show ?thesis using True cok l nl tag s(2) a ka
        by (auto simp: client_ok_def client_refs_def in_table_def w')
    next
      case False
      then have uok: "client_ok H w b u" using u by (intro ownedD(2) [OF assms(1)]) (simp add: w')
      then have "a \<notin> set (cb_sessions u)" using new(2) by (auto simp: client_ok_def)
      then show ?thesis using uok False a by (auto simp: client_ok_def client_refs_def in_table_def w')
    qed
  next
    fix q u assume u: "records w' q = Some u"
    then have "record_ok H w q u" by (intro ownedD(3) [OF assms(1)]) (simp add: w')
    then show "record_ok ?H w' q u" using a by (simp add: record_ok_def record_refs_def clients_of_def points_def kk) (simp add: w')
  next
    have t: "tables_ok E w" by (rule ownedD(4) [OF assms(1)])
    show "tables_ok E w'" unfolding tables_ok_def kk
    proof (intro conjI allI impI)
      show "(if b = a then Some (session_id s) else sid w b) = Some i" if "ht_session_id w' i = Some b" for i b
        using that t new(6) [of i] by (auto simp: tables_ok_def w')
      show "b = d" if "(if b = a then Some (session_id s) else sid w b) = Some i \<and>
          (if d = a then Some (session_id s) else sid w d) = Some i" for b d i
        using that id(1) t unfolding tables_ok_def by (auto split: if_splits)
    qed (use t in \<open>simp_all add: tables_ok_def w' del: split_paired_All\<close>)
  next
    fix x assume "x \<in># ?H"
    then show "live w' x" using owned_live [OF assms(1), of x] by (cases x) (auto simp: w')
  qed
qed

lemma owned_hash_session:
  assumes "owned E (add_mset (Ses a) H) w" "sessions w a = Some s" "ht_session_id w (session_id s) = None"
  shows "owned E H (w\<lparr>ht_session_id := (ht_session_id w)(session_id s \<mapsto> a)\<rparr>)" (is "owned E H ?w")
proof (rule ownedI)
  fix b u assume "sessions ?w b = Some u"
  then have u: "sessions w b = Some u" by simp
  have "b = a \<Longrightarrow> u = s" using u assms(2) by simp
  then show "session_ok H ?w b u" using ownedD(1) [OF assms(1) u] assms(3)
    by (cases "b = a") (auto simp: session_ok_def session_refs_def)
next
  fix b u assume "clients ?w b = Some u"
  then show "client_ok H ?w b u" using ownedD(2) [OF assms(1), of b u] by (simp add: client_ok_def client_refs_def in_table_def)
next
  fix q u assume "records ?w q = Some u"
  then show "record_ok H ?w q u" using ownedD(3) [OF assms(1), of q u]
    by (simp add: record_ok_def record_refs_def clients_of_def points_def)
next
  have "tables_ok E w" by (rule ownedD(4) [OF assms(1)])
  then show "tables_ok E ?w" using assms(2) by (simp add: tables_ok_def sid_def del: split_paired_All)
next
  fix x assume "x \<in># H"
  then show "live ?w x" using owned_live [OF assms(1), of x] by (cases x) auto
qed

end
