(* ===== verification/Nfs4_Client_Safety.thy ===== *)
theory Nfs4_Client_Safety
  imports Sal_Client_Safety
begin

text \<open>
  The operations of NFSv4.1 on client ids and sessions never use a released object: from a world in which the
  reference counts are right each of them returns, with the counts right again.
\<close>

section \<open>The ends of references\<close>

lemma dec_session_ref_owned:
  assumes "owned E (add_mset (Ses a) H) w"
  shows "\<exists>w'. dec_session_ref E a w = Some w' \<and> owned E H w' \<and> global_sequence w' = global_sequence w"
proof -
  obtain t where "sessions w a = Some t" using owned_live [OF assms, of "Ses a"] by auto
  with dec_session_owned [OF assms] show ?thesis unfolding dec_session_ref_def frame_def by blast
qed

lemma dec_client_ref_owned:
  assumes "owned E (add_mset (Cli a) H) w"
  shows "\<exists>w'. dec_client_id_ref E a w = Some w' \<and> owned E H w' \<and> frame {} {a} w w'"
  using dec_client_owned [OF assms] by (auto simp: dec_client_id_ref_def)

lemma dec_record_ref_owned:
  assumes "owned E (add_mset (Rec r) H) w"
  shows "\<exists>w'. dec_client_record_ref E r w = Some w' \<and> owned E H w' \<and> frame {} {} w w'"
proof -
  obtain w' where "dec_client_record_ref E r w = Some w'" "owned E H w'" using dec_record_owned [OF assms] by blast
  then show ?thesis using dec_record_keeps [of E r w w'] by (simp add: frame_def)
qed

lemma frame_sequence: "frame S C w w' \<Longrightarrow> global_sequence w' = global_sequence w"
  by (simp add: frame_def)

section \<open>EXCHANGE_ID\<close>

lemma drop_unconfirmed_owned:
  assumes "owned E H w" "Rec r \<in># H"
  shows "\<exists>w'. drop_unconfirmed E r w = Some w' \<and> owned E H w' \<and> global_sequence w' = global_sequence w"
proof -
  obtain rc where rc: "records w r = Some rc" using owned_live [OF assms] by auto
  show ?thesis
  proof (cases "cr_unconfirmed_rec rc")
    case None
    then show ?thesis using rc assms(1) by (simp add: drop_unconfirmed_def)
  next
    case (Some u)
    then obtain c where c: "clients w u = Some c" "cid_confirmed c = UNCONFIRMED_CLIENT_ID"
      using ownedD(3) [OF assms(1) rc] by (auto simp: record_ok_def points_def ckey_def)
    obtain w' where "remove_unconfirmed_client_id E u w = Some (True, w')" "owned E H w'" "frame {} {u} w w'"
      using remove_unconfirmed_owned [OF assms(1) c] by blast
    then show ?thesis using rc Some by (auto simp: drop_unconfirmed_def frame_def)
  qed
qed

lemma record_count_twice: "cr_refcount_update (\<lambda>n. n - 1) (cr_refcount_update (\<lambda>n. n + 1) rc) = rc"
  by (cases rc) simp

lemma insert_owned:
  assumes "owned E H w" "records w r = Some rc" "a = next_addr w"
    and c: "cid_confirmed c = UNCONFIRMED_CLIENT_ID" "cid_client_record c = Some r" "cid_refcount c = 0" "tag_v41 c"
      "cb_sessions c = []" "0 < cid_minorversion c"
    and w2: "w2 = w\<lparr>records := (records w)(r \<mapsto> cr_refcount_update (\<lambda>n. n + 1) rc), next_addr := a + 1, clients := (clients w)(a \<mapsto> c)\<rparr>"
  shows "\<exists>st w'. nfs_client_id_insert E a w2 = Some (st, w') \<and> owned E H w' \<and>
    (st = CLIENT_ID_SUCCESS \<longrightarrow> clients w' a \<noteq> None) \<and> global_sequence w' = global_sequence w"
proof (cases "ht_unconfirmed_client_id w (cid_clientid c)")
  case None
  let ?c = "cid_refcount_update (\<lambda>n. n + 1) c"
  let ?w3 = "w\<lparr>records := (records w)(r \<mapsto> cr_refcount_update (\<lambda>n. n + 1) rc), clients := (clients w)(a \<mapsto> ?c),
    next_addr := a + 1, ht_unconfirmed_client_id := (ht_unconfirmed_client_id w)(cid_clientid c \<mapsto> a)\<rparr>"
  have w3: "owned E H ?w3" by (rule owned_new_client [OF assms(1,2), of ?c a]) (use None c assms(3) in \<open>simp_all add: cb_sessions_def\<close>)
  let ?rc = "(cr_refcount_update (\<lambda>n. n + 1) rc)\<lparr>cr_unconfirmed_rec := Some a\<rparr>"
  have "owned E H (?w3\<lparr>records := (records ?w3)(r \<mapsto> ?rc)\<rparr>)"
    by (rule owned_set_record [OF w3, of r "cr_refcount_update (\<lambda>n. n + 1) rc"]) (use c ownedD(3) [OF assms(1,2)] in \<open>auto simp: points_def ckey_def record_ok_def\<close>)
  moreover have "nfs_client_id_insert E a w2 = Some (CLIENT_ID_SUCCESS, ?w3\<lparr>records := (records ?w3)(r \<mapsto> ?rc)\<rparr>)"
    using None c(2) by (simp add: nfs_client_id_insert_def w2 inc_client_id_ref_def mod_client_def mod_record_def Let_def)
  ultimately show ?thesis by simp
next
  case (Some b)
  have pos: "0 < cr_refcount rc" using ownedD(3) [OF assms(1,2)] by (simp add: record_ok_def)
  have l: "session_list c = Some []" using c(4,5) by (auto simp: session_list_def cb_sessions_def)
  have ca: "(clients w)(a := None) = clients w" using owned_fresh(1) [OF assms(1)] assms(3) by (simp add: fun_upd_idem)
  have cr: "(records w)(r \<mapsto> rc) = records w" using assms(2) by (simp add: fun_upd_idem)
  have "nfs_client_id_insert E a w2 = Some (CLIENT_ID_INSERT_MALLOC_ERROR, w\<lparr>next_addr := a + 1\<rparr>)"
    using Some c(2,3,6) l pos ca cr assms(2)
    by (simp add: nfs_client_id_insert_def w2 free_client_id_def release_ref.simps [of E "Free_client a"]
        release_ref.simps [of E "Delete_sessions []"] dec_client_record_ref_def mod_record_def record_count_twice)
  then show ?thesis using owned_next_addr [OF assms(1)] assms(3) by simp
qed

lemma exchange_id_create_owned:
  assumes "owned E H w" "Rec r \<in># H" "0 < minor"
  shows "\<exists>rc u w'. exchange_id_create E arg minor cred client r w = Some ((rc, u), w') \<and> owned E H w' \<and>
    (rc = CLIENT_ID_SUCCESS \<longrightarrow> clients w' u \<noteq> None) \<and> global_sequence w' = global_sequence w"
proof -
  obtain w1 where w1: "drop_unconfirmed E r w = Some w1" "owned E H w1" "global_sequence w1 = global_sequence w"
    using drop_unconfirmed_owned [OF assms(1,2)] by blast
  obtain rc where rc: "records w1 r = Some rc" using owned_live [OF w1(2) assms(2)] by auto
  let ?w = "snd (new_clientid E w1)"
  have w: "owned E H ?w" "records ?w r = Some rc" using w1(2) rc by (simp_all add: new_clientid_def Let_def)
  obtain c where c: "cid_confirmed c = UNCONFIRMED_CLIENT_ID" "cid_client_record c = Some r" "cid_refcount c = 0" "tag_v41 c"
      "cb_sessions c = []" "0 < cid_minorversion c"
    and create: "exchange_id_create E arg minor cred client r w = map_option (\<lambda>(rc, w). ((rc, next_addr ?w), w))
      (nfs_client_id_insert E (next_addr ?w) (?w\<lparr>records := (records ?w)(r \<mapsto> cr_refcount_update (\<lambda>n. n + 1) rc),
        next_addr := next_addr ?w + 1, clients := (clients ?w)(next_addr ?w \<mapsto> c)\<rparr>))"
  proof (rule that)
    show "exchange_id_create E arg minor cred client r w = map_option (\<lambda>(rc, w). ((rc, next_addr ?w), w))
      (nfs_client_id_insert E (next_addr ?w) (?w\<lparr>records := (records ?w)(r \<mapsto> cr_refcount_update (\<lambda>n. n + 1) rc),
        next_addr := next_addr ?w + 1, clients := (clients ?w)(next_addr ?w \<mapsto>
          \<lparr>cid_clientid = fst (new_clientid E w1), cid_verifier = replicate 8 (CHR 0x00), cid_incoming_verifier = co_verifier arg,
          cid_last_renew = now w1, cid_confirmed = UNCONFIRMED_CLIENT_ID, cid_allow_reclaim = False, cid_credential = cred,
          cid_recov_tag = None, cid_client_record = Some r, cid_cb = v41 \<lparr>cid_reclaim_complete = False, cb_session_list = []\<rparr>,
          first_path_down_resp_time = 0, cid_create_session_sequence = 1,
          cid_create_session_slot = (NFS4ERR_SEQ_MISORDERED, RES_NONE), cid_refcount = 0, cid_lease_reservations = 0,
          cid_minorversion = minor, curr_deleg_grants = 0, cid_gsh_client = client\<rparr>)\<rparr>))"
      using w1(1) rc assms(3) by (auto simp: exchange_id_create_def create_client_id_def new_clientid_def inc_client_record_ref_def
        mod_record_def mod_client_def Let_def split: Option.bind_splits)
  qed (use assms(3) in \<open>simp_all add: cb_sessions_def\<close>)
  show ?thesis using insert_owned [OF w refl c refl] create w1(3) by (auto simp: new_clientid_def Let_def)
qed


lemma owned_new_record:
  assumes "owned E H w" "ht_client_record w (client_record_key E rc) = None"
    and "cr_refcount rc = 1" "cr_confirmed_rec rc = None" "cr_unconfirmed_rec rc = None"
  shows "owned E (add_mset (Rec (next_addr w)) H) (w\<lparr>records := (records w)(next_addr w \<mapsto> rc),
    ht_client_record := (ht_client_record w)(client_record_key E rc \<mapsto> next_addr w), next_addr := next_addr w + 1\<rparr>)"
    (is "owned E ?H ?w")
proof -
  let ?a = "next_addr w"
  note new = owned_fresh [OF assms(1)]
  have n: "count H (Rec ?a) = 0" using new(7) [of "Rec ?a"] by (auto simp flip: not_in_iff)
  have e: "clients_of w ?a = {}"
    using ownedD(2) [OF assms(1)] new(3) by (fastforce simp: clients_of_def ckey_def client_ok_def)
  show ?thesis
  proof (rule ownedI)
    fix b u assume "sessions ?w b = Some u"
    then show "session_ok ?H ?w b u" using ownedD(1) [OF assms(1), of b u] by (simp add: session_ok_def session_refs_def)
  next
    fix b u assume "clients ?w b = Some u"
    then show "client_ok ?H ?w b u" using ownedD(2) [OF assms(1), of b u] by (simp add: client_ok_def client_refs_def in_table_def)
  next
    fix q u assume "records ?w q = Some u"
    then show "record_ok ?H ?w q u" using ownedD(3) [OF assms(1), of q u] n e assms(3-5)
      by (cases "q = ?a") (auto simp: record_ok_def record_refs_def clients_of_def points_def)
  next
    have "tables_ok E w" by (rule ownedD(4) [OF assms(1)])
    moreover have "rkey E ?w b = (if b = ?a then Some (client_record_key E rc) else rkey E w b)" for b by (simp add: rkey_def)
    moreover have "ht_client_record w k \<noteq> Some ?a" for k using table_entries(4) [OF assms(1), of k ?a] new(3) by auto
    ultimately show "tables_ok E ?w" unfolding tables_ok_def by (simp del: split_paired_All)
  next
    fix x assume "x \<in># ?H"
    then show "live ?w x" using owned_live [OF assms(1), of x] by (cases x) auto
  qed
qed

text \<open>The record of an owner, with a reference to it.\<close>
lemma get_record_owned:
  assumes "owned E H w" "v \<noteq> []"
  shows "\<exists>r w'. get_client_record E v p s w = Some (r, w') \<and> owned E (add_mset (Rec r) H) w' \<and>
    global_sequence w' = global_sequence w"
proof -
  let ?r = "\<lparr>cr_refcount = 1, cr_confirmed_rec = None, cr_unconfirmed_rec = None, cr_server_addr = s, cr_pnfs_flags = p,
    cr_client_val = v\<rparr>"
  show ?thesis
  proof (cases "ht_client_record w (client_record_key E ?r)")
    case (Some a)
    then obtain rc where rc: "records w a = Some rc" using table_entries(4) [OF assms(1)] by blast
    have "0 < cr_refcount rc" using ownedD(3) [OF assms(1) rc] by (simp add: record_ok_def)
    then show ?thesis using inc_record_owned [OF assms(1) rc] Some rc assms(2) by (simp add: get_client_record_def)
  next
    case None
    show ?thesis using owned_new_record [OF assms(1) None] None assms(2) by (simp add: get_client_record_def Let_def)
  qed
qed


text \<open>The result of the confirmed record: a status, or the record to answer with and a reference to it, or nothing.  A
  reference may have been lost on the way, which the counts allow.\<close>
lemma owned_leak: "owned E (add_mset x H) w \<Longrightarrow> owned E H w"
proof -
  assume o: "owned E (add_mset x H) w"
  have le: "int (count H y) \<le> int (count (add_mset x H) y)" for y by simp
  show ?thesis
  proof (rule ownedI)
    fix b u assume "sessions w b = Some u"
    then show "session_ok H w b u" using ownedD(1) [OF o, of b u] le [of "Ses b"] by (auto simp: session_ok_def session_refs_def)
  next
    fix b u assume "clients w b = Some u"
    then show "client_ok H w b u" using ownedD(2) [OF o, of b u] le [of "Cli b"] by (auto simp: client_ok_def client_refs_def)
  next
    fix q u assume "records w q = Some u"
    then show "record_ok H w q u" using ownedD(3) [OF o, of q u] le [of "Rec q"] by (auto simp: record_ok_def record_refs_def)
  qed (use o in \<open>auto simp: owned_def\<close>)
qed

text \<open>The record behind a pointer of an owner record.\<close>
lemma pointed_client:
  assumes "owned E H w" "records w r = Some rc"
  shows "cr_confirmed_rec rc = Some a \<Longrightarrow>
      \<exists>c. clients w a = Some c \<and> cid_confirmed c = CONFIRMED_CLIENT_ID \<and> cid_client_record c = Some r"
    and "cr_unconfirmed_rec rc = Some a \<Longrightarrow>
      \<exists>c. clients w a = Some c \<and> cid_confirmed c = UNCONFIRMED_CLIENT_ID \<and> cid_client_record c = Some r"
  using ownedD(3) [OF assms] by (auto simp: record_ok_def points_def ckey_def)

lemma exchange_id_confirmed_owned:
  assumes "owned E H w" "Rec r \<in># H" "owners_released E"
  shows "\<exists>res w'. exchange_id_confirmed E arg cred client r w = Some (res, w') \<and> global_sequence w' = global_sequence w \<and>
    (case res of Inr (Some k) \<Rightarrow> owned E (add_mset (Cli k) H) w' | _ \<Rightarrow> owned E H w')"
proof -
  obtain rc where rc: "records w r = Some rc" using owned_live [OF assms(1,2)] by auto
  show ?thesis
  proof (cases "cr_confirmed_rec rc")
    case None
    then show ?thesis using rc assms(1) by (simp add: exchange_id_confirmed_def Let_def)
  next
    case (Some k)
    then obtain c where c: "clients w k = Some c" using pointed_client(1) [OF assms(1) rc] by blast
    let ?w = "set_client k (cid_refcount_update (\<lambda>n. n + 1) c) w"
    note inc = inc_client_owned [OF assms(1) c]
    obtain w1 where w1: "release_ref E (Dec_client k) ?w = Some w1" "owned E H w1" "frame {} {k} ?w w1"
      using dec_client_owned [OF inc(2)] by blast
    obtain b w2 where w2: "nfs_client_id_expire E k False ?w = Some (b, w2)" "owned E (add_mset (Cli k) H) w2"
      "frame (set (cb_sessions (cid_refcount_update (\<lambda>n. n + 1) c))) {k} ?w w2"
      using expire_owned [OF inc(2) _ assms(3)] by fastforce
    obtain w3 where w3: "release_ref E (Dec_client k) w2 = Some w3" "owned E H w3" "frame {} {k} w2 w3"
      using dec_client_owned [OF w2(2)] by blast
    show ?thesis using rc Some inc w1 w2 w3 owned_leak [OF inc(2)]
      by (auto simp: exchange_id_confirmed_def dec_client_id_ref_def frame_def Let_def)
  qed
qed

lemma exchange_id_owned:
  assumes "owned E H w" "owners_released E" "0 < minor" "co_ownerid arg \<noteq> []"
  shows "\<exists>res w'. exchange_id_records E arg minor cred client sa w = Some (res, w') \<and> owned E H w' \<and>
    global_sequence w' = global_sequence w"
proof -
  obtain r w1 where w1: "get_client_record E (co_ownerid arg) (pnfs_roles E (eia_flags arg)) sa w = Some (r, w1)"
    "owned E (add_mset (Rec r) H) w1" "global_sequence w1 = global_sequence w"
    using get_record_owned [OF assms(1,4)] by blast
  obtain rc where rc: "records w1 r = Some rc" using owned_live [OF w1(2), of "Rec r"] by auto
  obtain choice w2 where w2: "exchange_id_confirmed E arg cred client r w1 = Some (choice, w2)"
    "global_sequence w2 = global_sequence w1"
    "case choice of Inr (Some k) \<Rightarrow> owned E (add_mset (Cli k) (add_mset (Rec r) H)) w2 | _ \<Rightarrow> owned E (add_mset (Rec r) H) w2"
    using exchange_id_confirmed_owned [OF w1(2) _ assms(2)] by force
  have fin: "\<exists>w'. dec_client_record_ref E r v = Some w' \<and> owned E H w' \<and> global_sequence w' = global_sequence v"
    if "owned E (add_mset (Rec r) H) v" for v
    using dec_record_ref_owned [OF that] frame_sequence by blast
  note defs = exchange_id_records_def w1(1) rc w2(1) Let_def
  show ?thesis
  proof (cases choice)
    case (Inl st)
    then show ?thesis using fin [of w2] w2 w1(3) by (auto simp: defs)
  next
    case (Inr conf)
    show ?thesis
    proof (cases conf)
      case None
      obtain st u w3 where "exchange_id_create E arg minor cred client r w2 = Some ((st, u), w3)"
        "owned E (add_mset (Rec r) H) w3" "st = CLIENT_ID_SUCCESS \<longrightarrow> clients w3 u \<noteq> None" "global_sequence w3 = global_sequence w2"
        using exchange_id_create_owned [of E "add_mset (Rec r) H" w2 r minor, where arg = arg and cred = cred and client = client]
          w2(3) Inr None assms(3) by auto
      then show ?thesis using fin [of w3] Inr None w2 w1(3) by (cases "st = CLIENT_ID_SUCCESS") (auto simp: defs)
    next
      case (Some k)
      then have o: "owned E (add_mset (Cli k) (add_mset (Rec r) H)) w2" using w2(3) Inr by simp
      obtain c where "clients w2 k = Some c" using owned_live [OF o, of "Cli k"] by auto
      moreover obtain w3 where "release_ref E (Dec_client k) w2 = Some w3" "owned E (add_mset (Rec r) H) w3" "frame {} {k} w2 w3"
        using dec_client_owned [OF o] by blast
      ultimately show ?thesis using fin [of w3] Inr Some w2(2) w1(3) by (auto simp: defs dec_client_id_ref_def frame_def)
    qed
  qed
qed


section \<open>DESTROY_SESSION, DESTROY_CLIENTID\<close>

lemma session_conn_owned:
  assumes "owned E H w" "sessions w a = Some s"
  shows "\<exists>b s' w'. check_session_conn a addr can w = Some (b, w') \<and> owned E H w' \<and> w' = set_session a s' w \<and> same_session s s'"
proof -
  let ?s = "connections_update (\<lambda>cs. cs @ [addr]) s"
  have new: "owned E H (set_session a ?s w)"
    by (rule owned_set_session [OF assms]) (use ownedD(1) [OF assms] in \<open>simp_all add: session_ok_def slots_typed_def\<close>)
  have id: "set_session a s w = w" using assms(2) by (simp add: fun_upd_idem)
  show ?thesis
  proof (cases "addr \<in> set (connections s) \<or> \<not> can \<or> length (connections s) = NFS41_MAX_CONNECTIONS")
    case True
    then have "check_session_conn a addr can w = Some (addr \<in> set (connections s), w)"
      using assms(2) by (auto simp: check_session_conn_def)
    then show ?thesis using assms(1) id by (intro exI [of _ "addr \<in> set (connections s)"] exI [of _ s] exI [of _ w]) simp
  next
    case False
    then have "check_session_conn a addr can w = Some (True, set_session a ?s w)"
      using assms(2) by (simp add: check_session_conn_def mod_session_def)
    then show ?thesis using new by (intro exI [of _ True] exI [of _ ?s] exI [of _ "set_session a ?s w"]) (simp add: same_session_def)
  qed
qed

lemma destroy_session_owned:
  assumes "owned E H w"
  shows "\<exists>res w'. nfs4_op_destroy_session E i minor addr w = Some (res, w') \<and> owned E H w' \<and> global_sequence w' = global_sequence w"
proof (cases "minor = 0 \<or> ht_session_id w i = None")
  case True
  then show ?thesis using assms by (auto simp: nfs4_op_destroy_session_def nfs41_Session_Get_Pointer_def)
next
  case False
  then obtain a where "ht_session_id w i = Some a" by auto
  with table_entries(1) [OF assms] obtain s where a: "ht_session_id w i = Some a" "sessions w a = Some s" by blast
  note inc = inc_session_owned [OF assms a(2)]
  let ?w = "set_session a (session_refcount_update (\<lambda>n. n + 1) s) w"
  obtain b s1 w1 where w1: "check_session_conn a addr False ?w = Some (b, w1)" "owned E (add_mset (Ses a) H) w1" "w1 = set_session a s1 ?w"
    using session_conn_owned [OF inc(2), of a _ addr False] by auto
  obtain w2 where w2: "release_ref E (Session_Del i) w1 = Some w2" "owned E (add_mset (Ses a) H) w2"
    "global_sequence w2 = global_sequence w1"
    using session_del_owned [OF w1(2), of i] unfolding frame_def by blast
  show ?thesis using False a(1) inc(1) w1(1,3) w2 dec_session_ref_owned [OF w1(2)] dec_session_ref_owned [OF w2(2)]
    by (auto simp: nfs4_op_destroy_session_def nfs41_Session_Get_Pointer_def nfs41_Session_Del_def)
qed


lemma destroy_records_owned:
  assumes "owned E H w" "Rec r \<in># H"
  shows "\<exists>st w'. destroy_records E r w = Some (st, w') \<and> owned E H w' \<and> global_sequence w' = global_sequence w"
proof -
  obtain rc where rc: "records w r = Some rc" using owned_live [OF assms] by auto
  note ptr = pointed_client [OF assms(1) rc]
  have drop: "\<exists>w'. (case cr_unconfirmed_rec rc of None \<Rightarrow> Some (NFS4_OK, v)
      | Some u \<Rightarrow> do { (_, w) \<leftarrow> remove_unconfirmed_client_id E u v; Some (NFS4_OK, w) }) = Some (NFS4_OK, w') \<and>
      owned E H w' \<and> global_sequence w' = global_sequence v"
    if v: "owned E H v" "\<And>u c. clients w u = Some c \<Longrightarrow> cid_confirmed c = UNCONFIRMED_CLIENT_ID \<Longrightarrow> clients v u = Some c" for v
  proof (cases "cr_unconfirmed_rec rc")
    case (Some u)
    then obtain c where c: "clients v u = Some c" "cid_confirmed c = UNCONFIRMED_CLIENT_ID" using ptr(2) v(2) by blast
    then show ?thesis using remove_unconfirmed_owned [OF v(1) c] Some by (auto simp: frame_def)
  qed (use v(1) in simp)
  show ?thesis
  proof (cases "cr_confirmed_rec rc")
    case None
    then show ?thesis using drop [OF assms(1)] rc by (fastforce simp: destroy_records_def)
  next
    case (Some k)
    then obtain c where c: "clients w k = Some c" "cid_confirmed c = CONFIRMED_CLIENT_ID" using ptr(1) by blast
    then obtain l where l: "session_list c = Some l"
      using ownedD(2) [OF assms(1) c(1)] by (auto simp: client_ok_def session_list_def)
    show ?thesis
    proof (cases "l = []")
      case False
      then show ?thesis using rc Some c l assms(1) by (simp add: destroy_records_def)
    next
      case True
      let ?f = "\<lambda>c. c\<lparr>cid_recov_tag := None\<rparr>" and ?w = "w\<lparr>owners := rm_clid E c (owners w)\<rparr>"
      have t: "mod_client k ?f ?w = Some (set_client k (?f c) ?w)" "owned E H (set_client k (?f c) ?w)"
        by (rule touch_owned [of E H ?w k c ?f]; use assms(1) c(1) in simp)+
      obtain w2 where w2: "remove_confirmed_client_id E k (set_client k (?f c) ?w) = Some (True, w2)" "owned E H w2"
        "frame {} {k} (set_client k (?f c) ?w) w2"
        using remove_confirmed_owned [OF t(2), of k "?f c"] c(2) by auto
      have "clients w2 u = Some d" if "clients w u = Some d" "cid_confirmed d = UNCONFIRMED_CLIENT_ID" for u d
        using that w2(3) c by (cases "u = k") (simp_all add: frame_def)
      from drop [OF w2(2) this] show ?thesis using rc Some c l True t(1) w2(1,3)
        by (auto simp: destroy_records_def frame_def)
    qed
  qed
qed

lemma lookup_owned:
  assumes "owned E H w" "get = nfs_client_id_get_confirmed E i \<or> get = nfs_client_id_get_unconfirmed E i"
  shows "\<exists>st x w'. get w = Some ((st, x), w') \<and> global_sequence w' = global_sequence w \<and>
    (st = CLIENT_ID_SUCCESS \<longleftrightarrow> x \<noteq> None) \<and> owned E (case x of None \<Rightarrow> H | Some a \<Rightarrow> add_mset (Cli a) H) w'"
proof -
  have "\<exists>st x w'. nfs_client_id_get E ht i w = Some ((st, x), w') \<and> global_sequence w' = global_sequence w \<and>
      (st = CLIENT_ID_SUCCESS \<longleftrightarrow> x \<noteq> None) \<and> owned E (case x of None \<Rightarrow> H | Some a \<Rightarrow> add_mset (Cli a) H) w'"
    if "ht = ht_confirmed_client_id w \<or> ht = ht_unconfirmed_client_id w" for ht
    using client_get_owned [OF assms(1), of ht i] table_entries(2,3) [OF assms(1)] that by fastforce
  then show ?thesis using assms(2) by (auto simp: nfs_client_id_get_confirmed_def nfs_client_id_get_unconfirmed_def)
qed

definition destroy_found :: "'o client_env \<Rightarrow> nat \<Rightarrow> 'o client_world \<Rightarrow> ((nfsstat4 \<times> nfs_resop4_u) \<times> 'o client_world) option" where
  "destroy_found E f w = do { c \<leftarrow> clients w f;
      case cid_client_record c of
        None \<Rightarrow> Some ((NFS4ERR_STALE_CLIENTID, RES_NONE), w)
      | Some r \<Rightarrow> do {
          w \<leftarrow> inc_client_record_ref r w;
          (st, w) \<leftarrow> destroy_records E r w;
          w \<leftarrow> dec_client_record_ref E r w;
          w \<leftarrow> dec_client_id_ref E f w;
          Some ((st, RES_NONE), w) } }"

lemma destroy_found_owned:
  assumes "owned E (add_mset (Cli f) H) w"
  shows "\<exists>res w'. destroy_found E f w = Some (res, w') \<and> owned E H w' \<and> global_sequence w' = global_sequence w"
proof -
  obtain c where c: "clients w f = Some c" using owned_live [OF assms, of "Cli f"] by auto
  show ?thesis
  proof (cases "cid_client_record c")
    case None
    then show ?thesis using c owned_leak [OF assms] by (simp add: destroy_found_def)
  next
    case (Some r)
    then obtain rc where rc: "records w r = Some rc" using ownedD(2) [OF assms c] by (auto simp: client_ok_def)
    note inc = inc_record_owned [OF assms rc]
    obtain st w1 where w1: "destroy_records E r (set_record r (cr_refcount_update (\<lambda>n. n + 1) rc) w) = Some (st, w1)"
      "owned E (add_mset (Rec r) (add_mset (Cli f) H)) w1" "global_sequence w1 = global_sequence w"
      using destroy_records_owned [OF inc(2), of r] by auto
    obtain w2 where w2: "dec_client_record_ref E r w1 = Some w2" "owned E (add_mset (Cli f) H) w2" "global_sequence w2 = global_sequence w1"
      using dec_record_ref_owned [OF w1(2)] frame_sequence by blast
    obtain w3 where "dec_client_id_ref E f w2 = Some w3" "owned E H w3" "global_sequence w3 = global_sequence w2"
      using dec_client_ref_owned [OF w2(2)] frame_sequence by blast
    then show ?thesis using c Some inc(1) w1(1,3) w2(1,3) by (simp add: destroy_found_def)
  qed
qed

lemma destroy_clientid_owned:
  assumes "owned E H w"
  shows "\<exists>res w'. nfs4_op_destroy_clientid E i w = Some (res, w') \<and> owned E H w' \<and> global_sequence w' = global_sequence w"
proof -
  note op = nfs4_op_destroy_clientid_def [folded destroy_found_def]
  obtain st conf w1 where w1: "nfs_client_id_get_confirmed E i w = Some ((st, conf), w1)" "global_sequence w1 = global_sequence w"
    "st = CLIENT_ID_SUCCESS \<longleftrightarrow> conf \<noteq> None" "owned E (case conf of None \<Rightarrow> H | Some a \<Rightarrow> add_mset (Cli a) H) w1"
    using lookup_owned [OF assms, where get = "nfs_client_id_get_confirmed E i"] by blast
  show ?thesis
  proof (cases conf)
    case (Some f)
    then show ?thesis using w1 destroy_found_owned [of E f H w1] by (auto simp: op)
  next
    case None
    have o1: "owned E H w1" using w1(4) None by simp
    obtain st2 unconf w2 where w2: "nfs_client_id_get_unconfirmed E i w1 = Some ((st2, unconf), w2)"
      "global_sequence w2 = global_sequence w1" "owned E (case unconf of None \<Rightarrow> H | Some a \<Rightarrow> add_mset (Cli a) H) w2"
      using lookup_owned [OF o1, where get = "nfs_client_id_get_unconfirmed E i"] by blast
    let ?H = "case unconf of None \<Rightarrow> H | Some a \<Rightarrow> add_mset (Cli a) H"
    obtain st3 conf3 w3 where w3: "nfs_client_id_get_confirmed E i w2 = Some ((st3, conf3), w3)" "global_sequence w3 = global_sequence w2"
      "st3 = CLIENT_ID_SUCCESS \<longleftrightarrow> conf3 \<noteq> None" "owned E (case conf3 of None \<Rightarrow> ?H | Some a \<Rightarrow> add_mset (Cli a) ?H) w3"
      using lookup_owned [OF w2(3), where get = "nfs_client_id_get_confirmed E i"] by blast
    note defs = op w1(1,2) w2(1,2) w3(1,2)
    show ?thesis
    proof (cases conf3)
      case c3: None
      then show ?thesis using w1(3) w3(3,4) None destroy_found_owned [of E _ H w3]
        by (cases unconf) (auto simp: defs)
    next
      case c3: (Some f)
      show ?thesis
      proof (cases unconf)
        case u: None
        then show ?thesis using w1(3) w3(3,4) None c3 destroy_found_owned [of E f H w3] by (auto simp: defs)
      next
        case u: (Some a)
        then have "owned E (add_mset (Cli a) (add_mset (Cli f) H)) w3" using w3(4) c3 by (simp add: add_mset_commute)
        then obtain w4 where "dec_client_id_ref E a w3 = Some w4" "owned E (add_mset (Cli f) H) w4" "global_sequence w4 = global_sequence w3"
          using dec_client_ref_owned frame_sequence by blast
        then show ?thesis using w1(3) w3(3) None c3 u destroy_found_owned [of E f H w4] by (auto simp: defs)
      qed
    qed
  qed
qed

end
