(* ===== verification/Nfs4_Session_Safety.thy ===== *)
theory Nfs4_Session_Safety
  imports Nfs4_Client_Safety
begin

text \<open>
  CREATE_SESSION, BIND_CONN_TO_SESSION, SEQUENCE and the requests of NFSv4.1 as a whole: with right reference
  counts each of them returns, with right counts.
\<close>

section \<open>The confirmation of a client id\<close>

lemma confirm_owned:
  assumes "owned E (add_mset (Cli u) H) w" "clients w u = Some c" "cid_confirmed c = UNCONFIRMED_CLIENT_ID"
  shows "\<exists>st w'. nfs_client_id_confirm E u w = Some (st, w') \<and> owned E (add_mset (Cli u) H) w' \<and>
    global_sequence w' = global_sequence w"
proof -
  obtain q rc where q: "cid_client_record c = Some q" "records w q = Some rc" "cr_confirmed_rec rc \<noteq> Some u"
    by (rule record_of_client [OF assms(1,2)]) (use assms(3) in auto)
  let ?rc = "rc\<lparr>cr_unconfirmed_rec := None\<rparr>"
  let ?w1 = "set_record q ?rc w"
  have w1: "owned E (add_mset (Cli u) H) ?w1" by (rule owned_set_record [OF assms(1) q(2)])
    (use ownedD(3) [OF assms(1) q(2)] in \<open>simp_all add: record_ok_def\<close>)
  have un: "unpointed ?w1 u" by (rule unpointedI [OF w1]) (use assms(2) q in auto)
  have t: "ht_unconfirmed_client_id w (cid_clientid c) = Some u" "ht_confirmed_client_id w i \<noteq> Some u"
    "ht_unconfirmed_client_id w i = Some u \<Longrightarrow> i = cid_clientid c" for i
    using ownedD(2) [OF assms(1,2)] assms(2,3) table_entries(2,3) [OF assms(1), of i u]
    by (auto simp: client_ok_def in_table_def)
  show ?thesis
  proof (cases "ht_confirmed_client_id w (cid_clientid c)")
    case None
    let ?c = "c\<lparr>cid_confirmed := CONFIRMED_CLIENT_ID\<rparr>"
    let ?hu = "(ht_unconfirmed_client_id w)(cid_clientid c := None)" and ?hc = "(ht_confirmed_client_id w)(cid_clientid c \<mapsto> u)"
    let ?w2 = "?w1\<lparr>clients := (clients w)(u \<mapsto> ?c), ht_confirmed_client_id := ?hc, ht_unconfirmed_client_id := ?hu\<rparr>"
    have hc: "?hc i = Some u \<longleftrightarrow> i = cid_clientid c" and hu: "?hu i \<noteq> Some u" for i
      using t(2) [of i] t(3) [of i] by auto
    have w2: "owned E (add_mset (Cli u) H) ?w2"
      by (rule owned_restate [OF w1 _ un, where c = c and c' = ?c and hc = ?hc and hu = ?hu])
        (simp_all only: hc hu simp_thms, simp_all add: assms(2) None t(1,2) q(1) in_table_def)
    let ?rc3 = "?rc\<lparr>cr_confirmed_rec := Some u\<rparr>"
    have w3: "owned E (add_mset (Cli u) H) (set_record q ?rc3 ?w2)"
      by (rule owned_set_record [OF w2, of q ?rc])
        (use ownedD(3) [OF assms(1) q(2)] q(1) in \<open>auto simp: record_ok_def points_def ckey_def\<close>)
    obtain tag os where add: "add_clid E ?c (owners w) = (tag, os)" by fastforce
    have w4: "owned E (add_mset (Cli u) H) (set_client u (?c\<lparr>cid_recov_tag := tag\<rparr>) (set_record q ?rc3 ?w2))"
      using touch_owned(2) [OF w3, of u ?c "cid_recov_tag_update (\<lambda>_. tag)"] by simp
    let ?w5 = "w\<lparr>ht_unconfirmed_client_id := ?hu, ht_confirmed_client_id := ?hc, records := (records w)(q \<mapsto> ?rc3),
      clients := (clients w)(u \<mapsto> ?c\<lparr>cid_recov_tag := tag\<rparr>), owners := os\<rparr>"
    have "?w5 = (set_client u (?c\<lparr>cid_recov_tag := tag\<rparr>) (set_record q ?rc3 ?w2))\<lparr>owners := os\<rparr>" by simp
    with w4 have "owned E (add_mset (Cli u) H) ?w5" by (metis owned_irrelevant(1))
    moreover have "nfs_client_id_confirm E u w = Some (CLIENT_ID_SUCCESS, ?w5)" using assms(2) q(1,2) t(1) None add
      by (simp add: nfs_client_id_confirm_def mod_record_def mod_client_def Let_def)
    ultimately show ?thesis by simp
  next
    case (Some b)
    let ?c = "c\<lparr>cid_confirmed := EXPIRED_CLIENT_ID\<rparr>"
    let ?hu = "(ht_unconfirmed_client_id w)(cid_clientid c := None)"
    let ?w2 = "?w1\<lparr>ht_unconfirmed_client_id := ?hu, clients := (clients w)(u \<mapsto> ?c)\<rparr>"
    have w2: "?w2 = ?w1\<lparr>clients := (clients w)(u \<mapsto> ?c), ht_unconfirmed_client_id := ?hu\<rparr>" by simp
    have "owned E (add_mset (Cli u) (add_mset (Cli u) H)) ?w2" unfolding w2
      using owned_unhash_unconfirmed [OF w1 _ un, of c ?c] assms(2,3) by simp
    then obtain w' where "dec_client_id_ref E u ?w2 = Some w'" "owned E (add_mset (Cli u) H) w'" "global_sequence w' = global_sequence ?w2"
      using dec_client_ref_owned frame_sequence by blast
    then show ?thesis using assms(2) q(1,2) t(1) Some
      by (simp add: nfs_client_id_confirm_def mod_record_def mod_client_def Let_def)
  qed
qed

lemma take_confirmed_owned:
  assumes "owned E H w" "Rec r \<in># H" "owners_released E"
  shows "\<exists>k w'. take_confirmed E r i w = Some (k, w') \<and> owned E (case k of None \<Rightarrow> H | Some a \<Rightarrow> add_mset (Cli a) H) w' \<and>
    (\<forall>u c. clients w u = Some c \<and> cid_confirmed c = UNCONFIRMED_CLIENT_ID \<longrightarrow> clients w' u = Some c) \<and>
    global_sequence w' = global_sequence w"
proof -
  obtain rc where rc: "records w r = Some rc" using owned_live [OF assms(1,2)] by auto
  show ?thesis
  proof (cases "cr_confirmed_rec rc")
    case None
    then show ?thesis using rc assms(1) by (simp add: take_confirmed_def)
  next
    case (Some k)
    then obtain c where c: "clients w k = Some c" "cid_confirmed c = CONFIRMED_CLIENT_ID" using pointed_client(1) [OF assms(1) rc] by blast
    let ?w = "set_client k (cid_refcount_update (\<lambda>n. n + 1) c) w"
    note inc = inc_client_owned [OF assms(1) c(1)]
    obtain b S w2 where w2: "nfs_client_id_expire E k False ?w = Some (b, w2)" "owned E (add_mset (Cli k) H) w2" "frame S {k} ?w w2"
      using expire_owned [OF inc(2) _ assms(3)] by fastforce
    obtain w3 where w3: "dec_client_id_ref E k w2 = Some w3" "owned E H w3" "frame {} {k} w2 w3"
      using dec_client_ref_owned [OF w2(2)] by blast
    have keep: "\<forall>u d. clients w u = Some d \<and> cid_confirmed d = UNCONFIRMED_CLIENT_ID \<longrightarrow> clients v u = Some d"
      if "v = ?w \<or> v = w3" for v
    proof (intro allI impI)
      fix u d assume u: "clients w u = Some d \<and> cid_confirmed d = UNCONFIRMED_CLIENT_ID"
      with c have "u \<noteq> k" by auto
      then show "clients v u = Some d" using that u w2(3) w3(3) by (auto simp: frame_def)
    qed
    show ?thesis
    proof (cases "cid_clientid c = i")
      case True
      then have "take_confirmed E r i w = Some (Some k, ?w)" using rc Some inc(1) by (simp add: take_confirmed_def)
      then show ?thesis using inc(2) keep [of ?w] by (intro exI [of _ "Some k"] exI [of _ ?w]) simp
    next
      case False
      then have "take_confirmed E r i w = Some (None, w3)" using rc Some inc(1) w2(1) w3(1) by (simp add: take_confirmed_def)
      moreover have "global_sequence w3 = global_sequence w" using w2(3) w3(3) by (simp add: frame_def)
      ultimately show ?thesis using w3(2) keep [of w3] by (intro exI [of _ None] exI [of _ w3]) simp
    qed
  qed
qed

section \<open>CREATE_SESSION\<close>

lemma create_session_confirm_owned:
  assumes "owned E (add_mset (Ses s) (add_mset (Cli f) H)) w" "Rec r \<in># H" "owners_released E"
    and "unconf = Some f \<and> conf = None \<and> clients w f = Some c \<and> cid_confirmed c = UNCONFIRMED_CLIENT_ID \<or>
      unconf = None \<and> conf = Some f"
  shows "\<exists>x k w'. create_session_confirm E arg unconf conf r s w = Some ((x, k), w') \<and>
    owned E (add_mset (Ses s) (add_mset (Cli k) H)) w' \<and> (\<forall>j. x = Inr j \<longrightarrow> j = k) \<and> global_sequence w' = global_sequence w"
  using assms(4)
proof (elim disjE conjE)
  assume "unconf = None" "conf = Some f"
  then show ?thesis using assms(1) by (simp add: create_session_confirm_def)
next
  assume u: "unconf = Some f" "conf = None" and c: "clients w f = Some c" "cid_confirmed c = UNCONFIRMED_CLIENT_ID"
  obtain k w1 where w1: "take_confirmed E r (csa_clientid arg) w = Some (k, w1)"
    "owned E (case k of None \<Rightarrow> add_mset (Ses s) (add_mset (Cli f) H)
      | Some a \<Rightarrow> add_mset (Cli a) (add_mset (Ses s) (add_mset (Cli f) H))) w1"
    "clients w1 f = Some c" "global_sequence w1 = global_sequence w"
    using take_confirmed_owned [OF assms(1) _ assms(3), of r "csa_clientid arg"] assms(2) c by fastforce
  show ?thesis
  proof (cases k)
    case (Some a)
    then have "owned E (add_mset (Cli f) (add_mset (Ses s) (add_mset (Cli a) H))) w1" using w1(2) by (simp add: add_mset_commute)
    then obtain w2 where w2: "remove_unconfirmed_client_id E f w1 = Some (True, w2)"
      "owned E (add_mset (Cli f) (add_mset (Ses s) (add_mset (Cli a) H))) w2" "global_sequence w2 = global_sequence w1"
      using remove_unconfirmed_owned [OF _ w1(3) c(2)] frame_sequence by blast
    obtain w3 where "dec_client_id_ref E f w2 = Some w3" "owned E (add_mset (Ses s) (add_mset (Cli a) H)) w3"
      "global_sequence w3 = global_sequence w2" using dec_client_ref_owned [OF w2(2)] frame_sequence by blast
    then show ?thesis using u Some w1(1,4) w2(1,3) by (simp add: create_session_confirm_def)
  next
    case None
    then have "owned E (add_mset (Cli f) (add_mset (Ses s) H)) w1" using w1(2) by (simp add: add_mset_commute)
    from confirm_owned [OF this w1(3) c(2)]
    obtain st w2 where w2: "nfs_client_id_confirm E f w1 = Some (st, w2)" "owned E (add_mset (Cli f) (add_mset (Ses s) H)) w2"
      "global_sequence w2 = global_sequence w1" by blast
    obtain t d where td: "sessions w2 s = Some t" "clients w2 f = Some d"
      using owned_live [OF w2(2), of "Ses s"] owned_live [OF w2(2), of "Cli f"] by auto
    show ?thesis
    proof (cases "st = CLIENT_ID_SUCCESS")
      case True
      let ?f = "\<lambda>c. c\<lparr>cid_allow_reclaim := chk_clid E c (owners w2)\<rparr>"
      have "mod_client f ?f w2 = Some (set_client f (?f d) w2)" "owned E (add_mset (Cli f) (add_mset (Ses s) H)) (set_client f (?f d) w2)"
        using touch_owned [OF w2(2) td(2), of ?f] by simp_all
      then show ?thesis using u None w1(1,4) w2(1,3) True by (simp add: create_session_confirm_def add_mset_commute)
    next
      case False
      obtain w3 where "release_ref E (Session_Del (session_id t)) w2 = Some w3"
        "owned E (add_mset (Cli f) (add_mset (Ses s) H)) w3" "global_sequence w3 = global_sequence w2"
        using session_del_owned [OF w2(2)] frame_sequence by blast
      then show ?thesis using u None w1(1,4) w2(1,3) False td(1)
        by (auto simp: create_session_confirm_def nfs41_Session_Del_def add_mset_commute)
    qed
  qed
qed

text \<open>The new session, in its table.\<close>
lemma new_session_owned:
  assumes "owned E H w" "clients w f = Some c" "global_sequence w < global_sequence w + 1"
  shows "\<exists>a w1 w2. new_session E arg f addr w = Some (a, w1) \<and> nfs41_Session_Set a w1 = Some (True, w2) \<and>
    owned E (add_mset (Ses a) H) w2 \<and> global_sequence w2 = global_sequence w + 1 \<and>
    (\<exists>d. clients w2 f = Some d \<and> cid_confirmed d = cid_confirmed c)"
proof -
  let ?n = "min (param_nb_slots E) (ca_maxrequests (csa_fore_chan_attrs arg))" and ?a = "next_addr w"
  let ?s = "\<lparr>session_id = mem64 (csa_clientid arg) @ mem64 (global_sequence w + 1),
    fore_channel_attrs = (csa_fore_chan_attrs arg)\<lparr>ca_maxrequests := ?n\<rparr>, back_channel_attrs = csa_back_chan_attrs arg,
    connections = [addr], clientid_record = f, session_clientid = csa_clientid arg, session_cb_program = 0,
    session_bc_up = False, session_refcount = 2, nb_slots = ?n,
    fc_slots = replicate (unat ?n) \<lparr>slot_sequence = 0, slot_cached_result = \<lparr>comp_status = NFS4_OK, resarray = []\<rparr>,
      slot_res_cached = False\<rparr>\<rparr>"
  let ?c = "mod_session_list (\<lambda>l. ?a # l) (cid_refcount_update (\<lambda>n. n + 1) c)"
  let ?w1 = "w\<lparr>global_sequence := global_sequence w + 1, clients := (clients w)(f \<mapsto> ?c),
    sessions := (sessions w)(?a \<mapsto> ?s), next_addr := ?a + 1\<rparr>"
  have tag: "tag_v41 c" using ownedD(2) [OF assms(1,2)] by (simp add: client_ok_def)
  have o: "owned E (add_mset (Ses ?a) (add_mset (Ses ?a) H)) ?w1"
    by (rule owned_new_session [OF assms, of ?s ?a]) (simp_all add: slots_typed_def)
  have new: "new_session E arg f addr w = Some (?a, ?w1)" using assms(2) tag
    by (auto simp: new_session_def nfs41_Build_sessionid_def inc_client_id_ref_def relink_def mod_client_def session_list_def
        mod_session_list_def Let_def)
  have free: "ht_session_id w (session_id ?s) = None"
    using fresh_session_id(2) [OF assms(1,3), of "mem64 (csa_clientid arg) @ mem64 (global_sequence w + 1)" "csa_clientid arg"] by simp
  let ?w2 = "?w1\<lparr>ht_session_id := (ht_session_id w)(session_id ?s \<mapsto> ?a)\<rparr>"
  have "owned E (add_mset (Ses ?a) H) ?w2" using owned_hash_session [OF o, of ?s] free by simp
  moreover have "nfs41_Session_Set ?a ?w1 = Some (True, ?w2)" using free by (simp add: nfs41_Session_Set_def)
  moreover have "cid_confirmed ?c = cid_confirmed c" by (simp add: mod_session_list_def split: cid_cb_t.splits)
  ultimately show ?thesis using new by (intro exI [of _ ?a] exI [of _ ?w1] exI [of _ ?w2]) simp
qed

lemma back_channel_owned:
  assumes "owned E H w" "sessions w a = Some s"
  shows "\<exists>f w' s'. create_back_channel E arg a w = Some (f, w') \<and> owned E H w' \<and> sessions w' a = Some s' \<and>
    clients w' = clients w \<and> global_sequence w' = global_sequence w"
proof -
  let ?s = "s\<lparr>session_cb_program := csa_cb_program arg, session_bc_up := create_chan_v41 E a\<rparr>"
  have "owned E H (set_session a ?s w)"
    by (rule owned_set_session [OF assms]) (use ownedD(1) [OF assms] in \<open>simp_all add: session_ok_def slots_typed_def\<close>)
  then show ?thesis using assms by (auto simp: create_back_channel_def mod_session_def Let_def)
qed

lemma create_session_body_owned:
  assumes "owned E (add_mset (Cli f) H) w" "Rec r \<in># H" "owners_released E" "global_sequence w < global_sequence w + 1"
    and c: "clients w f = Some c" "unconf = Some f \<and> conf = None \<and> cid_confirmed c = UNCONFIRMED_CLIENT_ID \<or> unconf = None \<and> conf = Some f"
  shows "\<exists>res k s w'. create_session_body E arg cred addr unconf conf f r w = Some ((res, k, s), w') \<and>
    owned E (case s of None \<Rightarrow> add_mset (Cli k) H | Some a \<Rightarrow> add_mset (Ses a) (add_mset (Cli k) H)) w' \<and>
    global_sequence w' \<in> {global_sequence w, global_sequence w + 1}"
proof (cases "csa_sequence arg + 1 = cid_create_session_sequence c \<or> csa_sequence arg \<noteq> cid_create_session_sequence c \<or>
    \<not> nfs_compare_clientcred E (cid_credential c) cred \<or> csa_flags arg AND NOT CREATE_SESSION4_FLAGS \<noteq> 0 \<or>
    channel_too_small (csa_fore_chan_attrs arg) \<or> channel_too_small (csa_back_chan_attrs arg)")
  case True
  then show ?thesis using c(1) assms(1) by (auto simp: create_session_body_def Let_def)
next
  case False
  obtain a w1 w2 d where w2: "new_session E arg f addr w = Some (a, w1)" "nfs41_Session_Set a w1 = Some (True, w2)"
    "owned E (add_mset (Ses a) (add_mset (Cli f) H)) w2" "global_sequence w2 = global_sequence w + 1"
    "clients w2 f = Some d" "cid_confirmed d = cid_confirmed c"
    using new_session_owned [OF assms(1) c(1) assms(4)] by blast
  obtain x k w3 where w3: "create_session_confirm E arg unconf conf r a w2 = Some ((x, k), w3)"
    "owned E (add_mset (Ses a) (add_mset (Cli k) H)) w3" "\<forall>j. x = Inr j \<longrightarrow> j = k" "global_sequence w3 = global_sequence w2"
    using create_session_confirm_owned [OF w2(3) assms(2,3), of unconf conf d arg] c(2) w2(5,6) by auto
  have body: "create_session_body E arg cred addr unconf conf f r w =
    (case x of Inl st \<Rightarrow> Some (((st, RES_NONE), k, Some a), w3)
     | Inr k' \<Rightarrow> do {
         w \<leftarrow> mod_client k' (\<lambda>c. c\<lparr>cid_create_session_sequence := cid_create_session_sequence c + 1, cid_last_renew := now w3\<rparr>) w3;
         (flags, w) \<leftarrow> create_back_channel E arg a w;
         se \<leftarrow> sessions w a;
         let res = (NFS4_OK, create_session_reply arg se flags);
         w \<leftarrow> mod_client k' (\<lambda>c. c\<lparr>cid_create_session_slot := res\<rparr>) w;
         Some ((res, k, Some a), w) })"
    using False c(1) w2(1,2) w3(1) by (simp add: create_session_body_def Let_def)
  show ?thesis
  proof (cases x)
    case (Inl st)
    then show ?thesis using w3(2,4) w2(4) by (simp add: body)
  next
    case (Inr j)
    then have j: "j = k" using w3(3) by simp
    obtain t e where te: "sessions w3 a = Some t" "clients w3 k = Some e"
      using owned_live [OF w3(2), of "Ses a"] owned_live [OF w3(2), of "Cli k"] by auto
    let ?f = "\<lambda>c. c\<lparr>cid_create_session_sequence := cid_create_session_sequence c + 1, cid_last_renew := now w3\<rparr>"
    have w4: "mod_client k ?f w3 = Some (set_client k (?f e) w3)" "owned E (add_mset (Ses a) (add_mset (Cli k) H)) (set_client k (?f e) w3)"
      using touch_owned [OF w3(2) te(2), of ?f] by simp_all
    obtain fl w5 t' where w5: "create_back_channel E arg a (set_client k (?f e) w3) = Some (fl, w5)"
      "owned E (add_mset (Ses a) (add_mset (Cli k) H)) w5" "sessions w5 a = Some t'" "clients w5 = clients (set_client k (?f e) w3)"
      "global_sequence w5 = global_sequence w3"
      using back_channel_owned [OF w4(2), of a t arg] te(1) by auto
    let ?g = "\<lambda>c. c\<lparr>cid_create_session_slot := (NFS4_OK, create_session_reply arg t' fl)\<rparr>"
    have "mod_client k ?g w5 = Some (set_client k (?g (?f e)) w5)" "owned E (add_mset (Ses a) (add_mset (Cli k) H)) (set_client k (?g (?f e)) w5)"
      using touch_owned [OF w5(2), of k "?f e" ?g] w5(4) by simp_all
    then show ?thesis using Inr j w4(1) w5(1,3,5) w3(4) w2(4) by (simp add: body Let_def)
  qed
qed

text \<open>The part of the operation that runs once the client id is found.\<close>
definition create_session_found :: "'o client_env \<Rightarrow> create_session4args \<Rightarrow> nfs_client_cred_t \<Rightarrow> bytes \<Rightarrow> nat option \<Rightarrow> nat option
    \<Rightarrow> nat \<Rightarrow> 'o client_world \<Rightarrow> ((nfsstat4 \<times> nfs_resop4_u) \<times> 'o client_world) option" where
  "create_session_found E arg cred addr unconf conf f w = do {
     c \<leftarrow> clients w f;
     r \<leftarrow> cid_client_record c;
     w \<leftarrow> inc_client_record_ref r w;
     ((res, found, s), w) \<leftarrow> create_session_body E arg cred addr unconf conf f r w;
     w \<leftarrow> dec_client_id_ref E found w;
     w \<leftarrow> (case s of None \<Rightarrow> Some w | Some s \<Rightarrow> dec_session_ref E s w);
     w \<leftarrow> dec_client_record_ref E r w;
     Some (res, w) }"

text \<open>The session counter grows by one at most; it is an unsigned 64 bit integer that the code never checks.\<close>
lemma create_session_found_owned:
  assumes o: "owned E (add_mset (Cli f) H) v" and "owners_released E" "global_sequence v < global_sequence v + 1"
    and c: "clients v f = Some c" "cid_confirmed c \<in> {CONFIRMED_CLIENT_ID, UNCONFIRMED_CLIENT_ID}"
    and u: "unconf = Some f \<and> conf = None \<and> cid_confirmed c = UNCONFIRMED_CLIENT_ID \<or> unconf = None \<and> conf = Some f"
  shows "\<exists>res w'. create_session_found E arg cred addr unconf conf f v = Some (res, w') \<and> owned E H w' \<and>
    global_sequence w' \<in> {global_sequence v, global_sequence v + 1}"
proof -
  obtain r rc where r: "cid_client_record c = Some r" "records v r = Some rc" by (rule record_of_client [OF o c])
  note inc = inc_record_owned [OF o r(2)]
  let ?v = "set_record r (cr_refcount_update (\<lambda>n. n + 1) rc) v"
  have "owned E (add_mset (Cli f) (add_mset (Rec r) H)) ?v" using inc(2) by (simp add: add_mset_commute)
  from create_session_body_owned [OF this, of r c unconf conf arg cred addr] obtain res k s w1
    where w1: "create_session_body E arg cred addr unconf conf f r ?v = Some ((res, k, s), w1)"
    "owned E (case s of None \<Rightarrow> add_mset (Cli k) (add_mset (Rec r) H) | Some a \<Rightarrow> add_mset (Ses a) (add_mset (Cli k) (add_mset (Rec r) H))) w1"
    "global_sequence w1 \<in> {global_sequence v, global_sequence v + 1}" using assms(2,3) c(1) u by fastforce
  let ?H = "case s of None \<Rightarrow> add_mset (Rec r) H | Some a \<Rightarrow> add_mset (Ses a) (add_mset (Rec r) H)"
  have "owned E (add_mset (Cli k) ?H) w1" using w1(2) by (cases s) (simp_all add: add_mset_commute)
  then obtain w2 where w2: "dec_client_id_ref E k w1 = Some w2" "owned E ?H w2" "global_sequence w2 = global_sequence w1"
    using dec_client_ref_owned frame_sequence by blast
  obtain w3 where w3: "(case s of None \<Rightarrow> Some w2 | Some s \<Rightarrow> dec_session_ref E s w2) = Some w3" "owned E (add_mset (Rec r) H) w3"
    "global_sequence w3 = global_sequence w2" using w2(2) dec_session_ref_owned by (cases s) fastforce+
  obtain w4 where "dec_client_record_ref E r w3 = Some w4" "owned E H w4" "global_sequence w4 = global_sequence w3"
    using dec_record_ref_owned [OF w3(2)] frame_sequence by blast
  then show ?thesis using c(1) r(1) inc(1) w1(1,3) w2(1,3) w3(1,3) by (simp add: create_session_found_def)
qed

lemma create_session_owned:
  assumes "owned E H w" "owners_released E" "global_sequence w < global_sequence w + 1"
  shows "\<exists>res w'. create_session_world E arg cred addr w = Some (res, w') \<and> owned E H w' \<and>
    global_sequence w' \<in> {global_sequence w, global_sequence w + 1}"
proof -
  note op = create_session_world_def [folded create_session_found_def]
  let ?i = "csa_clientid arg"
  have un: "\<exists>c. clients w a = Some c \<and> cid_clientid c = ?i" if "ht_unconfirmed_client_id w ?i = Some a" for a
    using table_entries(3) [OF assms(1) that] by blast
  from client_get_owned [where ht = "ht_unconfirmed_client_id w" and i = ?i, OF assms(1) un, simplified] show ?thesis
  proof (elim disjE exE conjE)
    fix a c let ?w = "set_client a (cid_refcount_update (\<lambda>n. n + 1) c) w"
    assume get: "nfs_client_id_get E (ht_unconfirmed_client_id w) ?i w = Some ((CLIENT_ID_SUCCESS, Some a), ?w)"
      and a: "ht_unconfirmed_client_id w ?i = Some a" "clients w a = Some c" "owned E (add_mset (Cli a) H) ?w"
    have "cid_confirmed c = UNCONFIRMED_CLIENT_ID" using table_entries(3) [OF assms(1) a(1)] a(2) by auto
    then have "\<exists>res w'. create_session_found E arg cred addr (Some a) None a ?w = Some (res, w') \<and> owned E H w' \<and>
        global_sequence w' \<in> {global_sequence ?w, global_sequence ?w + 1}"
      by (intro create_session_found_owned [OF a(3) assms(2), where c = "cid_refcount_update (\<lambda>n. n + 1) c"]) (use assms(3) in simp_all)
    then show ?thesis using get by (simp add: op nfs_client_id_get_unconfirmed_def)
  next
    fix st w1
    assume get: "nfs_client_id_get E (ht_unconfirmed_client_id w) ?i w = Some ((st, None), w1)" "st \<noteq> CLIENT_ID_SUCCESS"
      and o: "owned E H w1" and g: "global_sequence w1 = global_sequence w"
    have co: "\<exists>c. clients w1 a = Some c \<and> cid_clientid c = ?i" if "ht_confirmed_client_id w1 ?i = Some a" for a
      using table_entries(2) [OF o that] by blast
    from client_get_owned [where ht = "ht_confirmed_client_id w1" and i = ?i, OF o co, simplified] show ?thesis
    proof (elim disjE exE conjE)
      fix a c let ?w = "set_client a (cid_refcount_update (\<lambda>n. n + 1) c) w1"
      assume conf: "nfs_client_id_get E (ht_confirmed_client_id w1) ?i w1 = Some ((CLIENT_ID_SUCCESS, Some a), ?w)"
        and a: "ht_confirmed_client_id w1 ?i = Some a" "clients w1 a = Some c" "cid_confirmed c \<noteq> STALE_CLIENT_ID"
          "owned E (add_mset (Cli a) H) ?w"
      have "cid_confirmed c = CONFIRMED_CLIENT_ID" using table_entries(2) [OF o a(1)] a(2,3) by auto
      then have "\<exists>res w'. create_session_found E arg cred addr None (Some a) a ?w = Some (res, w') \<and> owned E H w' \<and>
          global_sequence w' \<in> {global_sequence ?w, global_sequence ?w + 1}"
        by (intro create_session_found_owned [OF a(4) assms(2), where c = "cid_refcount_update (\<lambda>n. n + 1) c"]) (use assms(3) g in simp_all)
      then show ?thesis using get conf g by (simp add: op nfs_client_id_get_unconfirmed_def nfs_client_id_get_confirmed_def)
    next
      fix st2 w2
      assume "nfs_client_id_get E (ht_confirmed_client_id w1) ?i w1 = Some ((st2, None), w2)" "st2 \<noteq> CLIENT_ID_SUCCESS"
        "owned E H w2" "global_sequence w2 = global_sequence w1"
      then show ?thesis using get g by (simp add: op nfs_client_id_get_unconfirmed_def nfs_client_id_get_confirmed_def)
    qed
  qed
qed

section \<open>BIND_CONN_TO_SESSION, SEQUENCE\<close>

text \<open>A session in the table survives the end of a reference.\<close>
lemma dec_hashed_session:
  assumes "owned E (add_mset (Ses a) H) w" "sessions w a = Some s" "ht_session_id w (session_id s) = Some a"
    and "w' = set_session a (session_refcount_update (\<lambda>n. n - 1) s) w"
  shows "dec_session_ref E a w = Some w'" "owned E H w'"
proof -
  have n: "2 \<le> session_refcount s" using ownedD(1) [OF assms(1,2)] assms(3) by (simp add: session_ok_def session_refs_def)
  show "dec_session_ref E a w = Some w'" using assms(2,4) n
    by (simp add: dec_session_ref_def release_ref.simps [of E "Dec_session a"] mod_session_def)
  show "owned E H w'" unfolding assms(4)
    by (rule owned_set_session [OF assms(1,2)]) (use ownedD(1) [OF assms(1,2)] n in \<open>simp_all add: session_ok_def slots_typed_def\<close>)
qed

text \<open>The session found for a request: a reference to it, the lease of its client reserved.\<close>
lemma enter_session_owned:
  assumes "owned E H w"
  shows "(\<exists>st w'. enter_session E i w = Some (Inl st, w') \<and> st \<noteq> NFS4_OK \<and> owned E H w' \<and> global_sequence w' = global_sequence w) \<or>
    (\<exists>a s w'. enter_session E i w = Some (Inr (a, s), w') \<and> owned E (add_mset (Ses a) H) w' \<and> sessions w' a = Some s \<and>
      ht_session_id w' (session_id s) = Some a \<and> global_sequence w' = global_sequence w)"
proof (cases "ht_session_id w i")
  case None
  then show ?thesis using assms by (simp add: enter_session_def nfs41_Session_Get_Pointer_def)
next
  case (Some a)
  obtain s where s: "sessions w a = Some s" "session_id s = i" using table_entries(1) [OF assms Some] by blast
  let ?s = "session_refcount_update (\<lambda>n. n + 1) s"
  let ?w = "set_session a ?s w"
  note inc = inc_session_owned [OF assms s(1)]
  obtain c where c: "clients w (clientid_record s) = Some c" using ownedD(1) [OF assms s(1)] by (auto simp: session_ok_def)
  show ?thesis
  proof (cases "valid_lease E (now w) c")
    case True
    have t: "owned E (add_mset (Ses a) H) (set_client (clientid_record s) (cid_lease_reservations_update (\<lambda>n. n + 1) c) ?w)"
      using touch_owned(2) [OF inc(2), of "clientid_record s" c "cid_lease_reservations_update (\<lambda>n. n + 1)"] c by simp
    show ?thesis using True t Some s inc(1) c
      by (simp add: enter_session_def nfs41_Session_Get_Pointer_def reserve_lease_def mod_client_def)
  next
    case False
    have "dec_session_ref E a ?w = Some (set_session a (session_refcount_update (\<lambda>n. n - 1) ?s) ?w)"
      "owned E H (set_session a (session_refcount_update (\<lambda>n. n - 1) ?s) ?w)"
      using dec_hashed_session [OF inc(2), of ?s] Some s(2) by simp_all
    then show ?thesis using False Some s inc(1) c
      by (simp add: enter_session_def nfs41_Session_Get_Pointer_def reserve_lease_def)
  qed
qed

lemma set_slot_owned:
  assumes "owned E H w" "sessions w a = Some s" "s' = fc_slots_update (\<lambda>sls. sls[i := sl]) s"
  shows "set_slot a i sl w = Some (set_session a s' w)" "owned E H (set_session a s' w)"
proof -
  show "set_slot a i sl w = Some (set_session a s' w)" using assms(2,3) by (simp add: set_slot_def mod_session_def)
  show "owned E H (set_session a s' w)"
    by (rule owned_set_session [OF assms(1,2)]) (use ownedD(1) [OF assms(1,2)] assms(3) in \<open>simp_all add: session_ok_def slots_typed_def\<close>)
qed

section \<open>The state of a request\<close>

text \<open>The references that a request holds.\<close>
definition held_by :: "held multiset \<Rightarrow> ('o, 'y) client_data \<Rightarrow> held multiset" where
  "held_by H d = (case data_session (other d) of None \<Rightarrow> H | Some a \<Rightarrow> add_mset (Ses a) H)"

text \<open>What the end of a request needs: the client whose lease is renewed and the slot that gets the reply are there.\<close>
definition stopped :: "'o client_env \<Rightarrow> held multiset \<Rightarrow> ('o, 'y) client_data \<Rightarrow> bool" where
  "stopped E H d \<longleftrightarrow> owned E (held_by H d) (the_world d) \<and>
     (\<forall>k. preserved_clientid (other d) = Some k \<longrightarrow> clients (the_world d) k \<noteq> None) \<and>
     (\<forall>a i. cached_slot (other d) = Some (a, i) \<longrightarrow> (\<exists>s. sessions (the_world d) a = Some s \<and> i < length (fc_slots s))) \<and>
     (sa_cachethis d \<longrightarrow> cached_result d \<noteq> None) \<and> (cached_result d \<noteq> None \<longrightarrow> cached_slot (other d) \<noteq> None) \<and>
     (res_cached d \<longrightarrow> cached_result d \<noteq> None)"

text \<open>While operations run, the session that is held keeps both alive.\<close>
definition running :: "'o client_env \<Rightarrow> held multiset \<Rightarrow> ('o, 'y) client_data \<Rightarrow> bool" where
  "running E H d \<longleftrightarrow> stopped E H d \<and> \<not> use_slot_cached_result d \<and>
     (\<forall>k. preserved_clientid (other d) = Some k \<longrightarrow>
        (\<exists>a s. data_session (other d) = Some a \<and> sessions (the_world d) a = Some s \<and> clientid_record s = k)) \<and>
     (\<forall>a i. cached_slot (other d) = Some (a, i) \<longrightarrow> data_session (other d) = Some a)"

lemma running_step:
  assumes "running E H d" "on_slot d d'" "owned E (held_by H d) (the_world d')"
  shows "running E H d'"
proof -
  have eq: "data_session (other d') = data_session (other d)" "preserved_clientid (other d') = preserved_clientid (other d)"
    "cached_slot (other d') = cached_slot (other d)" "use_slot_cached_result d' = use_slot_cached_result d"
    "sa_cachethis d' = sa_cachethis d" "cached_result d' = cached_result d" "res_cached d' = res_cached d" and kept: "slots_kept (the_world d) (the_world d')"
    using assms(2) unfolding on_slot_def by simp_all
  have r: "stopped E H d" "\<not> use_slot_cached_result d"
    "\<And>k. preserved_clientid (other d) = Some k \<Longrightarrow>
      \<exists>a s. data_session (other d) = Some a \<and> sessions (the_world d) a = Some s \<and> clientid_record s = k"
    "\<And>a i. cached_slot (other d) = Some (a, i) \<Longrightarrow> data_session (other d) = Some a"
    using assms(1) unfolding running_def by blast+
  have own: "owned E (held_by H d) (the_world d)" using r(1) by (simp add: stopped_def)
  have ses: "\<exists>s'. sessions (the_world d') a = Some s' \<and> same_session s s'"
    if da: "data_session (other d) = Some a" "sessions (the_world d) a = Some s" for a s
  proof -
    have "a < next_addr (the_world d)" using ownedD(1) [OF own da(2)] by (simp add: session_ok_def)
    moreover obtain s' where "sessions (the_world d') a = Some s'"
      using owned_live [OF assms(3), of "Ses a"] da(1) by (auto simp: held_by_def)
    ultimately show ?thesis using kept da(2) unfolding slots_kept_def by fastforce
  qed
  have k: "\<exists>a s. data_session (other d) = Some a \<and> sessions (the_world d') a = Some s \<and> clientid_record s = k"
    if "preserved_clientid (other d) = Some k" for k
    using r(3) [OF that] ses unfolding same_session_def by metis
  have c: "\<exists>s. sessions (the_world d') a = Some s \<and> i < length (fc_slots s)"
    if ca: "cached_slot (other d) = Some (a, i)" for a i
  proof -
    obtain s where "sessions (the_world d) a = Some s" "i < length (fc_slots s)" using r(1) ca unfolding stopped_def by blast
    then show ?thesis using ses [OF r(4) [OF ca]] unfolding same_session_def by metis
  qed
  have cl: "clients (the_world d') k \<noteq> None" if "preserved_clientid (other d) = Some k" for k
    using k [OF that] ownedD(1) [OF assms(3)] unfolding session_ok_def by (metis option.distinct(1))
  have "stopped E H d'" unfolding stopped_def held_by_def eq
    using assms(3) cl c r(1) by (simp add: held_by_def stopped_def)
  then show ?thesis unfolding running_def eq using r(2,4) k by blast
qed

definition fresh_request :: "('o, 'y) client_data \<Rightarrow> bool" where
  "fresh_request d \<longleftrightarrow> data_session (other d) = None \<and> preserved_clientid (other d) = None \<and> cached_slot (other d) = None \<and>
     \<not> sa_cachethis d \<and> cached_result d = None \<and> \<not> use_slot_cached_result d \<and> \<not> res_cached d"

lemma fresh_running: "fresh_request d \<Longrightarrow> owned E H (the_world d) \<Longrightarrow> running E H d"
  by (simp add: fresh_request_def running_def stopped_def held_by_def)

text \<open>What an operation leaves: a request that goes on, or one that has failed or is answered from the slot.\<close>
definition after_op :: "'o client_env \<Rightarrow> held multiset \<Rightarrow> nfsstat4 \<Rightarrow> ('o, 'y) client_data \<Rightarrow> bool" where
  "after_op E H st d \<longleftrightarrow> (if st = NFS4_OK \<and> \<not> use_slot_cached_result d then running E H d
     else stopped E H d \<and> (use_slot_cached_result d \<longrightarrow> cached_result d \<noteq> None))"

text \<open>The client of a session that is there.\<close>
lemma client_of_session: "owned E H w \<Longrightarrow> sessions w a = Some s \<Longrightarrow> clients w (clientid_record s) \<noteq> None"
  using ownedD(1) by (fastforce simp: session_ok_def)

lemma bind_conn_after:
  assumes "owned E H (the_world d)" "fresh_request d"
  shows "\<exists>st r d'. nfs4_op_bind_conn E i d = Some ((st, r), d') \<and> after_op E H st d' \<and> fsal_export_id d' = fsal_export_id d \<and>
    minorversion d' = minorversion d \<and> global_sequence (the_world d') = global_sequence (the_world d)"
proof (cases "minorversion d = 0")
  case True
  then show ?thesis using fresh_running [OF assms(2,1)]
    by (simp add: nfs4_op_bind_conn_def session_result_def after_op_def running_def)
next
  case False
  consider (failed) st w where "enter_session E i (the_world d) = Some (Inl st, w)" "st \<noteq> NFS4_OK" "owned E H w"
      "global_sequence w = global_sequence (the_world d)"
    | (found) a s w where "enter_session E i (the_world d) = Some (Inr (a, s), w)" "owned E (add_mset (Ses a) H) w"
      "sessions w a = Some s" "global_sequence w = global_sequence (the_world d)"
    using enter_session_owned [OF assms(1)] by blast
  then show ?thesis
  proof cases
    case failed
    have "running E H (set_world w d)" by (rule fresh_running) (use assms(2) failed(3) in \<open>simp_all add: fresh_request_def\<close>)
    then show ?thesis using failed False by (simp add: nfs4_op_bind_conn_def session_result_def after_op_def running_def)
  next
    case found
    obtain b s1 w1 where w1: "check_session_conn a (xprt_addr (other d)) True w = Some (b, w1)" "owned E (add_mset (Ses a) H) w1"
      "w1 = set_session a s1 w" "same_session s s1" using session_conn_owned [OF found(2,3)] by blast
    have c: "clients w1 (clientid_record s) \<noteq> None" using client_of_session [OF found(2,3)] w1(3) by simp
    show ?thesis using found(1,4) False w1 c assms(2)
      by (simp add: nfs4_op_bind_conn_def session_result_def after_op_def running_def stopped_def held_by_def fresh_request_def
          same_session_def)
  qed
qed

lemma sequence_new_after:
  assumes o: "owned E (add_mset (Ses a) H) w" and s: "sessions w a = Some s" "ht_session_id w (session_id s) = Some a"
    and i: "unat (sa_slotid arg) < length (fc_slots s)" and d: "\<not> use_slot_cached_result d" "\<not> res_cached d"
      "preserved_clientid (other d) = Some (clientid_record s)"
  shows "\<exists>st r d'. sequence_new E arg a s slot w d = Some ((st, r), d') \<and> after_op E H st d' \<and> fsal_export_id d' = fsal_export_id d \<and>
    minorversion d' = minorversion d \<and> global_sequence (the_world d') = global_sequence w"
proof -
  let ?i = "unat (sa_slotid arg)" and ?sl = "slot\<lparr>slot_sequence := slot_sequence slot + 1, slot_res_cached := False\<rparr>"
  define s2 where "s2 = fc_slots_update (\<lambda>sls. sls[?i := ?sl]) s"
  let ?w2 = "set_session a s2 w"
  note slot = set_slot_owned [OF o s(1) s2_def]
  have s2: "sessions ?w2 a = Some s2" "ht_session_id ?w2 (session_id s2) = Some a" "?i < length (fc_slots s2)"
    "clientid_record s2 = clientid_record s" using s(2) i by (simp_all add: s2_def)
  obtain b s3 w3 where w3: "check_session_conn a (xprt_addr (other d)) True ?w2 = Some (b, w3)" "owned E (add_mset (Ses a) H) w3"
    "w3 = set_session a s3 ?w2" "same_session s2 s3" using session_conn_owned [OF slot(2) s2(1)] by blast
  note dec = dec_hashed_session [OF slot(2) s2(1,2) refl]
  have c: "clients w (clientid_record s) \<noteq> None" by (rule client_of_session [OF o s(1)])
  show ?thesis using slot(1) w3 dec d c s2(3,4)
    by (simp add: sequence_new_def session_result_def after_op_def running_def stopped_def held_by_def same_session_def Let_def)
qed

lemma sequence_after:
  assumes "owned E H (the_world d)" "fresh_request d"
  shows "\<exists>st r d'. nfs4_op_sequence E arg d = Some ((st, r), d') \<and> after_op E H st d' \<and> fsal_export_id d' = fsal_export_id d \<and>
    minorversion d' = minorversion d \<and> global_sequence (the_world d') = global_sequence (the_world d)"
proof (cases "minorversion d = 0")
  case True
  then show ?thesis using fresh_running [OF assms(2,1)]
    by (simp add: nfs4_op_sequence_def session_result_def after_op_def running_def)
next
  case False
  consider (failed) st w where "enter_session E (sa_sessionid arg) (the_world d) = Some (Inl st, w)" "st \<noteq> NFS4_OK" "owned E H w"
      "global_sequence w = global_sequence (the_world d)"
    | (found) a s w where "enter_session E (sa_sessionid arg) (the_world d) = Some (Inr (a, s), w)" "owned E (add_mset (Ses a) H) w"
      "sessions w a = Some s" "ht_session_id w (session_id s) = Some a" "global_sequence w = global_sequence (the_world d)"
    using enter_session_owned [OF assms(1)] by blast
  then show ?thesis
  proof cases
    case failed
    have "running E H (set_world w d)" by (rule fresh_running) (use assms(2) failed(3) in \<open>simp_all add: fresh_request_def\<close>)
    then show ?thesis using failed False by (simp add: nfs4_op_sequence_def session_result_def after_op_def running_def)
  next
    case found
    note dec = dec_hashed_session [OF found(2-4) refl]
    have c: "clients w (clientid_record s) \<noteq> None" by (rule client_of_session [OF found(2,3)])
    have i: "sa_slotid arg < ca_maxrequests (fore_channel_attrs s) \<Longrightarrow> unat (sa_slotid arg) < length (fc_slots s)"
      using ownedD(1) [OF found(2,3)] by (simp add: session_ok_def slots_typed_def word_less_nat_alt)
    let ?d = "d\<lparr>other := (other d)\<lparr>preserved_clientid := Some (clientid_record s)\<rparr>, use_slot_cached_result := False\<rparr>"
    let ?sl = "fc_slots s ! unat (sa_slotid arg)"
    show ?thesis
    proof (cases "sa_slotid arg < ca_maxrequests (fore_channel_attrs s) \<and> slot_sequence ?sl + 1 = sa_sequenceid arg")
      case True
      then have "\<not> ca_maxrequests (fore_channel_attrs s) \<le> sa_slotid arg" "unat (sa_slotid arg) < length (fc_slots s)"
        using i by auto
      then have "nfs4_op_sequence E arg d = sequence_new E arg a s ?sl w ?d"
        using found(1) False True by (simp add: nfs4_op_sequence_def Let_def)
      then show ?thesis using sequence_new_after [OF found(2-4) i, of ?d] True found(5) assms(2) by (simp add: fresh_request_def)
    next
      case new: False
      show ?thesis using found(1,5) False new dec c i assms(2)
        by (auto simp: nfs4_op_sequence_def session_result_def after_op_def stopped_def held_by_def fresh_request_def not_le Let_def)
    qed
  qed
qed

end
