(* ===== verification/Nfs4_Request_Safety.thy ===== *)
theory Nfs4_Request_Safety
  imports Nfs4_Session_Safety
begin

text \<open>
  Whole requests of NFSv4.1, the reaper and the release of the clients of an address, in any order: no object is
  used after its release, no assertion fails, and the records in memory keep their types.
\<close>

section \<open>The operations\<close>












section \<open>The loop\<close>

lemma request_sizes [simp]:
  "stopped E H (d\<lparr>op_resp_size := n\<rparr>) = stopped E H d" "stopped E H (d\<lparr>resp_size := n\<rparr>) = stopped E H d"
  "running E H (d\<lparr>op_resp_size := n\<rparr>) = running E H d" "running E H (d\<lparr>resp_size := n\<rparr>) = running E H d"
  "after_op E H st (d\<lparr>op_resp_size := n\<rparr>) = after_op E H st d" "after_op E H st (d\<lparr>resp_size := n\<rparr>) = after_op E H st d"
  "fresh_request (d\<lparr>op_resp_size := n\<rparr>) = fresh_request d" "fresh_request (d\<lparr>resp_size := n\<rparr>) = fresh_request d"
  by (simp_all add: stopped_def running_def after_op_def fresh_request_def held_by_def)












section \<open>Requests\<close>










section \<open>The reaper and the release of an address\<close>






section \<open>Every run of the server\<close>






section \<open>A client that makes a session\<close>












end
