(* ===== verification/Sal_Lock.thy ===== *)
theory Sal_Lock
  imports Nfs4_Types
begin

text \<open>
  Byte-range locks (\<open>SAL/state_lock.c\<close>): the lock list of one file, the search for conflicting
  entries, merging a new lock into the list and subtracting an unlocked range from it, the grant
  cookies of blocked NLM locks, and the entry points \<open>state_test\<close>, \<open>state_lock\<close>,
  \<open>state_unlock\<close>, \<open>state_cancel\<close>, \<open>state_complete_grant\<close> and \<open>state_release_grant\<close>.

  An entry of the list is a record with the address \<open>sle_id\<close> standing for the C pointer, so that
  identity tests and updates in place are those of the code.  The locks of the FSAL behind the list
  are an opaque state \<open>'f\<close> reached through \<open>lock_op2\<close>.  The reference counts of entries, owners
  and exports, the global list of blocked locks (polling and FSAL upcalls walk it) and log output
  are left out.
\<close>

section \<open>Data\<close>

datatype fsal_lock_t = FSAL_LOCK_R | FSAL_LOCK_W | FSAL_NO_LOCK

datatype fsal_lock_op_t = FSAL_OP_LOCKT | FSAL_OP_LOCK | FSAL_OP_LOCKB | FSAL_OP_UNLOCK | FSAL_OP_CANCEL

datatype state_blocking_t =
    STATE_NON_BLOCKING | STATE_NLM_BLOCKING | STATE_NFSV4_BLOCKING | STATE_GRANTING | STATE_CANCELED

datatype state_grant_type_t =
    STATE_GRANT_NONE | STATE_GRANT_INTERNAL | STATE_GRANT_FSAL | STATE_GRANT_FSAL_AVAILABLE
  | STATE_GRANT_POLL

datatype state_block_type_t =
    STATE_BLOCK_NONE | STATE_BLOCK_INTERNAL | STATE_BLOCK_ASYNC | STATE_BLOCK_POLL

datatype state_status_t =
    STATE_SUCCESS | STATE_MALLOC_ERROR | STATE_POOL_MUTEX_INIT_ERROR | STATE_GET_NEW_LRU_ENTRY
  | STATE_INIT_ENTRY_FAILED | STATE_FSAL_ERROR | STATE_LRU_ERROR | STATE_HASH_SET_ERROR
  | STATE_NOT_A_DIRECTORY | STATE_INCONSISTENT_ENTRY | STATE_BAD_TYPE | STATE_ENTRY_EXISTS
  | STATE_DIR_NOT_EMPTY | STATE_NOT_FOUND | STATE_INVALID_ARGUMENT | STATE_INSERT_ERROR
  | STATE_HASH_TABLE_ERROR | STATE_FSAL_EACCESS | STATE_IS_A_DIRECTORY | STATE_FSAL_EPERM
  | STATE_NO_SPACE_LEFT | STATE_READ_ONLY_FS | STATE_IO_ERROR | STATE_ESTALE
  | STATE_FSAL_ERR_SEC | STATE_LOCKED | STATE_QUOTA_EXCEEDED | STATE_ASYNC_POST_ERROR
  | STATE_NOT_SUPPORTED | STATE_STATE_ERROR | STATE_FSAL_DELAY | STATE_NAME_TOO_LONG
  | STATE_LOCK_CONFLICT | STATE_LOCK_BLOCKED | STATE_LOCK_DEADLOCK | STATE_BAD_COOKIE
  | STATE_FILE_BIG | STATE_GRACE_PERIOD | STATE_CACHE_INODE_ERR | STATE_SIGNAL_ERROR
  | STATE_FILE_OPEN | STATE_MLINK | STATE_SERVERFAULT | STATE_TOOSMALL
  | STATE_XDEV | STATE_SHARE_DENIED | STATE_IN_GRACE | STATE_BADHANDLE
  | STATE_BAD_RANGE

text \<open>\<open>fsal_lock_param_t\<close> (\<open>lock_sle_type\<close> is \<open>FSAL_POSIX_LOCK\<close> throughout).\<close>
record fsal_lock_param_t =
  lock_type :: fsal_lock_t
  lock_start :: u64
  lock_length :: u64
  lock_reclaim :: bool

datatype nfs4_owner_type = STATE_OPEN_OWNER_NFSV4 | STATE_LOCK_OWNER_NFSV4 | STATE_CLIENTID_OWNER_NFSV4

text \<open>\<open>state_owner_t\<close> by the attributes that identify an owner of each type: the NLM client, \<open>svid\<close>
  and owner bytes; the process id and client address of 9P; the client id and owner bytes of NFSv4.
  \<open>STATE_LOCK_OWNER_UNKNOWN\<close> carries its address.\<close>
datatype state_owner_t =
    STATE_LOCK_OWNER_NLM nat int bytes
  | STATE_LOCK_OWNER_9P u32 bytes
  | OWNER_NFSV4 nfs4_owner_type u64 bytes
  | STATE_LOCK_OWNER_UNKNOWN nat

abbreviation unknown_owner :: state_owner_t where
  "unknown_owner \<equiv> STATE_LOCK_OWNER_UNKNOWN 0"

text \<open>The part of \<open>state_t\<close> that the lock code reads.\<close>
record state_t =
  state_addr :: nat
  state_seqid :: int

record state_block_data_t =
  sbd_grant_type :: state_grant_type_t
  sbd_block_type :: state_block_type_t
  sbd_blocked_cookie :: "u64 option"

record state_lock_entry_t =
  sle_id :: nat
  sle_export :: nat
  sle_blocked :: state_blocking_t
  sle_owner :: state_owner_t
  sle_state :: state_t
  sle_lock :: fsal_lock_param_t
  sle_block_data :: "state_block_data_t option"

text \<open>The lock state of one file.  \<open>ht_lock_cookies\<close> maps a cookie to the entry it grants,
  \<open>granted_cookie\<close> is the last cookie handed out, \<open>list_refs\<close> counts the references to the object
  that are taken and dropped for the list as a whole.\<close>
record 'f lock_file =
  lock_list :: "state_lock_entry_t list"
  next_entry :: nat
  ht_lock_cookies :: "u64 \<Rightarrow> nat option"
  granted_cookie :: u64
  list_refs :: int
  fsal_locks :: 'f

text \<open>The context of a call: the export, what its FSAL supports, the FSAL's \<open>lock_op2\<close>, the
  scheduler of asynchronous replies, and the type of the object.\<close>
record 'f lock_env =
  ctx_export :: nat
  export_ready :: "nat \<Rightarrow> bool"
  fso_lock_support :: bool
  fso_lock_support_async_block :: bool
  lock_op2 :: "state_t \<Rightarrow> state_owner_t \<Rightarrow> fsal_lock_op_t \<Rightarrow> fsal_lock_param_t \<Rightarrow> 'f
    \<Rightarrow> fsal_errors_t \<times> fsal_lock_param_t \<times> 'f"
  state_async_schedule :: "u64 \<Rightarrow> 'f \<Rightarrow> state_status_t \<times> 'f"
  lock_obj_type :: object_file_type_t

section \<open>Owners, ranges and status codes\<close>

text \<open>\<open>different_owners\<close>; the pointer comparison at its head is subsumed, since an owner never
  differs from itself.\<close>
fun different_owners :: "state_owner_t \<Rightarrow> state_owner_t \<Rightarrow> bool" where
  "different_owners (STATE_LOCK_OWNER_NLM c s v) (STATE_LOCK_OWNER_NLM c' s' v') =
     (c \<noteq> c' \<or> s \<noteq> s' \<or> length v \<noteq> length v' \<or> v \<noteq> v')"
| "different_owners (STATE_LOCK_OWNER_9P p a) (STATE_LOCK_OWNER_9P p' a') = (p \<noteq> p')"
| "different_owners (OWNER_NFSV4 ty c v) (OWNER_NFSV4 ty' c' v') =
     (ty \<noteq> ty' \<or> c \<noteq> c' \<or> length v \<noteq> length v' \<or> v \<noteq> v')"
| "different_owners (STATE_LOCK_OWNER_UNKNOWN p) (STATE_LOCK_OWNER_UNKNOWN p') = (p \<noteq> p')"
| "different_owners _ _ = True"

definition lock_end :: "fsal_lock_param_t \<Rightarrow> u64" where
  "lock_end l = (if lock_length l = 0 then UINT64_MAX else lock_start l + lock_length l - 1)"

definition different_lock :: "fsal_lock_param_t \<Rightarrow> fsal_lock_param_t \<Rightarrow> bool" where
  "different_lock l1 l2 \<longleftrightarrow>
     lock_type l1 \<noteq> lock_type l2 \<or> lock_start l1 \<noteq> lock_start l2 \<or> lock_length l1 \<noteq> lock_length l2"

fun state_error_convert :: "fsal_errors_t \<Rightarrow> state_status_t" where
  "state_error_convert ERR_FSAL_NO_ERROR = STATE_SUCCESS"
| "state_error_convert ERR_FSAL_NOENT = STATE_NOT_FOUND"
| "state_error_convert ERR_FSAL_DELAY = STATE_LOCK_CONFLICT"
| "state_error_convert ERR_FSAL_ACCESS = STATE_LOCK_CONFLICT"
| "state_error_convert ERR_FSAL_PERM = STATE_FSAL_EPERM"
| "state_error_convert ERR_FSAL_NOSPC = STATE_NO_SPACE_LEFT"
| "state_error_convert ERR_FSAL_ROFS = STATE_READ_ONLY_FS"
| "state_error_convert ERR_FSAL_IO = STATE_IO_ERROR"
| "state_error_convert ERR_FSAL_NXIO = STATE_IO_ERROR"
| "state_error_convert ERR_FSAL_STALE = STATE_ESTALE"
| "state_error_convert ERR_FSAL_FHEXPIRED = STATE_ESTALE"
| "state_error_convert ERR_FSAL_INVAL = STATE_INVALID_ARGUMENT"
| "state_error_convert ERR_FSAL_OVERFLOW = STATE_INVALID_ARGUMENT"
| "state_error_convert ERR_FSAL_SEC = STATE_FSAL_ERR_SEC"
| "state_error_convert ERR_FSAL_NOTSUPP = STATE_NOT_SUPPORTED"
| "state_error_convert ERR_FSAL_ATTRNOTSUPP = STATE_NOT_SUPPORTED"
| "state_error_convert ERR_FSAL_UNION_NOTSUPP = STATE_NOT_SUPPORTED"
| "state_error_convert ERR_FSAL_NOMEM = STATE_MALLOC_ERROR"
| "state_error_convert ERR_FSAL_DEADLOCK = STATE_LOCK_DEADLOCK"
| "state_error_convert ERR_FSAL_BADCOOKIE = STATE_BAD_COOKIE"
| "state_error_convert ERR_FSAL_NOT_OPENED = STATE_FSAL_ERROR"
| "state_error_convert ERR_FSAL_SYMLINK = STATE_BAD_TYPE"
| "state_error_convert ERR_FSAL_BADTYPE = STATE_BAD_TYPE"
| "state_error_convert ERR_FSAL_ISDIR = STATE_IS_A_DIRECTORY"
| "state_error_convert ERR_FSAL_FBIG = STATE_FILE_BIG"
| "state_error_convert ERR_FSAL_FILE_OPEN = STATE_FILE_OPEN"
| "state_error_convert ERR_FSAL_SHARE_DENIED = STATE_SHARE_DENIED"
| "state_error_convert ERR_FSAL_BLOCKED = STATE_LOCK_BLOCKED"
| "state_error_convert ERR_FSAL_IN_GRACE = STATE_IN_GRACE"
| "state_error_convert ERR_FSAL_BADHANDLE = STATE_BADHANDLE"
| "state_error_convert ERR_FSAL_BAD_RANGE = STATE_BAD_RANGE"
| "state_error_convert ERR_FSAL_LOCKED = STATE_LOCKED"
| "state_error_convert ERR_FSAL_TOOSMALL = STATE_TOOSMALL"
| "state_error_convert _ = STATE_FSAL_ERROR"

definition state_unlock_err_ok :: "state_status_t \<Rightarrow> bool" where
  "state_unlock_err_ok st \<longleftrightarrow> st = STATE_SUCCESS \<or> st = STATE_ESTALE"

section \<open>Entries of the lock list\<close>

text \<open>\<open>create_state_lock_entry\<close> and \<open>state_lock_entry_t_dup\<close>: the address of the new entry is the
  next unused one.\<close>
definition create_state_lock_entry ::
  "nat \<Rightarrow> nat \<Rightarrow> state_blocking_t \<Rightarrow> state_owner_t \<Rightarrow> state_t \<Rightarrow> fsal_lock_param_t \<Rightarrow> state_lock_entry_t" where
  "create_state_lock_entry i export blocked owner st lock =
     \<lparr>sle_id = i, sle_export = export, sle_blocked = blocked, sle_owner = owner, sle_state = st,
      sle_lock = lock, sle_block_data = None\<rparr>"

definition state_lock_entry_t_dup :: "nat \<Rightarrow> state_lock_entry_t \<Rightarrow> state_lock_entry_t" where
  "state_lock_entry_t_dup i e =
     create_state_lock_entry i (sle_export e) (sle_blocked e) (sle_owner e) (sle_state e) (sle_lock e)"

text \<open>Following the pointer to an entry of the list, and writing through it.\<close>
definition entry_at :: "nat \<Rightarrow> 'f lock_file \<Rightarrow> state_lock_entry_t option" where
  "entry_at i s = find (\<lambda>e. sle_id e = i) (lock_list s)"

definition upd_entry :: "nat \<Rightarrow> (state_lock_entry_t \<Rightarrow> state_lock_entry_t) \<Rightarrow> 'f lock_file \<Rightarrow> 'f lock_file" where
  "upd_entry i f s = s\<lparr>lock_list := map (\<lambda>e. if sle_id e = i then f e else e) (lock_list s)\<rparr>"

definition remove_from_locklist :: "nat \<Rightarrow> 'f lock_file \<Rightarrow> 'f lock_file" where
  "remove_from_locklist i s = s\<lparr>lock_list := filter (\<lambda>e. sle_id e \<noteq> i) (lock_list s)\<rparr>"

definition get_overlapping_entry ::
  "state_lock_entry_t list \<Rightarrow> state_owner_t \<Rightarrow> fsal_lock_param_t \<Rightarrow> state_lock_entry_t option" where
  "get_overlapping_entry L owner lock =
     find (\<lambda>e. \<not> (sle_blocked e = STATE_NLM_BLOCKING \<or> sle_blocked e = STATE_NFSV4_BLOCKING
                  \<or> sle_blocked e = STATE_CANCELED)
             \<and> lock_end (sle_lock e) \<ge> lock_start lock
             \<and> lock_start (sle_lock e) \<le> lock_end lock
             \<and> (lock_type (sle_lock e) = FSAL_LOCK_W \<or> lock_type lock = FSAL_LOCK_W)
             \<and> different_owners (sle_owner e) owner) L"

section \<open>Merging a lock into the list\<close>

text \<open>Changing the range of an entry in place.\<close>
definition set_range :: "u64 \<Rightarrow> u64 \<Rightarrow> state_lock_entry_t \<Rightarrow> state_lock_entry_t" where
  "set_range st len e = e\<lparr>sle_lock := (sle_lock e)\<lparr>lock_start := st, lock_length := len\<rparr>\<rparr>"

text \<open>One round of the loop of \<open>merge_lock_entry\<close>: the entry being merged, what remains of the
  checked entry in its place, and the entry appended to the list when the checked one is split
  (its address is \<open>i\<close>).\<close>
definition merge_check ::
  "nat \<Rightarrow> state_lock_entry_t \<Rightarrow> state_lock_entry_t
    \<Rightarrow> state_lock_entry_t \<times> state_lock_entry_t list \<times> state_lock_entry_t option" where
  "merge_check i le c =
    (if sle_id c = sle_id le then (le, [c], None)
     else if different_owners (sle_owner c) (sle_owner le) then (le, [c], None)
     else if sle_blocked c \<noteq> STATE_NON_BLOCKING then (le, [c], None)
     else
       let ce = lock_end (sle_lock c); ee = lock_end (sle_lock le);
           cs = lock_start (sle_lock c); es = lock_start (sle_lock le) in
       if ce + 1 < es then (le, [c], None)
       else if ee + 1 < cs then (le, [c], None)
       else if lock_type (sle_lock c) \<noteq> lock_type (sle_lock le) \<and> (ee < ce \<or> cs < es) then
         (if ee < ce \<and> cs < es
          then (le, [set_range cs (es - cs) c],
                Some (set_range (ee + 1) (ce - ee) (state_lock_entry_t_dup i c)))
          else if ee < ce then (le, [set_range (ee + 1) (ce - ee) c], None)
          else (le, [set_range cs (es - cs) c], None))
       else
         let ee' = (if ee < ce then ce else ee);
             es' = (if cs < es then cs else es) in
         (set_range es' (ee' - es' + 1) le, [], None))"

text \<open>The loop of \<open>merge_lock_entry\<close> over the entries still to be visited.  An entry split off is
  appended to the list and is visited later, unless the split entry was the last one: its successor
  has been read before.  For a range that wraps around the loop would split the same entry for ever.\<close>
partial_function (option) merge_loop ::
  "nat \<Rightarrow> state_lock_entry_t \<Rightarrow> state_lock_entry_t list
    \<Rightarrow> (state_lock_entry_t \<times> nat \<times> state_lock_entry_t list) option" where
  "merge_loop i le todo =
    (case todo of
       [] \<Rightarrow> Some (le, i, [])
     | c # cs \<Rightarrow>
       (case merge_check i le c of (le', keep, right) \<Rightarrow>
         (case right of
            None \<Rightarrow> do { (le'', i', rest) \<leftarrow> merge_loop i le' cs; Some (le'', i', keep @ rest) }
          | Some r \<Rightarrow>
              if cs = [] then Some (le', i + 1, keep @ [r])
              else do { (le'', i', rest) \<leftarrow> merge_loop (i + 1) le' (cs @ [r]); Some (le'', i', keep @ rest) })))"

text \<open>\<open>merge_lock_entry\<close>: the entry may be on the list itself, then it changes there too.\<close>
definition merge_lock_entry ::
  "state_lock_entry_t \<Rightarrow> 'f lock_file \<Rightarrow> (state_lock_entry_t \<times> 'f lock_file) option" where
  "merge_lock_entry le s = do {
     (le', i, L) \<leftarrow> merge_loop (next_entry s) le (lock_list s);
     Some (le', s\<lparr>lock_list := map (\<lambda>e. if sle_id e = sle_id le then le' else e) L, next_entry := i\<rparr>) }"

section \<open>Subtracting a range from the list\<close>

text \<open>\<open>subtract_lock_from_entry\<close>: the pieces that remain, whether the entry was removed, and the next
  unused address.\<close>
definition subtract_lock_from_entry ::
  "nat \<Rightarrow> state_lock_entry_t \<Rightarrow> fsal_lock_param_t \<Rightarrow> state_lock_entry_t list \<times> bool \<times> nat" where
  "subtract_lock_from_entry i e lock =
    (let fe = lock_end (sle_lock e); re = lock_end lock;
         fs = lock_start (sle_lock e); rs = lock_start lock in
     if re < fs then ([], False, i)
     else if fe < rs then ([], False, i)
     else if rs \<le> fs \<and> re \<ge> fe then ([], True, i)
     else
       let left = (if rs > fs then [set_range fs (rs - fs) (state_lock_entry_t_dup i e)] else []);
           i1 = i + length left;
           right = (if re < fe
                    then [set_range (re + 1) (if fe = UINT64_MAX then 0 else fe - re) (state_lock_entry_t_dup i1 e)]
                    else []) in
       (left @ right, True, i1 + length right))"

text \<open>\<open>subtract_lock_from_list\<close>: the loop keeps the entries that are left alone in place and collects
  the pieces on a split list, which is appended at the end.  Splitting cannot fail, memory
  exhaustion ends the process.\<close>
fun subtract_loop ::
  "state_owner_t option \<Rightarrow> bool \<Rightarrow> int \<Rightarrow> fsal_lock_param_t \<Rightarrow> nat \<Rightarrow> state_lock_entry_t list
    \<Rightarrow> state_lock_entry_t list \<times> state_lock_entry_t list \<times> bool \<times> nat" where
  "subtract_loop owner state_applies st lock i [] = ([], [], False, i)"
| "subtract_loop owner state_applies st lock i (e # es) =
    (if (case owner of None \<Rightarrow> False | Some ow \<Rightarrow> different_owners (sle_owner e) ow)
        \<or> sle_blocked e \<noteq> STATE_NON_BLOCKING
        \<or> state_applies \<and> state_seqid (sle_state e) = st
     then (case subtract_loop owner state_applies st lock i es of (keep, split, rem, i') \<Rightarrow>
             (e # keep, split, rem, i'))
     else (case subtract_lock_from_entry i e lock of (pieces, removed_one, i1) \<Rightarrow>
           case subtract_loop owner state_applies st lock i1 es of (keep, split, rem, i') \<Rightarrow>
             ((if removed_one then keep else e # keep), pieces @ split, removed_one \<or> rem, i')))"

definition subtract_lock_from_list ::
  "state_owner_t option \<Rightarrow> bool \<Rightarrow> int \<Rightarrow> fsal_lock_param_t \<Rightarrow> 'f lock_file \<Rightarrow> bool \<times> 'f lock_file" where
  "subtract_lock_from_list owner state_applies st lock s =
    (case subtract_loop owner state_applies st lock (next_entry s) (lock_list s) of (keep, split, rem, i) \<Rightarrow>
       (rem, s\<lparr>lock_list := keep @ split, next_entry := i\<rparr>))"

section \<open>Calls of the FSAL\<close>

text \<open>\<open>do_lock_op\<close>: the status, what is stored in \<open>holder\<close> and \<open>conflict\<close>, and the new state.\<close>
definition do_lock_op ::
  "'f lock_env \<Rightarrow> state_t \<Rightarrow> fsal_lock_op_t \<Rightarrow> state_owner_t \<Rightarrow> fsal_lock_param_t \<Rightarrow> 'f lock_file
    \<Rightarrow> state_status_t \<times> (state_owner_t \<times> fsal_lock_param_t) option \<times> 'f lock_file" where
  "do_lock_op E st lock_op owner lock s =
    (if \<not> fso_lock_support E \<or> \<not> fso_lock_support_async_block E \<and> lock_op = FSAL_OP_CANCEL
     then (STATE_SUCCESS, None, s)
     else
       let fsal_lock_op = (if lock_op = FSAL_OP_LOCKB \<and> \<not> fso_lock_support_async_block E
                           then FSAL_OP_LOCK else lock_op) in
       case lock_op2 E st owner fsal_lock_op lock (fsal_locks s) of (err, conflicting_lock, f) \<Rightarrow>
       let status0 = state_error_convert err;
           status = (if status0 = STATE_LOCK_BLOCKED \<and> fsal_lock_op \<noteq> FSAL_OP_LOCKB then STATE_FSAL_ERROR
                     else if status0 = STATE_LOCK_CONFLICT \<and> lock_op = FSAL_OP_LOCKB then STATE_LOCK_BLOCKED
                     else status0) in
       (status, if status = STATE_LOCK_CONFLICT then Some (unknown_owner, conflicting_lock) else None,
        s\<lparr>fsal_locks := f\<rparr>))"

definition copy_conflict :: "state_lock_entry_t \<Rightarrow> state_owner_t \<times> fsal_lock_param_t" where
  "copy_conflict e = (sle_owner e, sle_lock e)"

definition state_test ::
  "'f lock_env \<Rightarrow> state_t \<Rightarrow> state_owner_t \<Rightarrow> fsal_lock_param_t \<Rightarrow> 'f lock_file
    \<Rightarrow> state_status_t \<times> (state_owner_t \<times> fsal_lock_param_t) option \<times> 'f lock_file" where
  "state_test E st owner lock s =
    (case get_overlapping_entry (lock_list s) owner lock of
       Some e \<Rightarrow> (STATE_LOCK_CONFLICT, Some (copy_conflict e), s)
     | None \<Rightarrow> do_lock_op E st FSAL_OP_LOCKT owner lock s)"

section \<open>Grant cookies\<close>

text \<open>\<open>free_cookie\<close> for the cookie of entry \<open>i\<close>.\<close>
definition free_cookie :: "nat \<Rightarrow> bool \<Rightarrow> 'f lock_file \<Rightarrow> 'f lock_file" where
  "free_cookie i unblock s =
    (if unblock
     then upd_entry i (\<lambda>e. e\<lparr>sle_block_data := map_option (\<lambda>b. b\<lparr>sbd_blocked_cookie := None\<rparr>) (sle_block_data e)\<rparr>) s
     else s)"

text \<open>\<open>state_find_grant\<close>: the cookie is taken out of the table.\<close>
definition state_find_grant :: "u64 \<Rightarrow> 'f lock_file \<Rightarrow> nat option \<times> 'f lock_file" where
  "state_find_grant cookie s =
    (ht_lock_cookies s cookie, s\<lparr>ht_lock_cookies := (ht_lock_cookies s)(cookie := None)\<rparr>)"

definition state_add_grant_cookie ::
  "'f lock_env \<Rightarrow> u64 \<Rightarrow> state_lock_entry_t \<Rightarrow> 'f lock_file \<Rightarrow> state_status_t \<times> 'f lock_file" where
  "state_add_grant_cookie E cookie e s =
    (case sle_block_data e of
       None \<Rightarrow> (STATE_INCONSISTENT_ENTRY, s)
     | Some b \<Rightarrow>
       if ht_lock_cookies s cookie \<noteq> None then (STATE_HASH_TABLE_ERROR, s)
       else
         let s1 = s\<lparr>ht_lock_cookies := (ht_lock_cookies s)(cookie := Some (sle_id e))\<rparr> in
         case (case sbd_grant_type b of
                 STATE_GRANT_NONE \<Rightarrow> (STATE_INCONSISTENT_ENTRY, None, s1)
               | STATE_GRANT_POLL \<Rightarrow> do_lock_op E (sle_state e) FSAL_OP_LOCKB (sle_owner e) (sle_lock e) s1
               | STATE_GRANT_FSAL_AVAILABLE \<Rightarrow> do_lock_op E (sle_state e) FSAL_OP_LOCKB (sle_owner e) (sle_lock e) s1
               | STATE_GRANT_INTERNAL \<Rightarrow> do_lock_op E (sle_state e) FSAL_OP_LOCK (sle_owner e) (sle_lock e) s1
               | STATE_GRANT_FSAL \<Rightarrow> (STATE_SUCCESS, None, s1)) of (status, _, s2) \<Rightarrow>
         if status \<noteq> STATE_SUCCESS
         then (status, free_cookie (sle_id e) False
                         (s2\<lparr>ht_lock_cookies := (ht_lock_cookies s2)(cookie := None)\<rparr>))
         else (status, upd_entry (sle_id e)
                 (\<lambda>e. e\<lparr>sle_block_data := map_option (\<lambda>b. b\<lparr>sbd_blocked_cookie := Some cookie\<rparr>) (sle_block_data e)\<rparr>) s2))"

definition state_cancel_grant ::
  "'f lock_env \<Rightarrow> state_lock_entry_t \<Rightarrow> 'f lock_file \<Rightarrow> state_status_t \<times> 'f lock_file" where
  "state_cancel_grant E e s =
    (case do_lock_op E (sle_state e) FSAL_OP_UNLOCK (sle_owner e) (sle_lock e) s of (status, _, s1) \<Rightarrow>
       (status, free_cookie (sle_id e) True s1))"

text \<open>\<open>nlm_granted_callback\<close> (\<open>Protocols/NLM/nlm_util.c\<close>), the one callback that is installed in
  \<open>sbd_granted_callback\<close>: it takes the next cookie, adds it to the entry and schedules the GRANTED
  message.\<close>
definition nlm_granted_callback ::
  "'f lock_env \<Rightarrow> state_lock_entry_t \<Rightarrow> 'f lock_file \<Rightarrow> state_status_t \<times> 'f lock_file" where
  "nlm_granted_callback E e s =
    (let cookie = granted_cookie s + 1 in
     case state_add_grant_cookie E cookie e (s\<lparr>granted_cookie := cookie\<rparr>) of (status, s1) \<Rightarrow>
     if status \<noteq> STATE_SUCCESS then (status, s1)
     else case state_async_schedule E cookie (fsal_locks s1) of (status2, f) \<Rightarrow>
       let s2 = s1\<lparr>fsal_locks := f\<rparr> in
       if status2 \<noteq> STATE_SUCCESS then (status2, snd (state_cancel_grant E e s2)) else (status2, s2))"

section \<open>Granting blocked locks\<close>

definition try_to_grant_lock :: "'f lock_env \<Rightarrow> state_lock_entry_t \<Rightarrow> 'f lock_file \<Rightarrow> 'f lock_file" where
  "try_to_grant_lock E e s =
    (case sle_block_data e of
       None \<Rightarrow> remove_from_locklist (sle_id e) s
     | Some b \<Rightarrow>
       if sle_blocked e = STATE_CANCELED then remove_from_locklist (sle_id e) s
       else if \<not> export_ready E (sle_export e) then remove_from_locklist (sle_id e) s
       else
         let e1 = e\<lparr>sle_blocked := STATE_GRANTING,
                    sle_block_data := Some (b\<lparr>sbd_grant_type :=
                      (if sbd_grant_type b = STATE_GRANT_NONE then STATE_GRANT_INTERNAL else sbd_grant_type b)\<rparr>)\<rparr> in
         case nlm_granted_callback E e1 (upd_entry (sle_id e) (\<lambda>_. e1) s) of (status, s1) \<Rightarrow>
         if status = STATE_LOCK_BLOCKED
         then upd_entry (sle_id e) (\<lambda>x. x\<lparr>sle_blocked := sle_blocked e,
                sle_block_data := map_option (\<lambda>b. b\<lparr>sbd_grant_type := STATE_GRANT_NONE\<rparr>) (sle_block_data x)\<rparr>) s1
         else if status = STATE_SUCCESS then s1
         else remove_from_locklist (sle_id e) s1)"

text \<open>One round of \<open>grant_blocked_locks\<close> for the entry at an address.\<close>
definition grant_blocked_one :: "'f lock_env \<Rightarrow> nat \<Rightarrow> 'f lock_file \<Rightarrow> 'f lock_file" where
  "grant_blocked_one E i s =
    (case entry_at i s of
       None \<Rightarrow> s
     | Some e \<Rightarrow>
       if sle_blocked e \<noteq> STATE_NLM_BLOCKING \<and> sle_blocked e \<noteq> STATE_NFSV4_BLOCKING then s
       else if get_overlapping_entry (lock_list s) (sle_owner e) (sle_lock e) \<noteq> None then s
       else try_to_grant_lock E e s)"

definition grant_blocked_locks :: "'f lock_env \<Rightarrow> 'f lock_file \<Rightarrow> 'f lock_file" where
  "grant_blocked_locks E s =
    (if fso_lock_support_async_block E then s
     else fold (grant_blocked_one E) (map sle_id (lock_list s)) s)"

definition grant_blocked_lock_immediate ::
  "'f lock_env \<Rightarrow> state_lock_entry_t \<Rightarrow> 'f lock_file \<Rightarrow> 'f lock_file option" where
  "grant_blocked_lock_immediate E e s =
    (let cleaned =
       (case sle_block_data e of
          None \<Rightarrow> Some s
        | Some b \<Rightarrow>
          (case sbd_blocked_cookie b of
             Some cookie \<Rightarrow>
               (case state_find_grant cookie s of
                  (Some i, s1) \<Rightarrow> Some (free_cookie i True s1)
                | (None, s1) \<Rightarrow> None)
           | None \<Rightarrow> Some (upd_entry (sle_id e) (\<lambda>x. x\<lparr>sle_block_data := None\<rparr>) s))) in
     case cleaned of
       None \<Rightarrow> Some s
     | Some s1 \<Rightarrow>
       let s2 = upd_entry (sle_id e) (\<lambda>x. x\<lparr>sle_blocked := STATE_NON_BLOCKING\<rparr>) s1 in
       (case entry_at (sle_id e) s2 of
          None \<Rightarrow> Some (grant_blocked_locks E s2)
        | Some le \<Rightarrow> do {
            (_, s3) \<leftarrow> merge_lock_entry le s2;
            Some (grant_blocked_locks E s3) }))"

section \<open>Cancelling blocked locks\<close>

definition cancel_blocked_lock :: "'f lock_env \<Rightarrow> state_lock_entry_t \<Rightarrow> 'f lock_file \<Rightarrow> 'f lock_file" where
  "cancel_blocked_lock E e s =
    (let s1 = upd_entry (sle_id e) (\<lambda>x. x\<lparr>sle_blocked := STATE_CANCELED\<rparr>) s in
     case (case sle_block_data e of None \<Rightarrow> None | Some b \<Rightarrow> sbd_blocked_cookie b) of
       Some cookie \<Rightarrow>
         (case state_find_grant cookie s1 of
            (Some i, s2) \<Rightarrow> remove_from_locklist (sle_id e) (free_cookie i True s2)
          | (None, s2) \<Rightarrow> remove_from_locklist (sle_id e) s2)
     | None \<Rightarrow>
         (case do_lock_op E (sle_state e) FSAL_OP_CANCEL (sle_owner e) (sle_lock e) s1 of (status, _, s2) \<Rightarrow>
            if status \<noteq> STATE_SUCCESS then s2 else remove_from_locklist (sle_id e) s2))"

text \<open>One round of \<open>cancel_blocked_locks_range\<close>.\<close>
definition cancel_blocked_one ::
  "'f lock_env \<Rightarrow> state_owner_t option \<Rightarrow> bool \<Rightarrow> int \<Rightarrow> fsal_lock_param_t \<Rightarrow> nat \<Rightarrow> 'f lock_file \<Rightarrow> 'f lock_file" where
  "cancel_blocked_one E owner state_applies st lock i s =
    (case entry_at i s of
       None \<Rightarrow> s
     | Some e \<Rightarrow>
       if (case owner of None \<Rightarrow> False | Some ow \<Rightarrow> different_owners (sle_owner e) ow) then s
       else if state_applies \<and> state_seqid (sle_state e) = st then s
       else if sle_blocked e = STATE_NON_BLOCKING then s
       else if lock_end (sle_lock e) \<ge> lock_start lock \<and> lock_start (sle_lock e) \<le> lock_end lock
       then cancel_blocked_lock E e s
       else s)"

definition cancel_blocked_locks_range ::
  "'f lock_env \<Rightarrow> state_owner_t option \<Rightarrow> bool \<Rightarrow> int \<Rightarrow> fsal_lock_param_t \<Rightarrow> 'f lock_file \<Rightarrow> 'f lock_file" where
  "cancel_blocked_locks_range E owner state_applies st lock s =
     fold (cancel_blocked_one E owner state_applies st lock) (map sle_id (lock_list s)) s"

section \<open>Entry points\<close>

text \<open>The first loop of \<open>state_lock\<close>, for a blocking request: an entry of the owner under another
  export, or the same request already blocked.\<close>
fun find_blocked_loop ::
  "'f lock_env \<Rightarrow> state_owner_t \<Rightarrow> state_blocking_t \<Rightarrow> fsal_lock_param_t \<Rightarrow> state_lock_entry_t list \<Rightarrow> state_status_t option" where
  "find_blocked_loop E owner blocking lock [] = None"
| "find_blocked_loop E owner blocking lock (e # es) =
    (if different_owners (sle_owner e) owner then find_blocked_loop E owner blocking lock es
     else if sle_export e \<noteq> ctx_export E then Some STATE_INVALID_ARGUMENT
     else if sle_blocked e \<noteq> blocking then find_blocked_loop E owner blocking lock es
     else if different_lock (sle_lock e) lock then find_blocked_loop E owner blocking lock es
     else Some STATE_LOCK_BLOCKED)"

text \<open>How the second loop of \<open>state_lock\<close> ends: an owner with locks under another export, an existing
  lock of the owner that covers the request, a conflicting entry, or no obstacle.\<close>
datatype lock_check = Other_export | Existing state_lock_entry_t | Conflicting state_lock_entry_t | Allowed

fun lock_check_loop ::
  "'f lock_env \<Rightarrow> state_owner_t \<Rightarrow> fsal_lock_param_t \<Rightarrow> state_lock_entry_t list \<Rightarrow> lock_check" where
  "lock_check_loop E owner lock [] = Allowed"
| "lock_check_loop E owner lock (e # es) =
    (if sle_export e \<noteq> ctx_export E \<and> \<not> different_owners (sle_owner e) owner then Other_export
     else if \<not> lock_reclaim lock
        \<and> lock_end (sle_lock e) \<ge> lock_start lock \<and> lock_start (sle_lock e) \<le> lock_end lock
        \<and> (lock_type (sle_lock e) = FSAL_LOCK_W \<or> lock_type lock = FSAL_LOCK_W)
        \<and> different_owners (sle_owner e) owner then Conflicting e
     else if lock_end (sle_lock e) \<ge> lock_end lock \<and> lock_start (sle_lock e) \<le> lock_start lock
        \<and> lock_type (sle_lock e) = lock_type lock
        \<and> (sle_blocked e = STATE_NON_BLOCKING \<or> sle_blocked e = STATE_GRANTING)
        \<and> \<not> different_owners (sle_owner e) owner then Existing e
     else lock_check_loop E owner lock es)"

text \<open>The part of \<open>state_lock\<close> after the checks: the new entry, the call of the FSAL and what its
  status does to the list.  \<open>found\<close> is the conflicting entry, if there is one (\<open>allow\<close> is
  \<open>found = None\<close>).  The block data are dereferenced when the request blocks.\<close>
definition state_lock_place ::
  "'f lock_env \<Rightarrow> state_owner_t \<Rightarrow> state_t \<Rightarrow> state_blocking_t \<Rightarrow> state_block_data_t option
    \<Rightarrow> fsal_lock_param_t \<Rightarrow> state_lock_entry_t option \<Rightarrow> fsal_lock_op_t \<Rightarrow> 'f lock_file
    \<Rightarrow> (state_status_t \<times> (state_owner_t \<times> fsal_lock_param_t) option \<times> 'f lock_file) option" where
  "state_lock_place E owner st blocking block_data lock found lock_op s =
    (let e = create_state_lock_entry (next_entry s) (ctx_export E) STATE_NON_BLOCKING owner st lock;
         s0 = s\<lparr>next_entry := next_entry s + 1\<rparr>;
         async = fso_lock_support_async_block E;
         known = map_option copy_conflict found in
     case (if found = None \<or> async then do_lock_op E st lock_op owner lock s0
           else (STATE_LOCK_BLOCKED, None, s0)) of (status, conflict, s1) \<Rightarrow>
     let reported = (if found = None then conflict else known) in
     if status = STATE_SUCCESS then do {
       let s2 = (if lock_list s1 = [] then s1\<lparr>list_refs := list_refs s1 + 1\<rparr> else s1);
       (e', s3) \<leftarrow> merge_lock_entry e s2;
       Some (status, reported, grant_blocked_locks E (s3\<lparr>lock_list := lock_list s3 @ [e']\<rparr>)) }
     else if status = STATE_LOCK_BLOCKED then do {
       b \<leftarrow> block_data;
       let b' = b\<lparr>sbd_block_type := (if async then STATE_BLOCK_ASYNC
                                    else if found = None then STATE_BLOCK_POLL else STATE_BLOCK_INTERNAL)\<rparr>;
       Some (status, reported, s1\<lparr>lock_list := lock_list s1 @ [e\<lparr>sle_block_data := Some b', sle_blocked := blocking\<rparr>]\<rparr>) }
     else Some (status, reported, s1))"

definition state_lock ::
  "'f lock_env \<Rightarrow> state_owner_t \<Rightarrow> state_t \<Rightarrow> state_blocking_t \<Rightarrow> state_block_data_t option
    \<Rightarrow> fsal_lock_param_t \<Rightarrow> 'f lock_file
    \<Rightarrow> (state_status_t \<times> (state_owner_t \<times> fsal_lock_param_t) option \<times> 'f lock_file) option" where
  "state_lock E owner st blocking block_data lock s =
    (case (if blocking \<noteq> STATE_NON_BLOCKING then find_blocked_loop E owner blocking lock (lock_list s) else None) of
       Some status \<Rightarrow> Some (status, None, s)
     | None \<Rightarrow>
       (case lock_check_loop E owner lock (lock_list s) of
          Other_export \<Rightarrow> Some (STATE_INVALID_ARGUMENT, None, s)
        | Existing e \<Rightarrow>
            if sle_blocked e = STATE_GRANTING then do {
              s' \<leftarrow> grant_blocked_lock_immediate E e s;
              Some (STATE_SUCCESS, None, s') }
            else Some (STATE_SUCCESS, None, s)
        | Conflicting e \<Rightarrow>
            if blocking = STATE_NLM_BLOCKING
            then state_lock_place E owner st blocking block_data lock (Some e) FSAL_OP_LOCKB s
            else Some (STATE_LOCK_CONFLICT, Some (copy_conflict e), s)
        | Allowed \<Rightarrow>
            state_lock_place E owner st blocking block_data lock None
              (if blocking = STATE_NLM_BLOCKING then FSAL_OP_LOCKB else FSAL_OP_LOCK) s))"

definition state_unlock ::
  "'f lock_env \<Rightarrow> state_t \<Rightarrow> state_owner_t \<Rightarrow> bool \<Rightarrow> int \<Rightarrow> fsal_lock_param_t \<Rightarrow> 'f lock_file
    \<Rightarrow> state_status_t \<times> 'f lock_file" where
  "state_unlock E st owner state_applies nsm_state lock s =
    (if lock_obj_type E \<noteq> REGULAR_FILE then (STATE_BAD_TYPE, s)
     else if lock_list s = [] then (STATE_SUCCESS, s)
     else
       let s1 = cancel_blocked_locks_range E (Some owner) state_applies nsm_state lock s;
           s2 = snd (subtract_lock_from_list (Some owner) state_applies nsm_state lock s1);
           s3 = (if lock_list s2 = [] then s2\<lparr>list_refs := list_refs s2 - 1\<rparr> else s2) in
       case do_lock_op E st FSAL_OP_UNLOCK owner lock s3 of (status, _, s4) \<Rightarrow>
         (status, grant_blocked_locks E s4))"

definition state_cancel ::
  "'f lock_env \<Rightarrow> state_owner_t \<Rightarrow> fsal_lock_param_t \<Rightarrow> 'f lock_file \<Rightarrow> state_status_t \<times> 'f lock_file" where
  "state_cancel E owner lock s =
    (if lock_obj_type E \<noteq> REGULAR_FILE then (STATE_BAD_TYPE, s)
     else
       case find (\<lambda>e. \<not> different_owners (sle_owner e) owner \<and> sle_blocked e \<noteq> STATE_NON_BLOCKING
                    \<and> \<not> different_lock (sle_lock e) lock) (lock_list s) of
         None \<Rightarrow> (STATE_SUCCESS, s)
       | Some e \<Rightarrow> (STATE_SUCCESS, grant_blocked_locks E (cancel_blocked_lock E e s)))"

text \<open>\<open>state_complete_grant\<close> and \<open>state_release_grant\<close> for the cookie of the entry at address \<open>i\<close>.
  An entry that has been taken off the list is no longer being granted.\<close>
definition state_complete_grant :: "'f lock_env \<Rightarrow> nat \<Rightarrow> 'f lock_file \<Rightarrow> 'f lock_file option" where
  "state_complete_grant E i s =
    (case entry_at i s of
       Some e \<Rightarrow>
         if sle_blocked e = STATE_GRANTING then do {
           let le = e\<lparr>sle_blocked := STATE_NON_BLOCKING\<rparr>;
           (_, s1) \<leftarrow> merge_lock_entry le (upd_entry i (\<lambda>_. le) s);
           Some (free_cookie i True (grant_blocked_locks E s1)) }
         else Some (free_cookie i True s)
     | None \<Rightarrow> Some (free_cookie i True s))"

definition state_release_grant :: "'f lock_env \<Rightarrow> nat \<Rightarrow> 'f lock_file \<Rightarrow> state_status_t \<times> 'f lock_file" where
  "state_release_grant E i s =
    (case (case entry_at i s of
             Some e \<Rightarrow>
               if sle_blocked e = STATE_GRANTING then
                 let s1 = upd_entry i (\<lambda>x. x\<lparr>sle_blocked := STATE_CANCELED\<rparr>) s in
                 (case do_lock_op E (sle_state e) FSAL_OP_UNLOCK (sle_owner e) (sle_lock e) s1 of (status, _, s2) \<Rightarrow>
                    (status, if status \<noteq> STATE_SUCCESS then s2 else remove_from_locklist i s2))
               else (STATE_SUCCESS, s)
           | None \<Rightarrow> (STATE_SUCCESS, s)) of (status, s3) \<Rightarrow>
       let s4 = grant_blocked_locks E (free_cookie i True s3) in
       (status, if lock_list s4 = [] then s4\<lparr>list_refs := list_refs s4 - 1\<rparr> else s4))"

text \<open>\<open>state_lock_wipe\<close>.\<close>
definition state_lock_wipe :: "'f lock_file \<Rightarrow> bool \<times> 'f lock_file" where
  "state_lock_wipe s = (if lock_list s = [] then (False, s) else (True, s\<lparr>lock_list := []\<rparr>))"

section \<open>Ranges of the NFSv4 lock operations\<close>

text \<open>The range of a LOCKT request (\<open>nfs4_op_lockt.c\<close>): the largest length means up to the end of
  the file, which a lock description writes as length zero.\<close>
definition lockt_range :: "u64 \<Rightarrow> u64 \<Rightarrow> u64 \<Rightarrow> nfsstat4 + (u64 \<times> u64)" where
  "lockt_range maxfilesize off len =
    (let start = off; length' = (if len \<noteq> UINT64_MAX then len else 0) in
     if length' > UINT64_MAX - start then Inl NFS4ERR_INVAL
     else if length' > maxfilesize - start then Inl NFS4ERR_BAD_RANGE
     else Inr (start, length'))"

text \<open>The range of a LOCK request (\<open>nfs4_op_lock.c\<close>); LOCKU has the same checks.\<close>
definition lock_range :: "u64 \<Rightarrow> u64 \<Rightarrow> u64 \<Rightarrow> nfsstat4 + (u64 \<times> u64)" where
  "lock_range maxfilesize off len =
    (let start = off; length' = (if len \<noteq> UINT64_MAX then len else 0) in
     if len = 0 then Inl NFS4ERR_INVAL
     else if length' > UINT64_MAX - start then Inl NFS4ERR_INVAL
     else if length' > maxfilesize - start then Inl NFS4ERR_BAD_RANGE
     else Inr (start, length'))"

end
