(* ===== verification/Sal_Lock_Inv.thy ===== *)
theory Sal_Lock_Inv
  imports Sal_Lock
begin

text \<open>
  The invariant of the lock list (\<open>lock_inv\<close>): two owners never hold conflicting locks on the same
  byte, ranges do not wrap around, and the addresses of the entries are distinct.  One round of
  merging is described by the rule \<open>merge_check_cases\<close>, the whole loop by the induction rule
  \<open>merge_loop_induct\<close>; steps that grant nothing are composed with the relation \<open>keeps\<close>.  The entry
  points of the lock code keep the invariant and always return.
\<close>

section \<open>Ranges as sets of bytes\<close>

definition bytes_of :: "fsal_lock_param_t \<Rightarrow> u64 set" where
  "bytes_of l = {lock_start l .. lock_end l}"

definition wf_lock :: "fsal_lock_param_t \<Rightarrow> bool" where
  "wf_lock l \<longleftrightarrow> lock_start l \<le> lock_end l"

lemma set_range_simps [simp]:
  "sle_id (set_range a n e) = sle_id e" "sle_owner (set_range a n e) = sle_owner e"
  "sle_blocked (set_range a n e) = sle_blocked e" "sle_export (set_range a n e) = sle_export e"
  "lock_type (sle_lock (set_range a n e)) = lock_type (sle_lock e)"
  "lock_start (sle_lock (set_range a n e)) = a" "lock_length (sle_lock (set_range a n e)) = n"
  "sle_state (set_range a n e) = sle_state e" "sle_block_data (set_range a n e) = sle_block_data e"
  by (simp_all add: set_range_def)

lemma dup_simps [simp]:
  "sle_id (state_lock_entry_t_dup i e) = i" "sle_owner (state_lock_entry_t_dup i e) = sle_owner e"
  "sle_blocked (state_lock_entry_t_dup i e) = sle_blocked e"
  "sle_lock (state_lock_entry_t_dup i e) = sle_lock e"
  "sle_state (state_lock_entry_t_dup i e) = sle_state e"
  by (simp_all add: state_lock_entry_t_dup_def create_state_lock_entry_def)

lemma lock_end_range [simp]:
  "n \<noteq> 0 \<Longrightarrow> lock_end (sle_lock (set_range a n e)) = a + n - 1"
  "lock_end (sle_lock (set_range a 0 e)) = UINT64_MAX"
  by (simp_all add: lock_end_def)




lemma unat_succ: "a \<noteq> UINT64_MAX \<Longrightarrow> unat (a + 1 :: u64) = Suc (unat a)"
  by (metis add.commute eq_neg_iff_add_eq_0 unatSuc)

lemma not_max: "a < (b :: u64) \<Longrightarrow> a \<noteq> UINT64_MAX"
  by (metis word_n1_ge leD)

lemma unat_pred: "a < (b :: u64) \<Longrightarrow> Suc (unat (b - 1)) = unat b"
  using unat_succ [of "b - 1"] by (cases "b = 0") (auto simp: word_less_nat_alt)

lemma pred_less: "a < (b :: u64) \<Longrightarrow> x \<le> b - 1 \<longleftrightarrow> x < b"
  using unat_pred [of a b] unfolding word_le_nat_alt word_less_nat_alt by linarith

lemma succ_le: "a < (b :: u64) \<Longrightarrow> a + 1 \<le> x \<longleftrightarrow> a < x"
  using unat_succ [of a] not_max [of a b] by (simp add: word_le_nat_alt word_less_nat_alt Suc_le_eq)

lemma succ_not_less: "\<not> b + 1 < (a :: u64) \<Longrightarrow> x < a \<Longrightarrow> x \<le> b"
proof (cases "b = UINT64_MAX")
  case False
  then show "\<not> b + 1 < a \<Longrightarrow> x < a \<Longrightarrow> x \<le> b"
    using unat_succ [of b] by (auto simp: word_le_nat_alt word_less_nat_alt)
qed (simp add: word_n1_ge)


definition like :: "state_lock_entry_t \<Rightarrow> state_lock_entry_t \<Rightarrow> bool" where
  "like k e \<longleftrightarrow> sle_owner k = sle_owner e \<and> sle_blocked k = sle_blocked e \<and> sle_export k = sle_export e
     \<and> sle_state k = sle_state e \<and> lock_type (sle_lock k) = lock_type (sle_lock e)"

definition mergeable :: "state_lock_entry_t \<Rightarrow> state_lock_entry_t \<Rightarrow> bool" where
  "mergeable le c \<longleftrightarrow> sle_id c \<noteq> sle_id le \<and> \<not> different_owners (sle_owner c) (sle_owner le)
     \<and> sle_blocked c = STATE_NON_BLOCKING"

abbreviation bytes :: "state_lock_entry_t \<Rightarrow> u64 set" where
  "bytes e \<equiv> bytes_of (sle_lock e)"

abbreviation wf_entry :: "state_lock_entry_t \<Rightarrow> bool" where
  "wf_entry e \<equiv> wf_lock (sle_lock e)"

lemma dup_export [simp]: "sle_export (state_lock_entry_t_dup i e) = sle_export e"
  by (simp add: state_lock_entry_t_dup_def create_state_lock_entry_def)

lemma lock_end_pieces:
  "a < b \<Longrightarrow> lock_end (sle_lock (set_range a (b - a) c)) = b - 1"
  "a < b \<Longrightarrow> lock_end (sle_lock (set_range (a + 1) (b - a) c)) = b"
  by (auto simp add: lock_end_def)

lemma piece_left:
  assumes "a < b"
  shows "bytes (set_range a (b - a) c) = {a..<b}" "wf_entry (set_range a (b - a) c)"
  unfolding bytes_of_def wf_lock_def lock_end_pieces(1) [OF assms]
  using pred_less [OF assms] assms by (simp_all add: set_eq_iff)

lemma piece_right:
  assumes "a < b"
  shows "bytes (set_range (a + 1) (b - a) c) = {a<..b}" "wf_entry (set_range (a + 1) (b - a) c)"
  unfolding bytes_of_def wf_lock_def lock_end_pieces(2) [OF assms]
  using succ_le [OF assms] assms by (simp_all add: set_eq_iff)

lemma lock_end_span:
  assumes "a \<le> b"
  shows "lock_end (sle_lock (set_range a (b - a + 1) e)) = b"
proof (cases "b - a + 1 = 0")
  case True
  then have "b - a + 1 + a = 0 + a" by (simp only:)
  then have "b + 1 = a" by (simp add: algebra_simps)
  then have b: "b = a - 1" by auto
  have "a = 0"
  proof (rule ccontr)
    assume "a \<noteq> 0"
    then have "a - 1 < a" using pred_less [of 0 a "a - 1"] by (simp add: word_gt_0)
    with b assms show False by simp
  qed
  with b True show ?thesis by (simp add: lock_end_def)
qed (simp add: lock_end_def)

lemma piece_span:
  assumes "a \<le> b"
  shows "bytes (set_range a (b - a + 1) c) = {a..b}" "wf_entry (set_range a (b - a + 1) c)"
  unfolding bytes_of_def wf_lock_def lock_end_span [OF assms] using assms by simp_all

lemma succ_less: "a + 1 < (b :: u64) \<Longrightarrow> a \<noteq> UINT64_MAX \<Longrightarrow> a < b"
  using unat_succ [of a] unfolding word_less_nat_alt by linarith

lemma interval_split:
  "es \<le> ee \<Longrightarrow> cs < es \<Longrightarrow> ee < ce \<Longrightarrow> {cs..<es} \<union> {ee<..ce} = {cs..ce} - {es..ee :: 'a :: linorder}"
  by auto

lemma interval_cut_right:
  "es \<le> ee \<Longrightarrow> es \<le> cs \<Longrightarrow> ee < ce \<Longrightarrow> (\<And>x. x < cs \<Longrightarrow> x \<le> ee) \<Longrightarrow> {ee<..ce} = {cs..ce} - {es..ee :: 'a :: linorder}"
  by (auto simp: not_le) (meson leD leI)

lemma interval_cut_left:
  "es \<le> ee \<Longrightarrow> cs < es \<Longrightarrow> ce \<le> ee \<Longrightarrow> (\<And>x. x < es \<Longrightarrow> x \<le> ce) \<Longrightarrow> {cs..<es} = {cs..ce} - {es..ee :: 'a :: linorder}"
  by auto

lemma interval_join:
  assumes "es \<le> ee" "cs \<le> ce" "\<And>x. x < es \<Longrightarrow> x \<le> ce" "\<And>x. x < cs \<Longrightarrow> x \<le> ee"
  shows "{(if cs < es then cs else es)..(if ee < ce then ce else ee)} = {es..ee} \<union> {cs..ce :: 'a :: linorder}"
  using assms by (auto simp: not_less not_le) (meson leD leI linorder_linear order_trans)+

lemma merge_check_apart:
  "\<not> mergeable le c \<or> lock_end (sle_lock c) + 1 < lock_start (sle_lock le)
     \<or> lock_end (sle_lock le) + 1 < lock_start (sle_lock c) \<Longrightarrow> merge_check i le c = (le, [c], None)"
  unfolding merge_check_def mergeable_def Let_def by presburger

lemma merge_check_meet:
  "mergeable le c \<Longrightarrow> \<not> lock_end (sle_lock c) + 1 < lock_start (sle_lock le)
     \<Longrightarrow> \<not> lock_end (sle_lock le) + 1 < lock_start (sle_lock c) \<Longrightarrow>
   merge_check i le c =
    (let ce = lock_end (sle_lock c); ee = lock_end (sle_lock le);
         cs = lock_start (sle_lock c); es = lock_start (sle_lock le) in
     if lock_type (sle_lock c) \<noteq> lock_type (sle_lock le) \<and> (ee < ce \<or> cs < es) then
       (if ee < ce \<and> cs < es
        then (le, [set_range cs (es - cs) c],
              Some (set_range (ee + 1) (ce - ee) (state_lock_entry_t_dup i c)))
        else if ee < ce then (le, [set_range (ee + 1) (ce - ee) c], None)
        else (le, [set_range cs (es - cs) c], None))
     else
       let ee' = (if ee < ce then ce else ee); es' = (if cs < es then cs else es) in
       (set_range es' (ee' - es' + 1) le, [], None))"
  unfolding merge_check_def mergeable_def by (simp only: if_False not_not simp_thms Let_def)

lemma merge_check_cases:
  assumes "merge_check i le c = (le', keep, right)" "wf_entry le" "wf_entry c"
  obtains (skip) "le' = le" "keep = [c]" "right = None"
      "mergeable le c \<longrightarrow> lock_end (sle_lock c) = UINT64_MAX \<or> lock_end (sle_lock le) = UINT64_MAX
         \<or> bytes le \<inter> bytes c = {}"
  | (cut) k where "le' = le" "mergeable le c" "lock_type (sle_lock c) \<noteq> lock_type (sle_lock le)"
      "keep = [k]" "right = None" "like k c" "sle_id k = sle_id c" "wf_entry k" "bytes k = bytes c - bytes le"
      "lock_start (sle_lock c) \<le> lock_start (sle_lock k)"
  | (split) k r where "le' = le" "mergeable le c" "lock_type (sle_lock c) \<noteq> lock_type (sle_lock le)"
      "keep = [k]" "right = Some r" "like k c" "sle_id k = sle_id c" "like r c" "sle_id r = i" "wf_entry k" "wf_entry r"
      "bytes k \<union> bytes r = bytes c - bytes le"
      "lock_start (sle_lock c) < lock_start (sle_lock le)" "lock_start (sle_lock le) \<le> lock_start (sle_lock r)"
  | (absorb) "keep = []" "right = None" "mergeable le c" "like le' le" "sle_id le' = sle_id le" "wf_entry le'"
      "lock_start (sle_lock le') \<le> lock_start (sle_lock le)" "bytes le' = bytes le \<union> bytes c"
      "lock_type (sle_lock c) = lock_type (sle_lock le) \<or> bytes c \<subseteq> bytes le"
proof -
  let ?ce = "lock_end (sle_lock c)" and ?ee = "lock_end (sle_lock le)"
    and ?cs = "lock_start (sle_lock c)" and ?es = "lock_start (sle_lock le)"
  have w: "?cs \<le> ?ce" "?es \<le> ?ee" using assms by (simp_all add: wf_lock_def)
  consider (a) "\<not> mergeable le c" | (b) "mergeable le c" "?ce + 1 < ?es \<or> ?ee + 1 < ?cs"
    | (c) "mergeable le c" "\<not> ?ce + 1 < ?es" "\<not> ?ee + 1 < ?cs" by blast
  then show thesis
  proof cases
    case a
    with assms(1) show thesis by (intro skip) (simp_all add: merge_check_apart)
  next
    case b
    have "?ce = UINT64_MAX \<or> ?ee = UINT64_MAX \<or> bytes le \<inter> bytes c = {}"
      using b(2) succ_less [of ?ce ?es] succ_less [of ?ee ?cs] unfolding bytes_of_def
      by (meson atLeastAtMost_iff disjoint_iff leD order_trans)
    moreover have "merge_check i le c = (le, [c], None)" using b by (intro merge_check_apart) blast
    ultimately show thesis using assms(1) by (intro skip) simp_all
  next
    case c
    note ev = merge_check_meet [OF c, of i, unfolded Let_def]
    have le1: "x < ?es \<Longrightarrow> x \<le> ?ce" for x by (rule succ_not_less [OF c(2)])
    have le2: "x < ?cs \<Longrightarrow> x \<le> ?ee" for x by (rule succ_not_less [OF c(3)])
    let ?differ = "lock_type (sle_lock c) \<noteq> lock_type (sle_lock le)"
    consider (c1) "?differ" "?ee < ?ce" "?cs < ?es" | (c2) "?differ" "?ee < ?ce" "\<not> ?cs < ?es"
      | (c3) "?differ" "\<not> ?ee < ?ce" "?cs < ?es" | (c4) "\<not> ?differ \<or> \<not> ?ee < ?ce \<and> \<not> ?cs < ?es"
      by blast
    then show thesis
    proof cases
      case c1
      let ?k = "set_range ?cs (?es - ?cs) c" and ?r = "set_range (?ee + 1) (?ce - ?ee) (state_lock_entry_t_dup i c)"
      have r: "bytes ?r = {?ee<..?ce}" "wf_entry ?r"
        using piece_right [OF c1(2)] by simp_all
      have k: "bytes ?k = {?cs..<?es}" "wf_entry ?k"
        using piece_left [OF c1(3)] by simp_all
      have res: "le' = le" "keep = [?k]" "right = Some ?r" using assms(1) c1 by (auto simp: ev)
      show thesis
      proof (rule split [of ?k ?r, OF res(1) c(1) c1(1) res(2,3)])
        show "bytes ?k \<union> bytes ?r = bytes c - bytes le"
          unfolding k r unfolding bytes_of_def by (rule interval_split [OF w(2) c1(3,2)])
        show "?es \<le> lock_start (sle_lock ?r)"
          using order.strict_implies_order [OF succ_le [OF c1(2), of "?ee + 1", THEN iffD1, OF order.refl]]
            order.trans [OF w(2)] by simp
      qed (use c1 k r in \<open>simp_all add: like_def\<close>)
    next
      case c2
      let ?k = "set_range (?ee + 1) (?ce - ?ee) c"
      note k = piece_right [OF c2(2), of c]
      have res: "le' = le" "keep = [?k]" "right = None" using assms(1) c2 by (auto simp: ev)
      show thesis
      proof (rule cut [of ?k, OF res(1) c(1) c2(1) res(2,3)])
        show "bytes ?k = bytes c - bytes le"
          unfolding k unfolding bytes_of_def using interval_cut_right [OF w(2) _ c2(2) le2] c2(3) by (simp only: not_less)
        show "?cs \<le> lock_start (sle_lock ?k)"
          using c(3) by simp
      qed (use k in \<open>simp_all add: like_def\<close>)
    next
      case c3
      let ?k = "set_range ?cs (?es - ?cs) c"
      note k = piece_left [OF c3(3)]
      have res: "le' = le" "keep = [?k]" "right = None" using assms(1) c3 by (auto simp: ev)
      show thesis
      proof (rule cut [of ?k, OF res(1) c(1) c3(1) res(2,3)])
        show "bytes ?k = bytes c - bytes le"
          unfolding k unfolding bytes_of_def using interval_cut_left [OF w(2) c3(3) _ le1] c3(2) by (simp only: not_less)
      qed (use k in \<open>simp_all add: like_def\<close>)
    next
      case c4
      define b where "b = (if ?ee < ?ce then ?ce else ?ee)"
      define a where "a = (if ?cs < ?es then ?cs else ?es)"
      have ab: "a \<le> b" using w by (auto simp: a_def b_def)
      have le': "le' = set_range a (b - a + 1) le" "keep = []" "right = None"
        using assms(1) c4 by (auto simp: ev a_def b_def)
      note p = piece_span [OF ab, of le]
      show thesis
      proof (rule absorb)
        show "bytes le' = bytes le \<union> bytes c"
          unfolding le' p(1) unfolding bytes_of_def a_def b_def by (rule interval_join [OF w(2,1) le1 le2])
        show "lock_type (sle_lock c) = lock_type (sle_lock le) \<or> bytes c \<subseteq> bytes le"
          using c4 by (auto simp: bytes_of_def)
      qed (use c le' p in \<open>auto simp: like_def a_def\<close>)
    qed
  qed
qed


lemma merge_loop_Nil [simp]: "merge_loop i le [] = Some (le, i, [])"
  by (simp add: merge_loop.simps [of i le "[]"])

lemma merge_loop_Cons:
  "merge_check i le c = (le1, keep, None) \<Longrightarrow> merge_loop i le1 cs = Some (le', i', L)
     \<Longrightarrow> merge_loop i le (c # cs) = Some (le', i', keep @ L)"
  "merge_check i le c = (le1, keep, Some r) \<Longrightarrow> merge_loop i le [c] = Some (le1, i + 1, keep @ [r])"
  "merge_check i le c = (le1, keep, Some r) \<Longrightarrow> cs \<noteq> []
     \<Longrightarrow> merge_loop (i + 1) le1 (cs @ [r]) = Some (le', i', L)
     \<Longrightarrow> merge_loop i le (c # cs) = Some (le', i', keep @ L)"
  by (simp_all add: merge_loop.simps [of i le "c # cs"] merge_loop.simps [of i le "[c]"])

text \<open>The weight of the entries still to be visited: one that begins before the merged entry may be
  split, which leaves an entry that does not.\<close>
definition merge_weight :: "state_lock_entry_t \<Rightarrow> state_lock_entry_t list \<Rightarrow> nat" where
  "merge_weight le cs = (\<Sum>c\<leftarrow>cs. if lock_start (sle_lock c) < lock_start (sle_lock le) then 2 else 1)"

lemma merge_weight_mono:
  "lock_start (sle_lock le') \<le> lock_start (sle_lock le) \<Longrightarrow> merge_weight le' cs \<le> merge_weight le cs"
  unfolding merge_weight_def by (induction cs) auto

lemma merge_loop_rule:
  assumes "wf_entry le" "list_all wf_entry todo"
    and nil: "\<And>i le. wf_entry le \<Longrightarrow> P i le [] le i []"
    and pass: "\<And>i le c cs le1 keep le' i' L. wf_entry le \<Longrightarrow> wf_entry c \<Longrightarrow> merge_check i le c = (le1, keep, None)
      \<Longrightarrow> P i le1 cs le' i' L \<Longrightarrow> P i le (c # cs) le' i' (keep @ L)"
    and last: "\<And>i le c le1 keep r. wf_entry le \<Longrightarrow> wf_entry c \<Longrightarrow> merge_check i le c = (le1, keep, Some r)
      \<Longrightarrow> P i le [c] le1 (i + 1) (keep @ [r])"
    and more: "\<And>i le c cs le1 keep r le' i' L. wf_entry le \<Longrightarrow> wf_entry c \<Longrightarrow> merge_check i le c = (le1, keep, Some r)
      \<Longrightarrow> P (i + 1) le1 (cs @ [r]) le' i' L \<Longrightarrow> P i le (c # cs) le' i' (keep @ L)"
  shows "\<exists>le' i' L. merge_loop i le todo = Some (le', i', L) \<and> P i le todo le' i' L"
  using assms(1,2)
proof (induction "merge_weight le todo" arbitrary: i le todo rule: less_induct)
  case less
  show ?case
  proof (cases todo)
    case Nil
    with less.prems nil show ?thesis by simp
  next
    case (Cons c cs)
    with less.prems have wf: "wf_entry le" "wf_entry c" "list_all wf_entry cs" by simp_all
    obtain le1 keep right where mc: "merge_check i le c = (le1, keep, right)" by (metis prod_cases3)
    have le1: "wf_entry le1" "lock_start (sle_lock le1) \<le> lock_start (sle_lock le)"
      using mc wf(1,2) by (cases rule: merge_check_cases; simp)+
    show ?thesis
    proof (cases right)
      case None
      have "merge_weight le1 cs < merge_weight le todo"
        using merge_weight_mono [OF le1(2), of cs] by (simp add: Cons merge_weight_def)
      from less.hyps [OF this le1(1) wf(3), of i] obtain le' i' L
        where ih: "merge_loop i le1 cs = Some (le', i', L)" "P i le1 cs le' i' L" by blast
      note mc' = mc [unfolded None]
      show ?thesis unfolding Cons using merge_loop_Cons(1) [OF mc' ih(1)] pass [OF wf(1,2) mc' ih(2)] by blast
    next
      case (Some r)
      have r: "wf_entry r" "le1 = le" "lock_start (sle_lock c) < lock_start (sle_lock le)"
        "\<not> lock_start (sle_lock r) < lock_start (sle_lock le)"
        using mc wf(1,2) by (cases rule: merge_check_cases; simp add: Some not_less)+
      show ?thesis
      proof (cases "cs = []")
        case True
        show ?thesis unfolding Cons True
          using merge_loop_Cons(2) [OF mc [unfolded Some]] last [OF wf(1,2) mc [unfolded Some]] by blast
      next
        case False
        have "merge_weight le (cs @ [r]) < merge_weight le todo"
          using r(3,4) by (simp add: Cons merge_weight_def)
        from less.hyps [OF this wf(1), of "i + 1"] wf(3) r(1) obtain le' i' L
          where ih: "merge_loop (i + 1) le (cs @ [r]) = Some (le', i', L)" "P (i + 1) le (cs @ [r]) le' i' L" by auto
        note mc' = mc [unfolded Some r(2)]
        show ?thesis unfolding Cons
          using merge_loop_Cons(3) [OF mc' False ih(1)] more [OF wf(1,2) mc' ih(2)] by blast
      qed
    qed
  qed
qed


text \<open>What of an owner counts in the comparison: all of it, except the client address of 9P.\<close>
fun owner_key :: "state_owner_t \<Rightarrow> state_owner_t" where
  "owner_key (STATE_LOCK_OWNER_9P p a) = STATE_LOCK_OWNER_9P p []"
| "owner_key ow = ow"

lemma different_owners_key: "different_owners a b \<longleftrightarrow> owner_key a \<noteq> owner_key b"
  by (cases a; cases b) auto

lemma like_refl [simp]: "like e e"
  by (simp add: like_def)

lemma like_trans: "like a b \<Longrightarrow> like b c \<Longrightarrow> like a c"
  by (simp add: like_def)

text \<open>A lock is held while its entry is granted or being granted.\<close>
definition granted :: "state_lock_entry_t \<Rightarrow> bool" where
  "granted e \<longleftrightarrow> sle_blocked e = STATE_NON_BLOCKING \<or> sle_blocked e = STATE_GRANTING"

text \<open>The entries of the second list hold nothing that the first does not hold for the same owner.\<close>
definition traced :: "state_lock_entry_t list \<Rightarrow> state_lock_entry_t list \<Rightarrow> bool" where
  "traced L L' \<longleftrightarrow> (\<forall>k\<in>set L'. granted k \<longrightarrow> (\<forall>b\<in>bytes k. \<exists>c\<in>set L. granted c
     \<and> \<not> different_owners (sle_owner k) (sle_owner c)
     \<and> lock_type (sle_lock k) = lock_type (sle_lock c) \<and> b \<in> bytes c))"

definition exclusive :: "state_lock_entry_t list \<Rightarrow> bool" where
  "exclusive L \<longleftrightarrow> (\<forall>e1\<in>set L. \<forall>e2\<in>set L. granted e1 \<longrightarrow> granted e2
     \<longrightarrow> different_owners (sle_owner e1) (sle_owner e2)
     \<longrightarrow> lock_type (sle_lock e1) = FSAL_LOCK_W \<or> lock_type (sle_lock e2) = FSAL_LOCK_W
     \<longrightarrow> bytes e1 \<inter> bytes e2 = {})"

lemma traced_refl [simp]: "traced L L"
  unfolding traced_def different_owners_key by auto

lemma traced_subset: "set L' \<subseteq> set L \<Longrightarrow> traced L L'"
  unfolding traced_def different_owners_key by auto

lemma traced_trans: "traced L L' \<Longrightarrow> traced L' L'' \<Longrightarrow> traced L L''"
  unfolding traced_def different_owners_key by metis

lemma tracedI:
  assumes "\<And>k. k \<in> set L' \<Longrightarrow> granted k \<Longrightarrow>
     \<exists>c\<in>set L. granted c \<and> sle_owner k = sle_owner c \<and> lock_type (sle_lock k) = lock_type (sle_lock c) \<and> bytes k \<subseteq> bytes c"
  shows "traced L L'"
  unfolding traced_def different_owners_key using assms by (metis subsetD)

lemma exclusive_traced:
  assumes "exclusive L" "traced L L'"
  shows "exclusive L'"
  unfolding exclusive_def
proof (intro ballI impI equals0I)
  fix k1 k2 b
  assume k: "k1 \<in> set L'" "k2 \<in> set L'" "granted k1" "granted k2" "different_owners (sle_owner k1) (sle_owner k2)"
    "lock_type (sle_lock k1) = FSAL_LOCK_W \<or> lock_type (sle_lock k2) = FSAL_LOCK_W" and b: "b \<in> bytes k1 \<inter> bytes k2"
  then obtain c1 c2 where c: "c1 \<in> set L" "c2 \<in> set L" "granted c1" "granted c2"
    "\<not> different_owners (sle_owner k1) (sle_owner c1)" "\<not> different_owners (sle_owner k2) (sle_owner c2)"
    "lock_type (sle_lock k1) = lock_type (sle_lock c1)" "lock_type (sle_lock k2) = lock_type (sle_lock c2)"
    "b \<in> bytes c1 \<inter> bytes c2"
    using assms(2) unfolding traced_def by (metis IntD1 IntD2 IntI)
  then have "different_owners (sle_owner c1) (sle_owner c2)"
    using k(5) by (simp add: different_owners_key)
  with c k(6) assms(1) show False
    unfolding exclusive_def by (metis empty_iff)
qed

text \<open>The rest of the invariant: ranges do not wrap around, addresses are distinct and in use.\<close>
definition wf_file :: "'f lock_file \<Rightarrow> bool" where
  "wf_file s \<longleftrightarrow> list_all wf_entry (lock_list s) \<and> distinct (map sle_id (lock_list s))
     \<and> (\<forall>e\<in>set (lock_list s). sle_id e < next_entry s)"

lemma mergeable_like: "like le' le \<Longrightarrow> sle_id le' = sle_id le \<Longrightarrow> mergeable le' c = mergeable le c"
  by (simp add: mergeable_def like_def)

text \<open>What is left of the visited entries.\<close>
lemma merge_check_kept:
  assumes "merge_check i le c = (le1, keep, right)" "wf_entry le" "wf_entry c"
    and "k \<in> set keep \<or> right = Some k"
  shows "wf_entry k \<and> like k c \<and> bytes k \<subseteq> bytes c"
  using assms(1-3) by (cases rule: merge_check_cases) (use assms(3,4) in auto)

lemma merge_check_entry:
  assumes "merge_check i le c = (le1, keep, right)" "wf_entry le" "wf_entry c"
  shows "wf_entry le1 \<and> like le1 le \<and> sle_id le1 = sle_id le \<and> bytes le \<subseteq> bytes le1"
    "b \<in> bytes le1 \<Longrightarrow> b \<in> bytes le \<or> mergeable le c \<and> lock_type (sle_lock c) = lock_type (sle_lock le) \<and> b \<in> bytes c"
  using assms by (cases rule: merge_check_cases; use assms(2) in auto)+

lemma merge_check_ids:
  assumes "merge_check i le c = (le1, keep, right)" "wf_entry le" "wf_entry c"
  shows "keep = [] \<or> (\<exists>k. keep = [k] \<and> sle_id k = sle_id c)" "right = Some r \<Longrightarrow> sle_id r = i"
  using assms by (cases rule: merge_check_cases; auto)+

lemma merge_loop_total: "wf_entry le \<Longrightarrow> list_all wf_entry todo \<Longrightarrow> merge_loop i le todo \<noteq> None"
  using merge_loop_rule [of le todo "\<lambda>_ _ _ _ _ _. True" i] by auto

lemma merge_loop_induct [consumes 3, case_names nil pass last more]:
  assumes "merge_loop i le todo = Some (le', i', L)" "wf_entry le" "list_all wf_entry todo"
    and "\<And>i le. wf_entry le \<Longrightarrow> P i le [] le i []"
    and "\<And>i le c cs le1 keep le' i' L. wf_entry le \<Longrightarrow> wf_entry c \<Longrightarrow> merge_check i le c = (le1, keep, None)
      \<Longrightarrow> P i le1 cs le' i' L \<Longrightarrow> P i le (c # cs) le' i' (keep @ L)"
    and "\<And>i le c le1 keep r. wf_entry le \<Longrightarrow> wf_entry c \<Longrightarrow> merge_check i le c = (le1, keep, Some r)
      \<Longrightarrow> P i le [c] le1 (i + 1) (keep @ [r])"
    and "\<And>i le c cs le1 keep r le' i' L. wf_entry le \<Longrightarrow> wf_entry c \<Longrightarrow> merge_check i le c = (le1, keep, Some r)
      \<Longrightarrow> P (i + 1) le1 (cs @ [r]) le' i' L \<Longrightarrow> P i le (c # cs) le' i' (keep @ L)"
  shows "P i le todo le' i' L"
proof -
  have "\<exists>le' i' L. merge_loop i le todo = Some (le', i', L) \<and> P i le todo le' i' L"
    by (rule merge_loop_rule [where P = P]) (fact assms(2), fact assms(3), erule assms(4), erule (3) assms(5), erule (2) assms(6), erule (3) assms(7))
  then obtain a b c where "merge_loop i le todo = Some (a, b, c)" and P: "P i le todo a b c" by (elim exE conjE)
  with assms(1) have "a = le'" "b = i'" "c = L" by (simp_all only: option.inject prod.inject)
  with P show ?thesis by (simp only:)
qed

lemma merge_loop_kept:
  assumes "merge_loop i le todo = Some (le', i', L)" "wf_entry le" "list_all wf_entry todo"
  shows "\<forall>k\<in>set L. wf_entry k \<and> (\<exists>c\<in>set todo. like k c \<and> bytes k \<subseteq> bytes c)"
  using assms
proof (induction rule: merge_loop_induct)
  case (pass i le c cs le1 keep le' i' L)
  then show ?case using merge_check_kept [OF pass(3,1,2)] by auto
next
  case (last i le c le1 keep r)
  then show ?case using merge_check_kept [OF last(3,1,2)] by auto
next
  case (more i le c cs le1 keep r le' i' L)
  have k: "\<And>k. k \<in> set keep \<or> k = r \<Longrightarrow> wf_entry k \<and> like k c \<and> bytes k \<subseteq> bytes c"
    using merge_check_kept [OF more(3,1,2)] by auto
  show ?case
  proof
    fix x assume "x \<in> set (keep @ L)"
    with more(4) k show "wf_entry x \<and> (\<exists>c\<in>set (c # cs). like x c \<and> bytes x \<subseteq> bytes c)"
      by (auto intro: like_trans)
  qed
qed simp

lemma merge_loop_entry:
  assumes "merge_loop i le todo = Some (le', i', L)" "wf_entry le" "list_all wf_entry todo"
  shows "wf_entry le' \<and> like le' le \<and> sle_id le' = sle_id le \<and> bytes le \<subseteq> bytes le'"
  using assms
proof (induction rule: merge_loop_induct)
  case (pass i le c cs le1 keep le' i' L)
  then show ?case using merge_check_entry(1) [OF pass(3,1,2)] by (auto dest: like_trans)
next
  case (last i le c le1 keep r)
  then show ?case using merge_check_entry(1) [OF last(3,1,2)] by (auto dest: like_trans)
next
  case (more i le c cs le1 keep r le' i' L)
  then show ?case using merge_check_entry(1) [OF more(3,1,2)] by (auto dest: like_trans)
qed simp

text \<open>What the merged entry may take from an entry of the list.\<close>
definition absorbable :: "state_lock_entry_t \<Rightarrow> u64 \<Rightarrow> state_lock_entry_t \<Rightarrow> bool" where
  "absorbable le b c \<longleftrightarrow> mergeable le c \<and> lock_type (sle_lock c) = lock_type (sle_lock le) \<and> b \<in> bytes c"

lemma absorbable_like: "like le' le \<Longrightarrow> sle_id le' = sle_id le \<Longrightarrow> absorbable le' b c = absorbable le b c"
  by (simp add: absorbable_def mergeable_like) (simp add: like_def)

lemma merge_loop_bytes:
  assumes "merge_loop i le todo = Some (le', i', L)" "wf_entry le" "list_all wf_entry todo"
  shows "\<forall>b\<in>bytes le'. b \<in> bytes le \<or> (\<exists>c\<in>set todo. absorbable le b c)"
  using assms
proof (induction rule: merge_loop_induct)
  case (pass i le c cs le1 keep le' i' L)
  note e = merge_check_entry [OF pass(3,1,2)]
  have a: "absorbable le1 b x = absorbable le b x" for b x
    using e(1) by (intro absorbable_like) simp_all
  have "b \<in> bytes le1 \<Longrightarrow> b \<in> bytes le \<or> absorbable le b c" for b
    using e(2) unfolding absorbable_def by blast
  with pass(4) show ?case unfolding a set_simps by blast
next
  case (last i le c le1 keep r)
  then show ?case using merge_check_entry(2) [OF last(3,1,2)] unfolding absorbable_def by simp
next
  case (more i le c cs le1 keep r le' i' L)
  from more(3,1,2) have r: "le1 = le" "mergeable le c" "like r c" "bytes r \<subseteq> bytes c"
    by (cases rule: merge_check_cases; auto)+
  then have "absorbable le b r \<Longrightarrow> absorbable le b c" for b by (auto simp: absorbable_def like_def)
  with more(4) show ?case unfolding r(1) set_append set_simps by blast
qed simp

lemma merge_loop_ids:
  assumes "merge_loop i le todo = Some (le', i', L)" "wf_entry le" "list_all wf_entry todo"
  shows "i \<le> i' \<and> (\<forall>k\<in>set L. sle_id k \<in> sle_id ` set todo \<or> i \<le> sle_id k \<and> sle_id k < i')
    \<and> ((\<forall>c\<in>set todo. sle_id c < i) \<longrightarrow> distinct (map sle_id todo) \<longrightarrow> distinct (map sle_id L))"
  using assms
proof (induction rule: merge_loop_induct)
  case (pass i le c cs le1 keep le' i' L)
  note k = merge_check_ids(1) [OF pass(3,1,2)]
  with pass(4) show ?case by (auto simp: image_iff)
next
  case (last i le c le1 keep r)
  then show ?case using merge_check_ids [OF last(3,1,2)] by auto
next
  case (more i le c cs le1 keep r le' i' L)
  have r: "sle_id r = i" using merge_check_ids(2) [OF more(3,1,2)] by simp
  note k = merge_check_ids(1) [OF more(3,1,2)]
  have L: "sle_id x \<in> sle_id ` set cs \<or> i \<le> sle_id x \<and> sle_id x < i'" if "x \<in> set L" for x
    using more(4) r that by force
  have "distinct (map sle_id L)" if "\<forall>x\<in>set (c # cs). sle_id x < i" "distinct (map sle_id (c # cs))"
  proof -
    have "sle_id x \<noteq> i" if "x \<in> set cs" for x using \<open>\<forall>x\<in>set (c # cs). sle_id x < i\<close> that by auto
    then have "distinct (map sle_id (cs @ [r]))" "\<forall>x\<in>set (cs @ [r]). sle_id x < i + 1"
      using that r by auto
    with more(4) show ?thesis by blast
  qed
  moreover have "sle_id c \<notin> sle_id ` set L" if "\<forall>x\<in>set (c # cs). sle_id x < i" "distinct (map sle_id (c # cs))"
    using L that by (auto simp: image_iff) (metis leD)
  moreover have "i \<le> i'" using more(4) by simp
  ultimately show ?case using k L by (elim disjE exE conjE) auto
qed simp


section \<open>Steps that grant nothing\<close>

text \<open>The invariant of the lock list.\<close>
definition lock_inv :: "'f lock_file \<Rightarrow> bool" where
  "lock_inv s \<longleftrightarrow> exclusive (lock_list s) \<and> wf_file s"

text \<open>A step that keeps the list well formed and gives no owner a lock it does not hold.\<close>
definition keeps :: "'f lock_file \<Rightarrow> 'f lock_file \<Rightarrow> bool" where
  "keeps s s' \<longleftrightarrow> (wf_file s \<longrightarrow> traced (lock_list s) (lock_list s') \<and> wf_file s')"

lemma keeps_inv: "keeps s s' \<Longrightarrow> lock_inv s \<Longrightarrow> lock_inv s'"
  using exclusive_traced by (auto simp: keeps_def lock_inv_def)

lemma keeps_refl [simp, intro]: "keeps s s"
  by (simp add: keeps_def)

lemma keeps_trans [trans]: "keeps s s' \<Longrightarrow> keeps s' s'' \<Longrightarrow> keeps s s''"
  using traced_trans by (auto simp: keeps_def)

lemma keeps_same: "lock_list s' = lock_list s \<Longrightarrow> next_entry s' = next_entry s \<Longrightarrow> keeps s s'"
  by (simp add: keeps_def wf_file_def)

lemma keeps_remove: "keeps s (remove_from_locklist i s)"
  unfolding keeps_def remove_from_locklist_def
  by (auto simp: wf_file_def list_all_iff distinct_map inj_on_def intro!: traced_subset)

lemma keeps_upd:
  assumes "\<And>e. sle_id (f e) = sle_id e \<and> sle_owner (f e) = sle_owner e \<and> sle_lock (f e) = sle_lock e
    \<and> (granted (f e) \<longrightarrow> granted e)"
  shows "keeps s (upd_entry i f s)"
  unfolding keeps_def
proof (intro impI conjI)
  show "traced (lock_list s) (lock_list (upd_entry i f s))"
    by (rule tracedI) (use assms in \<open>fastforce simp: upd_entry_def split: if_splits\<close>)
  have "map sle_id (lock_list (upd_entry i f s)) = map sle_id (lock_list s)"
    using assms by (simp add: upd_entry_def)
  moreover have "\<forall>k\<in>set (lock_list (upd_entry i f s)). \<exists>e\<in>set (lock_list s). sle_id k = sle_id e \<and> sle_lock k = sle_lock e"
    using assms by (auto simp: upd_entry_def)
  ultimately show "wf_file (upd_entry i f s)" if "wf_file s"
    using that by (simp add: wf_file_def list_all_iff) (metis (no_types, lifting) upd_entry_def lock_file.select_convs(2) lock_file.surjective lock_file.update_convs(1))
qed

lemma do_lock_op_frame:
  "do_lock_op E st op ow l s = (r, c, s') \<Longrightarrow> lock_list s' = lock_list s \<and> next_entry s' = next_entry s"
  by (auto simp: do_lock_op_def Let_def split: if_splits prod.splits)

text \<open>The parts of the entries that decide who holds what, and the steps that leave them alone.\<close>
definition holdings :: "'f lock_file \<Rightarrow> (nat \<times> state_owner_t \<times> state_blocking_t \<times> fsal_lock_param_t) list" where
  "holdings s = map (\<lambda>e. (sle_id e, sle_owner e, sle_blocked e, sle_lock e)) (lock_list s)"

definition same_locks :: "'f lock_file \<Rightarrow> 'f lock_file \<Rightarrow> bool" where
  "same_locks s s' \<longleftrightarrow> holdings s' = holdings s \<and> next_entry s' = next_entry s"

lemma same_locks_refl [simp, intro]: "same_locks s s"
  by (simp add: same_locks_def)

lemma same_locks_trans [trans]: "same_locks s s' \<Longrightarrow> same_locks s' s'' \<Longrightarrow> same_locks s s''"
  by (simp add: same_locks_def)

lemma same_locks_same: "lock_list s' = lock_list s \<Longrightarrow> next_entry s' = next_entry s \<Longrightarrow> same_locks s s'"
  by (simp add: same_locks_def holdings_def)

lemma same_locks_upd:
  "(\<And>e. sle_id (f e) = sle_id e \<and> sle_owner (f e) = sle_owner e \<and> sle_blocked (f e) = sle_blocked e \<and> sle_lock (f e) = sle_lock e)
     \<Longrightarrow> same_locks s (upd_entry i f s)"
  by (simp add: same_locks_def holdings_def upd_entry_def)

lemma holdings_mem:
  assumes "holdings s' = holdings s" "k \<in> set (lock_list s')"
  obtains e where "e \<in> set (lock_list s)" "sle_id e = sle_id k" "sle_owner e = sle_owner k"
    "sle_blocked e = sle_blocked k" "sle_lock e = sle_lock k"
proof -
  have "(sle_id k, sle_owner k, sle_blocked k, sle_lock k) \<in> set (holdings s)"
    using assms(2) unfolding assms(1) [symmetric] by (auto simp: holdings_def)
  with that show thesis by (auto simp: holdings_def)
qed

lemma same_locks_keeps: "same_locks s s' \<Longrightarrow> keeps s s'"
proof -
  assume a: "same_locks s s'"
  then have h: "holdings s' = holdings s" by (simp add: same_locks_def)
  have "traced (lock_list s) (lock_list s')"
    by (rule tracedI) (metis holdings_mem [OF h] granted_def order_refl)
  moreover have "map sle_id (lock_list s') = map sle_id (lock_list s)"
    using arg_cong [OF h, of "map fst"] by (simp add: holdings_def comp_def)
  moreover have "\<forall>k\<in>set (lock_list s'). \<exists>e\<in>set (lock_list s). sle_id k = sle_id e \<and> sle_lock k = sle_lock e"
    using holdings_mem [OF h] by metis
  ultimately show "keeps s s'"
    using a by (auto simp: keeps_def wf_file_def list_all_iff same_locks_def)
qed

lemma same_locks_free_cookie: "same_locks s (free_cookie i u s)"
  by (simp add: free_cookie_def same_locks_upd)

lemma add_grant_call_frame:
  "(case g of
      STATE_GRANT_NONE \<Rightarrow> (STATE_INCONSISTENT_ENTRY, None, s)
    | STATE_GRANT_POLL \<Rightarrow> do_lock_op E st FSAL_OP_LOCKB ow l s
    | STATE_GRANT_FSAL_AVAILABLE \<Rightarrow> do_lock_op E st FSAL_OP_LOCKB ow l s
    | STATE_GRANT_INTERNAL \<Rightarrow> do_lock_op E st FSAL_OP_LOCK ow l s
    | STATE_GRANT_FSAL \<Rightarrow> (STATE_SUCCESS, None, s)) = (r, c, s') \<Longrightarrow>
   lock_list s' = lock_list s \<and> next_entry s' = next_entry s"
  by (cases g) (auto dest: do_lock_op_frame)

lemma same_locks_add_grant_cookie:
  assumes "state_add_grant_cookie E c e s = (r, s')"
  shows "same_locks s s'"
proof (cases "sle_block_data e = None \<or> ht_lock_cookies s c \<noteq> None")
  case True
  with assms show ?thesis by (auto simp: state_add_grant_cookie_def split: option.splits)
next
  case False
  then obtain b where b: "sle_block_data e = Some b" "ht_lock_cookies s c = None" by auto
  define s1 where "s1 = s\<lparr>ht_lock_cookies := (ht_lock_cookies s)(c := Some (sle_id e))\<rparr>"
  obtain r2 x s2 where call: "(case sbd_grant_type b of
      STATE_GRANT_NONE \<Rightarrow> (STATE_INCONSISTENT_ENTRY, None, s1)
    | STATE_GRANT_POLL \<Rightarrow> do_lock_op E (sle_state e) FSAL_OP_LOCKB (sle_owner e) (sle_lock e) s1
    | STATE_GRANT_FSAL_AVAILABLE \<Rightarrow> do_lock_op E (sle_state e) FSAL_OP_LOCKB (sle_owner e) (sle_lock e) s1
    | STATE_GRANT_INTERNAL \<Rightarrow> do_lock_op E (sle_state e) FSAL_OP_LOCK (sle_owner e) (sle_lock e) s1
    | STATE_GRANT_FSAL \<Rightarrow> (STATE_SUCCESS, None, s1)) = (r2, x, s2)" by (metis prod_cases3)
  have "same_locks s s2" using add_grant_call_frame [OF call] by (intro same_locks_same) (simp_all add: s1_def)
  moreover have "same_locks s2 s'"
    using assms b call
    by (auto simp: state_add_grant_cookie_def Let_def free_cookie_def simp flip: s1_def
        split: if_splits intro!: same_locks_upd same_locks_same)
  ultimately show ?thesis by (rule same_locks_trans)
qed

lemma same_locks_cancel_grant: "same_locks s (snd (state_cancel_grant E e s))"
proof -
  obtain r x s1 where call: "do_lock_op E (sle_state e) FSAL_OP_UNLOCK (sle_owner e) (sle_lock e) s = (r, x, s1)"
    by (metis prod_cases3)
  have "same_locks s s1" using do_lock_op_frame [OF call] by (intro same_locks_same) simp_all
  also have "same_locks s1 (snd (state_cancel_grant E e s))"
    by (simp add: state_cancel_grant_def call same_locks_free_cookie)
  finally show ?thesis .
qed

lemma same_locks_callback:
  assumes "nlm_granted_callback E e s = (r, s')"
  shows "same_locks s s'"
proof -
  obtain r1 s1 where add: "state_add_grant_cookie E (granted_cookie s + 1) e (s\<lparr>granted_cookie := granted_cookie s + 1\<rparr>) = (r1, s1)"
    by fastforce
  have k: "same_locks s s1"
    using same_locks_add_grant_cookie [OF add] by (rule same_locks_trans [OF same_locks_same, rotated 2]) simp_all
  obtain r2 f where sch: "state_async_schedule E (granted_cookie s + 1) (fsal_locks s1) = (r2, f)" by fastforce
  have k2: "same_locks s1 (s1\<lparr>fsal_locks := f\<rparr>)" by (rule same_locks_same) simp_all
  show ?thesis
    using assms k same_locks_trans [OF k k2] same_locks_trans [OF same_locks_trans [OF k k2] same_locks_cancel_grant]
    by (auto simp: nlm_granted_callback_def Let_def add sch split: if_splits)
qed

lemmas keeps_free_cookie = same_locks_keeps [OF same_locks_free_cookie]

lemma keeps_cancel_blocked_lock: "keeps s (cancel_blocked_lock E e s)"
proof -
  define s1 where "s1 = upd_entry (sle_id e) (\<lambda>x. x\<lparr>sle_blocked := STATE_CANCELED\<rparr>) s"
  have k1: "keeps s s1" unfolding s1_def by (rule keeps_upd) (simp add: granted_def)
  have "keeps s1 (cancel_blocked_lock E e s)"
  proof (cases "case sle_block_data e of None \<Rightarrow> None | Some b \<Rightarrow> sbd_blocked_cookie b")
    case None
    obtain r x s2 where call: "do_lock_op E (sle_state e) FSAL_OP_CANCEL (sle_owner e) (sle_lock e) s1 = (r, x, s2)"
      by (metis prod_cases3)
    have "keeps s1 s2" using do_lock_op_frame [OF call] by (intro keeps_same) simp_all
    with keeps_trans [OF this keeps_remove] show ?thesis
      by (simp add: cancel_blocked_lock_def None call flip: s1_def)
  next
    case (Some c)
    obtain i s2 where f: "state_find_grant c s1 = (i, s2)" by fastforce
    have k2: "keeps s1 s2" using f by (intro keeps_same) (auto simp: state_find_grant_def)
    show ?thesis
      using keeps_trans [OF k2 keeps_remove] keeps_trans [OF keeps_trans [OF k2 keeps_free_cookie] keeps_remove]
      by (cases i) (simp_all add: cancel_blocked_lock_def Some f flip: s1_def)
  qed
  with k1 show ?thesis by (rule keeps_trans)
qed

lemma keeps_cancel_blocked_one: "keeps s (cancel_blocked_one E ow a st l i s)"
  by (auto simp: cancel_blocked_one_def keeps_cancel_blocked_lock split: option.split)

lemma keeps_fold: "(\<And>x s. keeps s (f x s)) \<Longrightarrow> keeps s (fold f xs s)"
  by (induction xs arbitrary: s) (auto intro: keeps_trans)

lemma keeps_cancel_range: "keeps s (cancel_blocked_locks_range E ow a st l s)"
  by (simp add: cancel_blocked_locks_range_def keeps_fold keeps_cancel_blocked_one)


section \<open>Subtraction\<close>

lemma piece_right_eof:
  assumes "a < b"
  shows "bytes (set_range (a + 1) (if b = UINT64_MAX then 0 else b - a) c) = {a<..b}"
    "wf_entry (set_range (a + 1) (if b = UINT64_MAX then 0 else b - a) c)"
proof -
  have "lock_end (sle_lock (set_range (a + 1) (if b = UINT64_MAX then 0 else b - a) c)) = b"
    using lock_end_pieces(2) [OF assms] by (cases "b = UINT64_MAX") simp_all
  then show "bytes (set_range (a + 1) (if b = UINT64_MAX then 0 else b - a) c) = {a<..b}"
    "wf_entry (set_range (a + 1) (if b = UINT64_MAX then 0 else b - a) c)"
    unfolding bytes_of_def wf_lock_def using succ_le [OF assms] assms by (simp_all add: set_eq_iff)
qed

lemma interval_subtract:
  "\<not> re < fs \<Longrightarrow> \<not> fe < rs \<Longrightarrow> (if fs < rs then {fs..<rs} else {}) \<union> (if re < fe then {re<..fe} else {})
     = {fs..fe} - {rs..re :: 'a :: linorder}"
  by auto

lemma subtract_entry_cases:
  assumes "subtract_lock_from_entry i e l = (P, rem, i')" "wf_entry e" "wf_lock l"
  obtains (none) "\<not> rem" "P = []" "i' = i" "bytes e \<inter> bytes_of l = {}"
  | (some) rem "i' = i + length P" "map sle_id P = [i..<i']" "\<forall>k\<in>set P. like k e \<and> wf_entry k"
      "(\<Union>k\<in>set P. bytes k) = bytes e - bytes_of l"
proof -
  let ?fe = "lock_end (sle_lock e)" and ?re = "lock_end l" and ?fs = "lock_start (sle_lock e)" and ?rs = "lock_start l"
  have w: "?fs \<le> ?fe" "?rs \<le> ?re" using assms(2,3) by (simp_all add: wf_lock_def)
  show thesis
  proof (cases "?re < ?fs \<or> ?fe < ?rs")
    case True
    with assms(1) have "\<not> rem" "P = []" "i' = i" by (auto simp: subtract_lock_from_entry_def Let_def split: if_splits)
    moreover have "bytes e \<inter> bytes_of l = {}"
      unfolding bytes_of_def using True by (meson atLeastAtMost_iff disjoint_iff leD order_trans)
    ultimately show thesis by (rule none)
  next
    case False
    define left where "left = (if ?fs < ?rs then [set_range ?fs (?rs - ?fs) (state_lock_entry_t_dup i e)] else [])"
    define right where "right = (if ?re < ?fe then [set_range (?re + 1) (if ?fe = UINT64_MAX then 0 else ?fe - ?re)
      (state_lock_entry_t_dup (i + length left) e)] else [])"
    have res: "rem" "P = left @ right" "i' = i + length P"
      using assms(1) False by (auto simp: subtract_lock_from_entry_def Let_def left_def right_def split: if_splits)
    have l: "(\<Union>k\<in>set left. bytes k) = (if ?fs < ?rs then {?fs..<?rs} else {})" "\<forall>k\<in>set left. like k e \<and> wf_entry k"
      using piece_left [of ?fs ?rs] by (auto simp: left_def like_def)
    have r: "(\<Union>k\<in>set right. bytes k) = (if ?re < ?fe then {?re<..?fe} else {})" "\<forall>k\<in>set right. like k e \<and> wf_entry k"
      using piece_right_eof [of ?re ?fe] by (auto simp: right_def like_def)
    show thesis
    proof (rule some)
      show "map sle_id P = [i..<i']" using res by (auto simp: left_def right_def)
      show "(\<Union>k\<in>set P. bytes k) = bytes e - bytes_of l"
        unfolding res set_append UN_Un l r unfolding bytes_of_def using False by (intro interval_subtract) simp_all
    qed (use res l r in auto)
  qed
qed

text \<open>The entries that an unlock request applies to.\<close>
definition touched :: "state_owner_t option \<Rightarrow> bool \<Rightarrow> int \<Rightarrow> state_lock_entry_t \<Rightarrow> bool" where
  "touched owner state_applies st e \<longleftrightarrow> \<not> (case owner of None \<Rightarrow> False | Some ow \<Rightarrow> different_owners (sle_owner e) ow)
     \<and> sle_blocked e = STATE_NON_BLOCKING \<and> \<not> (state_applies \<and> state_seqid (sle_state e) = st)"

lemma subtract_loop_Cons:
  "subtract_loop ow a st l i (e # es) =
    (if touched ow a st e
     then (case subtract_lock_from_entry i e l of (pieces, removed_one, i1) \<Rightarrow>
           case subtract_loop ow a st l i1 es of (keep, split, rem, i') \<Rightarrow>
             ((if removed_one then keep else e # keep), pieces @ split, removed_one \<or> rem, i'))
     else (case subtract_loop ow a st l i es of (keep, split, rem, i') \<Rightarrow> (e # keep, split, rem, i')))"
  by (auto simp: touched_def)

lemma subtract_loop_exact:
  assumes "subtract_loop ow a st l i es = (keep, split, rem, i')" "list_all wf_entry es" "wf_lock l"
    and Q: "\<And>k e. like k e \<Longrightarrow> Q k = Q e"
  shows "(\<exists>k\<in>set (keep @ split). Q k \<and> b \<in> bytes k)
     \<longleftrightarrow> (\<exists>e\<in>set es. Q e \<and> b \<in> bytes e \<and> (touched ow a st e \<longrightarrow> b \<notin> bytes_of l))"
  using assms(1,2)
proof (induction es arbitrary: i keep split rem i')
  case (Cons e es)
  show ?case
  proof (cases "touched ow a st e")
    case False
    obtain keep1 where "subtract_loop ow a st l i es = (keep1, split, rem, i')" "keep = e # keep1"
      using Cons.prems(1) False by (auto simp: subtract_loop_Cons simp del: subtract_loop.simps split: prod.splits)
    with Cons False show ?thesis by auto
  next
    case True
    obtain P r1 i1 where e: "subtract_lock_from_entry i e l = (P, r1, i1)" by (metis prod_cases3)
    obtain keep1 split1 rem1 where s: "subtract_loop ow a st l i1 es = (keep1, split1, rem1, i')"
      "keep = (if r1 then keep1 else e # keep1)" "split = P @ split1"
      using Cons.prems(1) True e by (auto simp: subtract_loop_Cons simp del: subtract_loop.simps split: prod.splits)
    note ih = Cons.IH [OF s(1)]
    have wf: "wf_entry e" using Cons.prems(2) by simp
    from e wf assms(3) show ?thesis
    proof (cases rule: subtract_entry_cases)
      case none
      with s ih Cons.prems(2) True show ?thesis by auto
    next
      case some
      have "(\<exists>k\<in>set P. Q k \<and> b \<in> bytes k) \<longleftrightarrow> Q e \<and> b \<in> bytes e \<and> b \<notin> bytes_of l"
        using some(4,5) Q by blast
      with s ih Cons.prems(2) True some(1) show ?thesis by auto
    qed
  qed
qed simp

lemma upt_join: "i \<le> j \<Longrightarrow> j \<le> k \<Longrightarrow> [i..<j] @ [j..<k] = [i..<k]"
  by (metis le_add_diff_inverse upt_add_eq_append)

lemma subtract_loop_wf:
  assumes "subtract_loop ow a st l i es = (keep, split, rem, i')" "list_all wf_entry es" "wf_lock l"
  shows "list_all wf_entry (keep @ split) \<and> i \<le> i' \<and> sle_id ` set keep \<subseteq> sle_id ` set es
    \<and> (distinct (map sle_id es) \<longrightarrow> distinct (map sle_id keep)) \<and> map sle_id split = [i..<i']"
  using assms(1,2)
proof (induction es arbitrary: i keep split rem i')
  case (Cons e es)
  show ?case
  proof (cases "touched ow a st e")
    case False
    obtain keep1 where s: "subtract_loop ow a st l i es = (keep1, split, rem, i')" "keep = e # keep1"
      using Cons.prems(1) False by (auto simp: subtract_loop_Cons simp del: subtract_loop.simps split: prod.splits)
    from Cons.IH [OF s(1)] Cons.prems(2) s(2) show ?thesis by (auto simp: image_subset_iff image_iff) metis+
  next
    case True
    obtain P r1 i1 where e: "subtract_lock_from_entry i e l = (P, r1, i1)" by (metis prod_cases3)
    obtain keep1 split1 rem1 where s: "subtract_loop ow a st l i1 es = (keep1, split1, rem1, i')"
      "keep = (if r1 then keep1 else e # keep1)" "split = P @ split1"
      using Cons.prems(1) True e by (auto simp: subtract_loop_Cons simp del: subtract_loop.simps split: prod.splits)
    note ih = Cons.IH [OF s(1)]
    have wf: "wf_entry e" using Cons.prems(2) by simp
    from e wf assms(3) show ?thesis
    proof (cases rule: subtract_entry_cases)
      case none
      with s ih Cons.prems(2) show ?thesis by (auto simp: list_all_iff image_subset_iff image_iff) metis+
    next
      case some
      with s ih Cons.prems(2) show ?thesis by (auto simp: list_all_iff upt_join image_subset_iff image_iff)
    qed
  qed
qed simp


lemma keeps_subtract:
  assumes "wf_lock l"
  shows "keeps s (snd (subtract_lock_from_list ow a st l s))"
proof (cases "wf_file s")
  case True
  obtain keep split rem i' where sub: "subtract_loop ow a st l (next_entry s) (lock_list s) = (keep, split, rem, i')"
    by (metis prod_cases4)
  have wf: "list_all wf_entry (lock_list s)" "distinct (map sle_id (lock_list s))" "\<forall>e\<in>set (lock_list s). sle_id e < next_entry s"
    using True by (simp_all add: wf_file_def)
  note w = subtract_loop_wf [OF sub wf(1) assms]
  have "traced (lock_list s) (keep @ split)"
    unfolding traced_def
  proof (intro ballI impI)
    fix k b assume k: "k \<in> set (keep @ split)" "granted k" "b \<in> bytes k"
    let ?Q = "\<lambda>c. granted c \<and> sle_owner c = sle_owner k \<and> lock_type (sle_lock c) = lock_type (sle_lock k)"
    have "\<exists>e\<in>set (lock_list s). ?Q e \<and> b \<in> bytes e"
      using subtract_loop_exact [OF sub wf(1) assms, of ?Q b] k by (auto simp: like_def granted_def)
    then show "\<exists>c\<in>set (lock_list s). granted c \<and> \<not> different_owners (sle_owner k) (sle_owner c)
        \<and> lock_type (sle_lock k) = lock_type (sle_lock c) \<and> b \<in> bytes c"
      by (auto simp: different_owners_key)
  qed
  moreover have "distinct (map sle_id (keep @ split))" "\<forall>e\<in>set (keep @ split). sle_id e < i'"
  proof -
    have keep: "distinct (map sle_id keep)" "sle_id ` set keep \<subseteq> sle_id ` set (lock_list s)"
      using w wf(2) by simp_all
    have split: "distinct (map sle_id split)" "sle_id ` set split = {next_entry s..<i'}"
      using w by (simp_all flip: set_map)
    have low: "\<forall>e\<in>set keep. sle_id e < next_entry s" using keep(2) wf(3) by auto
    show "distinct (map sle_id (keep @ split))" using keep(1) split low by auto
    show "\<forall>e\<in>set (keep @ split). sle_id e < i'" using low split(2) w by (auto simp: set_eq_iff) 
  qed
  ultimately show ?thesis using w by (simp add: keeps_def subtract_lock_from_list_def sub wf_file_def)
qed (simp add: keeps_def)


section \<open>Merging and granting\<close>

lemma granted_like: "like k e \<Longrightarrow> granted k = granted e"
  by (simp add: granted_def like_def)

lemma merge_total: "wf_file s \<Longrightarrow> wf_entry le \<Longrightarrow> merge_lock_entry le s \<noteq> None"
  using merge_loop_total [of le "lock_list s" "next_entry s"]
  by (auto simp: merge_lock_entry_def wf_file_def bind_None_iff)

lemma merge_lock_entry_spec:
  assumes m: "merge_lock_entry le s = Some (le', s')" and wf: "wf_file s" "wf_entry le" and le: "granted le"
    and i: "sle_id le < next_entry s"
  shows "wf_file s'" "traced (le # lock_list s) (le' # lock_list s')" "wf_entry le'" "like le' le" "sle_id le' = sle_id le"
    "sle_id le \<notin> sle_id ` set (lock_list s) \<Longrightarrow> sle_id le \<notin> sle_id ` set (lock_list s')" "next_entry s \<le> next_entry s'"
proof -
  obtain i' L where ml: "merge_loop (next_entry s) le (lock_list s) = Some (le', i', L)"
    and s': "s' = s\<lparr>lock_list := map (\<lambda>e. if sle_id e = sle_id le then le' else e) L, next_entry := i'\<rparr>"
    using m by (auto simp: merge_lock_entry_def bind_Some_iff)
  have w: "list_all wf_entry (lock_list s)" "distinct (map sle_id (lock_list s))" "\<forall>e\<in>set (lock_list s). sle_id e < next_entry s"
    using wf(1) by (simp_all add: wf_file_def)
  note k = merge_loop_kept [OF ml wf(2) w(1)] and e = merge_loop_entry [OF ml wf(2) w(1)]
    and b = merge_loop_bytes [OF ml wf(2) w(1)] and ids = merge_loop_ids [OF ml wf(2) w(1)]
  show e': "wf_entry le'" "like le' le" "sle_id le' = sle_id le" using e by simp_all
  have sub: "set (lock_list s') \<subseteq> insert le' (set L)" by (auto simp: s')
  have same: "map sle_id (lock_list s') = map sle_id L" by (simp add: s' e'(3))
  have low: "\<forall>x\<in>set L. sle_id x < i'"
    using ids w(3) by (metis (no_types, opaque_lifting) imageE order_less_le_trans)
  show "wf_file s'"
    unfolding wf_file_def same using k ids w e' i low by (auto simp: list_all_iff s')
  show "traced (le # lock_list s) (le' # lock_list s')"
    unfolding traced_def
  proof (intro ballI impI)
    fix x y assume x: "x \<in> set (le' # lock_list s')" "granted x" "y \<in> bytes x"
    consider "x = le'" | "x \<in> set L" using x(1) sub by auto
    then show "\<exists>c\<in>set (le # lock_list s). granted c \<and> \<not> different_owners (sle_owner x) (sle_owner c)
        \<and> lock_type (sle_lock x) = lock_type (sle_lock c) \<and> y \<in> bytes c"
    proof cases
      case 1
      with b x(3) consider "y \<in> bytes le" | c where "c \<in> set (lock_list s)" "absorbable le y c" by blast
      then show ?thesis
      proof cases
        case 1
        with \<open>x = le'\<close> e'(2) le show ?thesis by (intro bexI [of _ le]) (simp_all add: like_def different_owners_key)
      next
        case (2 c)
        with \<open>x = le'\<close> e'(2) le show ?thesis
          by (intro bexI [of _ c]) (simp_all add: absorbable_def mergeable_def like_def different_owners_key granted_def)
      qed
    next
      case 2
      then obtain c where "c \<in> set (lock_list s)" "like x c" "bytes x \<subseteq> bytes c" using k by blast
      with x(2,3) show ?thesis by (intro bexI [of _ c]) (auto simp: like_def different_owners_key granted_def)
    qed
  qed
  show "sle_id le \<notin> sle_id ` set (lock_list s')" if "sle_id le \<notin> sle_id ` set (lock_list s)"
  proof -
    have "sle_id ` set (lock_list s') = sle_id ` set L" using same by (metis set_map)
    with ids that i show ?thesis by auto
  qed
  show "next_entry s \<le> next_entry s'" using ids by (simp add: s')
qed


lemma exclusive_insert:
  assumes "exclusive L"
    and "\<And>x. x \<in> set L \<Longrightarrow> granted x \<Longrightarrow> different_owners (sle_owner x) (sle_owner e)
      \<Longrightarrow> lock_type (sle_lock x) = FSAL_LOCK_W \<or> lock_type (sle_lock e) = FSAL_LOCK_W \<Longrightarrow> bytes x \<inter> bytes e = {}"
  shows "exclusive (e # L)"
  using assms unfolding exclusive_def different_owners_key list.set by (metis Int_commute insertE)

lemma bytes_meet:
  "bytes_of l \<inter> bytes_of m = {}" if "\<not> (lock_start m \<le> lock_end l \<and> lock_start l \<le> lock_end m)"
  using that unfolding bytes_of_def by (meson atLeastAtMost_iff disjoint_iff order_trans)

lemma entry_at_Some: "entry_at i s = Some e \<Longrightarrow> e \<in> set (lock_list s) \<and> sle_id e = i"
  by (auto simp: entry_at_def find_Some_iff)

lemma wf_file_upd:
  assumes "wf_file s" "\<And>e. e \<in> set (lock_list s) \<Longrightarrow> sle_id e = i \<Longrightarrow> sle_id (f e) = i \<and> wf_entry (f e)"
  shows "wf_file (upd_entry i f s)"
proof -
  have "map sle_id (lock_list (upd_entry i f s)) = map sle_id (lock_list s)"
    using assms(2) by (simp add: upd_entry_def)
  moreover have "next_entry (upd_entry i f s) = next_entry s" by (simp add: upd_entry_def)
  moreover have "set (lock_list (upd_entry i f s)) \<subseteq> {x. wf_entry x \<and> sle_id x < next_entry s}"
    using assms by (auto simp: upd_entry_def wf_file_def list_all_iff)
  ultimately show ?thesis using assms(1) by (auto simp: wf_file_def list_all_iff)
qed

lemma inv_grant_entry:
  assumes inv: "lock_inv s" and e: "e \<in> set (lock_list s)"
    and free: "get_overlapping_entry (lock_list s) (sle_owner e) (sle_lock e) = None"
    and e1: "sle_id e1 = sle_id e" "sle_owner e1 = sle_owner e" "sle_lock e1 = sle_lock e"
  shows "lock_inv (upd_entry (sle_id e) (\<lambda>_. e1) s)"
proof -
  have "exclusive (e1 # lock_list s)"
  proof (rule exclusive_insert)
    show "exclusive (lock_list s)" using inv by (simp add: lock_inv_def)
    fix x assume x: "x \<in> set (lock_list s)" "granted x" "different_owners (sle_owner x) (sle_owner e1)"
      "lock_type (sle_lock x) = FSAL_LOCK_W \<or> lock_type (sle_lock e1) = FSAL_LOCK_W"
    with free e1 have "\<not> (lock_start (sle_lock e) \<le> lock_end (sle_lock x) \<and> lock_start (sle_lock x) \<le> lock_end (sle_lock e))"
      by (auto simp: get_overlapping_entry_def find_None_iff granted_def)
    then show "bytes x \<inter> bytes e1 = {}" using bytes_meet e1(3) by metis
  qed
  moreover have "set (lock_list (upd_entry (sle_id e) (\<lambda>_. e1) s)) \<subseteq> set (e1 # lock_list s)"
    by (auto simp: upd_entry_def)
  moreover have "wf_file (upd_entry (sle_id e) (\<lambda>_. e1) s)"
    using inv e e1 by (intro wf_file_upd) (auto simp: lock_inv_def wf_file_def list_all_iff)
  ultimately show ?thesis using exclusive_traced traced_subset by (auto simp: lock_inv_def)
qed

lemma inv_try_to_grant:
  assumes inv: "lock_inv s" and e: "e \<in> set (lock_list s)" and blocked: "\<not> granted e"
    and free: "get_overlapping_entry (lock_list s) (sle_owner e) (sle_lock e) = None"
  shows "lock_inv (try_to_grant_lock E e s)"
proof (cases "sle_block_data e = None \<or> sle_blocked e = STATE_CANCELED \<or> \<not> export_ready E (sle_export e)")
  case True
  then have "try_to_grant_lock E e s = remove_from_locklist (sle_id e) s"
    by (auto simp: try_to_grant_lock_def split: option.split)
  with inv keeps_inv [OF keeps_remove] show ?thesis by simp
next
  case False
  then obtain b where b: "sle_block_data e = Some b" by auto
  define e1 where "e1 = e\<lparr>sle_blocked := STATE_GRANTING, sle_block_data := Some (b\<lparr>sbd_grant_type :=
    (if sbd_grant_type b = STATE_GRANT_NONE then STATE_GRANT_INTERNAL else sbd_grant_type b)\<rparr>)\<rparr>"
  have "lock_inv (upd_entry (sle_id e) (\<lambda>_. e1) s)"
    by (rule inv_grant_entry [OF inv e free]) (simp_all add: e1_def)
  moreover obtain r s1 where cb: "nlm_granted_callback E e1 (upd_entry (sle_id e) (\<lambda>_. e1) s) = (r, s1)" by fastforce
  ultimately have s1: "lock_inv s1" using same_locks_callback same_locks_keeps keeps_inv by blast
  have "keeps s1 (try_to_grant_lock E e s)"
    using False b blocked cb
    by (auto simp: try_to_grant_lock_def Let_def granted_def simp flip: e1_def intro!: keeps_upd keeps_remove)
  with s1 show ?thesis using keeps_inv by blast
qed

lemma inv_grant_blocked_one: "lock_inv s \<Longrightarrow> lock_inv (grant_blocked_one E i s)"
  using inv_try_to_grant entry_at_Some
  by (fastforce simp: grant_blocked_one_def granted_def split: option.split)

lemma inv_grant_blocked_locks: "lock_inv s \<Longrightarrow> lock_inv (grant_blocked_locks E s)"
proof -
  have "lock_inv s \<Longrightarrow> lock_inv (fold (grant_blocked_one E) xs s)" for xs
    by (induction xs arbitrary: s) (auto intro: inv_grant_blocked_one)
  then show "lock_inv s \<Longrightarrow> lock_inv (grant_blocked_locks E s)" by (simp add: grant_blocked_locks_def)
qed


lemma keeps_upd_granted:
  assumes e: "e \<in> set (lock_list s)" "sle_id e = i" "granted e"
    and f: "\<And>x. sle_id (f x) = sle_id x \<and> sle_owner (f x) = sle_owner x \<and> sle_lock (f x) = sle_lock x"
  shows "keeps s (upd_entry i f s)"
  unfolding keeps_def
proof (intro impI conjI)
  assume wf: "wf_file s"
  then have u: "x = e" if "x \<in> set (lock_list s)" "sle_id x = i" for x
    using that e by (auto simp: wf_file_def distinct_map inj_on_def)
  show "traced (lock_list s) (lock_list (upd_entry i f s))"
  proof (rule tracedI)
    fix k assume "k \<in> set (lock_list (upd_entry i f s))" "granted k"
    then obtain x where "x \<in> set (lock_list s)" "k = (if sle_id x = i then f x else x)" "granted k"
      by (auto simp: upd_entry_def)
    then show "\<exists>c\<in>set (lock_list s). granted c \<and> sle_owner k = sle_owner c
        \<and> lock_type (sle_lock k) = lock_type (sle_lock c) \<and> bytes k \<subseteq> bytes c"
      using u e(3) f by (intro bexI [of _ x]) (auto split: if_splits)
  qed
  show "wf_file (upd_entry i f s)"
    using wf f by (intro wf_file_upd) (auto simp: wf_file_def list_all_iff)
qed

lemma inv_merge_listed:
  assumes inv: "lock_inv s" and le: "le \<in> set (lock_list s)" "granted le" and m: "merge_lock_entry le s = Some (le', s')"
  shows "lock_inv s'"
proof -
  have wf: "wf_file s" "wf_entry le" "sle_id le < next_entry s"
    using inv le by (auto simp: lock_inv_def wf_file_def list_all_iff)
  note sp = merge_lock_entry_spec [OF m wf(1,2) le(2) wf(3)]
  have "traced (lock_list s) (le # lock_list s)" "traced (le' # lock_list s') (lock_list s')"
    using le(1) by (auto intro: traced_subset)
  with sp(2) have "traced (lock_list s) (lock_list s')" using traced_trans by blast
  with inv sp(1) show ?thesis using exclusive_traced by (auto simp: lock_inv_def)
qed

lemma inv_merge_new:
  assumes wf: "wf_file s" and ex: "exclusive (le # lock_list s)" and le: "wf_entry le" "granted le"
    and fresh: "sle_id le < next_entry s" "sle_id le \<notin> sle_id ` set (lock_list s)"
    and m: "merge_lock_entry le s = Some (le', s')"
  shows "lock_inv (s'\<lparr>lock_list := lock_list s' @ [le']\<rparr>)"
proof -
  note sp = merge_lock_entry_spec [OF m wf le fresh(1)]
  have "traced (le' # lock_list s') (lock_list s' @ [le'])" by (rule traced_subset) auto
  then have "exclusive (lock_list s' @ [le'])"
    using exclusive_traced [OF ex] traced_trans [OF sp(2)] by blast
  with sp(1,3,5) sp(6) [OF fresh(2)] sp(7) fresh(1) show ?thesis
    by (auto simp: lock_inv_def wf_file_def list_all_iff)
qed

lemma merge_inv_listed:
  assumes "lock_inv s" "le \<in> set (lock_list s)" "granted le"
  obtains le' s' where "merge_lock_entry le s = Some (le', s')" "lock_inv s'"
proof -
  have "wf_file s" "wf_entry le" using assms by (auto simp: lock_inv_def wf_file_def list_all_iff)
  then obtain le' s' where "merge_lock_entry le s = Some (le', s')" using merge_total by fastforce
  with that inv_merge_listed [OF assms] show thesis by blast
qed

lemma inv_finish_grant:
  assumes inv: "lock_inv s" and e: "e \<in> set (lock_list s)" "granted e"
  defines "s2 \<equiv> upd_entry (sle_id e) (\<lambda>x. x\<lparr>sle_blocked := STATE_NON_BLOCKING\<rparr>) s"
  shows "\<exists>le s3. entry_at (sle_id e) s2 = Some le \<and> (\<exists>le'. merge_lock_entry le s2 = Some (le', s3)) \<and> lock_inv s3"
proof -
  have inv2: "lock_inv s2"
    unfolding s2_def by (rule keeps_inv [OF keeps_upd_granted [OF e(1) refl e(2)] inv]) simp
  have "e\<lparr>sle_blocked := STATE_NON_BLOCKING\<rparr> \<in> set (lock_list s2)" using e(1) by (auto simp: s2_def upd_entry_def)
  then have "\<exists>x\<in>set (lock_list s2). sle_id x = sle_id e" by (rule bexI [rotated]) simp
  then have "entry_at (sle_id e) s2 \<noteq> None" by (auto simp: entry_at_def find_None_iff)
  then obtain le where le: "entry_at (sle_id e) s2 = Some le" by blast
  have "le \<in> set (lock_list s2)" "granted le"
    using entry_at_Some [OF le] by (auto simp: s2_def upd_entry_def granted_def split: if_splits)
  with merge_inv_listed [OF inv2] le show ?thesis by metis
qed

lemma inv_grant_immediate:
  assumes inv: "lock_inv s" and e: "e \<in> set (lock_list s)" "granted e"
  shows "\<exists>s'. grant_blocked_lock_immediate E e s = Some s' \<and> lock_inv s'"
proof -
  define cleaned where "cleaned = (case sle_block_data e of None \<Rightarrow> Some s
    | Some b \<Rightarrow> (case sbd_blocked_cookie b of
         Some cookie \<Rightarrow> (case state_find_grant cookie s of (Some i, s1) \<Rightarrow> Some (free_cookie i True s1) | (None, s1) \<Rightarrow> None)
       | None \<Rightarrow> Some (upd_entry (sle_id e) (\<lambda>x. x\<lparr>sle_block_data := None\<rparr>) s)))"
  show ?thesis
  proof (cases cleaned)
    case None
    with inv show ?thesis by (simp add: grant_blocked_lock_immediate_def flip: cleaned_def)
  next
    case (Some s1)
    have "same_locks s s1"
      using Some unfolding cleaned_def
      by (auto simp: state_find_grant_def split: option.splits intro!: same_locks_upd
          same_locks_trans [OF same_locks_same same_locks_free_cookie])
    then have inv1: "lock_inv s1" and h: "holdings s1 = holdings s"
      using keeps_inv same_locks_keeps inv by (auto simp: same_locks_def)
    obtain e' where e': "e' \<in> set (lock_list s1)" "granted e'" "sle_id e' = sle_id e"
      using holdings_mem [OF h [symmetric] e(1)] e(2) by (metis granted_def)
    from inv_finish_grant [OF inv1 e'(1,2)] show ?thesis
      using Some inv_grant_blocked_locks
      by (auto simp: grant_blocked_lock_immediate_def e'(3) Let_def simp flip: cleaned_def)
  qed
qed

lemma no_conflict_allowed:
  assumes "lock_check_loop E ow l L = Allowed" "\<not> lock_reclaim l" "x \<in> set L" "different_owners (sle_owner x) ow"
    "lock_type (sle_lock x) = FSAL_LOCK_W \<or> lock_type l = FSAL_LOCK_W"
  shows "bytes x \<inter> bytes_of l = {}"
proof (rule bytes_meet)
  show "\<not> (lock_start l \<le> lock_end (sle_lock x) \<and> lock_start (sle_lock x) \<le> lock_end l)"
    using assms by (induction L) (auto split: if_splits)
qed

lemma check_loop_Existing: "lock_check_loop E ow l L = Existing e \<Longrightarrow> e \<in> set L \<and> granted e"
  by (induction L) (auto simp: granted_def split: if_splits)

lemma do_lock_op_not_blocked: "do_lock_op E st op ow l s = (STATE_LOCK_BLOCKED, c, s') \<Longrightarrow> op = FSAL_OP_LOCKB"
  by (auto simp: do_lock_op_def Let_def split: if_splits prod.splits)


section \<open>The entry points keep the invariant\<close>

text \<open>Placing a lock.  With a known conflict the FSAL decides only if it grants blocked locks itself;
  the lock then rests on the FSAL alone.\<close>
lemma inv_place:
  assumes inv: "lock_inv s" and l: "wf_lock l" "\<not> lock_reclaim l"
    and found: "found = None \<Longrightarrow> lock_check_loop E ow l (lock_list s) = Allowed"
      "found \<noteq> None \<Longrightarrow> \<not> fso_lock_support_async_block E"
    and op: "found \<noteq> None \<or> op = FSAL_OP_LOCKB \<Longrightarrow> blocking = STATE_NLM_BLOCKING \<and> bd \<noteq> None"
  shows "\<exists>r c s'. state_lock_place E ow st blocking bd l found op s = Some (r, c, s') \<and> lock_inv s'"
proof -
  define e where "e = create_state_lock_entry (next_entry s) (ctx_export E) STATE_NON_BLOCKING ow st l"
  define s0 where "s0 = s\<lparr>next_entry := next_entry s + 1\<rparr>"
  have e: "sle_id e = next_entry s" "sle_owner e = ow" "sle_lock e = l" "granted e" "sle_blocked e = STATE_NON_BLOCKING"
    by (simp_all add: e_def create_state_lock_entry_def granted_def)
  have inv0: "lock_inv s0" using inv by (auto simp: lock_inv_def s0_def wf_file_def)
  obtain r c s1 where call: "(if found = None \<or> fso_lock_support_async_block E then do_lock_op E st op ow l s0
      else (STATE_LOCK_BLOCKED, None, s0)) = (r, c, s1)" by (metis prod_cases3)
  have "lock_list s1 = lock_list s0 \<and> next_entry s1 = next_entry s0"
    using call by (auto split: if_splits dest: do_lock_op_frame)
  then have fr: "lock_list s1 = lock_list s" "next_entry s1 = next_entry s + 1" by (simp_all add: s0_def)
  have inv1: "lock_inv s1" using inv0 by (simp add: lock_inv_def wf_file_def fr s0_def)
  note place = state_lock_place_def [of E ow st blocking bd l found op s, unfolded Let_def,
    folded e_def s0_def, unfolded call prod.case]
  have fresh: "sle_id e \<notin> sle_id ` set (lock_list s)" using inv e(1) by (auto simp: lock_inv_def wf_file_def)
  consider (ok) "r = STATE_SUCCESS" | (blocked) "r = STATE_LOCK_BLOCKED" | (err) "r \<noteq> STATE_SUCCESS" "r \<noteq> STATE_LOCK_BLOCKED" by blast
  then show ?thesis
  proof cases
    case ok
    with call found(2) have "found = None" by (cases found) (auto split: if_splits)
    then have "exclusive (e # lock_list s)"
      using inv no_conflict_allowed [OF found(1) l(2)] e(2,3) by (intro exclusive_insert) (simp_all add: lock_inv_def)
    define s2 where "s2 = (if lock_list s1 = [] then s1\<lparr>list_refs := list_refs s1 + 1\<rparr> else s1)"
    have s2: "lock_list s2 = lock_list s" "next_entry s2 = next_entry s + 1" "wf_file s2"
      using fr inv1 by (auto simp: s2_def lock_inv_def wf_file_def)
    have we: "wf_entry e" using l(1) e(3) by simp
    obtain e' s3 where m: "merge_lock_entry e s2 = Some (e', s3)" using merge_total [OF s2(3) we] by fastforce
    have "lock_inv (s3\<lparr>lock_list := lock_list s3 @ [e']\<rparr>)"
      using inv_merge_new [OF s2(3) _ we e(4) _ _ m] \<open>exclusive (e # lock_list s)\<close> fresh s2 e(1) by simp
    then show ?thesis
      using inv_grant_blocked_locks ok m unfolding place s2_def by simp
  next
    case blocked
    have nlm: "blocking = STATE_NLM_BLOCKING \<and> bd \<noteq> None"
    proof (rule op, cases "found = None \<or> fso_lock_support_async_block E")
      case True
      with call blocked have "do_lock_op E st op ow l s0 = (STATE_LOCK_BLOCKED, c, s1)" by simp
      then show "found \<noteq> None \<or> op = FSAL_OP_LOCKB" by (simp add: do_lock_op_not_blocked)
    qed simp
    then obtain b where b: "bd = Some b" by auto
    have "lock_inv (s1\<lparr>lock_list := lock_list s1 @ [e\<lparr>sle_block_data := x, sle_blocked := blocking\<rparr>]\<rparr>)" for x
    proof -
      have "traced (lock_list s) (lock_list s @ [e\<lparr>sle_block_data := x, sle_blocked := blocking\<rparr>])"
        by (rule tracedI) (auto simp: nlm granted_def)
      then have "exclusive (lock_list s @ [e\<lparr>sle_block_data := x, sle_blocked := blocking\<rparr>])"
        using inv exclusive_traced by (auto simp: lock_inv_def)
      with inv1 fr fresh e l(1) show ?thesis by (auto simp: lock_inv_def wf_file_def)
    qed
    with blocked b show ?thesis unfolding place by simp
  next
    case err
    with inv1 show ?thesis unfolding place by simp
  qed
qed


text \<open>The requests whose locks the list itself keeps apart: ranges that do not wrap around, no
  reclaim, and a blocking NLM request only with its block data and an FSAL that does not grant
  blocked locks by itself.\<close>
definition checked_request :: "'f lock_env \<Rightarrow> state_blocking_t \<Rightarrow> state_block_data_t option \<Rightarrow> fsal_lock_param_t \<Rightarrow> bool" where
  "checked_request E blocking bd l \<longleftrightarrow> wf_lock l \<and> \<not> lock_reclaim l
     \<and> (blocking = STATE_NLM_BLOCKING \<longrightarrow> bd \<noteq> None \<and> \<not> fso_lock_support_async_block E)"

lemma inv_state_lock:
  assumes inv: "lock_inv s" and req: "checked_request E blocking bd l"
  shows "\<exists>r c s'. state_lock E ow st blocking bd l s = Some (r, c, s') \<and> lock_inv s'"
proof (cases "if blocking \<noteq> STATE_NON_BLOCKING then find_blocked_loop E ow blocking l (lock_list s) else None")
  case (Some r)
  with inv show ?thesis by (simp add: state_lock_def)
next
  case None
  have l: "wf_lock l" "\<not> lock_reclaim l" using req by (simp_all add: checked_request_def)
  show ?thesis
  proof (cases "lock_check_loop E ow l (lock_list s)")
    case Other_export
    with None inv show ?thesis by (simp add: state_lock_def)
  next
    case (Existing e)
    with inv_grant_immediate [OF inv, of e E] check_loop_Existing [OF Existing] None inv show ?thesis
      by (auto simp: state_lock_def)
  next
    case (Conflicting e)
    show ?thesis
    proof (cases "blocking = STATE_NLM_BLOCKING")
      case True
      with req have "\<exists>r c s'. state_lock_place E ow st blocking bd l (Some e) FSAL_OP_LOCKB s = Some (r, c, s') \<and> lock_inv s'"
        by (intro inv_place [OF inv l]) (auto simp: checked_request_def)
      with None Conflicting True show ?thesis by (simp add: state_lock_def)
    qed (use None Conflicting inv in \<open>simp add: state_lock_def\<close>)
  next
    case Allowed
    have "\<exists>r c s'. state_lock_place E ow st blocking bd l None
        (if blocking = STATE_NLM_BLOCKING then FSAL_OP_LOCKB else FSAL_OP_LOCK) s = Some (r, c, s') \<and> lock_inv s'"
      using req by (intro inv_place [OF inv l]) (auto simp: checked_request_def Allowed split: if_splits)
    with None Allowed show ?thesis by (simp add: state_lock_def)
  qed
qed

lemma inv_state_unlock:
  assumes inv: "lock_inv s" and l: "wf_lock l"
  shows "lock_inv (snd (state_unlock E st ow a n l s))"
proof -
  define s1 where "s1 = cancel_blocked_locks_range E (Some ow) a n l s"
  define s2 where "s2 = snd (subtract_lock_from_list (Some ow) a n l s1)"
  define s3 where "s3 = (if lock_list s2 = [] then s2\<lparr>list_refs := list_refs s2 - 1\<rparr> else s2)"
  obtain r c s4 where call: "do_lock_op E st FSAL_OP_UNLOCK ow l s3 = (r, c, s4)" by (metis prod_cases3)
  have "keeps s s1" unfolding s1_def by (rule keeps_cancel_range)
  also have "keeps s1 s2" unfolding s2_def by (rule keeps_subtract [OF l])
  also have "keeps s2 s3" unfolding s3_def by (auto intro: keeps_same)
  also have "keeps s3 s4" using do_lock_op_frame [OF call] by (intro keeps_same) simp_all
  finally have "lock_inv s4" using keeps_inv inv by blast
  then have "lock_inv (grant_blocked_locks E s4)" by (rule inv_grant_blocked_locks)
  then show ?thesis using inv call unfolding s3_def
    by (simp add: state_unlock_def Let_def flip: s1_def s2_def split: if_splits)
qed

lemma inv_state_cancel: "lock_inv s \<Longrightarrow> lock_inv (snd (state_cancel E ow l s))"
  by (auto simp: state_cancel_def split: option.split intro!: inv_grant_blocked_locks keeps_inv [OF keeps_cancel_blocked_lock])

lemma inv_complete_grant:
  assumes inv: "lock_inv s"
  shows "\<exists>s'. state_complete_grant E i s = Some s' \<and> lock_inv s'"
proof (cases "\<exists>e. entry_at i s = Some e \<and> sle_blocked e = STATE_GRANTING")
  case True
  then obtain e where e: "entry_at i s = Some e" "sle_blocked e = STATE_GRANTING" by blast
  define le where "le = e\<lparr>sle_blocked := STATE_NON_BLOCKING\<rparr>"
  have m: "e \<in> set (lock_list s)" "sle_id e = i" "granted e" using entry_at_Some [OF e(1)] e(2) by (auto simp: granted_def)
  have "upd_entry i (\<lambda>_. le) s = upd_entry i (\<lambda>x. x\<lparr>sle_blocked := STATE_NON_BLOCKING\<rparr>) s"
  proof -
    have "x = e" if "x \<in> set (lock_list s)" "sle_id x = i" for x
      using that m(1,2) inv by (auto simp: lock_inv_def wf_file_def distinct_map inj_on_def)
    then show ?thesis by (auto simp: upd_entry_def le_def intro!: arg_cong [of _ _ "\<lambda>L. s\<lparr>lock_list := L\<rparr>"])
  qed
  then have "lock_inv (upd_entry i (\<lambda>_. le) s)" using keeps_inv [OF keeps_upd_granted [OF m] inv] by simp
  moreover have "le \<in> set (lock_list (upd_entry i (\<lambda>_. le) s))" using m by (auto simp: upd_entry_def)
  ultimately obtain le' s1 where "merge_lock_entry le (upd_entry i (\<lambda>_. le) s) = Some (le', s1)" "lock_inv s1"
    using merge_inv_listed [of "upd_entry i (\<lambda>_. le) s" le] by (auto simp: le_def granted_def)
  then show ?thesis using e
    by (auto simp: state_complete_grant_def simp flip: le_def
        intro!: inv_grant_blocked_locks keeps_inv [OF keeps_free_cookie])
next
  case False
  then show ?thesis using inv keeps_inv [OF keeps_free_cookie]
    by (auto simp: state_complete_grant_def split: option.split)
qed

lemma inv_release_grant:
  assumes inv: "lock_inv s"
  shows "lock_inv (snd (state_release_grant E i s))"
proof -
  obtain r s3 where s3: "(case entry_at i s of
      Some e \<Rightarrow> if sle_blocked e = STATE_GRANTING then
          let s1 = upd_entry i (\<lambda>x. x\<lparr>sle_blocked := STATE_CANCELED\<rparr>) s in
          (case do_lock_op E (sle_state e) FSAL_OP_UNLOCK (sle_owner e) (sle_lock e) s1 of (status, _, s2) \<Rightarrow>
             (status, if status \<noteq> STATE_SUCCESS then s2 else remove_from_locklist i s2))
        else (STATE_SUCCESS, s)
    | None \<Rightarrow> (STATE_SUCCESS, s)) = (r, s3)" by fastforce
  have k1: "keeps s (upd_entry i (\<lambda>x. x\<lparr>sle_blocked := STATE_CANCELED\<rparr>) s)"
    by (rule keeps_upd) (simp add: granted_def)
  have "keeps s s3"
  proof (cases "\<exists>e. entry_at i s = Some e \<and> sle_blocked e = STATE_GRANTING")
    case True
    then obtain e where e: "entry_at i s = Some e" "sle_blocked e = STATE_GRANTING" by blast
    obtain c s2 r' where call: "do_lock_op E (sle_state e) FSAL_OP_UNLOCK (sle_owner e) (sle_lock e)
        (upd_entry i (\<lambda>x. x\<lparr>sle_blocked := STATE_CANCELED\<rparr>) s) = (r', c, s2)" by (metis prod_cases3)
    have "keeps s s2"
      using do_lock_op_frame [OF call] by (intro keeps_trans [OF k1] keeps_same) simp_all
    with s3 e call show ?thesis using keeps_trans [OF _ keeps_remove] by (auto simp: Let_def split: if_splits)
  qed (use s3 in \<open>auto split: option.splits if_splits\<close>)
  then have "lock_inv (grant_blocked_locks E (free_cookie i True s3))"
    using inv keeps_inv keeps_free_cookie inv_grant_blocked_locks by blast
  then show ?thesis
    using s3 by (auto simp: state_release_grant_def Let_def intro: keeps_inv [OF keeps_same, rotated 2])
qed

lemma inv_wipe: "lock_inv s \<Longrightarrow> lock_inv (snd (state_lock_wipe s))"
  by (auto simp: state_lock_wipe_def lock_inv_def wf_file_def exclusive_def)

end
