(* ===== verification/Sal_Lock_Exact.thy ===== *)
theory Sal_Lock_Exact
  imports Sal_Lock_Inv
begin

text \<open>
  What the lock list means byte by byte (\<open>holds\<close>), and the theorems about it: conflicting owners are
  kept apart in every reachable state, the entry points return, an unlock takes away exactly the
  requested bytes of the requesting owner, and merging a lock sets exactly the requested bytes to the
  new type as long as no range reaches the last byte.
\<close>

section \<open>The reference view\<close>

text \<open>Owner \<open>ow\<close> holds byte \<open>b\<close> with a fully granted lock of type \<open>t\<close>.\<close>
definition holds :: "state_lock_entry_t list \<Rightarrow> state_owner_t \<Rightarrow> fsal_lock_t \<Rightarrow> u64 \<Rightarrow> bool" where
  "holds L ow t b \<longleftrightarrow> (\<exists>e\<in>set L. sle_blocked e = STATE_NON_BLOCKING \<and> \<not> different_owners (sle_owner e) ow
     \<and> lock_type (sle_lock e) = t \<and> b \<in> bytes e)"

section \<open>Merging\<close>

text \<open>No range of the owner reaches the last byte, and no byte is held with two types.\<close>
definition merge_pre :: "nat \<Rightarrow> state_lock_entry_t \<Rightarrow> state_lock_entry_t list \<Rightarrow> bool" where
  "merge_pre i le todo \<longleftrightarrow> sle_id le < i \<and> UINT64_MAX \<notin> bytes le
     \<and> (\<forall>c\<in>set todo. mergeable le c \<longrightarrow> UINT64_MAX \<notin> bytes c)
     \<and> (\<forall>c\<in>set todo. \<forall>d\<in>set todo. mergeable le c \<longrightarrow> mergeable le d \<longrightarrow> bytes c \<inter> bytes d \<noteq> {}
          \<longrightarrow> lock_type (sle_lock c) = lock_type (sle_lock d))"

lemma merge_pre_mono:
  assumes pre: "merge_pre i le A" and "i \<le> j"
    and B: "\<And>r. r \<in> set B \<Longrightarrow> mergeable le r
      \<Longrightarrow> \<exists>c\<in>set A. mergeable le c \<and> lock_type (sle_lock r) = lock_type (sle_lock c) \<and> bytes r \<subseteq> bytes c"
  shows "merge_pre j le B"
  unfolding merge_pre_def
proof (intro conjI ballI impI)
  show "sle_id le < j" "UINT64_MAX \<notin> bytes le" using pre \<open>i \<le> j\<close> by (simp_all add: merge_pre_def)
  show "UINT64_MAX \<notin> bytes c" if "c \<in> set B" "mergeable le c" for c
    using B [OF that] pre unfolding merge_pre_def by blast
  fix c d assume cd: "c \<in> set B" "d \<in> set B" "mergeable le c" "mergeable le d" "bytes c \<inter> bytes d \<noteq> {}"
  from B [OF cd(1,3)] B [OF cd(2,4)] obtain c' d' where "c' \<in> set A" "d' \<in> set A" "mergeable le c'" "mergeable le d'"
    "lock_type (sle_lock c) = lock_type (sle_lock c')" "lock_type (sle_lock d) = lock_type (sle_lock d')"
    "bytes c \<subseteq> bytes c'" "bytes d \<subseteq> bytes d'" by blast
  moreover from this cd(5) have "bytes c' \<inter> bytes d' \<noteq> {}" by blast
  ultimately show "lock_type (sle_lock c) = lock_type (sle_lock d)" using pre unfolding merge_pre_def by metis
qed

definition owned :: "state_lock_entry_t \<Rightarrow> state_lock_entry_t list \<Rightarrow> fsal_lock_t \<Rightarrow> u64 \<Rightarrow> bool" where
  "owned le L t b \<longleftrightarrow> (\<exists>c\<in>set L. mergeable le c \<and> lock_type (sle_lock c) = t \<and> b \<in> bytes c)"

lemma owned_simps:
  "owned le [] t b = False"
  "owned le (c # L) t b \<longleftrightarrow> mergeable le c \<and> lock_type (sle_lock c) = t \<and> b \<in> bytes c \<or> owned le L t b"
  "owned le (L @ L') t b \<longleftrightarrow> owned le L t b \<or> owned le L' t b"
  by (auto simp: owned_def)

lemma end_in_bytes: "wf_entry e \<Longrightarrow> lock_end (sle_lock e) \<in> bytes e"
  by (simp add: bytes_of_def wf_lock_def)

lemma mergeable_piece: "like k c \<Longrightarrow> mergeable le c \<Longrightarrow> sle_id k \<noteq> sle_id le \<Longrightarrow> mergeable le k"
  by (simp add: mergeable_def like_def)

lemma merge_loop_exact:
  assumes "merge_loop i le todo = Some (le', i', L)" "wf_entry le" "list_all wf_entry todo" "merge_pre i le todo"
  shows "owned le L t b \<or> t = lock_type (sle_lock le) \<and> b \<in> bytes le'
    \<longleftrightarrow> (if b \<in> bytes le then t = lock_type (sle_lock le) else owned le todo t b)"
  using assms
proof (induction rule: merge_loop_induct)
  case (nil i le)
  then show ?case by (auto simp: owned_simps)
next
  case (pass i le c cs le1 keep le' i' L)
  from pass(3,1,2) show ?case
  proof (cases rule: merge_check_cases)
    case skip
    have "mergeable le c \<Longrightarrow> bytes le \<inter> bytes c = {}"
      using skip(4) pass.prems end_in_bytes [OF pass(1)] end_in_bytes [OF pass(2)] by (auto simp: merge_pre_def)
    moreover have "merge_pre i le cs" using pass.prems by (simp add: merge_pre_def)
    ultimately show ?thesis using pass.IH skip by (auto simp: owned_simps)
  next
    case (cut k)
    have "mergeable le k" using cut(2,6,7) by (auto simp: mergeable_def like_def)
    moreover have "merge_pre i le cs" using pass.prems by (simp add: merge_pre_def)
    ultimately show ?thesis using pass.IH cut by (auto simp: owned_simps like_def)
  next
    case absorb
    have l1: "mergeable le1 = mergeable le" using mergeable_like [OF absorb(4,5)] by (rule ext)
    have l: "mergeable le1 = mergeable le" "owned le1 = owned le" "lock_type (sle_lock le1) = lock_type (sle_lock le)"
      using absorb(4) unfolding l1 owned_def [abs_def] by (simp_all add: like_def)
    have "merge_pre i le1 cs" using pass.prems absorb(3,5,8) by (simp add: merge_pre_def l)
    note ih = pass.IH [OF this, unfolded l]
    have "owned le cs t b \<Longrightarrow> b \<in> bytes c \<Longrightarrow> t = lock_type (sle_lock c)"
      using pass.prems absorb(3) by (auto simp: merge_pre_def owned_def)
    with ih absorb(1,3,8,9) show ?thesis by (auto simp: owned_simps)
  qed simp
next
  case (last i le c le1 keep r)
  from last(3,1,2) show ?case
  proof (cases rule: merge_check_cases)
    case (split k r')
    have "sle_id r \<noteq> sle_id le" using split last.prems by (simp add: merge_pre_def)
    then have "mergeable le k" "mergeable le r" using split by (auto simp: mergeable_def like_def)
    moreover have "b \<in> bytes k \<or> b \<in> bytes r \<longleftrightarrow> b \<in> bytes c \<and> b \<notin> bytes le" using split by auto
    ultimately show ?thesis using split by (auto simp: owned_simps like_def)
  qed simp_all
next
  case (more i le c cs le1 keep r le' i' L)
  from more(3,1,2) show ?case
  proof (cases rule: merge_check_cases)
    case (split k r')
    have "sle_id r \<noteq> sle_id le" using split more.prems by (simp add: merge_pre_def)
    then have m: "mergeable le k" "mergeable le r" using split by (auto simp: mergeable_def like_def)
    have s: "bytes r \<subseteq> bytes c" "b \<in> bytes k \<or> b \<in> bytes r \<longleftrightarrow> b \<in> bytes c \<and> b \<notin> bytes le" using split by auto
    have t: "lock_type (sle_lock r) = lock_type (sle_lock c)" using split by (simp add: like_def)
    have "merge_pre (i + 1) le (cs @ [r])"
      using more.prems s(1) split(2) t by (elim merge_pre_mono) auto
    then show ?thesis using more.IH split s(2) m by (auto simp: owned_simps like_def)
  qed simp_all
qed


lemma merge_loop_others:
  assumes "merge_loop i le todo = Some (le', i', L)" "wf_entry le" "list_all wf_entry todo" "sle_id le < i"
  shows "\<not> mergeable le e \<longrightarrow> e \<in> set L \<longleftrightarrow> e \<in> set todo"
  using assms
proof (induction rule: merge_loop_induct)
  case (pass i le c cs le1 keep le' i' L)
  note ids = merge_check_entry(1) [OF pass(3,1,2)]
  then have m: "mergeable le1 e = mergeable le e" by (simp add: mergeable_like)
  have "\<not> mergeable le e \<Longrightarrow> e \<in> set keep \<longleftrightarrow> e = c"
    using pass(3,1,2) by (cases rule: merge_check_cases) (auto simp: mergeable_def like_def)
  with pass.IH pass.prems ids m show ?case by auto
next
  case (last i le c le1 keep r)
  from last(3,1,2) show ?case
    by (cases rule: merge_check_cases) (use last.prems in \<open>auto simp: mergeable_def like_def\<close>)
next
  case (more i le c cs le1 keep r le' i' L)
  have "le1 = le" "\<not> mergeable le e \<Longrightarrow> e \<notin> set keep \<and> e \<noteq> r \<and> e \<noteq> c"
    using more(3,1,2) by (cases rule: merge_check_cases; use more.prems in \<open>auto simp: mergeable_def like_def\<close>)+
  with more.IH more.prems show ?case by auto
qed simp

definition one_type :: "state_lock_entry_t list \<Rightarrow> state_owner_t \<Rightarrow> bool" where
  "one_type L ow \<longleftrightarrow> (\<forall>t t' b. holds L ow t b \<longrightarrow> holds L ow t' b \<longrightarrow> t = t')"

definition reaches_eof :: "state_lock_entry_t list \<Rightarrow> state_owner_t \<Rightarrow> bool" where
  "reaches_eof L ow \<longleftrightarrow> (\<exists>t. holds L ow t UINT64_MAX)"

lemma mergeable_holds:
  assumes "sle_id le \<notin> sle_id ` set L"
  shows "holds L (sle_owner le) t b \<longleftrightarrow> owned le L t b"
proof -
  have "sle_id e \<noteq> sle_id le" if "e \<in> set L" for e using assms that by (metis imageI)
  then show ?thesis unfolding holds_def owned_def mergeable_def by (intro bex_cong) auto
qed

lemma merge_lock_entry_exact:
  assumes wf: "wf_file s" "wf_entry le" and fresh: "sle_id le < next_entry s" "sle_id le \<notin> sle_id ` set (lock_list s)"
    and granted: "sle_blocked le = STATE_NON_BLOCKING"
    and one: "one_type (lock_list s) (sle_owner le)"
    and eof: "\<not> reaches_eof (lock_list s) (sle_owner le)" "lock_end (sle_lock le) \<noteq> UINT64_MAX"
    and m: "merge_lock_entry le s = Some (le', s')"
  shows "holds (lock_list s' @ [le']) ow t b \<longleftrightarrow>
      (if \<not> different_owners (sle_owner le) ow \<and> b \<in> bytes le then t = lock_type (sle_lock le) else holds (lock_list s) ow t b)"
proof -
  obtain i' L where ml: "merge_loop (next_entry s) le (lock_list s) = Some (le', i', L)"
    and s': "s' = s\<lparr>lock_list := map (\<lambda>e. if sle_id e = sle_id le then le' else e) L, next_entry := i'\<rparr>"
    using m by (auto simp: merge_lock_entry_def bind_Some_iff)
  have w: "list_all wf_entry (lock_list s)" using wf(1) by (simp add: wf_file_def)
  have ids: "sle_id le \<notin> sle_id ` set L"
    using merge_loop_ids [OF ml wf(2) w] fresh by auto
  have L: "lock_list s' = L"
    unfolding s' using ids by (simp add: map_idI image_iff eq_commute [of "sle_id le"])
  have e: "like le' le" using merge_loop_entry [OF ml wf(2) w] by simp
  have h: "owned le (lock_list s) = holds (lock_list s) (sle_owner le)"
    using mergeable_holds [OF fresh(2)] by (intro ext) simp
  have "merge_pre (next_entry s) le (lock_list s)"
    unfolding merge_pre_def
  proof (intro conjI ballI impI)
    show "UINT64_MAX \<notin> bytes le" 
      using eof(2) order.antisym [OF word_n1_ge [of "lock_end (sle_lock le)"]] by (auto simp: bytes_of_def)
  next
    fix c assume "c \<in> set (lock_list s)" "mergeable le c"
    then show "UINT64_MAX \<notin> bytes c"
      using eof(1) unfolding reaches_eof_def h [symmetric] owned_def by blast
  next
    fix c d assume "c \<in> set (lock_list s)" "d \<in> set (lock_list s)" "mergeable le c" "mergeable le d" "bytes c \<inter> bytes d \<noteq> {}"
    then show "lock_type (sle_lock c) = lock_type (sle_lock d)"
      using one unfolding one_type_def h [symmetric] owned_def by blast
  qed (rule fresh)
  note ex = merge_loop_exact [OF ml wf(2) w this, of t b]
  show ?thesis
  proof (cases "different_owners (sle_owner le) ow")
    case False
    then have o: "holds X ow t b = holds X (sle_owner le) t b" for X
      by (simp add: holds_def different_owners_key)
    have "holds (L @ [le']) (sle_owner le) t b \<longleftrightarrow> owned le L t b \<or> t = lock_type (sle_lock le) \<and> b \<in> bytes le'"
      unfolding mergeable_holds [OF ids, symmetric]
      using e granted by (auto simp: holds_def like_def different_owners_key)
    with ex False show ?thesis unfolding L o h by simp
  next
    case True
    have "mergeable le x \<Longrightarrow> different_owners (sle_owner x) ow" for x
      using True by (simp add: mergeable_def different_owners_key)
    moreover have "different_owners (sle_owner le') ow" using True e by (simp add: like_def)
    ultimately show ?thesis
      using True merge_loop_others [OF ml wf(2) w fresh(1)] unfolding L holds_def by auto
  qed
qed


section \<open>Unlocking\<close>

text \<open>What the fully granted entries hold, and the steps that leave it alone.\<close>
definition granted_set :: "'f lock_file \<Rightarrow> (state_owner_t \<times> fsal_lock_param_t) set" where
  "granted_set s = {(sle_owner e, sle_lock e) | e. e \<in> set (lock_list s) \<and> sle_blocked e = STATE_NON_BLOCKING}"

definition frozen :: "'f lock_file \<Rightarrow> 'f lock_file \<Rightarrow> bool" where
  "frozen s s' \<longleftrightarrow> (wf_file s \<longrightarrow> wf_file s' \<and> granted_set s' = granted_set s)"

lemma frozen_refl [simp, intro]: "frozen s s"
  by (simp add: frozen_def)

lemma frozen_trans [trans]: "frozen s s' \<Longrightarrow> frozen s' s'' \<Longrightarrow> frozen s s''"
  by (simp add: frozen_def)

lemma holds_granted_set:
  "holds (lock_list s) ow t b \<longleftrightarrow> (\<exists>(o', l)\<in>granted_set s. \<not> different_owners o' ow \<and> lock_type l = t \<and> b \<in> bytes_of l)"
  by (force simp: holds_def granted_set_def)

lemma granted_set_holdings:
  "granted_set s = {(ow, l) | i ow l. (i, ow, STATE_NON_BLOCKING, l) \<in> set (holdings s)}"
  by (force simp: granted_set_def holdings_def)

lemma frozen_same_locks: "same_locks s s' \<Longrightarrow> frozen s s'"
  using same_locks_keeps [of s s'] by (auto simp: frozen_def keeps_def same_locks_def granted_set_holdings)

lemma unique_entry:
  "wf_file s \<Longrightarrow> e \<in> set (lock_list s) \<Longrightarrow> x \<in> set (lock_list s) \<Longrightarrow> sle_id x = sle_id e \<Longrightarrow> x = e"
  by (auto simp: wf_file_def distinct_map inj_on_def)

lemma frozen_upd:
  assumes e: "e \<in> set (lock_list s)" "sle_blocked e \<noteq> STATE_NON_BLOCKING"
    and f: "sle_id (f e) = sle_id e" "sle_blocked (f e) \<noteq> STATE_NON_BLOCKING" "sle_lock (f e) = sle_lock e"
  shows "frozen s (upd_entry (sle_id e) f s)"
  unfolding frozen_def
proof (intro impI conjI)
  assume wf: "wf_file s"
  note u = unique_entry [OF wf e(1)]
  show "wf_file (upd_entry (sle_id e) f s)"
  proof (rule wf_file_upd [OF wf])
    fix x assume "x \<in> set (lock_list s)" "sle_id x = sle_id e"
    then have "x = e" by (rule u)
    with f wf e(1) show "sle_id (f x) = sle_id e \<and> wf_entry (f x)" by (simp add: wf_file_def list_all_iff)
  qed
  show "granted_set (upd_entry (sle_id e) f s) = granted_set s"
    using u e f by (force simp: granted_set_def upd_entry_def)
qed

lemma frozen_remove:
  assumes "e \<in> set (lock_list s)" "sle_blocked e \<noteq> STATE_NON_BLOCKING"
  shows "frozen s (remove_from_locklist (sle_id e) s)"
  using keeps_remove [of s "sle_id e"] unique_entry [OF _ assms(1)] assms(2)
  by (force simp: frozen_def keeps_def granted_set_def remove_from_locklist_def)


lemma frozen_do_lock_op: "do_lock_op E st op ow l s = (r, c, s') \<Longrightarrow> frozen s s'"
  by (intro frozen_same_locks same_locks_same) (simp_all add: do_lock_op_frame)

lemma upd_entry_mem: "e \<in> set (lock_list s) \<Longrightarrow> f e \<in> set (lock_list (upd_entry (sle_id e) f s))"
  by (auto simp: upd_entry_def)

lemma same_locks_mem:
  assumes "same_locks s s'" "e \<in> set (lock_list s)" "sle_blocked e \<noteq> STATE_NON_BLOCKING"
  shows "\<exists>e'\<in>set (lock_list s'). sle_id e' = sle_id e \<and> sle_blocked e' \<noteq> STATE_NON_BLOCKING"
  using assms holdings_mem [of s s' e] by (metis same_locks_def)

text \<open>Removing the entry at the address of a blocked entry, after steps that change no lock.\<close>
lemma frozen_remove_later:
  assumes "same_locks s s'" "e \<in> set (lock_list s)" "sle_blocked e \<noteq> STATE_NON_BLOCKING"
  shows "frozen s (remove_from_locklist (sle_id e) s')"
  using same_locks_mem [OF assms] frozen_remove frozen_trans [OF frozen_same_locks [OF assms(1)]] by metis

lemma frozen_cancel_blocked_lock:
  assumes e: "e \<in> set (lock_list s)" "sle_blocked e \<noteq> STATE_NON_BLOCKING"
  shows "frozen s (cancel_blocked_lock E e s)"
proof -
  define s1 where "s1 = upd_entry (sle_id e) (\<lambda>x. x\<lparr>sle_blocked := STATE_CANCELED\<rparr>) s"
  have k1: "frozen s s1" unfolding s1_def by (rule frozen_upd [OF e]) simp_all
  define e1 where "e1 = e\<lparr>sle_blocked := STATE_CANCELED\<rparr>"
  have e1: "e1 \<in> set (lock_list s1)" "sle_blocked e1 \<noteq> STATE_NON_BLOCKING" "sle_id e1 = sle_id e"
    using e(1) by (auto simp: s1_def e1_def upd_entry_def)
  have rem: "frozen s1 (remove_from_locklist (sle_id e) s2)" if "same_locks s1 s2" for s2
    using frozen_remove_later [OF that e1(1,2)] e1(3) by simp
  have "frozen s1 (cancel_blocked_lock E e s)"
  proof (cases "case sle_block_data e of None \<Rightarrow> None | Some b \<Rightarrow> sbd_blocked_cookie b")
    case None
    obtain r x s2 where call: "do_lock_op E (sle_state e) FSAL_OP_CANCEL (sle_owner e) (sle_lock e) s1 = (r, x, s2)"
      by (metis prod_cases3)
    have "same_locks s1 s2" using do_lock_op_frame [OF call] by (intro same_locks_same) simp_all
    with rem [OF this] frozen_same_locks [OF this] show ?thesis
      by (simp add: cancel_blocked_lock_def None call flip: s1_def)
  next
    case (Some c)
    obtain i s2 where f: "state_find_grant c s1 = (i, s2)" by fastforce
    have k2: "same_locks s1 s2" using f by (intro same_locks_same) (auto simp: state_find_grant_def)
    with rem show ?thesis using same_locks_trans [OF k2 same_locks_free_cookie]
      by (cases i) (simp_all add: cancel_blocked_lock_def Some f flip: s1_def)
  qed
  with k1 show ?thesis by (rule frozen_trans)
qed

lemma frozen_cancel_range: "frozen s (cancel_blocked_locks_range E ow a st l s)"
proof -
  have one: "frozen s (cancel_blocked_one E ow a st l i s)" for i s
    by (auto simp: cancel_blocked_one_def split: option.split dest!: entry_at_Some intro: frozen_cancel_blocked_lock)
  have "frozen s (fold (cancel_blocked_one E ow a st l) xs s)" for xs
    by (induction xs arbitrary: s) (auto intro: frozen_trans [OF one])
  then show ?thesis by (simp add: cancel_blocked_locks_range_def)
qed

lemma frozen_try_to_grant:
  assumes e: "e \<in> set (lock_list s)" "\<not> granted e"
  shows "frozen s (try_to_grant_lock E e s)"
proof (cases "sle_block_data e = None \<or> sle_blocked e = STATE_CANCELED \<or> \<not> export_ready E (sle_export e)")
  case True
  then have "try_to_grant_lock E e s = remove_from_locklist (sle_id e) s"
    by (auto simp: try_to_grant_lock_def split: option.split)
  with frozen_remove [OF e(1)] e(2) show ?thesis by (simp add: granted_def)
next
  case False
  then obtain b where b: "sle_block_data e = Some b" by auto
  have nb: "sle_blocked e \<noteq> STATE_NON_BLOCKING" using e(2) by (simp add: granted_def)
  define e1 where "e1 = e\<lparr>sle_blocked := STATE_GRANTING, sle_block_data := Some (b\<lparr>sbd_grant_type :=
    (if sbd_grant_type b = STATE_GRANT_NONE then STATE_GRANT_INTERNAL else sbd_grant_type b)\<rparr>)\<rparr>"
  define s0 where "s0 = upd_entry (sle_id e) (\<lambda>_. e1) s"
  have k0: "frozen s s0" unfolding s0_def by (rule frozen_upd [OF e(1) nb]) (simp_all add: e1_def)
  have e1: "e1 \<in> set (lock_list s0)" "sle_blocked e1 \<noteq> STATE_NON_BLOCKING" "sle_id e1 = sle_id e"
    using e(1) by (auto simp: s0_def e1_def upd_entry_def)
  obtain r s1 where cb: "nlm_granted_callback E e1 s0 = (r, s1)" by fastforce
  have k1: "same_locks s0 s1" by (rule same_locks_callback [OF cb])
  obtain e2 where e2: "e2 \<in> set (lock_list s1)" "sle_id e2 = sle_id e" "sle_blocked e2 \<noteq> STATE_NON_BLOCKING"
    using same_locks_mem [OF k1 e1(1,2)] e1(3) by auto
  have "frozen s1 (try_to_grant_lock E e s)"
    using False b cb nb frozen_remove [OF e2(1,3)] frozen_upd [OF e2(1,3), of "\<lambda>x. x\<lparr>sle_blocked := sle_blocked e,
        sle_block_data := map_option (\<lambda>b. b\<lparr>sbd_grant_type := STATE_GRANT_NONE\<rparr>) (sle_block_data x)\<rparr>"] e2(2)
    by (auto simp: try_to_grant_lock_def Let_def simp flip: e1_def s0_def)
  with frozen_trans [OF frozen_trans [OF k0 frozen_same_locks [OF k1]]] show ?thesis by blast
qed

lemma frozen_grant_blocked_locks: "frozen s (grant_blocked_locks E s)"
proof -
  have one: "frozen s (grant_blocked_one E i s)" for i s
    by (auto simp: grant_blocked_one_def granted_def split: option.split dest!: entry_at_Some intro!: frozen_try_to_grant)
  have "frozen s (fold (grant_blocked_one E) xs s)" for xs
    by (induction xs arbitrary: s) (auto intro: frozen_trans [OF one])
  then show ?thesis by (simp add: grant_blocked_locks_def)
qed


lemma subtract_holds:
  assumes wf: "wf_file s" and l: "wf_lock l"
  shows "holds (lock_list (snd (subtract_lock_from_list (Some ow) False n l s))) ow' t b
    \<longleftrightarrow> holds (lock_list s) ow' t b \<and> \<not> (\<not> different_owners ow ow' \<and> b \<in> bytes_of l)"
proof -
  obtain keep split rem i' where sub: "subtract_loop (Some ow) False n l (next_entry s) (lock_list s) = (keep, split, rem, i')"
    by (metis prod_cases4)
  let ?Q = "\<lambda>e. sle_blocked e = STATE_NON_BLOCKING \<and> \<not> different_owners (sle_owner e) ow' \<and> lock_type (sle_lock e) = t"
  have "holds (keep @ split) ow' t b \<longleftrightarrow>
      (\<exists>e\<in>set (lock_list s). ?Q e \<and> b \<in> bytes e \<and> (touched (Some ow) False n e \<longrightarrow> b \<notin> bytes_of l))"
    using subtract_loop_exact [OF sub _ l, of ?Q b] wf by (auto simp: holds_def wf_file_def like_def)
  also have "\<dots> \<longleftrightarrow> holds (lock_list s) ow' t b \<and> \<not> (\<not> different_owners ow ow' \<and> b \<in> bytes_of l)"
  proof -
    have "?Q e \<Longrightarrow> touched (Some ow) False n e \<longleftrightarrow> \<not> different_owners ow ow'" for e
      by (simp add: touched_def different_owners_key) metis
    then show ?thesis unfolding holds_def by blast
  qed
  finally show ?thesis by (simp add: subtract_lock_from_list_def sub)
qed

lemma frozen_holds: "frozen s s' \<Longrightarrow> wf_file s \<Longrightarrow> wf_file s' \<and> holds (lock_list s') = holds (lock_list s)"
  by (simp add: frozen_def holds_granted_set fun_eq_iff)

lemma state_unlock_holds:
  assumes wf: "wf_file s" and l: "wf_lock l" and reg: "lock_obj_type E = REGULAR_FILE"
  shows "holds (lock_list (snd (state_unlock E st ow False n l s))) ow' t b
    \<longleftrightarrow> holds (lock_list s) ow' t b \<and> \<not> (\<not> different_owners ow ow' \<and> b \<in> bytes_of l)"
proof (cases "lock_list s = []")
  case True
  then show ?thesis using reg by (simp add: state_unlock_def holds_def)
next
  case False
  define s1 where "s1 = cancel_blocked_locks_range E (Some ow) False n l s"
  define s2 where "s2 = snd (subtract_lock_from_list (Some ow) False n l s1)"
  define s3 where "s3 = (if lock_list s2 = [] then s2\<lparr>list_refs := list_refs s2 - 1\<rparr> else s2)"
  obtain r c s4 where call: "do_lock_op E st FSAL_OP_UNLOCK ow l s3 = (r, c, s4)" by (metis prod_cases3)
  have s1: "wf_file s1" "holds (lock_list s1) = holds (lock_list s)"
    using frozen_holds [OF frozen_cancel_range wf] by (simp_all add: s1_def)
  have "wf_file s2" using keeps_subtract [OF l, of s1] s1(1) by (simp add: s2_def keeps_def)
  moreover have "frozen s2 s3" unfolding s3_def by (auto intro!: frozen_same_locks same_locks_same)
  then have "frozen s2 (grant_blocked_locks E s4)"
    using frozen_do_lock_op [OF call] frozen_grant_blocked_locks frozen_trans by blast
  ultimately have "holds (lock_list (grant_blocked_locks E s4)) = holds (lock_list s2)" using frozen_holds by blast
  moreover have "snd (state_unlock E st ow False n l s) = grant_blocked_locks E s4"
    using False reg call unfolding s3_def by (simp add: state_unlock_def Let_def flip: s1_def s2_def split: if_splits)
  ultimately show ?thesis using subtract_holds [OF s1(1) l] s1(2) by (simp add: s2_def)
qed

section \<open>Sequences of operations\<close>

text \<open>One operation on the lock list of a file.\<close>
inductive lock_step :: "'f lock_env \<Rightarrow> 'f lock_file \<Rightarrow> 'f lock_file \<Rightarrow> bool" for E where
  lock: "checked_request E blocking bd l \<Longrightarrow> state_lock E ow st blocking bd l s = Some (r, c, s') \<Longrightarrow> lock_step E s s'"
| unlock: "wf_lock l \<Longrightarrow> state_unlock E st ow a n l s = (r, s') \<Longrightarrow> lock_step E s s'"
| test: "state_test E st ow l s = (r, c, s') \<Longrightarrow> lock_step E s s'"
| cancel: "state_cancel E ow l s = (r, s') \<Longrightarrow> lock_step E s s'"
| complete: "state_complete_grant E i s = Some s' \<Longrightarrow> lock_step E s s'"
| release: "state_release_grant E i s = (r, s') \<Longrightarrow> lock_step E s s'"
| wipe: "state_lock_wipe s = (r, s') \<Longrightarrow> lock_step E s s'"

inductive lock_reachable :: "'f lock_env \<Rightarrow> 'f lock_file \<Rightarrow> bool" for E where
  start: "lock_list s = [] \<Longrightarrow> lock_reachable E s"
| step: "lock_reachable E s \<Longrightarrow> lock_step E s s' \<Longrightarrow> lock_reachable E s'"

lemma lock_step_inv: "lock_step E s s' \<Longrightarrow> lock_inv s \<Longrightarrow> lock_inv s'"
proof (induction rule: lock_step.induct)
  case (lock blocking bd l ow st s r c s')
  then show ?case using inv_state_lock [of s E blocking bd l ow st] by auto
next
  case (unlock l st ow a n s r s')
  then show ?case using inv_state_unlock [of s l E st ow a n] by simp
next
  case (test st ow l s r c s')
  then have "lock_list s' = lock_list s \<and> next_entry s' = next_entry s"
    by (auto simp: state_test_def split: option.splits dest: do_lock_op_frame)
  with test show ?case using keeps_inv [OF keeps_same] by blast
next
  case (cancel ow l s r s')
  then show ?case using inv_state_cancel [of s E ow l] by simp
next
  case (complete i s s')
  then show ?case using inv_complete_grant [of s E i] by auto
next
  case (release i s r s')
  then show ?case using inv_release_grant [of s E i] by simp
next
  case (wipe s r s')
  then show ?case using inv_wipe [of s] by simp
qed

lemma lock_reachable_inv: "lock_reachable E s \<Longrightarrow> lock_inv s"
proof (induction rule: lock_reachable.induct)
  case (start s)
  then show ?case by (simp add: lock_inv_def exclusive_def wf_file_def)
qed (rule lock_step_inv)

lemma state_lock_existing_holds:
  assumes "lock_check_loop E ow l L = Existing e"
  shows "lock_start (sle_lock e) \<le> lock_start l \<and> lock_end l \<le> lock_end (sle_lock e)
    \<and> lock_type (sle_lock e) = lock_type l \<and> \<not> different_owners (sle_owner e) ow \<and> e \<in> set L"
  using assms by (induction L) (auto split: if_splits)

text \<open>A request that is allowed merges a new entry into the list; what is granted afterwards changes nothing
  of what is held.\<close>
lemma state_lock_placed:
  fixes s :: "'f lock_file"
  assumes inv: "lock_inv s" and req: "checked_request E STATE_NON_BLOCKING bd l"
    and allowed: "lock_check_loop E ow l (lock_list s) = Allowed"
    and fsal: "fst (do_lock_op E st FSAL_OP_LOCK ow l (s\<lparr>next_entry := next_entry s + 1\<rparr>)) = STATE_SUCCESS"
  obtains e e' c s' and s2 s3 :: "'f lock_file" where
    "sle_id e = next_entry s" "sle_owner e = ow" "sle_lock e = l" "sle_blocked e = STATE_NON_BLOCKING"
    "lock_list s2 = lock_list s" "next_entry s2 = next_entry s + 1"
    "wf_file s2" "wf_entry e" "sle_id e < next_entry s2" "sle_id e \<notin> sle_id ` set (lock_list s2)"
    "merge_lock_entry e s2 = Some (e', s3)" "state_lock E ow st STATE_NON_BLOCKING bd l s = Some (STATE_SUCCESS, c, s')"
    "holds (lock_list s') = holds (lock_list s3 @ [e'])"
proof -
  define e where "e = create_state_lock_entry (next_entry s) (ctx_export E) STATE_NON_BLOCKING ow st l"
  define s0 where "s0 = s\<lparr>next_entry := next_entry s + 1\<rparr>"
  have e: "sle_id e = next_entry s" "sle_owner e = ow" "sle_lock e = l" "sle_blocked e = STATE_NON_BLOCKING"
    by (simp_all add: e_def create_state_lock_entry_def)
  obtain c s1 where call: "do_lock_op E st FSAL_OP_LOCK ow l s0 = (STATE_SUCCESS, c, s1)"
    using fsal by (metis s0_def prod.collapse)
  define s2 where "s2 = (if lock_list s1 = [] then s1\<lparr>list_refs := list_refs s1 + 1\<rparr> else s1)"
  have s2: "lock_list s2 = lock_list s" "next_entry s2 = next_entry s + 1"
    using do_lock_op_frame [OF call] by (auto simp: s2_def s0_def)
  have wf: "wf_file s2" "wf_entry e" "sle_id e < next_entry s2" "sle_id e \<notin> sle_id ` set (lock_list s2)"
    using inv req e by (auto simp: lock_inv_def wf_file_def s2 checked_request_def)
  obtain e' s3 where m: "merge_lock_entry e s2 = Some (e', s3)" using merge_total [OF wf(1,2)] by fastforce
  define s4 where "s4 = s3\<lparr>lock_list := lock_list s3 @ [e']\<rparr>"
  have "exclusive (e # lock_list s)"
    using inv no_conflict_allowed [OF allowed] req e(2,3)
    by (intro exclusive_insert) (simp_all add: lock_inv_def checked_request_def)
  then have "lock_inv s4"
    unfolding s4_def using wf m e(4) s2(1) by (intro inv_merge_new [of s2 e]) (simp_all add: granted_def)
  then have "holds (lock_list (grant_blocked_locks E s4)) = holds (lock_list s4)"
    using frozen_holds [OF frozen_grant_blocked_locks] by (auto simp: lock_inv_def)
  then have h: "holds (lock_list (grant_blocked_locks E s4)) = holds (lock_list s3 @ [e'])" by (simp add: s4_def)
  have "state_lock E ow st STATE_NON_BLOCKING bd l s = Some (STATE_SUCCESS, c, grant_blocked_locks E s4)"
    using allowed call m unfolding s2_def s4_def
    by (simp add: state_lock_def state_lock_place_def Let_def e_def [symmetric] s0_def)
  from that [OF e s2 wf m this h] show thesis .
qed

lemma state_lock_new_holds:
  fixes s :: "'f lock_file"
  assumes inv: "lock_inv s" and req: "checked_request E STATE_NON_BLOCKING bd l"
    and allowed: "lock_check_loop E ow l (lock_list s) = Allowed"
    and fsal: "fst (do_lock_op E st FSAL_OP_LOCK ow l (s\<lparr>next_entry := next_entry s + 1\<rparr>)) = STATE_SUCCESS"
    and one: "one_type (lock_list s) ow"
    and eof: "\<not> reaches_eof (lock_list s) ow" "lock_end l \<noteq> UINT64_MAX"
  shows "\<exists>c s'. state_lock E ow st STATE_NON_BLOCKING bd l s = Some (STATE_SUCCESS, c, s')
    \<and> (\<forall>ow' t b. holds (lock_list s') ow' t b \<longleftrightarrow>
         (if \<not> different_owners ow ow' \<and> b \<in> bytes_of l then t = lock_type l else holds (lock_list s) ow' t b))"
proof -
  obtain e e' c s' and s2 s3 :: "'f lock_file" where p: "sle_id e = next_entry s" "sle_owner e = ow" "sle_lock e = l"
      "sle_blocked e = STATE_NON_BLOCKING" "lock_list s2 = lock_list s" "next_entry s2 = next_entry s + 1"
      "wf_file s2" "wf_entry e" "sle_id e < next_entry s2" "sle_id e \<notin> sle_id ` set (lock_list s2)"
      "merge_lock_entry e s2 = Some (e', s3)" "state_lock E ow st STATE_NON_BLOCKING bd l s = Some (STATE_SUCCESS, c, s')"
      "holds (lock_list s') = holds (lock_list s3 @ [e'])"
    by (rule state_lock_placed [OF inv req allowed fsal])
  have "holds (lock_list s') ow' t b \<longleftrightarrow>
      (if \<not> different_owners ow ow' \<and> b \<in> bytes_of l then t = lock_type l else holds (lock_list s) ow' t b)" for ow' t b
    using merge_lock_entry_exact [OF p(7-10,4) _ _ _ p(11), of ow' t b] one eof p(2,3,5,13) by simp
  with p(12) show ?thesis by blast
qed

section \<open>Locks up to the end of the file\<close>

text \<open>The end of such a lock plus one is zero: the loop takes it to lie before every range that does not
  start at zero.\<close>
lemma eof_not_checked:
  assumes "lock_end (sle_lock e) = UINT64_MAX" "wf_entry le" "0 \<notin> bytes le"
  shows "merge_check i le e = (le, [e], None)"
proof -
  have "0 < lock_start (sle_lock le)" using assms(2,3) by (auto simp: bytes_of_def wf_lock_def word_gt_0)
  then show ?thesis using assms(1) by (simp add: merge_check_def)
qed

lemma merge_check_splits:
  assumes "merge_check i le c = (le1, keep, Some r)" "wf_entry le" "wf_entry c"
  shows "mergeable le c"
  using assms by (cases rule: merge_check_cases) auto

lemma merge_loop_eof_kept:
  assumes "merge_loop i le todo = Some (le', i', L)" "wf_entry le" "list_all wf_entry todo"
    and "0 \<notin> bytes le" "\<forall>c\<in>set todo. mergeable le c \<and> lock_type (sle_lock c) = lock_type (sle_lock le) \<longrightarrow> 0 \<notin> bytes c"
    and "e \<in> set todo" "lock_end (sle_lock e) = UINT64_MAX"
  shows "e \<in> set L"
  using assms
proof (induction rule: merge_loop_induct)
  case (pass i le c cs le1 keep le' i' L)
  note le1 = merge_check_entry [OF pass(3,1,2)]
  show ?case
  proof (cases "e = c")
    case True
    then show ?thesis using eof_not_checked [OF pass.prems(4) pass(1) pass.prems(1), of i] pass(3) by simp
  next
    case False
    have t: "lock_type (sle_lock le1) = lock_type (sle_lock le)" using le1(1) by (simp add: like_def)
    have m: "mergeable le1 x = mergeable le x" for x by (rule mergeable_like) (use le1(1) in simp_all)
    have "0 \<notin> bytes le1" using le1(2) [of 0] pass.prems(1,2) by auto
    then have "e \<in> set L" using pass.IH pass.prems False t m by simp
    then show ?thesis by simp
  qed
next
  case (last i le c le1 keep r)
  then show ?case using eof_not_checked [of e le i] by simp
next
  case (more i le c cs le1 keep r le' i' L)
  note le1 = merge_check_entry [OF more(3,1,2)]
  have m: "mergeable le c" by (rule merge_check_splits [OF more(3,1,2)])
  have r: "like r c" "bytes r \<subseteq> bytes c" using merge_check_kept [OF more(3,1,2)] by blast+
  have t: "lock_type (sle_lock le1) = lock_type (sle_lock le)" using le1(1) by (simp add: like_def)
  have k: "mergeable le1 x = mergeable le x" for x by (rule mergeable_like) (use le1(1) in simp_all)
  have "0 \<notin> bytes le1" using le1(2) [of 0] more.prems(1,2) by auto
  moreover have "e \<noteq> c" using eof_not_checked [OF more.prems(4) more(1) more.prems(1), of i] more(3) by auto
  moreover have "0 \<notin> bytes r" if "lock_type (sle_lock r) = lock_type (sle_lock le)"
    using r more.prems(2) m that by (auto simp: like_def)
  ultimately have "e \<in> set L" using more.IH more.prems t k by simp
  then show ?case by simp
qed simp

lemma state_lock_keeps_eof:
  fixes s :: "'f lock_file"
  assumes inv: "lock_inv s" and req: "checked_request E STATE_NON_BLOCKING bd l"
    and allowed: "lock_check_loop E ow l (lock_list s) = Allowed"
    and fsal: "fst (do_lock_op E st FSAL_OP_LOCK ow l (s\<lparr>next_entry := next_entry s + 1\<rparr>)) = STATE_SUCCESS"
    and start: "0 < lock_start l" "\<not> holds (lock_list s) ow (lock_type l) 0"
    and eof: "e \<in> set (lock_list s)" "sle_blocked e = STATE_NON_BLOCKING" "\<not> different_owners (sle_owner e) ow"
      "lock_end (sle_lock e) = UINT64_MAX"
  shows "\<exists>c s'. state_lock E ow st STATE_NON_BLOCKING bd l s = Some (STATE_SUCCESS, c, s')
    \<and> (\<forall>b\<in>bytes_of l. holds (lock_list s') ow (lock_type l) b)
    \<and> (\<forall>b\<in>bytes e. holds (lock_list s') ow (lock_type (sle_lock e)) b)"
proof -
  obtain n n' c s' and s2 s3 :: "'f lock_file" where p: "sle_id n = next_entry s" "sle_owner n = ow" "sle_lock n = l"
      "sle_blocked n = STATE_NON_BLOCKING" "lock_list s2 = lock_list s" "next_entry s2 = next_entry s + 1"
      "wf_file s2" "wf_entry n" "sle_id n < next_entry s2" "sle_id n \<notin> sle_id ` set (lock_list s2)"
      "merge_lock_entry n s2 = Some (n', s3)" "state_lock E ow st STATE_NON_BLOCKING bd l s = Some (STATE_SUCCESS, c, s')"
      "holds (lock_list s') = holds (lock_list s3 @ [n'])"
    by (rule state_lock_placed [OF inv req allowed fsal])
  obtain i' L where ml: "merge_loop (next_entry s2) n (lock_list s2) = Some (n', i', L)"
    and s3: "lock_list s3 = map (\<lambda>e. if sle_id e = sle_id n then n' else e) L"
    using p(11) by (auto simp: merge_lock_entry_def bind_Some_iff)
  have w: "list_all wf_entry (lock_list s2)" using p(7) by (simp add: wf_file_def)
  have z: "0 \<notin> bytes n" using start(1) p(3) by (auto simp: bytes_of_def)
  have "holds (lock_list s2) ow (lock_type l) b \<longleftrightarrow> owned n (lock_list s2) (lock_type l) b" for b
    using mergeable_holds [OF p(10), of "lock_type l" b] p(2) by simp
  then have "\<forall>c\<in>set (lock_list s2). mergeable n c \<and> lock_type (sle_lock c) = lock_type (sle_lock n) \<longrightarrow> 0 \<notin> bytes c"
    using start(2) p(3,5) unfolding owned_def by metis
  from merge_loop_eof_kept [OF ml p(8) w z this] have "e \<in> set L" using eof(1,4) p(5) by simp
  moreover have "sle_id e \<noteq> sle_id n" using p(10) eof(1) unfolding p(5) by (metis imageI)
  ultimately have "e \<in> set (lock_list s3)" unfolding s3 by force
  then have "\<forall>b\<in>bytes e. holds (lock_list s') ow (lock_type (sle_lock e)) b"
    unfolding p(13) holds_def using eof(2,3) by auto
  moreover have "like n' n" "bytes n \<subseteq> bytes n'" using merge_loop_entry [OF ml p(8) w] by simp_all
  then have "\<forall>b\<in>bytes_of l. holds (lock_list s') ow (lock_type l) b"
    unfolding p(13) holds_def using p(2-4) by (auto simp: like_def different_owners_key)
  ultimately show ?thesis using p(12) by blast
qed

section \<open>An example file\<close>

text \<open>A file on an FSAL without locks of its own, two NFSv4 lock owners and an NLM owner.\<close>
definition demo_lock_env :: "unit lock_env" where
  "demo_lock_env = \<lparr>ctx_export = 1, export_ready = (\<lambda>_. True), fso_lock_support = False,
     fso_lock_support_async_block = False, lock_op2 = (\<lambda>_ _ _ l f. (ERR_FSAL_NO_ERROR, l, f)),
     state_async_schedule = (\<lambda>_ f. (STATE_SUCCESS, f)), lock_obj_type = REGULAR_FILE\<rparr>"

definition demo_file :: "state_lock_entry_t list \<Rightarrow> nat \<Rightarrow> unit lock_file" where
  "demo_file L n = \<lparr>lock_list = L, next_entry = n, ht_lock_cookies = (\<lambda>_. None), granted_cookie = 0,
     list_refs = (if n = 0 then 0 else 1), fsal_locks = ()\<rparr>"

abbreviation alice :: state_owner_t where "alice \<equiv> OWNER_NFSV4 STATE_LOCK_OWNER_NFSV4 1 ''a''"
abbreviation bob :: state_owner_t where "bob \<equiv> OWNER_NFSV4 STATE_LOCK_OWNER_NFSV4 2 ''b''"
abbreviation demo_state :: state_t where "demo_state \<equiv> \<lparr>state_addr = 0, state_seqid = 0\<rparr>"

definition demo_lock :: "fsal_lock_t \<Rightarrow> u64 \<Rightarrow> u64 \<Rightarrow> fsal_lock_param_t" where
  "demo_lock t a n = \<lparr>lock_type = t, lock_start = a, lock_length = n, lock_reclaim = False\<rparr>"

definition demo_entry :: "nat \<Rightarrow> state_owner_t \<Rightarrow> fsal_lock_t \<Rightarrow> u64 \<Rightarrow> u64 \<Rightarrow> state_lock_entry_t" where
  "demo_entry i ow t a n = create_state_lock_entry i 1 STATE_NON_BLOCKING ow demo_state (demo_lock t a n)"

lemmas demo_lock_simps = demo_lock_env_def demo_file_def demo_lock_def demo_entry_def create_state_lock_entry_def
  lock_end_def bytes_of_def wf_lock_def set_range_def

lemma demo_lock_1:
  "state_lock demo_lock_env alice demo_state STATE_NON_BLOCKING None (demo_lock FSAL_LOCK_W 0 10) (demo_file [] 0)
     = Some (STATE_SUCCESS, None, demo_file [demo_entry 0 alice FSAL_LOCK_W 0 10] 1)"
  by (simp add: state_lock_def state_lock_place_def do_lock_op_def merge_lock_entry_def grant_blocked_locks_def
      grant_blocked_one_def entry_at_def demo_lock_simps)

lemma demo_lock_2:
  "state_lock demo_lock_env bob demo_state STATE_NON_BLOCKING None (demo_lock FSAL_LOCK_R 20 10)
       (demo_file [demo_entry 0 alice FSAL_LOCK_W 0 10] 1)
     = Some (STATE_SUCCESS, None, demo_file [demo_entry 0 alice FSAL_LOCK_W 0 10, demo_entry 1 bob FSAL_LOCK_R 20 10] 2)"
proof -
  have "merge_loop (Suc (Suc 0)) (demo_entry 1 bob FSAL_LOCK_R 20 10) [demo_entry 0 alice FSAL_LOCK_W 0 10]
      = Some (demo_entry 1 bob FSAL_LOCK_R 20 10, Suc (Suc 0), [demo_entry 0 alice FSAL_LOCK_W 0 10])"
    using merge_loop_Cons(1) [where cs = "[]" and L = "[]"] by (simp add: merge_check_def demo_lock_simps)
  then show ?thesis
    by (simp add: state_lock_def state_lock_place_def do_lock_op_def merge_lock_entry_def grant_blocked_locks_def
        grant_blocked_one_def entry_at_def demo_lock_simps)
qed


lemma demo_reachable:
  "lock_reachable demo_lock_env (demo_file [demo_entry 0 alice FSAL_LOCK_W 0 10, demo_entry 1 bob FSAL_LOCK_R 20 10] 2)"
proof (rule lock_reachable.step [OF lock_reachable.step [OF lock_reachable.start]])
  show "lock_list (demo_file [] 0) = []" by (simp add: demo_file_def)
  show "lock_step demo_lock_env (demo_file [] 0) (demo_file [demo_entry 0 alice FSAL_LOCK_W 0 10] 1)"
    by (rule lock_step.lock [OF _ demo_lock_1]) (simp add: checked_request_def demo_lock_simps)
  show "lock_step demo_lock_env (demo_file [demo_entry 0 alice FSAL_LOCK_W 0 10] 1)
      (demo_file [demo_entry 0 alice FSAL_LOCK_W 0 10, demo_entry 1 bob FSAL_LOCK_R 20 10] 2)"
    by (rule lock_step.lock [OF _ demo_lock_2]) (simp add: checked_request_def demo_lock_simps)
qed

section \<open>Properties\<close>

text \<open>C6. Mutual exclusion of byte-range locks: after any sequence of lock, unlock, test, cancel, grant
  and wipe operations on a file, two entries of different owners that are granted or being granted,
  one of them for writing, have no byte in common.  Ranges must not wrap around, and the lock
  requests are those that the list itself checks (no reclaim, no FSAL that grants by itself).\<close>
theorem owners_kept_apart:
  assumes "lock_reachable E s" "e1 \<in> set (lock_list s)" "e2 \<in> set (lock_list s)" "granted e1" "granted e2"
    and "different_owners (sle_owner e1) (sle_owner e2)"
    and "lock_type (sle_lock e1) = FSAL_LOCK_W \<or> lock_type (sle_lock e2) = FSAL_LOCK_W"
  shows "bytes e1 \<inter> bytes e2 = {}"
  using lock_reachable_inv [OF assms(1)] assms(2-7) unfolding lock_inv_def exclusive_def by blast

theorem owners_kept_apart_witness:
  "bytes (demo_entry 0 alice FSAL_LOCK_W 0 10) \<inter> bytes (demo_entry 1 bob FSAL_LOCK_R 20 10) = {}"
  by (rule owners_kept_apart [OF demo_reachable])
    (simp_all add: demo_file_def demo_entry_def create_state_lock_entry_def demo_lock_def granted_def)

text \<open>C20. The lock operations return: in every reachable state a lock request whose range does not wrap
  around is answered, and so is the completion of a grant.  The loop of \<open>merge_lock_entry\<close>, which
  appends to the list it walks, comes to its end.\<close>
theorem lock_operations_return:
  assumes "lock_reachable E s" "checked_request E blocking bd l"
  shows "(\<exists>r c s'. state_lock E ow st blocking bd l s = Some (r, c, s')) \<and> (\<exists>s'. state_complete_grant E i s = Some s')"
  using inv_state_lock [OF lock_reachable_inv [OF assms(1)] assms(2)] inv_complete_grant [OF lock_reachable_inv [OF assms(1)]]
  by blast

theorem lock_operations_return_witness:
  "\<exists>r c s'. state_lock demo_lock_env alice demo_state STATE_NON_BLOCKING None (demo_lock FSAL_LOCK_R 3 4)
     (demo_file [demo_entry 0 alice FSAL_LOCK_W 0 10, demo_entry 1 bob FSAL_LOCK_R 20 10] 2) = Some (r, c, s')"
  using lock_operations_return [OF demo_reachable, of STATE_NON_BLOCKING None "demo_lock FSAL_LOCK_R 3 4" alice demo_state]
  by (simp add: checked_request_def demo_lock_simps)

text \<open>C11. An unlock takes away exactly what it names: afterwards an owner holds a byte with a type iff it
  held it before and the byte is not in the unlocked range of the unlocking owner.  Ranges up to the
  end of the file are included.\<close>
theorem unlock_exact:
  assumes "lock_reachable E s" "wf_lock l" "lock_obj_type E = REGULAR_FILE"
  shows "holds (lock_list (snd (state_unlock E st ow False n l s))) ow' t b
    \<longleftrightarrow> holds (lock_list s) ow' t b \<and> \<not> (\<not> different_owners ow ow' \<and> b \<in> bytes_of l)"
  using state_unlock_holds [OF _ assms(2,3)] lock_reachable_inv [OF assms(1)] by (simp add: lock_inv_def)

theorem unlock_exact_witness:
  "\<not> holds (lock_list (snd (state_unlock demo_lock_env demo_state alice False 0 (demo_lock FSAL_LOCK_R 5 0)
      (demo_file [demo_entry 0 alice FSAL_LOCK_W 0 10, demo_entry 1 bob FSAL_LOCK_R 20 10] 2)))) alice FSAL_LOCK_W 7
   \<and> holds (lock_list (snd (state_unlock demo_lock_env demo_state alice False 0 (demo_lock FSAL_LOCK_R 5 0)
      (demo_file [demo_entry 0 alice FSAL_LOCK_W 0 10, demo_entry 1 bob FSAL_LOCK_R 20 10] 2)))) alice FSAL_LOCK_W 4"
proof -
  have l: "wf_lock (demo_lock FSAL_LOCK_R 5 0)" "lock_obj_type demo_lock_env = REGULAR_FILE"
    by (simp_all add: demo_lock_simps word_n1_ge)
  note u = unlock_exact [OF demo_reachable l, of demo_state alice 0 alice FSAL_LOCK_W]
  show ?thesis
    unfolding u by (simp add: holds_def demo_file_def demo_entry_def create_state_lock_entry_def demo_lock_def
        bytes_of_def lock_end_def)
qed

text \<open>C12. A granted lock sets exactly the requested bytes: when the checks and the FSAL allow a request,
  the owner afterwards holds the requested bytes with the requested type only, and nothing else
  changes for any owner.  This holds as long as neither the request nor a lock of the owner reaches
  the last byte.\<close>
theorem lock_exact:
  assumes "lock_reachable E s" "checked_request E STATE_NON_BLOCKING bd l"
    and "lock_check_loop E ow l (lock_list s) = Allowed"
    and "fst (do_lock_op E st FSAL_OP_LOCK ow l (s\<lparr>next_entry := next_entry s + 1\<rparr>)) = STATE_SUCCESS"
    and "one_type (lock_list s) ow" "\<not> reaches_eof (lock_list s) ow" "lock_end l \<noteq> UINT64_MAX"
  shows "\<exists>c s'. state_lock E ow st STATE_NON_BLOCKING bd l s = Some (STATE_SUCCESS, c, s')
    \<and> (\<forall>ow' t b. holds (lock_list s') ow' t b \<longleftrightarrow>
         (if \<not> different_owners ow ow' \<and> b \<in> bytes_of l then t = lock_type l else holds (lock_list s) ow' t b))"
  by (rule state_lock_new_holds [OF lock_reachable_inv [OF assms(1)] assms(2-7)])

theorem lock_exact_witness:
  "\<exists>c s'. state_lock demo_lock_env alice demo_state STATE_NON_BLOCKING None (demo_lock FSAL_LOCK_R 3 4)
     (demo_file [demo_entry 0 alice FSAL_LOCK_W 0 10, demo_entry 1 bob FSAL_LOCK_R 20 10] 2) = Some (STATE_SUCCESS, c, s')
   \<and> holds (lock_list s') alice FSAL_LOCK_R 5 \<and> \<not> holds (lock_list s') alice FSAL_LOCK_W 5 \<and> holds (lock_list s') alice FSAL_LOCK_W 8"
proof -
  let ?s = "demo_file [demo_entry 0 alice FSAL_LOCK_W 0 10, demo_entry 1 bob FSAL_LOCK_R 20 10] 2"
  have h: "holds (lock_list ?s) alice t b \<longleftrightarrow> t = FSAL_LOCK_W \<and> b \<le> 9" for t b
    by (auto simp: holds_def demo_file_def demo_entry_def create_state_lock_entry_def demo_lock_def bytes_of_def lock_end_def)
  have "\<exists>c s'. state_lock demo_lock_env alice demo_state STATE_NON_BLOCKING None (demo_lock FSAL_LOCK_R 3 4) ?s = Some (STATE_SUCCESS, c, s')
    \<and> (\<forall>ow' t b. holds (lock_list s') ow' t b \<longleftrightarrow>
         (if \<not> different_owners alice ow' \<and> b \<in> bytes_of (demo_lock FSAL_LOCK_R 3 4) then t = lock_type (demo_lock FSAL_LOCK_R 3 4)
          else holds (lock_list ?s) ow' t b))"
  proof (rule lock_exact [OF demo_reachable])
    show "one_type (lock_list ?s) alice" unfolding one_type_def h by simp
    show "\<not> reaches_eof (lock_list ?s) alice" 
    proof -
      have "\<not> UINT64_MAX \<le> 9" by code_simp
      then show ?thesis unfolding reaches_eof_def h by blast
    qed
  qed (simp_all add: checked_request_def do_lock_op_def demo_lock_simps)
  then obtain c s' where st: "state_lock demo_lock_env alice demo_state STATE_NON_BLOCKING None (demo_lock FSAL_LOCK_R 3 4) ?s
      = Some (STATE_SUCCESS, c, s')"
    and ex: "\<And>t b. holds (lock_list s') alice t b \<longleftrightarrow> (if b \<in> bytes_of (demo_lock FSAL_LOCK_R 3 4) then t = FSAL_LOCK_R
          else holds (lock_list ?s) alice t b)" by (auto simp: demo_lock_def)
  show ?thesis
    by (intro exI conjI, rule st) (unfold ex h, simp_all add: demo_lock_def bytes_of_def lock_end_def)
qed

text \<open>C35. A lock up to the end of the file is not replaced.  When its owner is granted another lock that does
  not start at the first byte, and holds no lock of the requested type on the first byte, it holds the
  requested bytes with the requested type and still every byte of the old lock with the old type: the
  downgrade of a part of an exclusive lock is answered with success and leaves the part exclusive.\<close>
theorem eof_lock_not_replaced:
  assumes "lock_reachable E s" "checked_request E STATE_NON_BLOCKING bd l"
    and "lock_check_loop E ow l (lock_list s) = Allowed"
    and "fst (do_lock_op E st FSAL_OP_LOCK ow l (s\<lparr>next_entry := next_entry s + 1\<rparr>)) = STATE_SUCCESS"
    and "0 < lock_start l" "\<not> holds (lock_list s) ow (lock_type l) 0"
    and "e \<in> set (lock_list s)" "sle_blocked e = STATE_NON_BLOCKING" "\<not> different_owners (sle_owner e) ow"
    and "lock_end (sle_lock e) = UINT64_MAX"
  shows "\<exists>c s'. state_lock E ow st STATE_NON_BLOCKING bd l s = Some (STATE_SUCCESS, c, s')
    \<and> (\<forall>b\<in>bytes_of l. holds (lock_list s') ow (lock_type l) b)
    \<and> (\<forall>b\<in>bytes e. holds (lock_list s') ow (lock_type (sle_lock e)) b)"
  by (rule state_lock_keeps_eof [OF lock_reachable_inv [OF assms(1)] assms(2-10)])

lemma demo_whole_file: "lock_reachable demo_lock_env (demo_file [demo_entry 0 alice FSAL_LOCK_W 0 0] 1)"
proof (rule lock_reachable.step [OF lock_reachable.start])
  show "lock_list (demo_file [] 0) = []" by (simp add: demo_file_def)
  have l: "state_lock demo_lock_env alice demo_state STATE_NON_BLOCKING None (demo_lock FSAL_LOCK_W 0 0) (demo_file [] 0)
      = Some (STATE_SUCCESS, None, demo_file [demo_entry 0 alice FSAL_LOCK_W 0 0] 1)"
    by (simp add: state_lock_def state_lock_place_def do_lock_op_def merge_lock_entry_def grant_blocked_locks_def
        grant_blocked_one_def entry_at_def demo_lock_simps)
  show "lock_step demo_lock_env (demo_file [] 0) (demo_file [demo_entry 0 alice FSAL_LOCK_W 0 0] 1)"
    by (rule lock_step.lock [OF _ l]) (simp add: checked_request_def demo_lock_simps)
qed

theorem eof_lock_not_replaced_witness:
  "\<exists>c s'. state_lock demo_lock_env alice demo_state STATE_NON_BLOCKING None (demo_lock FSAL_LOCK_R 10 10)
        (demo_file [demo_entry 0 alice FSAL_LOCK_W 0 0] 1) = Some (STATE_SUCCESS, c, s')
    \<and> holds (lock_list s') alice FSAL_LOCK_R 15 \<and> holds (lock_list s') alice FSAL_LOCK_W 15"
proof -
  let ?s = "demo_file [demo_entry 0 alice FSAL_LOCK_W 0 0] 1" and ?e = "demo_entry 0 alice FSAL_LOCK_W 0 0"
  have b: "15 \<in> bytes_of (demo_lock FSAL_LOCK_R 10 10)" "15 \<in> bytes ?e" "lock_type (sle_lock ?e) = FSAL_LOCK_W"
    by (simp_all add: demo_lock_simps bytes_of_def)
  have "\<exists>c s'. state_lock demo_lock_env alice demo_state STATE_NON_BLOCKING None (demo_lock FSAL_LOCK_R 10 10) ?s
        = Some (STATE_SUCCESS, c, s')
    \<and> (\<forall>b\<in>bytes_of (demo_lock FSAL_LOCK_R 10 10). holds (lock_list s') alice (lock_type (demo_lock FSAL_LOCK_R 10 10)) b)
    \<and> (\<forall>b\<in>bytes ?e. holds (lock_list s') alice (lock_type (sle_lock ?e)) b)"
    by (rule eof_lock_not_replaced [OF demo_whole_file])
      (simp_all add: checked_request_def do_lock_op_def holds_def demo_lock_simps)
  then show ?thesis using b by (auto simp: demo_lock_def)
qed

text \<open>C30. The range of an NFSv4 LOCK request that passes the checks never wraps around: it starts at the
  requested offset, and it either extends to the end of the file or has the requested length and ends
  before the last byte, inside the largest file unless it starts behind that.\<close>
theorem lock_range_bounds:
  assumes "lock_range maxfilesize off len = Inr (a, n)" "lock_start l = a" "lock_length l = n"
  shows "wf_lock l \<and> a = off \<and> (if len = UINT64_MAX then n = 0 \<and> lock_end l = UINT64_MAX
     else n = len \<and> unat (lock_end l) + 1 = unat off + unat len
        \<and> (off \<le> maxfilesize \<longrightarrow> unat off + unat len \<le> unat maxfilesize))"
proof (cases "len = UINT64_MAX")
  case True
  then have "a = off" "n = 0" using assms(1) by (auto simp: lock_range_def Let_def split: if_splits)
  with True assms(2,3) show ?thesis by (simp add: wf_lock_def lock_end_def word_n1_ge)
next
  case False
  then have r: "a = off" "n = len" "len \<noteq> 0" "len \<le> UINT64_MAX - off" "len \<le> maxfilesize - off"
    using assms(1) by (auto simp: lock_range_def Let_def split: if_splits)
  have "unat len \<le> unat UINT64_MAX - unat off"
    using r(4) unat_sub [OF word_n1_ge [of off]] by (simp only: word_le_nat_alt)
  moreover have "unat off \<le> unat UINT64_MAX" using word_n1_ge [of off] by (simp only: word_le_nat_alt)
  moreover have "unat UINT64_MAX < 2 ^ LENGTH(64)" by (rule unsigned_less)
  ultimately have "unat off + unat len < 2 ^ LENGTH(64)" by linarith
  then have fits: "unat (off + len) = unat off + unat len" by (simp only: unat_add_lem)
  have "0 < off + len" using fits r(3) by (metis add_gr_0 unat_gt_0 unat_eq_zero word_gt_0)
  then have e: "Suc (unat (off + len - 1)) = unat off + unat len" using unat_pred fits by metis
  have "off \<le> off + len - 1"
    using e r(3) unat_gt_0 [of len] unfolding word_le_nat_alt by linarith
  moreover have "off \<le> maxfilesize \<Longrightarrow> unat off + unat len \<le> unat maxfilesize"
    using r(5) unat_sub [of off maxfilesize] by (simp add: word_le_nat_alt)
  ultimately show ?thesis using False assms(2,3) r(1-3) e by (simp add: wf_lock_def lock_end_def)
qed

theorem lock_range_bounds_witness:
  "wf_lock (demo_lock FSAL_LOCK_W 100 50) \<and> unat (lock_end (demo_lock FSAL_LOCK_W 100 50)) + 1 = 100 + 50"
  using lock_range_bounds [of 1000 100 50 100 50 "demo_lock FSAL_LOCK_W 100 50"]
  by (simp add: lock_range_def demo_lock_def)

text \<open>A range that starts behind the largest file passes the check against it, and a test with length
  zero is taken for one up to the end of the file.\<close>
lemma lock_range_gaps:
  "lock_range 1000 2000 10 = Inr (2000, 10)" "lockt_range 1000 5 0 = Inr (5, 0)"
  by (simp_all add: lock_range_def lockt_range_def)

end
