(* ===== verification/Spec2Isabelle.thy ===== *)
theory Spec2Isabelle
  imports Txn_Recovery Txn_Restore Txn_Logger Nfs4_Request_Safety Sal_Lock_Exact
begin

text \<open>
  A verification library for the transactional NFS server: an NFS server in user space whose stackable
  file system layer \<open>FSAL_TXN\<close> turns a COMPOUND request into a transaction.

  \<^bold>\<open>The program.\<close>  A request enters \<open>nfs4_Compound\<close> (\<open>Protocols/NFS\<close>), which runs its operations one
  after the other.  On an export of the transactional layer it calls three methods of the export:
  \<open>start_compound\<close> analyses the arguments, locks the paths they touch in the lock manager, opens a
  cache for handles and writes a log record; \<open>backup_nfs4_op\<close> saves what an operation is about to
  destroy; \<open>end_compound\<close> gives the locks back and then commits the cache to LevelDB or undoes the
  completed operations from the backups, and queues the backup directory for removal.  Objects of the
  layer wrap objects of the file system below and are identified by UUIDs that the database maps to
  the handles below.  Byte-range locks of all protocols are kept by the state layer (\<open>SAL\<close>), and so are
  the client ids, owner records, sessions and leases that the operations of NFSv4 make and use.

  \<^bold>\<open>Theories and sources\<close> (paths below \<open>src/src\<close>; \<open>FSAL_TXN\<close> is \<open>FSAL/Stackable_FSALs/FSAL_TXN\<close>).
  \<^item> \<open>Ganesha_Prelude\<close>, \<open>Nfs4_Types\<close>: scalar types, error codes, the arguments and results of a
    compound (\<open>include/fsal_types.h\<close>, \<open>include/nfsv41.h\<close>); shared lemmas.
  \<^item> \<open>Nfs4_Compound\<close>: \<open>Protocols/NFS/nfs4_Compound.c\<close>, the checks, the loop and the transactional calls.
  \<^item> \<open>Txn_Locking\<close>: \<open>FSAL_TXN/locking.c\<close>, the analysis of the arguments; \<open>Txn_Path\<close>:
    \<open>txn/util/path_utils.cpp\<close>, the path strings it works on; \<open>Txn_Lock_Manager\<close>: \<open>txn/lock_manager.cpp\<close>.
  \<^item> \<open>Txn_Db\<close>: \<open>FSAL_TXN/helper.c\<close>, cache and database; \<open>Txn_Kv\<close>: \<open>txn/lwrapper.cpp\<close>;
    \<open>Txn_Id_Manager\<close>: \<open>txn/id_manager.cpp\<close>; \<open>Txn_Logger\<close>: \<open>txn/txn_logger.cpp\<close> and \<open>txn/txn.proto\<close>.
  \<^item> \<open>Txn_World\<close>, \<open>Txn_Handle\<close>, \<open>Txn_Ops\<close>: the state of the layer, the methods of its handles
    (\<open>FSAL_TXN/handle.c\<close>, \<open>file.c\<close>, \<open>xattrs.c\<close>, \<open>FSAL/fsal_helper.c\<close>) and the method tables.
  \<^item> \<open>Txn_Backup\<close>, \<open>Txn_Opvec\<close>, \<open>Txn_Undo\<close>: \<open>FSAL_TXN/backup.c\<close>, \<open>opvec.c\<close>, \<open>undo.c\<close>; \<open>Txn_Export\<close>,
    \<open>Txn_Cleanup_Queue\<close>: \<open>FSAL_TXN/export.c\<close>, \<open>cleanup.c\<close>.
  \<^item> \<open>Txn_Frame\<close>, \<open>Txn_Recovery\<close>, \<open>Txn_Restore\<close>: frame conditions, and the properties of the end of a
    compound and of the restored contents; \<open>Example_Fs\<close> is a file system in memory for the witnesses.
  \<^item> \<open>Sal_Lock\<close>: \<open>SAL/state_lock.c\<close>; \<open>Sal_Lock_Inv\<close> and \<open>Sal_Lock_Exact\<close> hold its invariant and its
    meaning byte by byte.
  \<^item> \<open>Sal_Clientid\<close>: \<open>SAL/nfs4_clientid.c\<close>, \<open>nfs41_session_id.c\<close>, \<open>nfs4_lease.c\<close>, client ids, owner
    records and sessions as objects in memory with their tables and reference counts;
    \<open>Nfs4_Client_Ops\<close>: the handlers \<open>nfs4_op_setclientid.c\<close>, \<open>nfs4_op_exchange_id.c\<close>,
    \<open>nfs4_op_create_session.c\<close>, \<open>nfs4_op_sequence.c\<close> and their like; \<open>Nfs4_Session\<close>: a compound served with
    them, the reply kept in the slot.  \<open>Sal_Client_Refs\<close> and \<open>Sal_Client_Safety\<close> hold the invariant that
    accounts for every reference (\<open>owned\<close>) and its preservation by \<open>Sal_Clientid\<close>; \<open>Nfs4_Client_Safety\<close>,
    \<open>Nfs4_Session_Safety\<close> and \<open>Nfs4_Request_Safety\<close> carry it through the handlers, the session and
    the request.

  \<^bold>\<open>How code becomes definitions.\<close>  A structure is a record, an enumeration a datatype, an unsigned
  integer a word of its width, a string the list of its bytes.  A function that changes state takes the
  state and returns it.  Error codes are values; the end of the process (a failed assertion, a null
  pointer, an access outside an array) is \<open>None\<close>.  The FSAL below, LevelDB, the protocol buffer
  encoding, the handlers of operations, the outcome of thread primitives and the schedule of other
  compounds are arguments.  What is assumed of LevelDB is \<open>leveldb_ok\<close>, its documented behaviour, which
  \<open>map_db\<close> satisfies; where a write is needed to succeed (a transaction compared with direct execution,
  ids across restarts, the table of ids and handles) \<open>never_fails\<close> is assumed besides, and
  \<open>end_compound_all_or_nothing\<close> and \<open>cache_commit_atomic\<close> say what happens when it does not.  Code under
  a mutex is one step, so interleavings are sequences of steps.  Counters of allocations and positions in
  arguments are natural numbers where they are bounded by memory; the counters of \<open>opvec.c\<close>, the
  sequence numbers, offsets and lengths have their width.

  \<^bold>\<open>Simplifications to know.\<close>  \<open>readdir\<close> of the layer gets the entries of the FSAL below first and then
  makes the callbacks: what the FSAL below does between two callbacks, and in which export it goes on, is
  not seen.  \<open>unlock\<close> removes an element whose mutex is still held, which is undefined in C++ and an
  ordinary removal in the model.  The blocking lock polls (a loop without end): \<open>lock_polls\<close> takes the
  tables that its attempts find, which other threads decide.

  \<^bold>\<open>What is shown.\<close>
  \<^item> A compound brackets its transactional calls correctly and stops at the first error
    (\<open>Nfs4_Compound\<close>); at its end the database has all changes or none (\<open>Txn_Recovery\<close>, on
    \<open>cache_commit_atomic\<close> of \<open>Txn_Db\<close>), and a transaction has the effect of its operations executed
    directly.  The result of the commit is not looked at: when it failed, the changes are lost and the
    compound is reported as done.
  \<^item> Locks: the manager keeps readers and writers apart in every interleaving, hence compounds whose
    analyses ask for the same path, one of them for writing, exclude each other.  The analysis asks for
    the canonical paths of what the operations access for the operations it follows; \<open>RENAME\<close>, \<open>COPY\<close>,
    \<open>CLONE\<close>, \<open>SETATTR\<close> and \<open>READ\<close> ask for nothing (\<open>unlocked_operations\<close>), \<open>LINK\<close> locks its source, and the
    object that \<open>CREATE\<close> makes is not followed (\<open>create_not_followed\<close>).
  \<^item> Paths: normalisation is canonical and idempotent, also in place, where copies overlap.
  \<^item> Handles: the table of handles stays well formed under every call, and the file system below is
    entered only in its own export.  Ids never repeat, across restarts too.
  \<^item> Backup and undo of a write restore the contents exactly under the stated conditions, by clones or by
    copies, for sizes below \<open>2\<^sup>3\<^sup>0\<close>, with the limits of the \<open>int\<close> arithmetic beyond; logs and ids survive their
    encodings.
  \<^item> Byte-range locks: conflicting owners are kept apart in every reachable state, the operations
    return, and lock and unlock change exactly the requested bytes, but for locks up to the end of the
    file, which are not replaced.
  \<^item> Clients and sessions: a request that is sent again is answered from its slot and run once, and no
    client id, owner record or session is used after it was freed, whatever requests of NFSv4.1, the
    reaper and the release of addresses do; sessions keep their types.
  The properties that describe what the code does against its own comments say so in their text.

  \<^bold>\<open>Bounds and loops.\<close>  Loops over lists are structural.  \<open>reserve_above\<close> and \<open>merge_loop\<close> may run on
  for some arguments and are partial functions; that they return is proved where the code relies on it
  (\<open>ids_never_repeat\<close>, \<open>lock_operations_return\<close>).  There is no fuel.

  \<^bold>\<open>Not modelled.\<close>  The other FSALs and the metadata cache above the layer, the protocols NFSv3, MOUNT,
  NLM, rquota and 9P, the NFSv4 handlers on files and attributes, delegations, layouts and grace periods,
  RPC and threads, configuration, logging, statistics and D-Bus, id mapping: the transactional layer
  does not call them or sees them only as arguments.  \<open>txn_backend.cpp\<close> and \<open>undo_executor.cpp\<close> are not
  built.  Memory management shows where it can go wrong visibly: undefined releases are aborts.
\<close>

end
